(* ===== verification/Prelude.thy ===== *)
theory Prelude
  imports Main "HOL-Library.Word"
begin

text \<open>
  Shared ground of the development: the machine types of the C++ code, the result
  type that carries its error returns and its memory faults, big-endian byte
  conversion, sequences of encoders that write into one buffer, and the interface
  locale \<open>wire_codec\<close> that every encodable type of the protocols satisfies.
\<close>

unbundle bit_operations_syntax

section \<open>Machine types\<close>

type_synonym byte = "8 word"
type_synonym bytes = "8 word list"
type_synonym u16 = "16 word"
type_synonym u32 = "32 word"
type_synonym u64 = "64 word"

text \<open>
  A C++ \<^verbatim>\<open>double\<close> is kept as its 64 IEEE-754 bits: the modelled code only moves the
  bytes, and builds doubles from small integers.
\<close>
type_synonym double = "64 word"

text \<open>The rewrite rules that evaluate the wire formats on concrete input.\<close>
named_theorems wire_eval \<open>definitions unfolded to evaluate encoders and decoders\<close>

section \<open>Results\<close>

text \<open>
  How a call can fail: \<open>Rc n\<close> is a negative (error) return code, \<open>Oob\<close> an access
  outside the object it is made through (undefined behaviour in C++),
  \<open>AssertFail\<close> a failed \<^verbatim>\<open>assert\<close>, \<open>Thrown\<close> a C++ exception.
\<close>
datatype fault = Rc int | Oob | AssertFail | Thrown

type_synonym 'a result = "fault + 'a"

fun bindR :: "'a result \<Rightarrow> ('a \<Rightarrow> 'b result) \<Rightarrow> 'b result" where
  "bindR (Inl e) f = Inl e"
| "bindR (Inr x) f = f x"

text \<open>The callers that replace any error code of a callee by one of their own.\<close>
fun orfail :: "int \<Rightarrow> 'a result \<Rightarrow> 'a result" where
  "orfail k (Inl (Rc _)) = Inl (Rc k)"
| "orfail k (Inl e) = Inl e"
| "orfail k (Inr x) = Inr x"

text \<open>An indexed read of a buffer.\<close>
definition rd :: "'a list \<Rightarrow> nat \<Rightarrow> 'a result" where
  "rd xs i = (if i < length xs then Inr (xs ! i) else Inl Oob)"

lemma bindR_cong [fundef_cong]:
  "r = r' \<Longrightarrow> (\<And>x. r' = Inr x \<Longrightarrow> f x = f' x) \<Longrightarrow> bindR r f = bindR r' f'"
  by (cases r') auto

lemma bindR_assoc: "bindR (bindR r f) g = bindR r (\<lambda>x. bindR (f x) g)"
  by (cases r) auto

lemma bindR_Inr_right [simp]: "bindR r Inr = r"
  by (cases r) auto

lemma bindR_eq_Inr_iff:
  "bindR r f = Inr y \<longleftrightarrow> (\<exists>x. r = Inr x \<and> f x = Inr y)"
  by (cases r) auto

lemma bindR_eq_Inl_iff:
  "bindR r f = Inl e \<longleftrightarrow> r = Inl e \<or> (\<exists>x. r = Inr x \<and> f x = Inl e)"
  by (cases r) auto

lemma orfail_eq_Inr_iff [simp]: "orfail k r = Inr y \<longleftrightarrow> r = Inr y"
  by (cases "(k, r)" rule: orfail.cases) auto

lemma orfail_eq_Oob_iff [simp]: "orfail k r = Inl Oob \<longleftrightarrow> r = Inl Oob"
  by (cases "(k, r)" rule: orfail.cases) auto

lemma rd_eq_Inr_iff: "rd xs i = Inr x \<longleftrightarrow> i < length xs \<and> x = xs ! i"
  by (auto simp: rd_def)

section \<open>Big-endian integers\<close>

text \<open>
  The code reverses bytes by hand or with \<^verbatim>\<open>ntohs\<close>, \<^verbatim>\<open>htonl\<close> and their kin on a
  little-endian host. \<open>be_nat\<close> reads a byte list as a big-endian number,
  \<open>nat_be n\<close> writes the low \<open>n\<close> bytes of one.
\<close>

definition be_nat :: "bytes \<Rightarrow> nat" where
  "be_nat bs = foldl (\<lambda>v b. v * 256 + unat b) 0 bs"

fun nat_be :: "nat \<Rightarrow> nat \<Rightarrow> bytes" where
  "nat_be 0 v = []"
| "nat_be (Suc n) v = nat_be n (v div 256) @ [of_nat v]"

definition get_be :: "bytes \<Rightarrow> 'a::len word" where
  "get_be bs = of_nat (be_nat bs)"

definition put_be :: "nat \<Rightarrow> 'a::len word \<Rightarrow> bytes" where
  "put_be n w = nat_be n (unat w)"

declare get_be_def [wire_eval] put_be_def [wire_eval] be_nat_def [wire_eval]

lemma length_nat_be [simp]: "length (nat_be n v) = n"
  by (induction n arbitrary: v) auto

lemma nat_be_numeral [wire_eval]:
  "nat_be (numeral k) v = nat_be (pred_numeral k) (v div 256) @ [of_nat v]"
  by (simp only: numeral_eq_Suc [of k] nat_be.simps)

lemma length_put_be [simp]: "length (put_be n w) = n"
  by (simp add: put_be_def)

lemma be_nat_Nil [simp]: "be_nat [] = 0"
  by (simp add: be_nat_def)

lemma be_nat_snoc [simp]: "be_nat (bs @ [b]) = be_nat bs * 256 + unat b"
  by (simp add: be_nat_def)

lemma unat_byte_less: "unat (b :: byte) < 256"
  using unsigned_less [of b] by simp

lemma be_nat_bound: "be_nat bs < 256 ^ length bs"
proof (induction bs rule: rev_induct)
  case (snoc b bs)
  have "be_nat bs * 256 + unat b < (be_nat bs + 1) * 256"
    using unat_byte_less [of b] by simp
  also have "\<dots> \<le> 256 ^ length bs * 256"
    using snoc by (intro mult_right_mono) auto
  finally show ?case by (simp add: mult.commute)
qed simp

lemma be_nat_nat_be: "be_nat (nat_be n v) = v mod 256 ^ n"
proof (induction n arbitrary: v)
  case (Suc n)
  have "(v div 256) mod 256 ^ n * 256 + v mod 256 = v mod (256 * 256 ^ n)"
    using mod_mult2_eq [of v 256 "256 ^ n"] by simp
  with Suc show ?case by (simp add: unat_of_nat)
qed simp

lemma nat_be_be_nat [simp]: "nat_be (length bs) (be_nat bs) = bs"
proof (induction bs rule: rev_induct)
  case (snoc b bs)
  have "(256 :: byte) = 0" by simp
  then have "(of_nat (be_nat bs * 256 + unat b) :: byte) = b"
    by (simp only: of_nat_add of_nat_mult of_nat_numeral mult_zero_right add_0 of_nat_unat ucast_id)
  moreover have "(be_nat bs * 256 + unat b) div 256 = be_nat bs"
    using unat_byte_less [of b] by simp
  ultimately show ?case using snoc by simp
qed simp

lemma pow256: "(256::nat) ^ n = 2 ^ (8 * n)"
  by (simp add: power_mult)

text \<open>Enough bytes carry the whole word; a full-width read is written back unchanged.\<close>

lemma get_be_put_be [simp]:
  fixes w :: "'a::len word"
  assumes "LENGTH('a) \<le> 8 * n"
  shows "get_be (put_be n w) = w"
proof -
  have "unat w < 2 ^ LENGTH('a)" by (rule unsigned_less)
  also have "\<dots> \<le> 256 ^ n" using assms by (simp add: pow256)
  finally show ?thesis by (simp add: get_be_def put_be_def be_nat_nat_be)
qed

lemma get_be_put_be_trunc:
  fixes w :: "'a::len word"
  shows "be_nat (put_be n w) = unat w mod 256 ^ n"
  by (simp add: put_be_def be_nat_nat_be)

lemma unat_get_be:
  assumes "8 * length bs \<le> LENGTH('a)"
  shows "unat (get_be bs :: 'a::len word) = be_nat bs"
proof -
  have "be_nat bs < 256 ^ length bs" by (rule be_nat_bound)
  also have "\<dots> \<le> 2 ^ LENGTH('a)" using assms by (simp add: pow256)
  finally show ?thesis by (simp add: get_be_def unat_of_nat)
qed

lemma put_be_get_be:
  assumes "length bs = n" and "8 * n \<le> LENGTH('a)"
  shows "put_be n (get_be bs :: 'a::len word) = bs"
  using assms nat_be_be_nat [of bs] by (simp add: put_be_def unat_get_be)

text \<open>Storing three big-endian bytes in the low bytes of a 32-bit field.\<close>
definition set_low3 :: "u32 \<Rightarrow> bytes \<Rightarrow> u32" where
  "set_low3 w bs = (w AND 0xff000000) OR get_be bs"

lemma set_low3_zero [simp]: "set_low3 0 bs = get_be bs"
  by (simp add: set_low3_def)

lemma bit_below:
  assumes "unat (x :: 'a::len word) < 2 ^ k" and "bit x n"
  shows "n < k"
proof -
  have "take_bit k x = x"
    using assms(1) by (simp add: word_unat_eq_iff unsigned_take_bit_eq take_bit_nat_eq_self)
  then have "bit (take_bit k x) n" using assms(2) by simp
  then show ?thesis by (simp add: bit_take_bit_iff)
qed

section \<open>Encoders that fill a buffer\<close>

text \<open>
  An encoder gets the writable rest of a buffer and returns how many bytes it
  advanced and the buffer after its writes (of the same length). \<open>enc_seq\<close> is the
  idiom \<^verbatim>\<open>consumed = x.encode(payload, len); if (consumed < 0) return nullptr; payload +=
  consumed; len -= consumed;\<close> repeated over several fields; \<open>must_advance\<close> is its
  variant with \<^verbatim>\<open>consumed <= 0\<close>.
\<close>

type_synonym enc = "bytes \<Rightarrow> (nat \<times> bytes) result"

fun enc_seq :: "enc list \<Rightarrow> enc" where
  "enc_seq [] buf = Inr (0, buf)"
| "enc_seq (e # es) buf =
     bindR (e buf) (\<lambda>(c, buf').
       bindR (enc_seq es (drop c buf')) (\<lambda>(c', rest). Inr (c + c', take c buf' @ rest)))"

definition must_advance :: "enc \<Rightarrow> enc" where
  "must_advance e buf =
     (case e buf of Inr (c, buf') \<Rightarrow> if c = 0 then Inl (Rc 0) else Inr (c, buf') | Inl f \<Rightarrow> Inl f)"

text \<open>An encoder \<open>writes\<close> \<open>w\<close> when it puts exactly \<open>w\<close> in front of any buffer with room.\<close>

definition writes :: "enc \<Rightarrow> bytes \<Rightarrow> bool" where
  "writes e w \<longleftrightarrow> (\<forall>buf. length w \<le> length buf \<longrightarrow> e buf = Inr (length w, w @ drop (length w) buf))"

lemma writesI:
  "(\<And>buf. length w \<le> length buf \<Longrightarrow> e buf = Inr (length w, w @ drop (length w) buf)) \<Longrightarrow> writes e w"
  by (simp add: writes_def)

lemma writesD:
  "writes e w \<Longrightarrow> length w \<le> length buf \<Longrightarrow> e buf = Inr (length w, w @ drop (length w) buf)"
  by (simp add: writes_def)

lemma writes_must_advance: "writes e w \<Longrightarrow> w \<noteq> [] \<Longrightarrow> writes (must_advance e) w"
  by (simp add: writes_def must_advance_def)

lemma writes_enc_seq_Nil: "writes (enc_seq []) []"
  by (simp add: writes_def)

lemma writes_enc_seq_Cons:
  assumes "writes e w" and "writes (enc_seq es) ws"
  shows "writes (enc_seq (e # es)) (w @ ws)"
proof (rule writesI)
  fix buf :: bytes
  assume len: "length (w @ ws) \<le> length buf"
  then have "e buf = Inr (length w, w @ drop (length w) buf)"
    by (intro writesD [OF assms(1)]) simp
  moreover have "enc_seq es (drop (length w) buf) =
      Inr (length ws, ws @ drop (length ws) (drop (length w) buf))"
    using len by (intro writesD [OF assms(2)]) simp
  ultimately show "enc_seq (e # es) buf = Inr (length (w @ ws), (w @ ws) @ drop (length (w @ ws)) buf)"
    by (simp add: add.commute)
qed

lemmas writes_seq = writes_enc_seq_Cons writes_enc_seq_Nil

section \<open>The interface of a wire type\<close>

text \<open>
  What every encodable class of the code promises its users: \<open>wire\<close> is its format,
  the \<open>size\<close> it announces is the length of that format, its \<open>encode\<close> writes the format
  into any buffer of that size, and its \<open>decode\<close> reads it back, whatever follows, and
  reports the bytes it used. \<open>wf\<close> delimits the values for which this holds.
\<close>

locale wire_codec =
  fixes wf :: "'v \<Rightarrow> bool"
    and wire :: "'v \<Rightarrow> bytes"
    and sz :: "'v \<Rightarrow> nat"
    and encode :: "'v \<Rightarrow> enc"
    and decode :: "bytes \<Rightarrow> ('v \<times> nat) result"
  assumes sz_wire: "wf v \<Longrightarrow> sz v = length (wire v)"
    and encode_writes: "wf v \<Longrightarrow> writes (encode v) (wire v)"
    and decode_wire: "wf v \<Longrightarrow> decode (wire v @ rest) = Inr (v, length (wire v))"
begin

lemma encode_fits:
  assumes "wf v" and "sz v \<le> length buf"
  shows "encode v buf = Inr (sz v, wire v @ drop (sz v) buf)"
  using assms by (simp add: sz_wire writesD [OF encode_writes])

lemma roundtrip:
  assumes "wf v" and "sz v \<le> length buf" and "encode v buf = Inr (c, out)"
  shows "c = sz v \<and> decode out = Inr (v, c)"
  using assms by (auto simp: encode_fits sz_wire decode_wire)

lemma wire_inj: "wf v \<Longrightarrow> wf v' \<Longrightarrow> wire v @ r = wire v' @ r' \<Longrightarrow> v = v' \<and> r = r'"
  using decode_wire [of v r] decode_wire [of v' r'] by auto

end

text \<open>
  Two consecutive fields form a wire type again: the decoder of a message runs the
  decoders of its fields one after the other, each on what the previous one left.
\<close>

definition dec_pair :: "(bytes \<Rightarrow> ('a \<times> nat) result) \<Rightarrow> (bytes \<Rightarrow> ('b \<times> nat) result) \<Rightarrow>
    bytes \<Rightarrow> (('a \<times> 'b) \<times> nat) result" where
  "dec_pair da db data =
     bindR (da data) (\<lambda>(a, c). bindR (db (drop c data)) (\<lambda>(b, c'). Inr ((a, b), c + c')))"

locale wire_pair = fst_codec: wire_codec wfa wirea sza enca deca + snd_codec: wire_codec wfb wireb szb encb decb
  for wfa :: "'a \<Rightarrow> bool" and wirea sza enca deca
    and wfb :: "'b \<Rightarrow> bool" and wireb szb encb decb
begin

sublocale both: wire_codec "\<lambda>(a, b). wfa a \<and> wfb b" "\<lambda>(a, b). wirea a @ wireb b"
    "\<lambda>(a, b). sza a + szb b" "\<lambda>(a, b). enc_seq [enca a, encb b]" "dec_pair deca decb"
proof (unfold_locales, goal_cases)
  case (1 v)
  then show ?case by (auto simp: fst_codec.sz_wire snd_codec.sz_wire)
next
  case (2 v)
  then show ?case
    using writes_seq(1) [OF fst_codec.encode_writes writes_seq(1) [OF snd_codec.encode_writes writes_seq(2)]]
    by (auto split: prod.splits)
next
  case (3 v rest)
  then show ?case
    by (auto simp: dec_pair_def fst_codec.decode_wire snd_codec.decode_wire)
qed

end

end
