(* ===== verification/Packet.thy ===== *)
theory Packet
  imports Prelude
begin

text \<open>
  The packet buffer of \<^verbatim>\<open>libs/base/packet.cpp\<close> and the RTMP message built on it
  (\<^verbatim>\<open>RtmpMessage\<close> of \<^verbatim>\<open>rtmp_define.hpp\<close>). \<^verbatim>\<open>malloc\<close> does not initialise: the bytes of a new
  buffer are those of an arbitrary memory \<open>mem\<close>. A view past the end of the buffer is an
  \<open>Oob\<close> fault when it is taken.
\<close>

section \<open>Packets\<close>

record Packet =
  data_buf :: bytes
  using_bytes :: nat

definition Packet_new :: "(nat \<Rightarrow> byte) \<Rightarrow> nat \<Rightarrow> Packet" where
  "Packet_new mem bytes = \<lparr>data_buf = map mem [0..<bytes], using_bytes = 0\<rparr>"

definition alloc_buf :: "(nat \<Rightarrow> byte) \<Rightarrow> nat \<Rightarrow> 'a Packet_scheme \<Rightarrow> 'a Packet_scheme" where
  "alloc_buf mem bytes p = p\<lparr>data_buf := map mem [0..<bytes], using_bytes := 0\<rparr>"

definition get_unuse_data :: "'a Packet_scheme \<Rightarrow> bytes result" where
  "get_unuse_data p =
     (if using_bytes p \<le> length (data_buf p) then Inr (drop (using_bytes p) (data_buf p)) else Inl Oob)"

definition get_using_data :: "'a Packet_scheme \<Rightarrow> bytes result" where
  "get_using_data p =
     (if using_bytes p \<le> length (data_buf p) then Inr (take (using_bytes p) (data_buf p)) else Inl Oob)"

definition get_total_data :: "'a Packet_scheme \<Rightarrow> bytes" where
  "get_total_data p = data_buf p"

definition inc_used_bytes :: "nat \<Rightarrow> 'a Packet_scheme \<Rightarrow> 'a Packet_scheme" where
  "inc_used_bytes s p = p\<lparr>using_bytes := using_bytes p + s\<rparr>"

text \<open>
  Copying \<open>bs\<close> to the start of the unused area, as the callers of \<^verbatim>\<open>get_unuse_data\<close> do
  with its raw pointer.
\<close>
definition write_unused :: "bytes \<Rightarrow> 'a Packet_scheme \<Rightarrow> 'a Packet_scheme result" where
  "write_unused bs p =
     (if using_bytes p + length bs \<le> length (data_buf p)
      then Inr (p\<lparr>data_buf := take (using_bytes p) (data_buf p) @ bs @
                     drop (using_bytes p + length bs) (data_buf p)\<rparr>)
      else Inl Oob)"

text \<open>The packet invariant: the used bytes are inside the buffer.\<close>
definition packet_ok :: "'a Packet_scheme \<Rightarrow> bool" where
  "packet_ok p \<longleftrightarrow> using_bytes p \<le> length (data_buf p)"

lemma packet_ok_new [simp]: "packet_ok (Packet_new mem n)"
  by (simp add: packet_ok_def Packet_new_def)

lemma get_using_data_ok: "packet_ok p \<Longrightarrow> get_using_data p = Inr (take (using_bytes p) (data_buf p))"
  by (simp add: packet_ok_def get_using_data_def)

lemma write_unused_ok:
  assumes "packet_ok p" and "write_unused bs p = Inr q"
  shows "packet_ok (inc_used_bytes (length bs) q) \<and> length (data_buf q) = length (data_buf p) \<and>
    get_using_data (inc_used_bytes (length bs) q) = Inr (take (using_bytes p) (data_buf p) @ bs)"
  using assms
  by (auto simp: packet_ok_def write_unused_def inc_used_bytes_def get_using_data_def split: if_splits)

section \<open>RTMP messages\<close>

record RtmpMessage = Packet +
  message_type_id :: byte
  timestamp :: u32
  message_stream_id :: u32
  chunk_stream_id :: u32

text \<open>
  The type, time and stream of a new message are uninitialised until they are set: they hold
  bytes of the arbitrary memory.
\<close>
definition RtmpMessage_new :: "(nat \<Rightarrow> byte) \<Rightarrow> nat \<Rightarrow> RtmpMessage" where
  "RtmpMessage_new mem payload_size =
     \<lparr>data_buf = map mem [0..<payload_size], using_bytes = 0, message_type_id = mem 0,
      timestamp = get_be (map mem [0..<4]), message_stream_id = get_be (map mem [4..<8]),
      chunk_stream_id = 0\<rparr>"

lemma RtmpMessage_new_simps [simp]:
  "using_bytes (RtmpMessage_new mem n) = 0" "length (data_buf (RtmpMessage_new mem n)) = n"
  "packet_ok (RtmpMessage_new mem n)"
  by (simp_all add: RtmpMessage_new_def packet_ok_def)

end
