(* ===== verification/RtmpControl.thy ===== *)
theory RtmpControl
  imports Packet
begin

text \<open>
  The protocol control messages of RTMP: set chunk size, abort, acknowledgement, window
  acknowledgement size, set peer bandwidth and the stream begin event
  (\<^verbatim>\<open>libs/protocol/rtmp/rtmp_message/chunk_message\<close> and part of \<^verbatim>\<open>command_message\<close>). The locale
  \<open>control_message\<close> is what the session relies on: what one side encodes, the other decodes.
\<close>

abbreviation (input) RTMP_CHUNK_ID_PROTOCOL_CONTROL_MESSAGE :: u32 where
  "RTMP_CHUNK_ID_PROTOCOL_CONTROL_MESSAGE \<equiv> 2"
abbreviation (input) RTMP_CHUNK_ID_COMMAND_MESSAGE :: u32 where
  "RTMP_CHUNK_ID_COMMAND_MESSAGE \<equiv> 3"
abbreviation (input) RTMP_MESSAGE_ID_PROTOCOL_CONTROL :: u32 where
  "RTMP_MESSAGE_ID_PROTOCOL_CONTROL \<equiv> 0"
abbreviation (input) RTMP_CHUNK_MESSAGE_TYPE_SET_CHUNK_SIZE :: byte where
  "RTMP_CHUNK_MESSAGE_TYPE_SET_CHUNK_SIZE \<equiv> 1"
abbreviation (input) RTMP_CHUNK_MESSAGE_TYPE_ABORT_MESSAGE :: byte where
  "RTMP_CHUNK_MESSAGE_TYPE_ABORT_MESSAGE \<equiv> 2"
abbreviation (input) RTMP_CHUNK_MESSAGE_TYPE_ACKNOWLEDGEMENT :: byte where
  "RTMP_CHUNK_MESSAGE_TYPE_ACKNOWLEDGEMENT \<equiv> 3"
abbreviation (input) RTMP_MESSAGE_TYPE_USER_CONTROL :: byte where
  "RTMP_MESSAGE_TYPE_USER_CONTROL \<equiv> 4"
abbreviation (input) RTMP_CHUNK_MESSAGE_TYPE_WINDOW_ACK_SIZE :: byte where
  "RTMP_CHUNK_MESSAGE_TYPE_WINDOW_ACK_SIZE \<equiv> 5"
abbreviation (input) RTMP_CHUNK_MESSAGE_TYPE_SET_PEER_BANDWIDTH :: byte where
  "RTMP_CHUNK_MESSAGE_TYPE_SET_PEER_BANDWIDTH \<equiv> 6"
abbreviation (input) RTMP_MESSAGE_TYPE_AMF0_DATA :: byte where "RTMP_MESSAGE_TYPE_AMF0_DATA \<equiv> 18"
abbreviation (input) RTMP_MESSAGE_TYPE_AMF0_COMMAND :: byte where "RTMP_MESSAGE_TYPE_AMF0_COMMAND \<equiv> 20"

section \<open>Building a message\<close>

text \<open>
  The common shape of the \<^verbatim>\<open>encode\<close> methods: allocate \<open>cap\<close> bytes, set the four message fields
  (the timestamp is 0), write \<open>bs\<close> into the buffer and mark \<open>used\<close> bytes as used.
\<close>
definition build_message :: "(nat \<Rightarrow> byte) \<Rightarrow> nat \<Rightarrow> u32 \<Rightarrow> byte \<Rightarrow> u32 \<Rightarrow> bytes \<Rightarrow> nat \<Rightarrow> RtmpMessage result" where
  "build_message mem cap csid mtype msid bs used =
     (let msg = (RtmpMessage_new mem cap)\<lparr>chunk_stream_id := csid, timestamp := 0,
                  message_type_id := mtype, message_stream_id := msid\<rparr>
      in bindR (write_unused bs msg) (\<lambda>m. Inr (inc_used_bytes used m)))"

lemma build_message_full:
  assumes "length bs = n"
  shows "\<exists>m. build_message mem n csid mtype msid bs n = Inr m \<and> get_using_data m = Inr bs \<and>
    chunk_stream_id m = csid \<and> message_type_id m = mtype \<and> message_stream_id m = msid \<and> timestamp m = 0"
  using assms
  by (simp add: build_message_def write_unused_def inc_used_bytes_def get_using_data_def RtmpMessage_new_def)

lemma build_message_spec:
  assumes "build_message mem n csid mtype msid bs n = Inr m" and "length bs = n"
  shows "get_using_data m = Inr bs" "chunk_stream_id m = csid" "message_type_id m = mtype"
    "message_stream_id m = msid" "timestamp m = 0"
  using build_message_full [OF assms(2), of mem csid mtype msid] assms(1) by auto

section \<open>The messages\<close>

definition RtmpSetChunkSizeMessage_decode :: "RtmpMessage \<Rightarrow> (u32 \<times> nat) result" where
  "RtmpSetChunkSizeMessage_decode rtmp_msg = bindR (get_using_data rtmp_msg) (\<lambda>payload.
     if length payload < 4 then Inl (Rc (-1)) else Inr (get_be (take 4 payload), 4))"

definition RtmpSetChunkSizeMessage_encode :: "(nat \<Rightarrow> byte) \<Rightarrow> u32 \<Rightarrow> RtmpMessage result" where
  "RtmpSetChunkSizeMessage_encode mem chunk_size =
     build_message mem 4 RTMP_CHUNK_ID_PROTOCOL_CONTROL_MESSAGE RTMP_CHUNK_MESSAGE_TYPE_SET_CHUNK_SIZE
       RTMP_MESSAGE_ID_PROTOCOL_CONTROL (put_be 4 chunk_size) 4"

definition RtmpAbortMessage_decode :: "RtmpMessage \<Rightarrow> (u32 \<times> nat) result" where
  "RtmpAbortMessage_decode rtmp_msg = bindR (get_using_data rtmp_msg) (\<lambda>payload.
     if length payload < 4 then Inl (Rc (-1)) else Inr (get_be (take 4 payload), 4))"

definition RtmpAbortMessage_encode :: "(nat \<Rightarrow> byte) \<Rightarrow> u32 \<Rightarrow> RtmpMessage result" where
  "RtmpAbortMessage_encode mem chunk_id =
     build_message mem 4 RTMP_CHUNK_ID_PROTOCOL_CONTROL_MESSAGE RTMP_CHUNK_MESSAGE_TYPE_ABORT_MESSAGE
       RTMP_MESSAGE_ID_PROTOCOL_CONTROL (put_be 4 chunk_id) 4"

text \<open>
  \<^verbatim>\<open>acknowledge_\<close> and \<^verbatim>\<open>acknowledge_windows_size_\<close> are \<^verbatim>\<open>size_t\<close>: the payload has four bytes but
  \<^verbatim>\<open>sizeof\<close> counts eight as used.
\<close>
definition RtmpAcknwledgeMessage_decode :: "RtmpMessage \<Rightarrow> (u64 \<times> nat) result" where
  "RtmpAcknwledgeMessage_decode rtmp_msg = bindR (get_using_data rtmp_msg) (\<lambda>payload.
     if length payload < 4 then Inl (Rc (-1)) else Inr (get_be (take 4 payload), 4))"

definition RtmpAcknwledgeMessage_encode :: "(nat \<Rightarrow> byte) \<Rightarrow> u64 \<Rightarrow> RtmpMessage result" where
  "RtmpAcknwledgeMessage_encode mem acknowledge =
     build_message mem 4 RTMP_CHUNK_ID_PROTOCOL_CONTROL_MESSAGE RTMP_CHUNK_MESSAGE_TYPE_ACKNOWLEDGEMENT
       RTMP_MESSAGE_ID_PROTOCOL_CONTROL (put_be 4 acknowledge) 8"

definition RtmpWindowAcknwledgeSizeMessage_decode :: "RtmpMessage \<Rightarrow> (u64 \<times> nat) result" where
  "RtmpWindowAcknwledgeSizeMessage_decode rtmp_msg = bindR (get_using_data rtmp_msg) (\<lambda>payload.
     if length payload < 4 then Inl (Rc (-1)) else Inr (get_be (take 4 payload), 4))"

definition RtmpWindowAcknwledgeSizeMessage_encode :: "(nat \<Rightarrow> byte) \<Rightarrow> u64 \<Rightarrow> RtmpMessage result" where
  "RtmpWindowAcknwledgeSizeMessage_encode mem acknowledge_windows_size =
     build_message mem 4 RTMP_CHUNK_ID_PROTOCOL_CONTROL_MESSAGE RTMP_CHUNK_MESSAGE_TYPE_WINDOW_ACK_SIZE
       RTMP_MESSAGE_ID_PROTOCOL_CONTROL (put_be 4 acknowledge_windows_size) 8"

definition RtmpWindowAckSizeMessage_decode :: "RtmpMessage \<Rightarrow> (u32 \<times> nat) result" where
  "RtmpWindowAckSizeMessage_decode rtmp_msg = bindR (get_using_data rtmp_msg) (\<lambda>payload.
     if length payload < 4 then Inl (Rc (-1)) else Inr (get_be (take 4 payload), 4))"

definition RtmpWindowAckSizeMessage_encode :: "(nat \<Rightarrow> byte) \<Rightarrow> u32 \<Rightarrow> RtmpMessage result" where
  "RtmpWindowAckSizeMessage_encode mem ack_window_size =
     build_message mem 4 RTMP_CHUNK_ID_PROTOCOL_CONTROL_MESSAGE RTMP_CHUNK_MESSAGE_TYPE_WINDOW_ACK_SIZE
       RTMP_MESSAGE_ID_PROTOCOL_CONTROL (put_be 4 ack_window_size) 4"

definition RtmpSetPeerBandwidthMessage_decode :: "RtmpMessage \<Rightarrow> ((u32 \<times> byte) \<times> nat) result" where
  "RtmpSetPeerBandwidthMessage_decode rtmp_msg = bindR (get_using_data rtmp_msg) (\<lambda>payload.
     if length payload < 5 then Inl (Rc (-1)) else Inr ((get_be (take 4 payload), payload ! 4), 5))"

definition RtmpSetPeerBandwidthMessage_encode :: "(nat \<Rightarrow> byte) \<Rightarrow> u32 \<times> byte \<Rightarrow> RtmpMessage result" where
  "RtmpSetPeerBandwidthMessage_encode mem v = (case v of (ack_window_size, limit_type) \<Rightarrow>
     build_message mem 5 RTMP_CHUNK_ID_PROTOCOL_CONTROL_MESSAGE RTMP_CHUNK_MESSAGE_TYPE_SET_PEER_BANDWIDTH
       RTMP_MESSAGE_ID_PROTOCOL_CONTROL (put_be 4 ack_window_size @ [limit_type]) 5)"

abbreviation (input) RTMP_USER_EVENT_STREAM_BEGIN :: u16 where "RTMP_USER_EVENT_STREAM_BEGIN \<equiv> 0"

definition RtmpStreamBeginMessage_encode :: "(nat \<Rightarrow> byte) \<Rightarrow> u32 \<Rightarrow> RtmpMessage result" where
  "RtmpStreamBeginMessage_encode mem stream_id =
     build_message mem 6 RTMP_CHUNK_ID_PROTOCOL_CONTROL_MESSAGE RTMP_MESSAGE_TYPE_USER_CONTROL
       RTMP_MESSAGE_ID_PROTOCOL_CONTROL (put_be 2 RTMP_USER_EVENT_STREAM_BEGIN @ put_be 4 stream_id) 6"

section \<open>The interface\<close>

locale control_message =
  fixes encode :: "(nat \<Rightarrow> byte) \<Rightarrow> 'v \<Rightarrow> RtmpMessage result"
    and decode :: "RtmpMessage \<Rightarrow> ('v \<times> nat) result"
    and mtype :: byte
    and width :: nat
  assumes encode_total: "\<exists>m. encode mem v = Inr m"
    and encode_payload: "encode mem v = Inr m \<Longrightarrow> \<exists>bs. get_using_data m = Inr bs \<and> length bs = width"
    and encode_header: "encode mem v = Inr m \<Longrightarrow> chunk_stream_id m = RTMP_CHUNK_ID_PROTOCOL_CONTROL_MESSAGE \<and>
       message_stream_id m = RTMP_MESSAGE_ID_PROTOCOL_CONTROL \<and> message_type_id m = mtype \<and> timestamp m = 0"
    and decode_payload: "encode mem v = Inr m \<Longrightarrow> get_using_data m' = get_using_data m \<Longrightarrow> decode m' = Inr (v, width)"
begin

lemma roundtrip: "\<exists>m. encode mem v = Inr m \<and> decode m = Inr (v, width)"
  using encode_total decode_payload by blast

lemma encode_inj: "encode mem v = encode mem v' \<Longrightarrow> v = v'"
  using roundtrip [of mem v] roundtrip [of mem v'] by auto

end

text \<open>Every message built with all its bytes used satisfies the interface.\<close>

lemma control_messageI:
  assumes enc: "\<And>mem v. encode mem v = build_message mem width RTMP_CHUNK_ID_PROTOCOL_CONTROL_MESSAGE mtype
      RTMP_MESSAGE_ID_PROTOCOL_CONTROL (payload v) width"
    and len: "\<And>v. length (payload v) = width"
    and dec: "\<And>m v. get_using_data m = Inr (payload v) \<Longrightarrow> decode m = Inr (v, width)"
  shows "control_message encode decode mtype width"
proof unfold_locales
  fix mem v
  show "\<exists>m. encode mem v = Inr m" using build_message_full [OF len] enc by fastforce
next
  fix mem v m assume "encode mem v = Inr m"
  then show "\<exists>bs. get_using_data m = Inr bs \<and> length bs = width"
    using build_message_spec(1) [OF _ len] len enc by fastforce
next
  fix mem v m assume "encode mem v = Inr m"
  then show "chunk_stream_id m = RTMP_CHUNK_ID_PROTOCOL_CONTROL_MESSAGE \<and>
      message_stream_id m = RTMP_MESSAGE_ID_PROTOCOL_CONTROL \<and> message_type_id m = mtype \<and> timestamp m = 0"
    using build_message_spec(2-5) [OF _ len] enc by metis
next
  fix mem v m and m' :: RtmpMessage assume "encode mem v = Inr m" "get_using_data m' = get_using_data m"
  then show "decode m' = Inr (v, width)"
    using build_message_spec(1) [OF _ len] dec enc by metis
qed

interpretation set_chunk_size: control_message RtmpSetChunkSizeMessage_encode
    RtmpSetChunkSizeMessage_decode RTMP_CHUNK_MESSAGE_TYPE_SET_CHUNK_SIZE 4
  by (rule control_messageI [where payload = "put_be 4"])
     (simp_all add: RtmpSetChunkSizeMessage_encode_def RtmpSetChunkSizeMessage_decode_def)

interpretation abort: control_message RtmpAbortMessage_encode
    RtmpAbortMessage_decode RTMP_CHUNK_MESSAGE_TYPE_ABORT_MESSAGE 4
  by (rule control_messageI [where payload = "put_be 4"])
     (simp_all add: RtmpAbortMessage_encode_def RtmpAbortMessage_decode_def)

interpretation window_ack_size: control_message RtmpWindowAckSizeMessage_encode
    RtmpWindowAckSizeMessage_decode RTMP_CHUNK_MESSAGE_TYPE_WINDOW_ACK_SIZE 4
  by (rule control_messageI [where payload = "put_be 4"])
     (simp_all add: RtmpWindowAckSizeMessage_encode_def RtmpWindowAckSizeMessage_decode_def)

interpretation set_peer_bandwidth: control_message RtmpSetPeerBandwidthMessage_encode
    RtmpSetPeerBandwidthMessage_decode RTMP_CHUNK_MESSAGE_TYPE_SET_PEER_BANDWIDTH 5
  by (rule control_messageI [where payload = "\<lambda>(w, l). put_be 4 w @ [l]"])
     (auto simp: RtmpSetPeerBandwidthMessage_encode_def RtmpSetPeerBandwidthMessage_decode_def
       nth_append split: prod.splits)

text \<open>The acknowledgement is always built, although it claims more bytes than it has.\<close>
lemma acknowledge_message_built:
  "\<exists>m. RtmpAcknwledgeMessage_encode mem n = Inr m \<and> using_bytes m = 8 \<and> length (data_buf m) = 4"
  by (simp add: RtmpAcknwledgeMessage_encode_def build_message_def write_unused_def inc_used_bytes_def RtmpMessage_new_def)

section \<open>Properties\<close>

text \<open>
  C25. Set-chunk-size, abort, window-acknowledgement-size and set-peer-bandwidth messages are
  read back by the peer's decoder as they were built, for every 32-bit value.
\<close>
theorem control_messages_roundtrip:
  "(\<exists>m. RtmpSetChunkSizeMessage_encode mem cs = Inr m \<and> RtmpSetChunkSizeMessage_decode m = Inr (cs, 4)) \<and>
   (\<exists>m. RtmpAbortMessage_encode mem cid = Inr m \<and> RtmpAbortMessage_decode m = Inr (cid, 4)) \<and>
   (\<exists>m. RtmpWindowAckSizeMessage_encode mem w = Inr m \<and> RtmpWindowAckSizeMessage_decode m = Inr (w, 4)) \<and>
   (\<exists>m. RtmpSetPeerBandwidthMessage_encode mem (w, l) = Inr m \<and>
        RtmpSetPeerBandwidthMessage_decode m = Inr ((w, l), 5))"
  using set_chunk_size.roundtrip abort.roundtrip window_ack_size.roundtrip set_peer_bandwidth.roundtrip
  by blast

text \<open>
  The acknowledgement message marks eight bytes of its four-byte buffer as used, so reading
  its payload, which the sender does to put it on the wire, leaves the buffer: four bytes of
  foreign heap memory follow the sequence number.
\<close>
theorem acknowledge_message_overread:
  "\<exists>m. RtmpAcknwledgeMessage_encode mem n = Inr m \<and> using_bytes m = 8 \<and> length (data_buf m) = 4 \<and>
     get_using_data m = Inl Oob"
  by (simp add: RtmpAcknwledgeMessage_encode_def build_message_def write_unused_def inc_used_bytes_def
      get_using_data_def RtmpMessage_new_def)

end
