(* ===== verification/RtmpChunk.thy ===== *)
theory RtmpChunk
  imports RtmpControl
begin

text \<open>
  The RTMP chunk layer, \<^verbatim>\<open>libs/protocol/rtmp/rtmp_chunk_protocol.cpp\<close>: splitting messages into
  chunks (\<^verbatim>\<open>send_rtmp_messages\<close>), reassembling them from the receive buffer
  (\<^verbatim>\<open>process_recv_buffer\<close>, driven by \<^verbatim>\<open>cycle_recv_rtmp_message\<close>) and the protocol control
  messages that change its state. The socket is the list of segments it delivers; the
  registered \<^verbatim>\<open>recv_handler_\<close> is a function on the protocol state. 32-bit fields are
  words, read with \<open>sint\<close> where the code compares them as signed integers.
\<close>

section \<open>Chunks and protocol state\<close>

abbreviation (input) MAX_RTMP_BUF_BYTES :: nat where "MAX_RTMP_BUF_BYTES \<equiv> 2 * 1024 * 1024"
abbreviation (input) MIN_RTMP_BUF_BYTES :: nat where "MIN_RTMP_BUF_BYTES \<equiv> 16 * 1024"

record ChunkMessageHeader =
  h_fmt :: nat
  h_timestamp_delta :: u32
  h_timestamp :: u32
  h_message_length :: u32
  h_message_type_id :: byte
  h_message_stream_id :: u32

definition ChunkMessageHeader_clear :: "ChunkMessageHeader" where
  "ChunkMessageHeader_clear = \<lparr>h_fmt = 0, h_timestamp_delta = 0, h_timestamp = 0,
     h_message_length = 0, h_message_type_id = 0, h_message_stream_id = 0\<rparr>"

record RtmpChunk =
  chunk_message_header :: ChunkMessageHeader
  rtmp_message :: "RtmpMessage option"

text \<open>The state of a chunk made by \<^verbatim>\<open>make_shared\<close> and of one that was cleared.\<close>
definition RtmpChunk_clear :: "RtmpChunk" where
  "RtmpChunk_clear = \<lparr>chunk_message_header = ChunkMessageHeader_clear, rtmp_message = None\<rparr>"

text \<open>
  The state of the chunk layer, with what the session's handler reaches through it: \<open>conn_in_bytes\<close> is the count
  \<^verbatim>\<open>in_bytes_\<close> of the bytes read from the socket \<^verbatim>\<open>conn_\<close>, and \<open>sent_acks\<close> the acknowledgement messages handed to the
  sending coroutine so far, in order.
\<close>
record RtmpChunkProtocol =
  recv_buffer :: bytes
  max_buf_bytes :: nat
  in_chunk_size :: int
  out_chunk_size :: int
  in_window_acknowledge_size :: nat
  last_ack_bytes :: nat
  send_chunk_streams :: "nat \<rightharpoonup> RtmpChunk"
  recv_chunk_streams :: "nat \<rightharpoonup> RtmpChunk"
  recv_chunk_cache :: "nat \<rightharpoonup> RtmpChunk"
  conn_in_bytes :: nat
  sent_acks :: "RtmpMessage list"

definition RtmpChunkProtocol_new :: "RtmpChunkProtocol" where
  "RtmpChunkProtocol_new = \<lparr>recv_buffer = [], max_buf_bytes = MIN_RTMP_BUF_BYTES,
     in_chunk_size = 128, out_chunk_size = 128, in_window_acknowledge_size = 5 * 1024 * 1024,
     last_ack_bytes = 0, send_chunk_streams = Map.empty, recv_chunk_streams = Map.empty,
     recv_chunk_cache = (\<lambda>cid. if cid < 256 then Some RtmpChunk_clear else None),
     conn_in_bytes = 0, sent_acks = []\<rparr>"

text \<open>
  The handler gets a complete message and the state; the extension of the record is the state
  of the session the handler belongs to.
\<close>
type_synonym 'a recv_handler =
  "RtmpMessage \<Rightarrow> 'a RtmpChunkProtocol_scheme \<Rightarrow> 'a RtmpChunkProtocol_scheme \<times> bool"

section \<open>Receiving: one chunk\<close>

text \<open>
  The basic header: chunk stream id, chunk type and the bytes it takes; \<open>None\<close> when the
  buffer ends inside it.
\<close>
definition basic_header :: "bytes \<Rightarrow> (nat \<times> nat \<times> nat) option" where
  "basic_header buf =
     (if length buf < 1 then None
      else let d = buf ! 0; csid = unat (d AND 0x3f); fmt = unat (drop_bit 6 d AND 0x03) in
        if csid = 0 then
          (if length buf - 1 < 1 then None else Some (64 + unat (buf ! 1), fmt, 2))
        else if csid = 1 then
          (if length buf - 1 < 2 then None
           else Some (64 + unat (buf ! 1) + unat (buf ! 2) * 256, fmt, 3))
        else Some (csid, fmt, 1))"

text \<open>The outcome of parsing a message header: more data needed, an error, or the header.\<close>
datatype parsed = HNeed | HFail int | HOk ChunkMessageHeader nat

text \<open>Type 0: absolute timestamp, length, type and stream id, then an extended timestamp.\<close>
definition parse_type0 :: "ChunkMessageHeader \<Rightarrow> bytes \<Rightarrow> parsed" where
  "parse_type0 h data =
     (if length data < 3 then HNeed
      else let h1 = h\<lparr>h_timestamp_delta := 0, h_timestamp := set_low3 (h_timestamp h) (take 3 data)\<rparr> in
      if length data - 3 < 3 then HNeed
      else let h2 = h1\<lparr>h_message_length := set_low3 (h_message_length h1) (take 3 (drop 3 data))\<rparr> in
      if length data - 6 < 1 then HNeed
      else let h3 = h2\<lparr>h_message_type_id := data ! 6\<rparr> in
      if length data - 7 < 4 then HNeed
      else let h4 = h3\<lparr>h_message_stream_id := get_be (take 4 (drop 7 data))\<rparr> in
      if sint (h_timestamp h4) \<ge> 0x00ffffff then
        (if length data - 11 < 4 then HNeed
         else HOk (h4\<lparr>h_timestamp := get_be (take 4 (drop 11 data))\<rparr>) 15)
      else HOk h4 11)"

text \<open>
  The timestamp of a chunk with a delta: only the first chunk of a message advances the time
  of the stream.
\<close>
definition apply_delta :: "bool \<Rightarrow> ChunkMessageHeader \<Rightarrow> u32 \<Rightarrow> ChunkMessageHeader \<Rightarrow> ChunkMessageHeader" where
  "apply_delta first prev time_delta h =
     h\<lparr>h_timestamp := (if first then h_timestamp prev + time_delta else h_timestamp prev),
       h_timestamp_delta := time_delta\<rparr>"

definition parse_type1 :: "bool \<Rightarrow> ChunkMessageHeader option \<Rightarrow> ChunkMessageHeader \<Rightarrow> bytes \<Rightarrow> parsed" where
  "parse_type1 first prev h data = (case prev of None \<Rightarrow> HFail (-8) | Some p \<Rightarrow>
     let h0 = h\<lparr>h_message_stream_id := h_message_stream_id p\<rparr> in
     if length data < 3 then HNeed
     else let time_delta = (get_be (take 3 data) :: u32) in
     if length data - 3 < 3 then HNeed
     else let h1 = h0\<lparr>h_message_length := set_low3 (h_message_length h0) (take 3 (drop 3 data))\<rparr> in
     if length data - 6 < 1 then HNeed
     else let h2 = h1\<lparr>h_message_type_id := data ! 6\<rparr> in
     if sint time_delta \<ge> 0xffffff then
       (if length data - 7 < 4 then HNeed
        else HOk (apply_delta first p (get_be (take 4 (drop 7 data))) h2) 11)
     else HOk (apply_delta first p time_delta h2) 7)"

definition parse_type2 :: "bool \<Rightarrow> ChunkMessageHeader option \<Rightarrow> ChunkMessageHeader \<Rightarrow> bytes \<Rightarrow> parsed" where
  "parse_type2 first prev h data = (case prev of None \<Rightarrow> HFail (-12) | Some p \<Rightarrow>
     let h0 = h\<lparr>h_message_length := h_message_length p, h_message_type_id := h_message_type_id p,
                h_message_stream_id := h_message_stream_id p\<rparr> in
     if length data < 3 then HNeed
     else let time_delta = (get_be (take 3 data) :: u32) in
     if sint time_delta \<ge> 0xffffff then
       (if length data - 3 < 4 then HNeed
        else HOk (apply_delta first p (get_be (take 4 (drop 3 data))) h0) 7)
     else HOk (apply_delta first p time_delta h0) 3)"

text \<open>Type 3 repeats the previous header, timestamp included.\<close>
definition parse_type3 :: "ChunkMessageHeader option \<Rightarrow> ChunkMessageHeader \<Rightarrow> parsed" where
  "parse_type3 prev h = (case prev of None \<Rightarrow> HFail (-13) | Some p \<Rightarrow>
     HOk (h\<lparr>h_message_length := h_message_length p, h_message_type_id := h_message_type_id p,
            h_message_stream_id := h_message_stream_id p, h_timestamp := h_timestamp p,
            h_timestamp_delta := h_timestamp_delta p\<rparr>) 0)"

definition parse_message_header ::
    "nat \<Rightarrow> bool \<Rightarrow> ChunkMessageHeader option \<Rightarrow> ChunkMessageHeader \<Rightarrow> bytes \<Rightarrow> parsed" where
  "parse_message_header fmt first prev h data =
     (let h0 = h\<lparr>h_fmt := fmt\<rparr> in
      if fmt = 0 then parse_type0 h0 data
      else if fmt = 1 then parse_type1 first prev h0 data
      else if fmt = 2 then parse_type2 first prev h0 data
      else parse_type3 prev h0)"

text \<open>
  The outcome of a call: \<open>NeedMore\<close> is the return value 0, \<open>Consumed n\<close> a positive one,
  \<open>Failed e\<close> a negative one, \<open>MemFault\<close> a copy outside the message buffer.
\<close>
datatype outcome = NeedMore | Consumed nat | Failed int | MemFault

text \<open>Recording a chunk as the current one of its stream.\<close>
definition put_stream :: "nat \<Rightarrow> RtmpChunk \<Rightarrow> 'a RtmpChunkProtocol_scheme \<Rightarrow> 'a RtmpChunkProtocol_scheme" where
  "put_stream csid c s = s\<lparr>recv_chunk_streams := (recv_chunk_streams s)(csid \<mapsto> c)\<rparr>"

text \<open>A complete message: its fields are filled, the handler runs, the chunk forgets it.\<close>
definition deliver :: "'a recv_handler option \<Rightarrow> nat \<Rightarrow> RtmpChunk \<Rightarrow> RtmpMessage \<Rightarrow> nat \<Rightarrow>
    'a RtmpChunkProtocol_scheme \<Rightarrow> 'a RtmpChunkProtocol_scheme \<times> outcome" where
  "deliver handler csid chunk msg consumed s =
     (let h = chunk_message_header chunk;
          msg' = msg\<lparr>chunk_stream_id := of_nat csid, timestamp := h_timestamp h,
                      message_type_id := h_message_type_id h,
                      message_stream_id := h_message_stream_id h\<rparr>;
          s1 = put_stream csid (chunk\<lparr>rtmp_message := Some msg'\<rparr>) s
      in case handler of
           None \<Rightarrow> (put_stream csid (chunk\<lparr>rtmp_message := None\<rparr>) s, Failed (-19))
         | Some f \<Rightarrow>
             (case f msg' s1 of (s2, ret) \<Rightarrow>
                if \<not> ret then (s2, Failed (-20))
                else (s2\<lparr>recv_chunk_streams := (recv_chunk_streams s2)(csid :=
                          map_option (\<lambda>c. c\<lparr>rtmp_message := None\<rparr>) (recv_chunk_streams s2 csid))\<rparr>,
                      Consumed consumed)))"

text \<open>The payload part: allocate the message if there is none, copy, deliver when complete.\<close>
definition take_payload :: "(nat \<Rightarrow> byte) \<Rightarrow> 'a recv_handler option \<Rightarrow> nat \<Rightarrow> RtmpChunk \<Rightarrow> nat \<Rightarrow> bytes \<Rightarrow>
    'a RtmpChunkProtocol_scheme \<Rightarrow> 'a RtmpChunkProtocol_scheme \<times> outcome" where
  "take_payload mem handler csid chunk buf_pos data s =
     (let message_length = sint (h_message_length (chunk_message_header chunk)) in
      if message_length \<ge> int MAX_RTMP_BUF_BYTES then (put_stream csid chunk s, Failed (-14))
      else let msg = (case rtmp_message chunk of Some m \<Rightarrow> m
                      | None \<Rightarrow> RtmpMessage_new mem (unat (h_message_length (chunk_message_header chunk))));
               s1 = put_stream csid (chunk\<lparr>rtmp_message := Some msg\<rparr>) s;
               this_chunk_payload_size = min (in_chunk_size s) (message_length - int (using_bytes msg)) in
      if int (length data) < this_chunk_payload_size then (s1, NeedMore)
      else if this_chunk_payload_size < 0 then (s1, MemFault)
      else let n = nat this_chunk_payload_size in
        (case write_unused (take n data) msg of
           Inl _ \<Rightarrow> (s1, MemFault)
         | Inr m \<Rightarrow>
             let m' = inc_used_bytes n m; chunk' = chunk\<lparr>rtmp_message := Some m'\<rparr> in
             if int (using_bytes m') = message_length then deliver handler csid chunk' m' (buf_pos + n) s1
             else if length (get_total_data m') \<ge> MAX_RTMP_BUF_BYTES
               then (put_stream csid chunk' s1, Failed (-21))
             else (put_stream csid chunk' s1, Consumed (buf_pos + n))))"

text \<open>
  One call of \<^verbatim>\<open>process_recv_buffer\<close>. The chunk object comes from the cache when it has one
  and takes over the message under construction of the previous chunk of the stream, which
  is cleared and put into the cache.
\<close>
definition process_recv_buffer :: "(nat \<Rightarrow> byte) \<Rightarrow> 'a recv_handler option \<Rightarrow> 'a RtmpChunkProtocol_scheme \<Rightarrow>
    'a RtmpChunkProtocol_scheme \<times> outcome" where
  "process_recv_buffer mem handler s =
     (case basic_header (recv_buffer s) of None \<Rightarrow> (s, NeedMore)
      | Some (csid, fmt, pos) \<Rightarrow>
          let prev_chunk = recv_chunk_streams s csid;
              cached = (case recv_chunk_cache s csid of Some c \<Rightarrow> c | None \<Rightarrow> RtmpChunk_clear);
              s1 = s\<lparr>recv_chunk_cache := (recv_chunk_cache s)(csid := None)\<rparr>;
              chunk = (case prev_chunk of
                  Some p \<Rightarrow> (case rtmp_message p of Some m \<Rightarrow> cached\<lparr>rtmp_message := Some m\<rparr> | None \<Rightarrow> cached)
                | None \<Rightarrow> cached);
              first_chunk_of_message = (rtmp_message chunk = None)
          in case parse_message_header fmt first_chunk_of_message
                    (map_option chunk_message_header prev_chunk) (chunk_message_header chunk)
                    (drop pos (recv_buffer s)) of
               HNeed \<Rightarrow> (s1, NeedMore)
             | HFail e \<Rightarrow> (s1, Failed e)
             | HOk h n \<Rightarrow>
                 let s2 = (case prev_chunk of
                       Some p \<Rightarrow> s1\<lparr>recv_chunk_cache := (recv_chunk_cache s1)(csid \<mapsto> RtmpChunk_clear)\<rparr>
                     | None \<Rightarrow> s1)
                 in take_payload mem handler csid (chunk\<lparr>chunk_message_header := h\<rparr>) (pos + n)
                      (drop (pos + n) (recv_buffer s)) s2)"

section \<open>Protocol control messages\<close>

definition is_protocol_control_message :: "RtmpMessage \<Rightarrow> bool" where
  "is_protocol_control_message msg =
     (if chunk_stream_id msg \<noteq> RTMP_CHUNK_ID_PROTOCOL_CONTROL_MESSAGE then False
      else if message_stream_id msg \<noteq> 0 then False
      else if message_type_id msg \<noteq> RTMP_CHUNK_MESSAGE_TYPE_SET_CHUNK_SIZE \<and>
              message_type_id msg \<noteq> RTMP_CHUNK_MESSAGE_TYPE_ABORT_MESSAGE \<and>
              message_type_id msg \<noteq> RTMP_CHUNK_MESSAGE_TYPE_WINDOW_ACK_SIZE \<and>
              message_type_id msg \<noteq> RTMP_CHUNK_MESSAGE_TYPE_ACKNOWLEDGEMENT \<and>
              message_type_id msg \<noteq> RTMP_CHUNK_MESSAGE_TYPE_SET_PEER_BANDWIDTH then False
      else True)"

text \<open>The chunk size is taken over as a signed 32-bit integer, with no check of its range.\<close>
definition handle_set_chunk_size :: "RtmpMessage \<Rightarrow> 'a RtmpChunkProtocol_scheme \<Rightarrow> 'a RtmpChunkProtocol_scheme \<times> bool" where
  "handle_set_chunk_size msg s = (case RtmpSetChunkSizeMessage_decode msg of
      Inl _ \<Rightarrow> (s, False)
    | Inr (chunk_size, ret) \<Rightarrow> if ret = 0 then (s, False) else (s\<lparr>in_chunk_size := sint chunk_size\<rparr>, True))"

definition handle_abort :: "RtmpMessage \<Rightarrow> 'a RtmpChunkProtocol_scheme \<Rightarrow> 'a RtmpChunkProtocol_scheme \<times> bool" where
  "handle_abort msg s = (case RtmpAbortMessage_decode msg of
      Inl _ \<Rightarrow> (s, False)
    | Inr (chunk_id, ret) \<Rightarrow>
        if ret = 0 then (s, False)
        else (s\<lparr>recv_chunk_streams := (recv_chunk_streams s)(unat chunk_id := None)\<rparr>, True))"

definition handle_window_acknowledge_size :: "RtmpMessage \<Rightarrow> 'a RtmpChunkProtocol_scheme \<Rightarrow> 'a RtmpChunkProtocol_scheme \<times> bool" where
  "handle_window_acknowledge_size msg s = (case RtmpWindowAcknwledgeSizeMessage_decode msg of
      Inl _ \<Rightarrow> (s, False)
    | Inr (windows_size, ret) \<Rightarrow>
        if ret = 0 then (s, False) else (s\<lparr>in_window_acknowledge_size := unat windows_size\<rparr>, True))"

definition handle_protocol_control_message :: "RtmpMessage \<Rightarrow> 'a RtmpChunkProtocol_scheme \<Rightarrow> 'a RtmpChunkProtocol_scheme \<times> bool" where
  "handle_protocol_control_message msg s =
     (if message_type_id msg = RTMP_CHUNK_MESSAGE_TYPE_SET_CHUNK_SIZE then handle_set_chunk_size msg s
      else if message_type_id msg = RTMP_CHUNK_MESSAGE_TYPE_ABORT_MESSAGE then handle_abort msg s
      else if message_type_id msg = RTMP_CHUNK_MESSAGE_TYPE_WINDOW_ACK_SIZE
        then handle_window_acknowledge_size msg s
      else (s, True))"

section \<open>Receiving: the loop\<close>

text \<open>
  The inner loop of \<^verbatim>\<open>cycle_recv_rtmp_message\<close>: chunks are taken off the receive buffer until it
  needs more data (\<open>Inr\<close>) or a chunk fails (\<open>Inl\<close>: -2, or the fault). The handler has no
  access to the receive buffer, which is moved by the loop alone.
\<close>

lemma process_recv_buffer_Nil: "process_recv_buffer mem handler s = (s', Consumed n) \<Longrightarrow> recv_buffer s \<noteq> []"
  by (auto simp: process_recv_buffer_def basic_header_def)

function (sequential) drain :: "(nat \<Rightarrow> byte) \<Rightarrow> 'a recv_handler option \<Rightarrow> 'a RtmpChunkProtocol_scheme \<Rightarrow>
    'a RtmpChunkProtocol_scheme \<times> unit result" where
  "drain mem handler s = (case process_recv_buffer mem handler s of
      (s', NeedMore) \<Rightarrow> (s'\<lparr>recv_buffer := recv_buffer s\<rparr>, Inr ())
    | (s', Failed e) \<Rightarrow> (s', Inl (Rc (-2)))
    | (s', MemFault) \<Rightarrow> (s', Inl Oob)
    | (s', Consumed n) \<Rightarrow>
        if n = 0 then (s'\<lparr>recv_buffer := recv_buffer s\<rparr>, Inr ())
        else drain mem handler (s'\<lparr>recv_buffer := drop n (recv_buffer s)\<rparr>))"
  by pat_completeness auto
termination
  by (relation "measure (\<lambda>(_, _, s). length (recv_buffer s))")
     (auto dest!: process_recv_buffer_Nil [OF sym])

declare drain.simps [simp del]

text \<open>
  The outer loop against a socket that holds the byte stream \<open>wire\<close>: the list gives the size
  of what each \<^verbatim>\<open>recv_some\<close> delivers, at most the free space of the buffer, which doubles when
  it is full up to the limit; the socket counts the bytes it delivers. The run ends with the list; the result is the state, what is
  left on the wire, and \<open>Inr\<close> or the error that ended the loop.
\<close>
primrec cycle_recv_rtmp_message :: "(nat \<Rightarrow> byte) \<Rightarrow> 'a recv_handler \<Rightarrow> nat list \<Rightarrow> bytes \<Rightarrow> 'a RtmpChunkProtocol_scheme \<Rightarrow>
    'a RtmpChunkProtocol_scheme \<times> bytes \<times> unit result" where
  "cycle_recv_rtmp_message mem handler [] wire s = (s, wire, Inr ())"
| "cycle_recv_rtmp_message mem handler (k # ks) wire s =
     (if max_buf_bytes s \<le> length (recv_buffer s) \<and> max_buf_bytes s * 2 \<ge> MAX_RTMP_BUF_BYTES
      then (s, wire, Inl (Rc (-3)))
      else let cap = (if max_buf_bytes s \<le> length (recv_buffer s) then max_buf_bytes s * 2 else max_buf_bytes s);
               n = min k (cap - length (recv_buffer s));
               s1 = s\<lparr>max_buf_bytes := cap, recv_buffer := recv_buffer s @ take n wire,
                      conn_in_bytes := conn_in_bytes s + length (take n wire)\<rparr>
           in case drain mem (Some handler) s1 of
                (s2, Inl e) \<Rightarrow> (s2, drop n wire, Inl e)
              | (s2, Inr _) \<Rightarrow> cycle_recv_rtmp_message mem handler ks (drop n wire) s2)"

section \<open>Sending\<close>

text \<open>The chunk type is chosen by comparison with the last chunk sent on the stream.\<close>
definition choose_fmt :: "RtmpChunk option \<Rightarrow> RtmpMessage \<Rightarrow> nat \<Rightarrow> nat" where
  "choose_fmt prev_chunk msg msg_size = (case prev_chunk of None \<Rightarrow> 0 | Some c \<Rightarrow>
     let p = chunk_message_header c in
     if h_message_stream_id p = message_stream_id msg \<and> h_message_type_id p = message_type_id msg \<and>
        h_message_length p = of_nat msg_size \<and> h_timestamp_delta p = timestamp msg - h_timestamp p then 3
     else if h_message_stream_id p = message_stream_id msg \<and> h_message_type_id p = message_type_id msg \<and>
        h_message_length p = of_nat msg_size then 2
     else if h_message_stream_id p = message_stream_id msg then 1
     else 0)"

definition put_basic_header :: "nat \<Rightarrow> u32 \<Rightarrow> bytes" where
  "put_basic_header fmt csid =
     (let f = push_bit 6 (of_nat fmt AND 0x03) :: byte; c = sint csid in
      if c \<ge> 2 \<and> c \<le> 63 then [f OR (ucast csid AND 0x3f)]
      else if c \<ge> 64 \<and> c \<le> 319 then [f OR 0x00, ucast (csid - 64)]
      else if c \<ge> 64 \<and> c \<le> 65599 then [f OR 0x01, ucast ((csid - 64) mod 256), ucast ((csid - 64) div 256)]
      else [])"

text \<open>A time field: three bytes, all ones when the time goes into the extended field.\<close>
definition put_time :: "bool \<Rightarrow> u32 \<Rightarrow> bytes" where
  "put_time ext t = (if ext then [0xff, 0xff, 0xff] else put_be 3 t)"

definition put_ext :: "bool \<Rightarrow> u32 \<Rightarrow> bytes" where
  "put_ext ext t = (if ext then put_be 4 t else [])"

text \<open>
  The message header and extended timestamp for each type; \<open>prev_ts\<close> is the time of the
  message the previous chunk belongs to.
\<close>
definition put_message_header :: "nat \<Rightarrow> RtmpMessage \<Rightarrow> nat \<Rightarrow> u32 \<Rightarrow> bytes" where
  "put_message_header fmt msg msg_size prev_ts =
     (if fmt = 0 then
        (let ext = (sint (timestamp msg) \<ge> 0xffffff) in
         put_time ext (timestamp msg AND 0xffffff) @ put_be 3 (of_nat msg_size :: u32) @ [message_type_id msg] @
         put_be 4 (message_stream_id msg) @ put_ext ext (timestamp msg))
      else let delta = timestamp msg - prev_ts; ext = (delta \<ge> 0xffffff) in
        if fmt = 1 then put_time ext delta @ put_be 3 (of_nat msg_size :: u32) @ [message_type_id msg] @ put_ext ext delta
        else if fmt = 2 then put_time ext delta @ put_ext ext delta
        else put_ext ext delta)"

text \<open>The chunk recorded as the last one of its stream.\<close>
definition sent_chunk :: "RtmpChunk option \<Rightarrow> RtmpMessage \<Rightarrow> nat \<Rightarrow> RtmpChunk" where
  "sent_chunk prev_chunk msg msg_size =
     \<lparr>chunk_message_header = \<lparr>h_fmt = 0,
        h_timestamp_delta = (case prev_chunk of None \<Rightarrow> 0
           | Some p \<Rightarrow> timestamp msg - h_timestamp (chunk_message_header p)),
        h_timestamp = timestamp msg, h_message_length = of_nat msg_size,
        h_message_type_id = message_type_id msg, h_message_stream_id = message_stream_id msg\<rparr>,
      rtmp_message = Some msg\<rparr>"

text \<open>
  The inner loop over one message of payload \<open>data\<close> (\<open>rest\<close> is what is left to send): the
  header and payload buffers it appends, the number of chunk headers in use, the updated
  streams and whether it succeeded. At most 200 headers fit one call.
\<close>
function (sequential) send_chunks :: "int \<Rightarrow> RtmpMessage \<Rightarrow> bytes \<Rightarrow> bytes \<Rightarrow> nat \<Rightarrow> (nat \<rightharpoonup> RtmpChunk) \<Rightarrow>
    bytes list \<Rightarrow> bytes list \<times> nat \<times> (nat \<rightharpoonup> RtmpChunk) \<times> bool" where
  "send_chunks chunk_size msg data rest curr_chunk_header streams out =
     (if rest = [] then (out, curr_chunk_header, streams, True)
      else if curr_chunk_header \<ge> 200 then (out, curr_chunk_header, streams, False)
      else let csid = unat (chunk_stream_id msg); prev_chunk = streams csid;
               fmt = choose_fmt prev_chunk msg (length data);
               prev_ts = (case prev_chunk of Some p \<Rightarrow>
                   (case rtmp_message p of Some m \<Rightarrow> timestamp m | None \<Rightarrow> 0) | None \<Rightarrow> 0);
               header = put_basic_header fmt (chunk_stream_id msg) @
                        put_message_header fmt msg (length data) prev_ts;
               n = nat (min chunk_size (int (length rest)))
           in send_chunks chunk_size msg data (drop n rest) (Suc curr_chunk_header)
                (streams(csid \<mapsto> sent_chunk prev_chunk msg (length data))) (out @ [header, take n rest]))"
  by pat_completeness auto
termination
  by (relation "measure (\<lambda>(_, _, _, _, curr_chunk_header, _, _). 200 - curr_chunk_header)") auto

declare send_chunks.simps [simp del]

fun send_all :: "int \<Rightarrow> RtmpMessage list \<Rightarrow> nat \<Rightarrow> (nat \<rightharpoonup> RtmpChunk) \<Rightarrow> bytes list \<Rightarrow>
    (bytes list \<times> (nat \<rightharpoonup> RtmpChunk) \<times> bool) result" where
  "send_all chunk_size [] curr_chunk_header streams out = Inr (out, streams, True)"
| "send_all chunk_size (msg # msgs) curr_chunk_header streams out =
     bindR (get_using_data msg) (\<lambda>data.
       case send_chunks chunk_size msg data data curr_chunk_header streams out of
         (out', curr_chunk_header', streams', False) \<Rightarrow> Inr (out', streams', False)
       | (out', curr_chunk_header', streams', True) \<Rightarrow> send_all chunk_size msgs curr_chunk_header' streams' out')"

text \<open>
  \<^verbatim>\<open>send_rtmp_messages\<close>: the bytes handed to the socket in one scatter write, or \<^verbatim>\<open>None\<close> when
  it returns \<^verbatim>\<open>false\<close> before, and the new state. A chunk size below one never advances: the
  loop ends at the header limit.
\<close>
definition send_rtmp_messages :: "RtmpMessage list \<Rightarrow> 'a RtmpChunkProtocol_scheme \<Rightarrow> (bytes option \<times> 'a RtmpChunkProtocol_scheme) result" where
  "send_rtmp_messages rtmp_msgs s =
     bindR (send_all (out_chunk_size s) rtmp_msgs 0 (send_chunk_streams s) []) (\<lambda>(out, streams, ok).
       Inr (if ok then Some (concat out) else None, s\<lparr>send_chunk_streams := streams\<rparr>))"

end
