(* ===== verification/RtmpReceive.thy ===== *)
theory RtmpReceive
  imports RtmpChunk
begin

text \<open>
  What the receiving half of the RTMP chunk layer guarantees. \<open>chunk_step\<close> is its
  specification: one chunk taken off a buffer, without the chunk cache and without the
  bookkeeping of the buffer. \<^verbatim>\<open>process_recv_buffer\<close> implements it, a call that needed more data
  can be repeated with more data, and so the messages the handler sees do not depend on how
  the socket cuts the byte stream. The locale \<open>recv_client\<close> is what this asks of a handler.
\<close>

section \<open>The frame of the handler\<close>

text \<open>
  \<open>frame ca b n\<close> replaces the parts of the state that belong to the receiving loop alone: the
  cache of chunk objects, the receive buffer and its capacity.
\<close>
definition frame :: "(nat \<rightharpoonup> RtmpChunk) \<Rightarrow> bytes \<Rightarrow> nat \<Rightarrow> 'a RtmpChunkProtocol_scheme \<Rightarrow>
    'a RtmpChunkProtocol_scheme" where
  "frame ca b n s = s\<lparr>recv_chunk_cache := ca, recv_buffer := b, max_buf_bytes := n\<rparr>"

lemma frame_simps [simp]:
  "recv_chunk_streams (frame ca b n s) = recv_chunk_streams s" "in_chunk_size (frame ca b n s) = in_chunk_size s"
  "recv_chunk_cache (frame ca b n s) = ca" "recv_buffer (frame ca b n s) = b"
  "max_buf_bytes (frame ca b n s) = n" "frame ca b n (frame ca' b' n' s) = frame ca b n s"
  "(frame ca b n s)\<lparr>recv_buffer := b'\<rparr> = frame ca b' n s"
  "(frame ca b n s)\<lparr>recv_chunk_cache := ca'\<rparr> = frame ca' b n s"
  "(frame ca b n s)\<lparr>recv_chunk_streams := st\<rparr> = frame ca b n (s\<lparr>recv_chunk_streams := st\<rparr>)"
  "put_stream csid c (frame ca b n s) = frame ca b n (put_stream csid c s)"
  by (simp_all add: frame_def put_stream_def)

lemma frame_self: "frame (recv_chunk_cache s) (recv_buffer s) (max_buf_bytes s) s = s"
  by (simp add: frame_def)

lemma put_stream_simps [simp]:
  "put_stream csid c (put_stream csid c' s) = put_stream csid c s"
  "recv_chunk_streams (put_stream csid c s) = (recv_chunk_streams s)(csid \<mapsto> c)"
  "in_chunk_size (put_stream csid c s) = in_chunk_size s"
  by (simp_all add: put_stream_def)

text \<open>
  \<open>ack_frame i l a\<close> replaces what depends on when the bytes arrived: the byte counter of the socket, its value
  at the last acknowledgement, and the acknowledgements sent.
\<close>
definition ack_frame :: "nat \<Rightarrow> nat \<Rightarrow> RtmpMessage list \<Rightarrow> 'a RtmpChunkProtocol_scheme \<Rightarrow> 'a RtmpChunkProtocol_scheme" where
  "ack_frame i l a s = s\<lparr>conn_in_bytes := i, last_ack_bytes := l, sent_acks := a\<rparr>"

lemma ack_frame_simps [simp]:
  "recv_chunk_streams (ack_frame i l a s) = recv_chunk_streams s" "in_chunk_size (ack_frame i l a s) = in_chunk_size s"
  "recv_chunk_cache (ack_frame i l a s) = recv_chunk_cache s" "recv_buffer (ack_frame i l a s) = recv_buffer s"
  "max_buf_bytes (ack_frame i l a s) = max_buf_bytes s" "conn_in_bytes (ack_frame i l a s) = i"
  "ack_frame i l a (ack_frame i' l' a' s) = ack_frame i l a s"
  "put_stream csid c (ack_frame i l a s) = ack_frame i l a (put_stream csid c s)"
  "(ack_frame i l a s)\<lparr>recv_chunk_streams := st\<rparr> = ack_frame i l a (s\<lparr>recv_chunk_streams := st\<rparr>)"
  "frame ca b n (ack_frame i l a s) = ack_frame i l a (frame ca b n s)"
  by (simp_all add: ack_frame_def put_stream_def frame_def)

lemma ack_frame_self: "ack_frame (conn_in_bytes s) (last_ack_bytes s) (sent_acks s) s = s"
  by (simp add: ack_frame_def)

text \<open>Every chunk object in the cache is in its cleared state.\<close>
definition cache_clean :: "(nat \<rightharpoonup> RtmpChunk) \<Rightarrow> bool" where
  "cache_clean ca \<longleftrightarrow> (\<forall>csid c. ca csid = Some c \<longrightarrow> c = RtmpChunk_clear)"

lemma cache_clean_upd [simp, intro]:
  "cache_clean ca \<Longrightarrow> cache_clean (ca(csid := None))"
  "cache_clean ca \<Longrightarrow> cache_clean (ca(csid \<mapsto> RtmpChunk_clear))"
  by (simp_all add: cache_clean_def)

lemma cache_clean_new: "cache_clean (recv_chunk_cache RtmpChunkProtocol_new)"
  by (simp add: cache_clean_def RtmpChunkProtocol_new_def)

section \<open>The specification of one chunk\<close>

text \<open>The chunk that takes over the message under construction of its stream.\<close>
definition next_chunk :: "'a RtmpChunkProtocol_scheme \<Rightarrow> nat \<Rightarrow> RtmpChunk" where
  "next_chunk s csid = RtmpChunk_clear\<lparr>rtmp_message := Option.bind (recv_chunk_streams s csid) rtmp_message\<rparr>"

definition chunk_step :: "(nat \<Rightarrow> byte) \<Rightarrow> 'a recv_handler \<Rightarrow> bytes \<Rightarrow> 'a RtmpChunkProtocol_scheme \<Rightarrow>
    'a RtmpChunkProtocol_scheme \<times> outcome" where
  "chunk_step mem f buf s =
     (case basic_header buf of None \<Rightarrow> (s, NeedMore)
      | Some (csid, fmt, pos) \<Rightarrow>
          let chunk = next_chunk s csid in
          case parse_message_header fmt (rtmp_message chunk = None)
                 (map_option chunk_message_header (recv_chunk_streams s csid)) ChunkMessageHeader_clear (drop pos buf) of
            HNeed \<Rightarrow> (s, NeedMore)
          | HFail e \<Rightarrow> (s, Failed e)
          | HOk h n \<Rightarrow> take_payload mem (Some f) csid (chunk\<lparr>chunk_message_header := h\<rparr>) (pos + n)
                         (drop (pos + n) buf) s)"

text \<open>With a clean cache the chunk object is always a cleared one that takes over the message.\<close>
lemma process_recv_buffer_clean:
  assumes "cache_clean (recv_chunk_cache s)"
  shows "process_recv_buffer mem handler s =
     (case basic_header (recv_buffer s) of None \<Rightarrow> (s, NeedMore)
      | Some (csid, fmt, pos) \<Rightarrow>
          (case parse_message_header fmt (rtmp_message (next_chunk s csid) = None)
                 (map_option chunk_message_header (recv_chunk_streams s csid)) ChunkMessageHeader_clear
                 (drop pos (recv_buffer s)) of
            HNeed \<Rightarrow> (s\<lparr>recv_chunk_cache := (recv_chunk_cache s)(csid := None)\<rparr>, NeedMore)
          | HFail e \<Rightarrow> (s\<lparr>recv_chunk_cache := (recv_chunk_cache s)(csid := None)\<rparr>, Failed e)
          | HOk h n \<Rightarrow> take_payload mem handler csid ((next_chunk s csid)\<lparr>chunk_message_header := h\<rparr>) (pos + n)
              (drop (pos + n) (recv_buffer s)) (s\<lparr>recv_chunk_cache := (recv_chunk_cache s)
                 (csid := map_option (\<lambda>_. RtmpChunk_clear) (recv_chunk_streams s csid))\<rparr>)))"
proof (cases "basic_header (recv_buffer s)")
  case (Some r)
  obtain csid fmt pos where r: "r = (csid, fmt, pos)" by (cases r)
  have cached: "(case recv_chunk_cache s csid of Some c \<Rightarrow> c | None \<Rightarrow> RtmpChunk_clear) = RtmpChunk_clear"
    using assms by (auto simp: cache_clean_def split: option.splits)
  have chunk: "(case recv_chunk_streams s csid of
        Some p \<Rightarrow> (case rtmp_message p of Some m \<Rightarrow> RtmpChunk_clear\<lparr>rtmp_message := Some m\<rparr> | None \<Rightarrow> RtmpChunk_clear)
      | None \<Rightarrow> RtmpChunk_clear) = next_chunk s csid"
    by (auto simp: next_chunk_def RtmpChunk_clear_def split: option.splits)
  have hdr: "chunk_message_header (next_chunk s csid) = ChunkMessageHeader_clear"
    by (simp add: next_chunk_def RtmpChunk_clear_def)
  show ?thesis
    unfolding process_recv_buffer_def Some r option.case prod.case Let_def cached chunk hdr
    by (cases "recv_chunk_streams s csid") (simp_all split: parsed.split)
qed (simp add: process_recv_buffer_def)

section \<open>What does not depend on later data\<close>

lemma basic_header_append: "basic_header buf = Some r \<Longrightarrow> basic_header (buf @ x) = Some r"
  by (auto simp: basic_header_def Let_def nth_append split: if_splits)

lemma basic_header_bounds: "basic_header buf = Some (csid, fmt, pos) \<Longrightarrow> 0 < pos \<and> pos \<le> length buf \<and> fmt < 4"
proof -
  have "unat (drop_bit 6 d AND 3 :: byte) < 4" for d :: byte
    using word_and_le1 [of "drop_bit 6 d" 3] by (simp add: word_le_nat_alt)
  then show "basic_header buf = Some (csid, fmt, pos) \<Longrightarrow> ?thesis"
    by (cases buf; auto simp: basic_header_def Let_def Suc_le_eq split: if_splits)
qed

lemma parse_type0_append: "parse_type0 h data \<noteq> HNeed \<Longrightarrow> parse_type0 h (data @ x) = parse_type0 h data"
  by (simp add: parse_type0_def Let_def nth_append split: if_split_asm)

lemma parse_type1_append: "parse_type1 first prev h data \<noteq> HNeed \<Longrightarrow> parse_type1 first prev h (data @ x) = parse_type1 first prev h data"
  by (cases prev) (simp_all add: parse_type1_def Let_def nth_append split: if_split_asm)

lemma parse_type2_append: "parse_type2 first prev h data \<noteq> HNeed \<Longrightarrow> parse_type2 first prev h (data @ x) = parse_type2 first prev h data"
  by (cases prev) (auto simp: parse_type2_def Let_def nth_append split: if_split_asm)

lemma parse_message_header_append:
  "parse_message_header fmt first prev h data = r \<Longrightarrow> r \<noteq> HNeed \<Longrightarrow>
   parse_message_header fmt first prev h (data @ x) = r"
  by (auto simp: parse_message_header_def Let_def parse_type0_append parse_type1_append parse_type2_append
      split: if_split_asm)

lemma parse_type_bounds:
  "parse_type0 h data = HOk h' n \<Longrightarrow> n \<le> length data"
  "parse_type1 first prev h data = HOk h' n \<Longrightarrow> n \<le> length data"
  "parse_type2 first prev h data = HOk h' n \<Longrightarrow> n \<le> length data"
  by (auto simp: parse_type0_def parse_type1_def parse_type2_def Let_def split: if_split_asm option.splits)

lemma parse_message_header_bound:
  "parse_message_header fmt first prev h data = HOk h' n \<Longrightarrow> n \<le> length data"
  by (auto simp: parse_message_header_def parse_type3_def Let_def dest: parse_type_bounds split: if_split_asm option.splits)

text \<open>
  Parsing a header again with its own result as the previous header, when the message is no
  longer at its first chunk, gives the same result: the time is not advanced twice.
\<close>

lemma parse_type_again:
  "parse_type1 first prev h0 data = HOk h n \<Longrightarrow> parse_type1 False (Some h) h0 data = HOk h n"
  "parse_type2 first prev h0 data = HOk h n \<Longrightarrow> parse_type2 False (Some h) h0 data = HOk h n"
  "parse_type3 prev h0 = HOk h n \<Longrightarrow> parse_type3 (Some h) h0 = HOk h n"
  by (auto simp: parse_type1_def parse_type2_def parse_type3_def apply_delta_def Let_def
      split: if_split_asm option.splits)

lemma parse_message_header_again:
  "parse_message_header fmt first prev h0 data = HOk h n \<Longrightarrow> parse_message_header fmt False (Some h) h0 data = HOk h n"
  by (auto simp: parse_message_header_def Let_def dest: parse_type_again split: if_split_asm)

lemma deliver_not_NeedMore [simp]: "deliver handler csid c m n s \<noteq> (s', NeedMore)"
  by (auto simp: deliver_def Let_def split: option.splits prod.splits)

lemma deliver_Consumed: "deliver handler csid c m k s = (s', Consumed n) \<Longrightarrow> n = k"
  by (auto simp: deliver_def Let_def split: option.splits prod.splits if_splits)

lemma take_payload_append:
  assumes "snd (take_payload mem hdl csid c pos data s) \<noteq> NeedMore"
  shows "take_payload mem hdl csid c pos (data @ x) s = take_payload mem hdl csid c pos data s"
  using assms by (auto simp: take_payload_def Let_def split: if_splits)

lemma take_payload_Consumed:
  assumes "take_payload mem hdl csid c pos data s = (s', Consumed n)"
  shows "pos \<le> n \<and> n \<le> pos + length data"
  using assms
  by (auto simp: take_payload_def Let_def dest!: deliver_Consumed split: if_splits sum.splits)

text \<open>Where a payload is incomplete the chunk is recorded, with its message allocated.\<close>
lemma take_payload_NeedMore:
  assumes "take_payload mem hdl csid c pos data s = (s', NeedMore)"
  obtains m where "s' = put_stream csid (c\<lparr>rtmp_message := Some m\<rparr>) s"
    and "\<And>data. take_payload mem hdl csid (c\<lparr>rtmp_message := Some m\<rparr>) pos data s' =
           take_payload mem hdl csid c pos data s"
proof -
  define m where "m = (case rtmp_message c of Some m \<Rightarrow> m
      | None \<Rightarrow> RtmpMessage_new mem (unat (h_message_length (chunk_message_header c))))"
  have "s' = put_stream csid (c\<lparr>rtmp_message := Some m\<rparr>) s"
    using assms by (auto simp: take_payload_def Let_def m_def split: if_splits sum.splits)
  moreover have "\<not> int MAX_RTMP_BUF_BYTES \<le> sint (h_message_length (chunk_message_header c))"
    using assms by (auto simp: take_payload_def Let_def)
  with calculation have "take_payload mem hdl csid (c\<lparr>rtmp_message := Some m\<rparr>) pos data s' =
      take_payload mem hdl csid c pos data s" for data
    by (simp add: take_payload_def Let_def m_def [symmetric] split: sum.split)
  ultimately show ?thesis by (rule that)
qed

section \<open>Properties of the specification\<close>

lemma chunk_step_append:
  assumes "chunk_step mem f buf s = (s', r)" and "r \<noteq> NeedMore"
  shows "chunk_step mem f (buf @ x) s = (s', r)"
proof (cases "basic_header buf")
  case (Some t)
  obtain csid fmt pos where t: "t = (csid, fmt, pos)" by (cases t)
  note bh = Some [unfolded t]
  let ?parse = "parse_message_header fmt (rtmp_message (next_chunk s csid) = None)
     (map_option chunk_message_header (recv_chunk_streams s csid)) ChunkMessageHeader_clear"
  have pos: "pos \<le> length buf" using basic_header_bounds [OF bh] by simp
  have np: "?parse (drop pos buf) \<noteq> HNeed"
    using assms bh by (auto simp: chunk_step_def Let_def)
  then have ap: "?parse (drop pos buf @ x) = ?parse (drop pos buf)"
    using parse_message_header_append by blast
  show ?thesis
  proof (cases "?parse (drop pos buf)")
    case (HOk h n)
    then have n: "n \<le> length buf - pos" using parse_message_header_bound by fastforce
    have "take_payload mem (Some f) csid ((next_chunk s csid)\<lparr>chunk_message_header := h\<rparr>) (pos + n) (drop (pos + n) buf) s = (s', r)"
      using assms bh HOk by (simp add: chunk_step_def Let_def)
    with take_payload_append [of mem "Some f" csid _ "pos + n" "drop (pos + n) buf" s x] assms(2)
    show ?thesis
      using bh HOk ap pos n by (simp add: chunk_step_def Let_def basic_header_append)
  qed (use assms bh np ap pos in \<open>auto simp: chunk_step_def Let_def basic_header_append\<close>)
qed (use assms in \<open>auto simp: chunk_step_def\<close>)

lemma chunk_step_again:
  assumes "chunk_step mem f buf s = (s', NeedMore)"
  shows "chunk_step mem f (buf @ x) s' = chunk_step mem f (buf @ x) s"
proof (cases "s' = s")
  case False
  then obtain csid fmt pos where bh: "basic_header buf = Some (csid, fmt, pos)"
    using assms by (auto simp: chunk_step_def split: option.splits)
  let ?parse = "parse_message_header fmt (rtmp_message (next_chunk s csid) = None)
     (map_option chunk_message_header (recv_chunk_streams s csid)) ChunkMessageHeader_clear"
  have pos: "pos \<le> length buf" using basic_header_bounds [OF bh] by simp
  obtain h n where p: "?parse (drop pos buf) = HOk h n"
    using assms bh False by (auto simp: chunk_step_def Let_def split: parsed.splits)
  let ?c = "(next_chunk s csid)\<lparr>chunk_message_header := h\<rparr>"
  have tp: "take_payload mem (Some f) csid ?c (pos + n) (drop (pos + n) buf) s = (s', NeedMore)"
    using assms bh p by (simp add: chunk_step_def Let_def)
  from take_payload_NeedMore [OF this] obtain m where
    s': "s' = put_stream csid (?c\<lparr>rtmp_message := Some m\<rparr>) s" and
    again: "\<And>data. take_payload mem (Some f) csid (?c\<lparr>rtmp_message := Some m\<rparr>) (pos + n) data s' =
        take_payload mem (Some f) csid ?c (pos + n) data s" by metis
  have px: "?parse (drop pos (buf @ x)) = HOk h n"
    using parse_message_header_append [OF p] pos by simp
  have st: "recv_chunk_streams s' csid = Some (?c\<lparr>rtmp_message := Some m\<rparr>)"
    and nc: "next_chunk s' csid = (next_chunk s csid)\<lparr>rtmp_message := Some m\<rparr>"
    and ch: "(next_chunk s csid)\<lparr>rtmp_message := Some m, chunk_message_header := h\<rparr> = ?c\<lparr>rtmp_message := Some m\<rparr>"
    by (simp_all add: next_chunk_def s')
  have "parse_message_header fmt False (Some h) ChunkMessageHeader_clear (drop pos (buf @ x)) = HOk h n"
    by (rule parse_message_header_again [OF px])
  then have "chunk_step mem f (buf @ x) s' = take_payload mem (Some f) csid ?c (pos + n) (drop (pos + n) (buf @ x)) s"
    using again basic_header_append [OF bh] by (simp add: chunk_step_def Let_def st nc ch del: drop_append)
  also have "\<dots> = chunk_step mem f (buf @ x) s"
    using px basic_header_append [OF bh] by (simp add: chunk_step_def Let_def del: drop_append)
  finally show ?thesis .
qed simp

lemma chunk_step_Consumed:
  assumes "chunk_step mem f buf s = (s', Consumed n)"
  shows "0 < n \<and> n \<le> length buf"
proof -
  obtain csid fmt pos where bh: "basic_header buf = Some (csid, fmt, pos)"
    using assms by (auto simp: chunk_step_def split: option.splits)
  obtain h k where p: "parse_message_header fmt (rtmp_message (next_chunk s csid) = None)
     (map_option chunk_message_header (recv_chunk_streams s csid)) ChunkMessageHeader_clear (drop pos buf) = HOk h k"
    using assms bh by (auto simp: chunk_step_def Let_def split: parsed.splits)
  have "pos + k \<le> n \<and> n \<le> pos + k + length (drop (pos + k) buf)"
    using assms bh p by (intro take_payload_Consumed) (simp add: chunk_step_def Let_def)
  then show ?thesis
    using basic_header_bounds [OF bh] parse_message_header_bound [OF p] by simp linarith
qed

text \<open>All the chunks of a buffer: the state, the bytes left over, and how the run ended.\<close>
function (sequential) chunk_run :: "(nat \<Rightarrow> byte) \<Rightarrow> 'a recv_handler \<Rightarrow> bytes \<Rightarrow> 'a RtmpChunkProtocol_scheme \<Rightarrow>
    'a RtmpChunkProtocol_scheme \<times> bytes \<times> unit result" where
  "chunk_run mem f buf s = (case chunk_step mem f buf s of
      (s', NeedMore) \<Rightarrow> (s', buf, Inr ())
    | (s', Failed e) \<Rightarrow> (s', buf, Inl (Rc (-2)))
    | (s', MemFault) \<Rightarrow> (s', buf, Inl Oob)
    | (s', Consumed n) \<Rightarrow> chunk_run mem f (drop n buf) s')"
  by pat_completeness auto
termination
  by (relation "measure (\<lambda>(_, _, buf, _). length buf)")
     (auto dest!: chunk_step_Consumed [OF sym])

declare chunk_run.simps [simp del]

lemma chunk_run_append:
  "chunk_run mem f buf s = (s', rest, Inr ()) \<Longrightarrow> chunk_run mem f (buf @ x) s = chunk_run mem f (rest @ x) s'"
proof (induction mem f buf s rule: chunk_run.induct)
  case (1 mem f buf s)
  obtain t r where st: "chunk_step mem f buf s = (t, r)" by fastforce
  show ?case
  proof (cases r)
    case NeedMore
    with 1(2) st have "t = s'" "rest = buf" by (simp_all add: chunk_run.simps [of mem f buf])
    with chunk_step_again [of mem f buf s t x] st NeedMore show ?thesis
      by (simp add: chunk_run.simps [of mem f "buf @ x"])
  next
    case (Consumed n)
    then have "n \<le> length buf" using chunk_step_Consumed st by blast
    moreover have "chunk_step mem f (buf @ x) s = (t, Consumed n)"
      using chunk_step_append [OF st] Consumed by simp
    ultimately have "chunk_run mem f (buf @ x) s = chunk_run mem f (drop n buf @ x) t"
      by (simp add: chunk_run.simps [of mem f "buf @ x"])
    with 1 st Consumed show ?thesis by (simp add: chunk_run.simps [of mem f buf])
  qed (use 1(2) st in \<open>simp_all add: chunk_run.simps [of mem f buf]\<close>)
qed

lemma chunk_run_settled: "chunk_run mem f buf s = (s', rest, Inr ()) \<Longrightarrow> chunk_run mem f rest s' = (s', rest, Inr ())"
  using chunk_run_append [of mem f buf s s' rest "[]"] by simp

section \<open>The interface of the message handler\<close>

text \<open>
  A handler is a client of the receiving loop when it neither reads nor changes the loop's own
  state (the handlers of the sessions have no other way: the fields are private), does not touch the
  byte counter of the socket, and does nothing that depends on the counters but acknowledge.
\<close>
locale recv_client =
  fixes f :: "'a recv_handler"
  assumes framed: "f msg (frame ca b n s) = apfst (frame ca b n) (f msg s)"
    and counted: "\<exists>l' a'. f msg (ack_frame i l a s) = apfst (ack_frame i l' a') (f msg s)"
begin

lemma deliver_frame:
  "deliver (Some f) csid c m k (frame ca b n s) = apfst (frame ca b n) (deliver (Some f) csid c m k s)"
  by (simp add: deliver_def Let_def framed split: prod.splits)

lemma take_payload_frame:
  "take_payload mem (Some f) csid c pos data (frame ca b n s) =
   apfst (frame ca b n) (take_payload mem (Some f) csid c pos data s)"
  by (simp add: take_payload_def Let_def deliver_frame split: sum.split)

lemma chunk_step_frame:
  "chunk_step mem f buf (frame ca b n s) = apfst (frame ca b n) (chunk_step mem f buf s)"
  by (simp add: chunk_step_def Let_def next_chunk_def take_payload_frame split: option.split parsed.split)

lemma chunk_run_frame:
  "chunk_run mem f buf (frame ca b n s) = apfst (frame ca b n) (chunk_run mem f buf s)"
proof (induction buf arbitrary: s rule: measure_induct_rule [of length])
  case (less buf)
  obtain t r where st: "chunk_step mem f buf s = (t, r)" by fastforce
  then have fr: "chunk_step mem f buf (frame ca b n s) = (frame ca b n t, r)"
    by (simp add: chunk_step_frame)
  show ?case
  proof (cases r)
    case (Consumed k)
    with st have "length (drop k buf) < length buf" using chunk_step_Consumed by fastforce
    with less Consumed st fr show ?thesis by (simp add: chunk_run.simps [of mem f buf])
  qed (simp_all add: chunk_run.simps [of mem f buf] st fr)
qed

lemma deliver_ack_frame:
  "\<exists>l' a'. deliver (Some f) csid c m k (ack_frame i l a s) = apfst (ack_frame i l' a') (deliver (Some f) csid c m k s)"
proof -
  define m' where "m' = m\<lparr>chunk_stream_id := of_nat csid, timestamp := h_timestamp (chunk_message_header c),
     message_type_id := h_message_type_id (chunk_message_header c),
     message_stream_id := h_message_stream_id (chunk_message_header c)\<rparr>"
  obtain l' a' where "f m' (ack_frame i l a (put_stream csid (c\<lparr>rtmp_message := Some m'\<rparr>) s)) =
      apfst (ack_frame i l' a') (f m' (put_stream csid (c\<lparr>rtmp_message := Some m'\<rparr>) s))"
    using counted by blast
  then show ?thesis
    by (intro exI [of _ l'] exI [of _ a']) (simp add: deliver_def Let_def m'_def [symmetric] split: prod.splits)
qed

lemma take_payload_ack_frame:
  "\<exists>l' a'. take_payload mem (Some f) csid c pos data (ack_frame i l a s) =
     apfst (ack_frame i l' a') (take_payload mem (Some f) csid c pos data s)"
proof -
  have same: "\<exists>l' a'. ack_frame i l a t = ack_frame i l' a' t" for t :: "'a RtmpChunkProtocol_scheme" by blast
  show ?thesis by (auto simp: take_payload_def Let_def intro: same deliver_ack_frame split: sum.split)
qed

lemma chunk_step_ack_frame:
  "\<exists>l' a'. chunk_step mem f buf (ack_frame i l a s) = apfst (ack_frame i l' a') (chunk_step mem f buf s)"
proof -
  have same: "\<exists>l' a'. ack_frame i l a s = ack_frame i l' a' s" by blast
  have "next_chunk (ack_frame i l a s) csid = next_chunk s csid" for csid by (simp add: next_chunk_def)
  then show ?thesis
    by (auto simp: chunk_step_def Let_def intro: same take_payload_ack_frame split: option.split parsed.split)
qed

text \<open>The acknowledgements do not influence what is received.\<close>
lemma chunk_run_ack_frame:
  "\<exists>l' a'. chunk_run mem f buf (ack_frame i l a s) = apfst (ack_frame i l' a') (chunk_run mem f buf s)"
proof (induction buf arbitrary: l a s rule: measure_induct_rule [of length])
  case (less buf)
  obtain t r where st: "chunk_step mem f buf s = (t, r)" by fastforce
  then obtain l' a' where co: "chunk_step mem f buf (ack_frame i l a s) = (ack_frame i l' a' t, r)"
    using chunk_step_ack_frame [of mem buf i l a s] by auto
  show ?case
  proof (cases r)
    case (Consumed k)
    with st have "length (drop k buf) < length buf" using chunk_step_Consumed by fastforce
    from less [OF this, of l' a' t] Consumed st co show ?thesis by (simp add: chunk_run.simps [of mem f buf])
  qed (use st co in \<open>auto simp: chunk_run.simps [of mem f buf]\<close>)
qed

lemma process_refines:
  assumes "cache_clean (recv_chunk_cache s)"
  obtains ca where "cache_clean ca" and "process_recv_buffer mem (Some f) s =
    apfst (frame ca (recv_buffer s) (max_buf_bytes s)) (chunk_step mem f (recv_buffer s) s)"
proof (cases "basic_header (recv_buffer s)")
  case None
  with assms that [of "recv_chunk_cache s"] show ?thesis
    by (simp add: process_recv_buffer_clean [OF assms] chunk_step_def frame_self)
next
  case (Some r)
  obtain csid fmt pos where r: "r = (csid, fmt, pos)" by (cases r)
  let ?p = "parse_message_header fmt (rtmp_message (next_chunk s csid) = None)
     (map_option chunk_message_header (recv_chunk_streams s csid)) ChunkMessageHeader_clear (drop pos (recv_buffer s))"
  define ca where "ca = (case ?p of HOk h n \<Rightarrow> (recv_chunk_cache s)(csid := map_option (\<lambda>_. RtmpChunk_clear) (recv_chunk_streams s csid))
     | _ \<Rightarrow> (recv_chunk_cache s)(csid := None))"
  have fr: "s\<lparr>recv_chunk_cache := c\<rparr> = frame c (recv_buffer s) (max_buf_bytes s) s" for c
    by (simp add: frame_def)
  have "cache_clean ca"
    using assms by (auto simp: ca_def cache_clean_def split: parsed.splits)
  moreover have "process_recv_buffer mem (Some f) s =
      apfst (frame ca (recv_buffer s) (max_buf_bytes s)) (chunk_step mem f (recv_buffer s) s)"
    by (cases ?p) (simp_all add: process_recv_buffer_clean [OF assms] chunk_step_def Some r Let_def ca_def fr take_payload_frame)
  ultimately show ?thesis by (rule that)
qed

text \<open>The inner loop implements \<open>chunk_run\<close>.\<close>
lemma drain_refines:
  assumes "cache_clean (recv_chunk_cache s)" and "chunk_run mem f (recv_buffer s) s = (t, rest, r)"
  shows "\<exists>ca. cache_clean ca \<and> drain mem (Some f) s = (frame ca rest (max_buf_bytes s) t, r)"
  using assms
proof (induction "recv_buffer s" arbitrary: s t rule: measure_induct_rule [of length])
  case less
  note run = less.prems(2) [unfolded chunk_run.simps [of mem f "recv_buffer s" s]]
  obtain ca where ca: "cache_clean ca" and pr: "process_recv_buffer mem (Some f) s =
      apfst (frame ca (recv_buffer s) (max_buf_bytes s)) (chunk_step mem f (recv_buffer s) s)"
    using process_refines [OF less.prems(1)] by blast
  obtain t' q where st: "chunk_step mem f (recv_buffer s) s = (t', q)" by fastforce
  show ?case
  proof (cases q)
    case (Consumed k)
    let ?u = "frame ca (drop k (recv_buffer s)) (max_buf_bytes s) t'"
    have k: "0 < k" "k \<le> length (recv_buffer s)" using chunk_step_Consumed st Consumed by blast+
    then have "length (recv_buffer ?u) < length (recv_buffer s)" by simp
    moreover have "chunk_run mem f (recv_buffer ?u) ?u = (frame ca (drop k (recv_buffer s)) (max_buf_bytes s) t, rest, r)"
      using run st Consumed by (simp add: chunk_run_frame)
    ultimately obtain ca' where "cache_clean ca'" "drain mem (Some f) ?u = (frame ca' rest (max_buf_bytes s) t, r)"
      using less.hyps [of ?u] ca by fastforce
    moreover have "drain mem (Some f) s = drain mem (Some f) ?u"
      using pr st Consumed k by (simp add: drain.simps [of mem "Some f" s])
    ultimately show ?thesis by auto
  qed (use ca run st pr in \<open>auto simp: drain.simps [of mem "Some f" s]\<close>)
qed

text \<open>
  Whatever the sizes of the reads, the loop has done what one run over the delivered bytes does, up to the
  acknowledgements, and has counted the bytes.
\<close>
lemma cycle_refines:
  assumes "cache_clean (recv_chunk_cache s)" and "chunk_run mem f (recv_buffer s) s = (s, recv_buffer s, Inr ())"
    and "cycle_recv_rtmp_message mem f ks wire s = (s', wire', r)" and "r \<noteq> Inl (Rc (-3))"
  shows "\<exists>d ca n t rest l a. wire = d @ wire' \<and> cache_clean ca \<and>
    chunk_run mem f (recv_buffer s @ d) s = (t, rest, r) \<and>
    s' = ack_frame (conn_in_bytes s + length d) l a (frame ca rest n t)"
  using assms
proof (induction ks arbitrary: s wire)
  case Nil
  then have "chunk_run mem f (recv_buffer s @ []) s = (s, recv_buffer s, r)" "wire = [] @ wire'"
    "s' = ack_frame (conn_in_bytes s + length []) (last_ack_bytes s) (sent_acks s)
       (frame (recv_chunk_cache s) (recv_buffer s) (max_buf_bytes s) s)"
    by (simp_all add: frame_self ack_frame_self)
  with Nil(1) show ?case by blast
next
  case (Cons k ks)
  define cap where "cap = (if max_buf_bytes s \<le> length (recv_buffer s) then max_buf_bytes s * 2 else max_buf_bytes s)"
  define n where "n = min k (cap - length (recv_buffer s))"
  define i where "i = conn_in_bytes s + length (take n wire)"
  define s1 where "s1 = ack_frame i (last_ack_bytes s) (sent_acks s)
    (frame (recv_chunk_cache s) (recv_buffer s @ take n wire) cap s)"
  have s1: "s\<lparr>max_buf_bytes := cap, recv_buffer := recv_buffer s @ take n wire,
      conn_in_bytes := conn_in_bytes s + length (take n wire)\<rparr> = s1"
    by (simp add: s1_def i_def frame_def ack_frame_def)
  have cyc: "(case drain mem (Some f) s1 of (s2, Inl e) \<Rightarrow> (s2, drop n wire, Inl e)
      | (s2, Inr _) \<Rightarrow> cycle_recv_rtmp_message mem f ks (drop n wire) s2) = (s', wire', r)"
    using Cons.prems(3,4) unfolding cycle_recv_rtmp_message.simps Let_def cap_def [symmetric] n_def [symmetric] s1
    by (auto split: if_splits)
  obtain t rest q where run: "chunk_run mem f (recv_buffer s @ take n wire) s = (t, rest, q)"
    using prod_cases3 by blast
  obtain l1 a1 where run1: "chunk_run mem f (recv_buffer s1) s1 =
      (ack_frame i l1 a1 (frame (recv_chunk_cache s) (recv_buffer s @ take n wire) cap t), rest, q)"
    using chunk_run_ack_frame [of mem "recv_buffer s1" i "last_ack_bytes s" "sent_acks s"
      "frame (recv_chunk_cache s) (recv_buffer s @ take n wire) cap s"] run
    by (auto simp: s1_def chunk_run_frame)
  obtain ca where ca: "cache_clean ca" and dr: "drain mem (Some f) s1 = (ack_frame i l1 a1 (frame ca rest cap t), q)"
    using drain_refines [OF _ run1] Cons.prems(1) by (auto simp: s1_def)
  show ?case
  proof (cases q)
    case (Inl e)
    with cyc dr have "s' = ack_frame i l1 a1 (frame ca rest cap t)" "wire = take n wire @ wire'" "r = q" by auto
    with run ca show ?thesis unfolding i_def by blast
  next
    case (Inr u)
    then have q: "q = Inr ()" by simp
    let ?s2 = "ack_frame i l1 a1 (frame ca rest cap t)"
    have fr: "?s2 = frame ca rest cap (ack_frame i l1 a1 (frame (recv_chunk_cache s) (recv_buffer s @ take n wire) cap t))"
      by simp
    have set2: "chunk_run mem f (recv_buffer ?s2) ?s2 = (?s2, recv_buffer ?s2, Inr ())"
      using chunk_run_settled [OF run1 [unfolded q]] unfolding fr by (simp only: chunk_run_frame) simp
    from cyc dr q have "cycle_recv_rtmp_message mem f ks (drop n wire) ?s2 = (s', wire', r)" by simp
    from Cons.IH [OF _ set2 this Cons.prems(4)] ca
    obtain d ca' n' t' rest' l a where d: "drop n wire = d @ wire'" "cache_clean ca'"
      "chunk_run mem f (rest @ d) ?s2 = (t', rest', r)" "s' = ack_frame (i + length d) l a (frame ca' rest' n' t')" by auto
    obtain u l' a' where u: "chunk_run mem f (rest @ d) t = (u, rest', r)" "t' = ack_frame i l' a' (frame ca rest cap u)"
      using d(3) chunk_run_ack_frame [of mem "rest @ d" i l1 a1 "frame ca rest cap t"]
      by (cases "chunk_run mem f (rest @ d) t") (auto simp: chunk_run_frame)
    have "chunk_run mem f (recv_buffer s @ take n wire @ d) s = (u, rest', r)"
      using chunk_run_append [of mem f "recv_buffer s @ take n wire" s t rest d] run q u(1) by simp
    moreover have "wire = (take n wire @ d) @ wire'" using d(1) by (metis append.assoc append_take_drop_id)
    moreover have "s' = ack_frame (conn_in_bytes s + length (take n wire @ d)) l a (frame ca' rest' n' u)"
      using d(4) u(2) by (simp add: i_def add.assoc)
    ultimately show ?thesis using d(2) by blast
  qed
qed

end

section \<open>The handler of a session\<close>

text \<open>
  The acknowledgement that precedes the dispatch: when the bytes received since the last one fill the window of the
  peer, the count of all received bytes is sent and remembered. Sending hands the message to the
  sending coroutine and returns true whatever becomes of it there; false is left for a message that cannot be
  encoded. The memory of the new message is overwritten whole (\<open>acknowledge_encode_mem\<close>).
\<close>
definition send_acknowledge_msg_if_required :: "'a RtmpChunkProtocol_scheme \<Rightarrow> 'a RtmpChunkProtocol_scheme \<times> bool" where
  "send_acknowledge_msg_if_required s =
     (let delta = int (conn_in_bytes s) - int (last_ack_bytes s) in
      if int (in_window_acknowledge_size s) \<le> delta
      then case RtmpAcknwledgeMessage_encode (\<lambda>_. 0) (of_nat (conn_in_bytes s)) of
             Inl _ \<Rightarrow> (s, False)
           | Inr ack_msg \<Rightarrow> (s\<lparr>sent_acks := sent_acks s @ [ack_msg], last_ack_bytes := conn_in_bytes s\<rparr>, True)
      else (s, True))"

text \<open>
  The dispatch of a session: the acknowledgement, then protocol control messages change the chunk layer, and every other
  message goes to the session, whose own handlers \<open>app\<close> act on its state only. The time of the last activity, which only
  the watchdog timer of a publisher reads, is not kept.
\<close>
definition dispatch_rtmp_message :: "(RtmpMessage \<Rightarrow> 'a \<Rightarrow> 'a \<times> bool) \<Rightarrow> 'a recv_handler" where
  "dispatch_rtmp_message app rtmp_msg s = (case send_acknowledge_msg_if_required s of
       (s, False) \<Rightarrow> (s, False)
     | (s, True) \<Rightarrow>
         if is_protocol_control_message rtmp_msg then handle_protocol_control_message rtmp_msg s
         else case app rtmp_msg (RtmpChunkProtocol.more s) of (v, ret) \<Rightarrow> (RtmpChunkProtocol.more_update (\<lambda>_. v) s, ret))"

lemma acknowledge_encode_mem: "RtmpAcknwledgeMessage_encode mem n = RtmpAcknwledgeMessage_encode mem' n"
  by (simp add: RtmpAcknwledgeMessage_encode_def build_message_def write_unused_def RtmpMessage_new_def inc_used_bytes_def)

text \<open>What the acknowledgement step changes; it never ends the session.\<close>
lemma send_acknowledge_ack_frame:
  "\<exists>l a. send_acknowledge_msg_if_required s = (ack_frame (conn_in_bytes s) l a s, True)"
proof -
  obtain m where m: "RtmpAcknwledgeMessage_encode (\<lambda>_. 0) (of_nat (conn_in_bytes s)) = Inr m"
    using acknowledge_message_built by blast
  show ?thesis
  proof (cases "int (in_window_acknowledge_size s) \<le> int (conn_in_bytes s) - int (last_ack_bytes s)")
    case True
    then show ?thesis
      by (intro exI [of _ "conn_in_bytes s"] exI [of _ "sent_acks s @ [m]"])
         (simp add: send_acknowledge_msg_if_required_def m ack_frame_def)
  next
    case False
    then show ?thesis
      by (intro exI [of _ "last_ack_bytes s"] exI [of _ "sent_acks s"])
         (simp add: send_acknowledge_msg_if_required_def ack_frame_self)
  qed
qed

text \<open>The state after the acknowledgement.\<close>
definition acknowledged :: "'a RtmpChunkProtocol_scheme \<Rightarrow> 'a RtmpChunkProtocol_scheme" where
  "acknowledged s = fst (send_acknowledge_msg_if_required s)"

lemma send_acknowledge_eq: "send_acknowledge_msg_if_required s = (acknowledged s, True)"
  using send_acknowledge_ack_frame [of s] by (auto simp: acknowledged_def)

lemma acknowledged_simps [simp]:
  "recv_chunk_streams (acknowledged s) = recv_chunk_streams s" "in_chunk_size (acknowledged s) = in_chunk_size s"
  "RtmpChunkProtocol.more (acknowledged s) = RtmpChunkProtocol.more s"
  using send_acknowledge_ack_frame [of s] by (auto simp: acknowledged_def ack_frame_def)

lemma acknowledged_commutes [simp]:
  "acknowledged (frame ca b n s) = frame ca b n (acknowledged s)"
  "acknowledged (s\<lparr>recv_chunk_streams := st\<rparr>) = (acknowledged s)\<lparr>recv_chunk_streams := st\<rparr>"
  "acknowledged (put_stream csid c s) = put_stream csid c (acknowledged s)"
  by (simp_all add: acknowledged_def send_acknowledge_msg_if_required_def frame_def put_stream_def split: sum.split)

lemma acknowledged_frame: "\<exists>l' a'. acknowledged (ack_frame i l a s) = ack_frame i l' a' (acknowledged s)"
  using send_acknowledge_ack_frame [of s] send_acknowledge_ack_frame [of "ack_frame i l a s"]
  by (auto simp: acknowledged_def) blast

lemma handle_protocol_control_message_ack_frame:
  "handle_protocol_control_message msg (ack_frame i l a s) = apfst (ack_frame i l a) (handle_protocol_control_message msg s)"
  by (auto simp: handle_protocol_control_message_def handle_set_chunk_size_def handle_abort_def
      handle_window_acknowledge_size_def ack_frame_def split: sum.splits)

lemma handle_protocol_control_message_frame:
  "handle_protocol_control_message msg (frame ca b n s) = apfst (frame ca b n) (handle_protocol_control_message msg s)"
  by (auto simp: handle_protocol_control_message_def handle_set_chunk_size_def handle_abort_def
      handle_window_acknowledge_size_def frame_def split: sum.splits)

interpretation session_dispatch: recv_client "dispatch_rtmp_message app" for app :: "RtmpMessage \<Rightarrow> 'a \<Rightarrow> 'a \<times> bool"
proof
  fix msg ca b n and s :: "'a RtmpChunkProtocol_scheme" and i l a
  show "dispatch_rtmp_message app msg (frame ca b n s) = apfst (frame ca b n) (dispatch_rtmp_message app msg s)"
    by (simp add: dispatch_rtmp_message_def send_acknowledge_eq handle_protocol_control_message_frame)
       (simp add: frame_def split: prod.splits)
  obtain l' a' where "acknowledged (ack_frame i l a s) = ack_frame i l' a' (acknowledged s)"
    using acknowledged_frame by blast
  then have "dispatch_rtmp_message app msg (ack_frame i l a s) = apfst (ack_frame i l' a') (dispatch_rtmp_message app msg s)"
    by (simp add: dispatch_rtmp_message_def send_acknowledge_eq handle_protocol_control_message_ack_frame)
       (simp add: ack_frame_def split: prod.splits)
  then show "\<exists>l' a'. dispatch_rtmp_message app msg (ack_frame i l a s) =
      apfst (ack_frame i l' a') (dispatch_rtmp_message app msg s)" by blast
qed


section \<open>Memory safety\<close>

text \<open>
  The invariant of a receiving stream: the announced length has 24 bits, and the message under
  construction has a buffer of exactly that length.
\<close>
definition chunk_ok :: "RtmpChunk \<Rightarrow> bool" where
  "chunk_ok c \<longleftrightarrow> unat (h_message_length (chunk_message_header c)) < 2 ^ 24 \<and>
     (case rtmp_message c of None \<Rightarrow> True
      | Some m \<Rightarrow> packet_ok m \<and> length (data_buf m) = unat (h_message_length (chunk_message_header c)))"

definition streams_ok :: "'a RtmpChunkProtocol_scheme \<Rightarrow> bool" where
  "streams_ok s \<longleftrightarrow> (\<forall>csid c. recv_chunk_streams s csid = Some c \<longrightarrow> chunk_ok c)"

text \<open>
  A header inside a message, when it carries a length, repeats the one the message started with.
\<close>
definition length_agrees :: "'a RtmpChunkProtocol_scheme \<Rightarrow> bool" where
  "length_agrees s \<longleftrightarrow> (case basic_header (recv_buffer s) of None \<Rightarrow> True
     | Some (csid, fmt, pos) \<Rightarrow> (case recv_chunk_streams s csid of None \<Rightarrow> True
         | Some p \<Rightarrow> rtmp_message p = None \<or> fmt \<ge> 2 \<or>
             get_be (take 3 (drop (pos + 3) (recv_buffer s))) = h_message_length (chunk_message_header p)))"

lemma streams_okD: "streams_ok s \<Longrightarrow> recv_chunk_streams s csid = Some c \<Longrightarrow> chunk_ok c"
  by (simp add: streams_ok_def)

lemma streams_ok_simps [simp]:
  "streams_ok (frame ca b n s) = streams_ok s"
  "streams_ok s \<Longrightarrow> chunk_ok c \<Longrightarrow> streams_ok (put_stream csid c s)"
  by (auto simp: streams_ok_def)

lemma unat_get_be3: "length bs \<le> 3 \<Longrightarrow> unat (get_be bs :: u32) < 2 ^ 24"
proof -
  assume "length bs \<le> 3"
  then have "be_nat bs < 256 ^ length bs" "(256::nat) ^ length bs \<le> 256 ^ 3"
    using power_increasing [of "length bs" 3 "256::nat"] by (auto intro: be_nat_bound)
  with \<open>length bs \<le> 3\<close> show ?thesis by (simp add: unat_get_be)
qed

lemma parse_type_length:
  "parse_type0 h0 data = HOk h n \<Longrightarrow> h_message_length h = set_low3 (h_message_length h0) (take 3 (drop 3 data))"
  "parse_type1 first prev h0 data = HOk h n \<Longrightarrow> h_message_length h = set_low3 (h_message_length h0) (take 3 (drop 3 data))"
  "parse_type2 first prev h0 data = HOk h n \<Longrightarrow> \<exists>p. prev = Some p \<and> h_message_length h = h_message_length p"
  "parse_type3 prev h0 = HOk h n \<Longrightarrow> \<exists>p. prev = Some p \<and> h_message_length h = h_message_length p"
  by (auto simp: parse_type0_def parse_type1_def parse_type2_def parse_type3_def apply_delta_def Let_def
      split: if_split_asm option.splits)

lemma parse_message_header_length:
  assumes "parse_message_header fmt first prev ChunkMessageHeader_clear data = HOk h n"
  shows "if fmt \<le> 1 then h_message_length h = get_be (take 3 (drop 3 data))
         else \<exists>p. prev = Some p \<and> h_message_length h = h_message_length p"
proof -
  have "fmt = 0 \<or> fmt = 1 \<or> fmt = 2 \<or> fmt > 2" by arith
  with assms show ?thesis
    by (auto simp: parse_message_header_def ChunkMessageHeader_clear_def Let_def dest!: parse_type_length)
qed

lemma sint_small: "unat (w :: u32) < 2 ^ 24 \<Longrightarrow> sint w = int (unat w)"
proof -
  assume "unat w < 2 ^ 24"
  then have "int (unat w) < int (2 ^ 24)" by (simp only: of_nat_less_iff)
  moreover have "int (unat w) = uint w" by simp
  ultimately have "uint w < 2 ^ 31" by simp
  moreover have "- (2 ^ 31) \<le> uint w" by (rule order_trans [of _ 0]) simp_all
  ultimately show ?thesis by (simp add: sint_uint signed_take_bit_int_eq_self)
qed

definition handler_safe :: "'a recv_handler \<Rightarrow> bool" where
  "handler_safe f \<longleftrightarrow> (\<forall>msg s. streams_ok s \<longrightarrow> streams_ok (fst (f msg s)))"

lemma deliver_safe:
  assumes "streams_ok s" and "handler_safe f" and "chunk_ok c" and "rtmp_message c = Some m"
  shows "snd (deliver (Some f) csid c m k s) \<noteq> MemFault \<and> streams_ok (fst (deliver (Some f) csid c m k s))"
proof -
  define m' where "m' = m\<lparr>chunk_stream_id := of_nat csid, timestamp := h_timestamp (chunk_message_header c),
     message_type_id := h_message_type_id (chunk_message_header c),
     message_stream_id := h_message_stream_id (chunk_message_header c)\<rparr>"
  have "chunk_ok (c\<lparr>rtmp_message := Some m'\<rparr>)"
    using assms(3,4) by (simp add: chunk_ok_def m'_def packet_ok_def)
  then have "streams_ok (fst (f m' (put_stream csid (c\<lparr>rtmp_message := Some m'\<rparr>) s)))"
    using assms(1,2) by (simp add: handler_safe_def)
  then show ?thesis
    by (auto simp: deliver_def Let_def m'_def [symmetric] streams_ok_def chunk_ok_def split: prod.splits if_splits)
qed

lemma deliver_put_stream [simp]:
  "deliver f csid c m k (put_stream csid c' s) = deliver f csid c m k s"
  by (simp add: deliver_def Let_def split: option.split)

text \<open>
  The payload step with a buffer of the announced length: no copy leaves the buffer, and the
  check of the message size at its end never applies.
\<close>
definition append_payload :: "bytes \<Rightarrow> RtmpMessage \<Rightarrow> RtmpMessage" where
  "append_payload bs m = inc_used_bytes (length bs) (m\<lparr>data_buf := take (using_bytes m) (data_buf m) @ bs @
     drop (using_bytes m + length bs) (data_buf m)\<rparr>)"

definition chunk_message :: "(nat \<Rightarrow> byte) \<Rightarrow> RtmpChunk \<Rightarrow> RtmpMessage" where
  "chunk_message mem c = (case rtmp_message c of Some m \<Rightarrow> m
     | None \<Rightarrow> RtmpMessage_new mem (unat (h_message_length (chunk_message_header c))))"

lemma chunk_message_ok:
  "chunk_ok c \<Longrightarrow> packet_ok (chunk_message mem c) \<and>
     length (data_buf (chunk_message mem c)) = unat (h_message_length (chunk_message_header c))"
  by (auto simp: chunk_ok_def chunk_message_def split: option.splits)

lemma append_payload_ok:
  "packet_ok m \<Longrightarrow> using_bytes m + length bs \<le> length (data_buf m) \<Longrightarrow>
   packet_ok (append_payload bs m) \<and> length (data_buf (append_payload bs m)) = length (data_buf m) \<and>
   using_bytes (append_payload bs m) = using_bytes m + length bs"
  by (simp add: append_payload_def inc_used_bytes_def packet_ok_def)

lemma take_payload_eq:
  assumes "chunk_ok c" and L: "L = unat (h_message_length (chunk_message_header c))" "L < MAX_RTMP_BUF_BYTES"
    and "0 \<le> in_chunk_size s" and m: "m = chunk_message mem c"
    and k: "k = min (nat (in_chunk_size s)) (L - using_bytes m)"
  shows "take_payload mem f csid c pos data s =
    (if length data < k then (put_stream csid (c\<lparr>rtmp_message := Some m\<rparr>) s, NeedMore)
     else let m' = append_payload (take k data) m in
       if using_bytes m + k = L then deliver f csid (c\<lparr>rtmp_message := Some m'\<rparr>) m' (pos + k) s
       else (put_stream csid (c\<lparr>rtmp_message := Some m'\<rparr>) s, Consumed (pos + k)))"
proof -
  have mo: "packet_ok m" "length (data_buf m) = L" using chunk_message_ok [OF assms(1)] L m by simp_all
  then have u: "using_bytes m \<le> L" by (simp add: packet_ok_def)
  have len: "sint (h_message_length (chunk_message_header c)) = int L"
    using L by (simp add: sint_small)
  have min: "min (in_chunk_size s) (int L - int (using_bytes m)) = int k"
    using u assms(4) by (simp add: k of_nat_min of_nat_diff)
  note unfold = take_payload_def m [unfolded chunk_message_def, symmetric] len Let_def min
  show ?thesis
  proof (cases "length data < k")
    case False
    have "using_bytes m + k \<le> length (data_buf m)" using u mo k by simp
    with False have "write_unused (take k data) m = Inr (m\<lparr>data_buf := take (using_bytes m) (data_buf m) @ take k data @
        drop (using_bytes m + k) (data_buf m)\<rparr>)"
      by (simp add: write_unused_def)
    moreover have "inc_used_bytes k (m\<lparr>data_buf := take (using_bytes m) (data_buf m) @ take k data @
        drop (using_bytes m + k) (data_buf m)\<rparr>) = append_payload (take k data) m"
      using False by (simp add: append_payload_def)
    moreover have "using_bytes (append_payload (take k data) m) = using_bytes m + k"
      "length (data_buf (append_payload (take k data) m)) < MAX_RTMP_BUF_BYTES"
      using append_payload_ok [of m "take k data"] \<open>using_bytes m + k \<le> _\<close> mo L(2) False by simp_all
    ultimately show ?thesis using False L(2)
      by (simp add: unfold get_total_data_def del: min_less_iff_conj cong: if_cong)
  qed (use L(2) in \<open>simp add: unfold del: min_less_iff_conj\<close>)
qed

lemma take_payload_safe:
  assumes "streams_ok s" and "handler_safe f" and "chunk_ok c" and "0 \<le> in_chunk_size s"
  shows "snd (take_payload mem (Some f) csid c pos data s) \<noteq> MemFault \<and>
    streams_ok (fst (take_payload mem (Some f) csid c pos data s))"
proof (cases "unat (h_message_length (chunk_message_header c)) < MAX_RTMP_BUF_BYTES")
  case False
  then have "take_payload mem (Some f) csid c pos data s = (put_stream csid c s, Failed (-14))"
  proof -
    have "sint (h_message_length (chunk_message_header c)) = int (unat (h_message_length (chunk_message_header c)))"
      using assms(3) by (intro sint_small) (simp add: chunk_ok_def)
    then have "int MAX_RTMP_BUF_BYTES \<le> sint (h_message_length (chunk_message_header c))"
      using False by linarith
    then show ?thesis by (simp add: take_payload_def Let_def)
  qed
  with assms show ?thesis by simp
next
  case True
  let ?m = "chunk_message mem c"
  define k where "k = min (nat (in_chunk_size s)) (unat (h_message_length (chunk_message_header c)) - using_bytes ?m)"
  have mo: "packet_ok ?m" "length (data_buf ?m) = unat (h_message_length (chunk_message_header c))"
    using chunk_message_ok [OF assms(3)] by simp_all
  then have c1: "chunk_ok (c\<lparr>rtmp_message := Some ?m\<rparr>)" using assms(3) by (simp add: chunk_ok_def)
  have "using_bytes ?m + k \<le> length (data_buf ?m)" using mo by (simp add: k_def packet_ok_def)
  then have "chunk_ok (c\<lparr>rtmp_message := Some (append_payload (take k data) ?m)\<rparr>)"
    using append_payload_ok [of ?m "take k data"] assms(3) mo by (simp add: chunk_ok_def)
  with c1 assms deliver_safe [of s f "c\<lparr>rtmp_message := Some (append_payload (take k data) ?m)\<rparr>"]
  show ?thesis
    by (simp add: take_payload_eq [OF assms(3) refl True assms(4) refl k_def] Let_def)
qed

lemma handler_safe_dispatch: "handler_safe (dispatch_rtmp_message app)"
proof -
  have "streams_ok (fst (handle_protocol_control_message msg s))" if "streams_ok s" for msg and s :: "'a RtmpChunkProtocol_scheme"
    using that
    by (simp add: handle_protocol_control_message_def handle_set_chunk_size_def handle_abort_def
        handle_window_acknowledge_size_def streams_ok_def split: sum.split prod.split)
  moreover have "streams_ok (acknowledged s)" if "streams_ok s" for s :: "'a RtmpChunkProtocol_scheme"
    using that by (simp add: streams_ok_def)
  moreover have "streams_ok (RtmpChunkProtocol.more_update g s) = streams_ok s" for g and s :: "'a RtmpChunkProtocol_scheme"
    by (simp add: streams_ok_def)
  ultimately show ?thesis
    by (simp add: handler_safe_def dispatch_rtmp_message_def send_acknowledge_eq split: prod.split)
qed

lemma next_chunk_ok:
  assumes "streams_ok s" and "length_agrees s" and bh: "basic_header (recv_buffer s) = Some (csid, fmt, pos)"
    and p: "parse_message_header fmt first (map_option chunk_message_header (recv_chunk_streams s csid))
      ChunkMessageHeader_clear (drop pos (recv_buffer s)) = HOk h n"
  shows "chunk_ok ((next_chunk s csid)\<lparr>chunk_message_header := h\<rparr>)"
proof -
  have len: "unat (h_message_length h) < 2 ^ 24"
    using parse_message_header_length [OF p] assms(1)
    by (auto simp: unat_get_be3 [simplified] streams_ok_def chunk_ok_def split: if_splits)
  show ?thesis
  proof (cases "Option.bind (recv_chunk_streams s csid) rtmp_message")
    case None
    with len show ?thesis by (simp add: chunk_ok_def next_chunk_def)
  next
    case (Some m)
    then obtain c where c: "recv_chunk_streams s csid = Some c" "rtmp_message c = Some m"
      by (auto simp: Option.bind_eq_Some_conv)
    have "h_message_length h = h_message_length (chunk_message_header c)"
      using parse_message_header_length [OF p] assms(2) bh c
      by (auto simp: length_agrees_def add.commute split: if_splits)
    with streams_okD [OF assms(1) c(1)] c Some show ?thesis
      by (simp add: chunk_ok_def next_chunk_def)
  qed
qed

lemma chunk_step_safe:
  assumes "streams_ok s" and "length_agrees s" and "handler_safe f" and "0 \<le> in_chunk_size s"
  shows "snd (chunk_step mem f (recv_buffer s) s) \<noteq> MemFault \<and> streams_ok (fst (chunk_step mem f (recv_buffer s) s))"
  using assms take_payload_safe [OF assms(1,3) next_chunk_ok [OF assms(1,2)] assms(4)]
  by (auto simp: chunk_step_def Let_def split: option.splits parsed.splits)

section \<open>Chunks of type 0\<close>

lemma basic_header_fields:
  "unat (w AND 0x3f :: byte) = unat w mod 64" "unat (drop_bit 6 w AND 0x03 :: byte) = unat w div 64"
proof -
  have "w AND 0x3f = take_bit 6 w" by (simp add: take_bit_eq_mask mask_eq_exp_minus_1)
  then show "unat (w AND 0x3f :: byte) = unat w mod 64"
    by (simp add: take_bit_eq_mod unat_mod)
  have "drop_bit 6 w AND 0x03 = take_bit 2 (drop_bit 6 w)" by (simp add: take_bit_eq_mask mask_eq_exp_minus_1)
  moreover have "unat w div 64 < 4" using unat_byte_less [of w] by linarith
  ultimately show "unat (drop_bit 6 w AND 0x03 :: byte) = unat w div 64"
    by (simp add: take_bit_eq_mod drop_bit_eq_div unat_mod unat_div)
qed

lemma basic_header_one: "2 \<le> csid \<Longrightarrow> csid < 64 \<Longrightarrow> basic_header (of_nat csid # rest) = Some (csid, 0, 1)"
  by (simp add: basic_header_def Let_def basic_header_fields unat_of_nat)

text \<open>A type 0 chunk with a short basic header and a plain timestamp.\<close>
definition type0_chunk :: "nat \<Rightarrow> nat \<Rightarrow> nat \<Rightarrow> byte \<Rightarrow> nat \<Rightarrow> bytes \<Rightarrow> bytes" where
  "type0_chunk csid ts len mtype msid data = of_nat csid # nat_be 3 ts @ nat_be 3 len @ [mtype] @ nat_be 4 msid @ data"

definition type0_header :: "nat \<Rightarrow> nat \<Rightarrow> byte \<Rightarrow> nat \<Rightarrow> ChunkMessageHeader" where
  "type0_header ts len mtype msid = \<lparr>h_fmt = 0, h_timestamp_delta = 0, h_timestamp = of_nat ts,
     h_message_length = of_nat len, h_message_type_id = mtype, h_message_stream_id = of_nat msid\<rparr>"

lemma sint_of_nat_small: "n < 2 ^ 24 \<Longrightarrow> sint (of_nat n :: u32) = int n"
  by (simp add: sint_small unat_of_nat)

lemma type0_chunk_parse:
  assumes "ts < 0xffffff" and "len < 2 ^ 24" and "msid < 2 ^ 32"
  shows "parse_message_header 0 first prev ChunkMessageHeader_clear (drop 1 (type0_chunk csid ts len mtype msid data)) =
      HOk (type0_header ts len mtype msid) 11"
    "drop (1 + 11) (type0_chunk csid ts len mtype msid data) = data"
proof -
  have "be_nat (nat_be 3 ts) = ts" "be_nat (nat_be 3 len) = len" "be_nat (nat_be 4 msid) = msid"
    using assms by (simp_all add: be_nat_nat_be)
  then show "parse_message_header 0 first prev ChunkMessageHeader_clear (drop 1 (type0_chunk csid ts len mtype msid data)) =
      HOk (type0_header ts len mtype msid) 11"
    using assms(1) sint_of_nat_small [of ts]
    by (simp add: type0_chunk_def parse_message_header_def parse_type0_def Let_def type0_header_def nth_append
        ChunkMessageHeader_clear_def get_be_def)
qed (simp add: type0_chunk_def)

lemma process_type0_chunk:
  assumes "cache_clean (recv_chunk_cache s)" and "2 \<le> csid" "csid < 64"
    and buf: "recv_buffer s = type0_chunk csid ts len mtype msid data"
    and len: "ts < 0xffffff" "len < 2 ^ 24" "msid < 2 ^ 32"
  shows "\<exists>t. in_chunk_size t = in_chunk_size s \<and> process_recv_buffer mem handler s =
    take_payload mem handler csid ((next_chunk s csid)\<lparr>chunk_message_header := type0_header ts len mtype msid\<rparr>) 12 data t"
proof -
  have bh: "basic_header (recv_buffer s) = Some (csid, 0, 1)"
    unfolding buf type0_chunk_def by (rule basic_header_one [OF assms(2,3)])
  let ?t = "s\<lparr>recv_chunk_cache := (recv_chunk_cache s)(csid := map_option (\<lambda>_. RtmpChunk_clear) (recv_chunk_streams s csid))\<rparr>"
  have "process_recv_buffer mem handler s = take_payload mem handler csid
      ((next_chunk s csid)\<lparr>chunk_message_header := type0_header ts len mtype msid\<rparr>) 12 data ?t"
    using type0_chunk_parse [OF len]
    by (simp add: process_recv_buffer_clean [OF assms(1)] bh [unfolded buf] buf)
  then show ?thesis by (intro exI [of _ ?t]) simp
qed

section \<open>Properties\<close>


text \<open>
  A message of two chunks, cut into five reads that split headers and payloads, received with a small window: the
  acknowledgement is sent when the message is complete.
\<close>
definition two_chunks :: bytes where
  "two_chunks = [4, 0, 0, 9, 0, 0, 3, 9, 1, 0, 0, 0, 7, 8, 0xc4, 5]"

definition small_receiver :: "RtmpMessage list RtmpChunkProtocol_scheme" where
  "small_receiver = (RtmpChunkProtocol.extend RtmpChunkProtocol_new [])\<lparr>in_chunk_size := 2, in_window_acknowledge_size := 12\<rparr>"

lemmas receive_eval = drain.simps process_recv_buffer_def basic_header_def parse_message_header_def parse_type0_def
  parse_type3_def ChunkMessageHeader_clear_def RtmpChunk_clear_def take_payload_def RtmpMessage_new_def write_unused_def
  inc_used_bytes_def deliver_def dispatch_rtmp_message_def put_stream_def get_total_data_def
  send_acknowledge_msg_if_required_def RtmpAcknwledgeMessage_encode_def is_protocol_control_message_def
  build_message_def get_be_def put_be_def be_nat_def nat_be_numeral upt_rec


text \<open>
  C22. The cache of chunk objects is invisible: as long as it holds cleared chunks only, one call
  of the receive routine does what the cache-free specification does, and leaves the cache clean.
\<close>
theorem chunk_cache_transparent:
  assumes "cache_clean (recv_chunk_cache s)"
  shows "\<exists>ca. cache_clean ca \<and> process_recv_buffer mem (Some (dispatch_rtmp_message app)) s =
    apfst (frame ca (recv_buffer s) (max_buf_bytes s)) (chunk_step mem (dispatch_rtmp_message app) (recv_buffer s) s)"
  using session_dispatch.process_refines [OF assms] by metis

text \<open>
  C6. Receiving is memory safe while the peer is consistent: with a chunk size that is not negative and with
  headers that, inside a message, repeat the length the message started with, no copy
  leaves the message buffer, and the invariant of the streams (buffers of the announced length, used
  bytes inside them) is kept, on every outcome.
\<close>
theorem receive_memory_safe:
  assumes "cache_clean (recv_chunk_cache s)" and "streams_ok s" and "length_agrees s" and "0 \<le> in_chunk_size s"
  shows "snd (process_recv_buffer mem (Some (dispatch_rtmp_message app)) s) \<noteq> MemFault \<and>
    streams_ok (fst (process_recv_buffer mem (Some (dispatch_rtmp_message app)) s))"
proof -
  obtain ca where "process_recv_buffer mem (Some (dispatch_rtmp_message app)) s =
    apfst (frame ca (recv_buffer s) (max_buf_bytes s)) (chunk_step mem (dispatch_rtmp_message app) (recv_buffer s) s)"
    using session_dispatch.process_refines [OF assms(1)] by metis
  with chunk_step_safe [OF assms(2,3) handler_safe_dispatch assms(4)] show ?thesis
    by simp
qed


theorem chunk_cache_transparent_witness:
  "cache_clean (recv_chunk_cache RtmpChunkProtocol_new) \<and>
   (\<exists>ca. cache_clean ca \<and> process_recv_buffer (\<lambda>_. 0) (Some (dispatch_rtmp_message (\<lambda>_ v. (v, True)))) RtmpChunkProtocol_new =
    apfst (frame ca (recv_buffer RtmpChunkProtocol_new) (max_buf_bytes RtmpChunkProtocol_new))
      (chunk_step (\<lambda>_. 0) (dispatch_rtmp_message (\<lambda>_ v. (v, True))) (recv_buffer RtmpChunkProtocol_new) RtmpChunkProtocol_new))"
  using chunk_cache_transparent [OF cache_clean_new] cache_clean_new by blast

theorem receive_memory_safe_witness:
  "snd (process_recv_buffer (\<lambda>_. 0) (Some (dispatch_rtmp_message (\<lambda>_ v. (v, True))))
      (RtmpChunkProtocol_new\<lparr>recv_buffer := [4, 0, 0, 0, 0, 0, 1, 9, 0, 0, 0, 0, 7]\<rparr>)) \<noteq> MemFault \<and>
   streams_ok (fst (process_recv_buffer (\<lambda>_. 0) (Some (dispatch_rtmp_message (\<lambda>_ v. (v, True))))
      (RtmpChunkProtocol_new\<lparr>recv_buffer := [4, 0, 0, 0, 0, 0, 1, 9, 0, 0, 0, 0, 7]\<rparr>)))"
  by (rule receive_memory_safe)
     (simp_all add: cache_clean_new streams_ok_def length_agrees_def RtmpChunkProtocol_new_def cache_clean_def
       basic_header_def split: option.split)

text \<open>
  C31. Receiving is not memory safe against a hostile peer: a type 0 header inside a message may
  announce a longer message than the one the buffer was allocated for, and the payload that
  follows is then copied past the end of the buffer.
\<close>
theorem receive_length_change_overflow:
  assumes "cache_clean (recv_chunk_cache s)" and "2 \<le> csid" "csid < 64"
    and "recv_chunk_streams s csid = Some c" and "rtmp_message c = Some m"
    and "recv_buffer s = type0_chunk csid ts len mtype msid data"
    and "ts < 0xffffff" and "len < MAX_RTMP_BUF_BYTES" and "msid < 2 ^ 32"
    and "n = min (in_chunk_size s) (int len - int (using_bytes m))" and "0 \<le> n" and "n \<le> int (length data)"
    and "length (data_buf m) < using_bytes m + nat n"
  shows "snd (process_recv_buffer mem handler s) = MemFault"
proof -
  have "write_unused (take (nat n) data) m = Inl Oob"
    using assms(11-13) by (simp add: write_unused_def)
  then have "snd (take_payload mem handler csid ((next_chunk s csid)\<lparr>chunk_message_header := type0_header ts len mtype msid\<rparr>) 12
      data t) = MemFault" if "in_chunk_size t = in_chunk_size s" for t
    using that assms(4,5,8,10-12) sint_of_nat_small [of len]
    by (simp add: take_payload_def Let_def next_chunk_def type0_header_def not_less del: min_less_iff_conj)
  with process_type0_chunk [OF assms(1-3,6,7) _ assms(9), of mem handler] assms(8) show ?thesis by fastforce
qed

theorem receive_length_change_overflow_witness:
  "snd (process_recv_buffer (\<lambda>_. 0) None (RtmpChunkProtocol_new\<lparr>in_chunk_size := 2,
     recv_chunk_streams := [4 \<mapsto> RtmpChunk_clear\<lparr>rtmp_message := Some (inc_used_bytes 2 (RtmpMessage_new (\<lambda>_. 0) 3))\<rparr>],
     recv_buffer := type0_chunk 4 0 100 9 1 [7, 7]\<rparr>)) = MemFault"
  by (rule receive_length_change_overflow [where csid = 4 and ts = 0 and len = 100 and mtype = 9 and msid = 1
        and data = "[7, 7]" and n = 2 and m = "inc_used_bytes 2 (RtmpMessage_new (\<lambda>_. 0) 3)"
        and c = "RtmpChunk_clear\<lparr>rtmp_message := Some (inc_used_bytes 2 (RtmpMessage_new (\<lambda>_. 0) 3))\<rparr>"])
     (simp_all add: RtmpChunkProtocol_new_def cache_clean_def inc_used_bytes_def)

lemma sint_top_bit: "0x80000000 \<le> (v :: u32) \<Longrightarrow> sint v < 0"
proof -
  assume "0x80000000 \<le> v"
  then have v: "2147483648 \<le> uint v" "uint v < 4294967296"
    using uint_bounded [of v] by (simp_all add: word_le_def)
  have "(uint v + 2147483648) mod 4294967296 = (uint v - 2147483648 + 4294967296) mod 4294967296"
    by (simp add: algebra_simps)
  also have "\<dots> = uint v - 2147483648"
    using v by (subst mod_add_self2, intro mod_pos_pos_trivial) simp_all
  finally show ?thesis
    using v by (simp add: sint_uint signed_take_bit_eq_take_bit_shift take_bit_eq_mod)
qed

text \<open>
  C33. A set-chunk-size message with the top bit set makes the chunk size negative, since it is
  accepted without a check; the next chunk then copies a negative number of bytes, whatever it carries.
\<close>
theorem negative_chunk_size_faults:
  fixes v :: u32
  assumes "get_using_data msg = Inr (put_be 4 v)" and "0x80000000 \<le> v"
    and "(t, ret) = handle_set_chunk_size msg s"
    and "cache_clean (recv_chunk_cache s)" and "2 \<le> csid" "csid < 64"
    and "ts < 0xffffff" and "len < MAX_RTMP_BUF_BYTES" and "msid < 2 ^ 32"
  shows "ret \<and> in_chunk_size t < 0 \<and>
    snd (process_recv_buffer mem handler (t\<lparr>recv_buffer := type0_chunk csid ts len mtype msid data\<rparr>)) = MemFault"
proof -
  have v: "sint v < 0" by (rule sint_top_bit [OF assms(2)])
  have t: "t = s\<lparr>in_chunk_size := sint v\<rparr>" "ret"
    using assms(1,3) by (simp_all add: handle_set_chunk_size_def RtmpSetChunkSizeMessage_decode_def)
  let ?t = "t\<lparr>recv_buffer := type0_chunk csid ts len mtype msid data\<rparr>"
  have "snd (take_payload mem handler csid ((next_chunk ?t csid)\<lparr>chunk_message_header := type0_header ts len mtype msid\<rparr>) 12
      data u) = MemFault" if "in_chunk_size u = sint v" for u
    using that v assms(8) sint_of_nat_small [of len]
    by (auto simp: take_payload_def Let_def type0_header_def)
  moreover have "cache_clean (recv_chunk_cache ?t)" using assms(4) t by simp
  ultimately show ?thesis
    using process_type0_chunk [OF _ assms(5,6) _ assms(7) _ assms(9), of ?t len mtype data mem handler] assms(8) t v
    by fastforce
qed

theorem negative_chunk_size_faults_witness:
  "snd (handle_set_chunk_size \<lparr>data_buf = [255, 255, 255, 255], using_bytes = 4, message_type_id = 1, timestamp = 0,
      message_stream_id = 0, chunk_stream_id = 2\<rparr> RtmpChunkProtocol_new) \<and>
   snd (process_recv_buffer (\<lambda>_. 0) None ((fst (handle_set_chunk_size \<lparr>data_buf = [255, 255, 255, 255], using_bytes = 4,
      message_type_id = 1, timestamp = 0, message_stream_id = 0, chunk_stream_id = 2\<rparr> RtmpChunkProtocol_new))
      \<lparr>recv_buffer := type0_chunk 4 0 1 9 1 [7]\<rparr>)) = MemFault"
proof -
  let ?msg = "\<lparr>data_buf = [255, 255, 255, 255], using_bytes = 4, message_type_id = 1, timestamp = 0,
      message_stream_id = 0, chunk_stream_id = 2\<rparr> :: RtmpMessage"
  have "get_using_data ?msg = Inr (put_be 4 (0xffffffff :: u32))"
    by (simp add: get_using_data_def put_be_def nat_be_numeral)
  from negative_chunk_size_faults [OF this _ prod.collapse cache_clean_new, of 4 0 1 1 "\<lambda>_. 0" None 9 "[7]"]
  show ?thesis by simp
qed

end
