(* ===== verification/RtmpTransfer.thy ===== *)
theory RtmpTransfer
  imports RtmpReceive
begin

text \<open>
  The two halves of the RTMP chunk layer against each other: what \<^verbatim>\<open>send_rtmp_messages\<close> writes,
  the receiving loop of the peer takes apart again. The lemmas follow the code: a header is
  parsed back for each of the four chunk types, one chunk crosses the wire, then the chunks of one message,
  then a sequence of messages over several streams.
\<close>

section \<open>Headers on the wire\<close>

lemma basic_byte:
  assumes "fmt < 4"
  shows "unat (push_bit 6 (of_nat fmt AND 0x03) OR (b AND 0x3f) :: byte) = 64 * fmt + unat b mod 64"
proof -
  let ?f = "push_bit 6 (of_nat fmt AND 0x03) :: byte"
  have "?f = of_nat (64 * fmt)"
  proof -
    have "fmt = 0 \<or> fmt = 1 \<or> fmt = 2 \<or> fmt = 3" using assms by arith
    then show ?thesis by auto
  qed
  moreover have "(of_nat (64 * fmt) :: byte) AND (b AND 0x3f) = 0"
  proof -
    have "fmt = 0 \<or> fmt = 1 \<or> fmt = 2 \<or> fmt = 3" using assms by arith
    then have "(of_nat (64 * fmt) :: byte) AND 0x3f = 0" by auto
    then show ?thesis by (metis and.assoc and.commute and_zero_eq)
  qed
  ultimately have "?f OR (b AND 0x3f) = of_nat (64 * fmt) + (b AND 0x3f)"
    by (simp add: disjunctive_add_eq_or)
  moreover have "unat (of_nat (64 * fmt) :: byte) = 64 * fmt"
    using assms by (simp only: unat_of_nat) simp
  then have "unat (of_nat (64 * fmt) + (b AND 0x3f) :: byte) = 64 * fmt + unat b mod 64"
    using assms basic_header_fields(1) [of b] by (simp only: unat_word_ariths) simp
  ultimately show ?thesis by simp
qed

lemma put_basic_header_parse:
  assumes "fmt < 4" and "2 \<le> unat csid" and "unat csid \<le> 65599"
  shows "basic_header (put_basic_header fmt csid @ rest) = Some (unat csid, fmt, length (put_basic_header fmt csid))"
proof -
  define c where "c = unat csid"
  define F where "F = (push_bit 6 (of_nat fmt AND 0x03) :: byte)"
  have c: "2 \<le> c" "c \<le> 65599" using assms by (simp_all add: c_def)
  have s: "sint csid = int c" unfolding c_def using assms(3) by (intro sint_small) simp
  have low: "unat (F OR (ucast csid AND 0x3f)) = 64 * fmt + c mod 64"
    using basic_byte [OF assms(1), of "ucast csid"]
    by (simp add: F_def c_def unsigned_ucast_eq take_bit_eq_mod mod_mod_cancel)
  have F: "unat F = 64 * fmt" "unat (F OR 1) = 64 * fmt + 1"
    using basic_byte [OF assms(1), of 0] basic_byte [OF assms(1), of 1] by (simp_all add: F_def)
  have sub: "unat (csid - 64) = c - 64" if "64 \<le> c"
    using that by (simp add: unat_sub word_le_nat_alt c_def)
  have put: "put_basic_header fmt csid = (if int c \<ge> 2 \<and> int c \<le> 63 then [F OR (ucast csid AND 0x3f)]
      else if int c \<ge> 64 \<and> int c \<le> 319 then [F OR 0x00, ucast (csid - 64)]
      else if int c \<ge> 64 \<and> int c \<le> 65599 then [F OR 0x01, ucast ((csid - 64) mod 256), ucast ((csid - 64) div 256)]
      else [])"
    unfolding put_basic_header_def F_def s Let_def by (rule refl)
  note eval = put basic_header_def Let_def basic_header_fields low F
  consider "c \<le> 63" | "64 \<le> c" "c \<le> 319" | "320 \<le> c" by linarith
  then have "basic_header (put_basic_header fmt csid @ rest) = Some (c, fmt, length (put_basic_header fmt csid))"
  proof cases
    case 1
    then show ?thesis using c by (simp add: eval)
  next
    case 2
    have "unat (ucast (csid - 64) :: byte) = c - 64"
      using 2 sub by (simp add: unsigned_ucast_eq take_bit_eq_mod)
    then show ?thesis using 2 by (simp add: eval)
  next
    case 3
    have "unat (ucast ((csid - 64) mod 256) :: byte) = (c - 64) mod 256"
      "unat (ucast ((csid - 64) div 256) :: byte) = (c - 64) div 256"
      using 3 sub c by (simp_all add: unsigned_ucast_eq take_bit_eq_mod unat_mod unat_div)
    moreover have "64 + (c - 64) mod 256 + (c - 64) div 256 * 256 = c"
      using 3 mod_mult_div_eq [of "c - 64" 256] by linarith
    ultimately show ?thesis using 3 c by (simp add: eval)
  qed
  then show ?thesis by (simp add: c_def)
qed


lemma sint_pos: "unat (w :: u32) < 2 ^ 31 \<Longrightarrow> sint w = int (unat w)"
proof -
  assume "unat w < 2 ^ 31"
  then have "int (unat w) < int (2 ^ 31)" by (simp only: of_nat_less_iff)
  moreover have "int (unat w) = uint w" by simp
  ultimately have "uint w < 2 ^ 31" by simp
  moreover have "- (2 ^ 31) \<le> uint w" by (rule order_trans [of _ 0]) simp_all
  ultimately show ?thesis by (simp add: sint_uint signed_take_bit_int_eq_self)
qed

lemma get_be_put_be3: "unat (t :: u32) < 2 ^ 24 \<Longrightarrow> get_be (put_be 3 t) = t"
  by (simp add: get_be_def get_be_put_be_trunc)

lemma get_be_ones: "get_be [0xff, 0xff, 0xff] = (0xffffff :: u32)"
  by (simp add: get_be_def be_nat_def)

lemma and_mask24: "unat (t :: u32) < 2 ^ 24 \<Longrightarrow> t AND 0xffffff = t"
proof -
  assume "unat t < 2 ^ 24"
  have "t AND 0xffffff = take_bit 24 t" by (simp add: take_bit_eq_mask mask_eq_exp_minus_1)
  also have "\<dots> = t" using \<open>unat t < 2 ^ 24\<close>
    by (simp add: take_bit_eq_mod word_unat_eq_iff unat_mod)
  finally show ?thesis .
qed

text \<open>The header a chunk of message \<open>msg\<close> has on either side.\<close>
definition matches :: "ChunkMessageHeader \<Rightarrow> RtmpMessage \<Rightarrow> nat \<Rightarrow> bool" where
  "matches h msg len \<longleftrightarrow> h_timestamp h = timestamp msg \<and> h_message_length h = of_nat len \<and>
     h_message_type_id h = message_type_id msg \<and> h_message_stream_id h = message_stream_id msg"

lemma of_nat_len3: "len < 2 ^ 24 \<Longrightarrow> get_be (put_be 3 (of_nat len :: u32)) = (of_nat len :: u32)"
  by (rule get_be_put_be3) (simp add: unat_of_nat)

lemma length_put_time [simp]: "length (put_time e t) = 3"
  by (simp add: put_time_def)

lemma put_type0_parse:
  assumes "unat (timestamp msg) < 2 ^ 31" and "len < 2 ^ 24"
  shows "\<exists>h. parse_message_header 0 first prev ChunkMessageHeader_clear (put_message_header 0 msg len pt @ rest) =
      HOk h (length (put_message_header 0 msg len pt)) \<and> matches h msg len"
proof (cases "0xffffff \<le> unat (timestamp msg)")
  case True
  then have "sint (timestamp msg) \<ge> 0xffffff" using sint_pos [OF assms(1)] by linarith
  then show ?thesis using of_nat_len3 [OF assms(2)]
    by (simp add: parse_message_header_def put_message_header_def parse_type0_def Let_def put_time_def put_ext_def
        ChunkMessageHeader_clear_def matches_def get_be_ones nth_append)
next
  case False
  then have "\<not> sint (timestamp msg) \<ge> 0xffffff" using sint_pos [OF assms(1)] by linarith
  moreover have "get_be (put_be 3 (timestamp msg AND 0xffffff)) = timestamp msg"
    using False by (simp add: and_mask24 get_be_put_be3)
  ultimately show ?thesis using of_nat_len3 [OF assms(2)]
    by (simp add: parse_message_header_def put_message_header_def parse_type0_def Let_def put_time_def put_ext_def
        ChunkMessageHeader_clear_def matches_def nth_append)
qed

text \<open>A delta, in three bytes or in the extended field, is read back for every 32-bit value.\<close>

lemma put_time_read:
  fixes d :: u32
  shows "get_be (put_time (0xffffff \<le> d) d) = (if 0xffffff \<le> d then 0xffffff else d)"
    and "sint (get_be (put_time (0xffffff \<le> d) d) :: u32) \<ge> 0xffffff \<longleftrightarrow> 0xffffff \<le> d"
proof -
  have lt: "unat d < 0xffffff" if "\<not> 0xffffff \<le> d" using that by (simp add: word_le_nat_alt)
  show g: "get_be (put_time (0xffffff \<le> d) d) = (if 0xffffff \<le> d then 0xffffff else d)"
    using lt get_be_put_be3 [of d] by (cases "0xffffff \<le> d") (simp_all add: put_time_def get_be_ones)
  show "sint (get_be (put_time (0xffffff \<le> d) d) :: u32) \<ge> 0xffffff \<longleftrightarrow> 0xffffff \<le> d"
  proof (cases "0xffffff \<le> d")
    case False
    then have "unat d < 2 ^ 24" "unat d < 0xffffff" using lt by simp_all
    then have "sint d < 0xffffff" using sint_small [of d] by linarith
    then show ?thesis unfolding g using False by simp
  qed (simp add: put_time_def get_be_ones)
qed

lemma put_type1_parse:
  assumes "len < 2 ^ 24" and "h_message_stream_id p = message_stream_id msg" and "h_timestamp p = pt"
    and "first \<or> pt = timestamp msg"
  shows "\<exists>h. parse_message_header 1 first (Some p) ChunkMessageHeader_clear (put_message_header 1 msg len pt @ rest) =
      HOk h (length (put_message_header 1 msg len pt)) \<and> matches h msg len"
  using assms of_nat_len3 [OF assms(1)] put_time_read [of "timestamp msg - pt"]
  by (auto simp: parse_message_header_def put_message_header_def parse_type1_def Let_def put_ext_def apply_delta_def
        ChunkMessageHeader_clear_def matches_def nth_append)

lemma put_type2_parse:
  assumes "h_message_length p = of_nat len" "h_message_type_id p = message_type_id msg"
    "h_message_stream_id p = message_stream_id msg" and "h_timestamp p = pt" and "first \<or> pt = timestamp msg"
  shows "\<exists>h. parse_message_header 2 first (Some p) ChunkMessageHeader_clear (put_message_header 2 msg len pt @ rest) =
      HOk h (length (put_message_header 2 msg len pt)) \<and> matches h msg len"
  using assms put_time_read [of "timestamp msg - pt"]
  by (auto simp: parse_message_header_def put_message_header_def parse_type2_def Let_def put_ext_def apply_delta_def
        ChunkMessageHeader_clear_def matches_def nth_append)

lemma put_type3_parse:
  assumes "matches p msg len" and "pt = timestamp msg"
  shows "\<exists>h. parse_message_header 3 first (Some p) ChunkMessageHeader_clear (put_message_header 3 msg len pt @ rest) =
      HOk h (length (put_message_header 3 msg len pt)) \<and> matches h msg len"
  using assms
  by (auto simp: parse_message_header_def put_message_header_def parse_type3_def Let_def put_ext_def
        ChunkMessageHeader_clear_def matches_def)


section \<open>One chunk across the wire\<close>

definition prev_timestamp :: "RtmpChunk option \<Rightarrow> u32" where
  "prev_timestamp prev_chunk = (case prev_chunk of
     Some p \<Rightarrow> (case rtmp_message p of Some m \<Rightarrow> timestamp m | None \<Rightarrow> 0) | None \<Rightarrow> 0)"

text \<open>
  The two sides agree about a stream between two messages: the last header sent is the last
  header received and no message is under construction.
\<close>
definition synced :: "RtmpChunk option \<Rightarrow> RtmpChunk option \<Rightarrow> bool" where
  "synced sc rc \<longleftrightarrow> Option.bind rc rtmp_message = None \<and> (case sc of None \<Rightarrow> True
     | Some a \<Rightarrow> (\<exists>m b. rtmp_message a = Some m \<and> rc = Some b \<and>
         matches (chunk_message_header a) m (unat (h_message_length (chunk_message_header a))) \<and>
         matches (chunk_message_header b) m (unat (h_message_length (chunk_message_header a)))))"

text \<open>The messages that the chunk layer carries: a valid stream id, a payload that is not empty and not too big.\<close>
definition sendable :: "RtmpMessage \<Rightarrow> bool" where
  "sendable msg \<longleftrightarrow> packet_ok msg \<and> 0 < using_bytes msg \<and> using_bytes msg < MAX_RTMP_BUF_BYTES \<and>
     2 \<le> unat (chunk_stream_id msg) \<and> unat (chunk_stream_id msg) \<le> 65599 \<and> unat (timestamp msg) < 2 ^ 31"

lemma choose_fmt_less: "choose_fmt pc msg len < 4"
  by (simp add: choose_fmt_def Let_def split: option.split)

lemma first_header_parse:
  assumes "synced sc rc" and "choose_fmt sc msg len \<noteq> 3" and "len < 2 ^ 24" and "unat (timestamp msg) < 2 ^ 31"
  shows "\<exists>h. parse_message_header (choose_fmt sc msg len) True (map_option chunk_message_header rc) ChunkMessageHeader_clear
      (put_message_header (choose_fmt sc msg len) msg len (prev_timestamp sc) @ x) =
      HOk h (length (put_message_header (choose_fmt sc msg len) msg len (prev_timestamp sc))) \<and> matches h msg len"
proof (cases sc)
  case None
  with put_type0_parse [OF assms(4,3)] show ?thesis by (simp add: choose_fmt_def)
next
  case (Some a)
  with assms(1) obtain m b where ab: "rtmp_message a = Some m" "rc = Some b"
      "matches (chunk_message_header a) m (unat (h_message_length (chunk_message_header a)))"
      "matches (chunk_message_header b) m (unat (h_message_length (chunk_message_header a)))"
    by (auto simp: synced_def)
  let ?p = "chunk_message_header b"
  have hb: "h_timestamp ?p = timestamp m" "h_message_length ?p = h_message_length (chunk_message_header a)"
      "h_message_type_id ?p = h_message_type_id (chunk_message_header a)"
      "h_message_stream_id ?p = h_message_stream_id (chunk_message_header a)" "prev_timestamp sc = timestamp m"
    using ab Some by (simp_all add: matches_def prev_timestamp_def)
  have "choose_fmt sc msg len < 4" by (rule choose_fmt_less)
  then consider "choose_fmt sc msg len = 0" | "choose_fmt sc msg len = 1" | "choose_fmt sc msg len = 2"
    using assms(2) by linarith
  then show ?thesis
  proof cases
    case 1
    show ?thesis unfolding 1 by (rule put_type0_parse [OF assms(4,3)])
  next
    case 2
    then have "h_message_stream_id ?p = message_stream_id msg"
      using Some hb by (simp add: choose_fmt_def Let_def split: if_splits)
    then show ?thesis unfolding 2 using put_type1_parse [OF assms(3), of ?p msg "prev_timestamp sc" True x] hb ab(2) by simp
  next
    case 3
    then have "h_message_length ?p = of_nat len \<and> h_message_type_id ?p = message_type_id msg \<and>
        h_message_stream_id ?p = message_stream_id msg"
      using Some hb by (simp add: choose_fmt_def Let_def split: if_splits)
    then show ?thesis unfolding 3 using put_type2_parse [of ?p len msg "prev_timestamp sc" True x] hb ab(2) by simp
  qed
qed

lemma next_header_parse:
  assumes "matches p msg len" and "matches (chunk_message_header a) msg len" and "rtmp_message a = Some m"
    and "timestamp m = timestamp msg"
  shows "\<exists>h. parse_message_header (choose_fmt (Some a) msg len) False (Some p) ChunkMessageHeader_clear
      (put_message_header (choose_fmt (Some a) msg len) msg len (prev_timestamp (Some a)) @ x) =
      HOk h (length (put_message_header (choose_fmt (Some a) msg len) msg len (prev_timestamp (Some a)))) \<and> matches h msg len"
proof -
  have pt: "prev_timestamp (Some a) = timestamp msg" using assms by (simp add: prev_timestamp_def)
  have "choose_fmt (Some a) msg len = 2 \<or> choose_fmt (Some a) msg len = 3"
    using assms(2) by (simp add: choose_fmt_def matches_def Let_def)
  then show ?thesis
  proof
    assume "choose_fmt (Some a) msg len = 2"
    then show ?thesis using put_type2_parse [of p len msg "timestamp msg" False x] assms(1) pt by (simp add: matches_def)
  next
    assume "choose_fmt (Some a) msg len = 3"
    then show ?thesis using put_type3_parse [OF assms(1) refl, of False x] pt by simp
  qed
qed

lemma chunk_step_parsed:
  assumes "fmt < 4" and "2 \<le> unat csid" and "unat csid \<le> 65599"
    and "parse_message_header fmt (rtmp_message (next_chunk r (unat csid)) = None)
      (map_option chunk_message_header (recv_chunk_streams r (unat csid))) ChunkMessageHeader_clear (mh @ x) = HOk h (length mh)"
  shows "chunk_step mem f (put_basic_header fmt csid @ mh @ x) r =
    take_payload mem (Some f) (unat csid) ((next_chunk r (unat csid))\<lparr>chunk_message_header := h\<rparr>)
      (length (put_basic_header fmt csid) + length mh) x r"
  using assms(4) put_basic_header_parse [OF assms(1-3), of "mh @ x"] by (simp add: chunk_step_def Let_def)

text \<open>The message as the receiver hands it over.\<close>
definition received :: "RtmpMessage \<Rightarrow> bytes \<Rightarrow> RtmpMessage" where
  "received msg payload = \<lparr>data_buf = payload, using_bytes = length payload, message_type_id = message_type_id msg,
     timestamp = timestamp msg, message_stream_id = message_stream_id msg, chunk_stream_id = chunk_stream_id msg\<rparr>"

text \<open>The state after the acknowledgement step and the session's handler.\<close>
definition handled :: "(RtmpMessage \<Rightarrow> 'a \<Rightarrow> 'a \<times> bool) \<Rightarrow> RtmpMessage \<Rightarrow> 'a RtmpChunkProtocol_scheme \<Rightarrow> 'a RtmpChunkProtocol_scheme" where
  "handled app msg s = RtmpChunkProtocol.more_update (\<lambda>v. fst (app msg v)) (acknowledged s)"

text \<open>The session accepts the message.\<close>
definition accepts :: "(RtmpMessage \<Rightarrow> 'a \<Rightarrow> 'a \<times> bool) \<Rightarrow> RtmpMessage \<Rightarrow> bool" where
  "accepts app msg \<longleftrightarrow> \<not> is_protocol_control_message msg \<and> (\<forall>v. snd (app msg v))"

lemma handled_simps [simp]:
  "recv_chunk_streams (handled app msg s) = recv_chunk_streams s" "in_chunk_size (handled app msg s) = in_chunk_size s"
  "put_stream csid c (handled app msg s) = handled app msg (put_stream csid c s)"
  by (simp_all add: handled_def put_stream_def)

lemma dispatch_accepts:
  assumes "accepts app msg"
  shows "dispatch_rtmp_message app msg s = (handled app msg s, True)"
proof -
  obtain v where "app msg (RtmpChunkProtocol.more s) = (v, True)"
    using assms unfolding accepts_def by (metis prod.collapse)
  moreover have "RtmpChunkProtocol.more_update (\<lambda>v. fst (app msg v)) t =
      RtmpChunkProtocol.more_update (\<lambda>_. fst (app msg (RtmpChunkProtocol.more t))) t" for t :: "'a RtmpChunkProtocol_scheme"
    by (cases t) simp
  ultimately show ?thesis
    using assms by (simp add: dispatch_rtmp_message_def send_acknowledge_eq handled_def accepts_def)
qed

definition building :: "bytes \<Rightarrow> nat \<Rightarrow> RtmpMessage \<Rightarrow> bool" where
  "building d k m \<longleftrightarrow> using_bytes m = k \<and> length (data_buf m) = length d \<and> take k (data_buf m) = take k d \<and> k \<le> length d"

lemma building_append:
  assumes "building d k m" and "k + n \<le> length d"
  shows "building d (k + n) (append_payload (take n (drop k d)) m)"
  using assms
  by (auto simp: building_def append_payload_def inc_used_bytes_def take_add min_def)

lemma building_done:
  "building d (length d) m \<Longrightarrow> data_buf m = d \<and> using_bytes m = length d"
  unfolding building_def by (metis order_refl take_all)

lemma payload_step:
  assumes "building d k (chunk_message mem c)" and h: "matches (chunk_message_header c) msg (length d)"
    and len: "length d < MAX_RTMP_BUF_BYTES" and cs: "0 < in_chunk_size r"
    and n: "n = nat (min (in_chunk_size r) (int (length (drop k d))))"
    and csid: "unat (chunk_stream_id msg) = csid" and ok: "accepts app (received msg d)"
  shows "take_payload mem (Some (dispatch_rtmp_message app)) csid c pos (take n (drop k d) @ x) r =
    (if k + n = length d
     then (put_stream csid \<lparr>chunk_message_header = chunk_message_header c, rtmp_message = None\<rparr> (handled app (received msg d) r), Consumed (pos + n))
     else (put_stream csid \<lparr>chunk_message_header = chunk_message_header c,
             rtmp_message = Some (append_payload (take n (drop k d)) (chunk_message mem c))\<rparr> r, Consumed (pos + n)))"
proof -
  let ?m = "chunk_message mem c" and ?m' = "append_payload (take n (drop k d)) (chunk_message mem c)"
  have L: "length d = unat (h_message_length (chunk_message_header c))"
    using h len by (simp add: matches_def unat_of_nat)
  have ok_c: "chunk_ok c"
    using assms(1) L len by (auto simp: chunk_ok_def building_def packet_ok_def chunk_message_def split: option.splits)
  have n': "n = min (nat (in_chunk_size r)) (length d - using_bytes ?m)"
    using assms(1) n cs by (auto simp: building_def min_def nat_le_iff)
  then have "n \<le> length d - k" "k \<le> length d" using assms(1) by (simp_all add: building_def)
  then have kn: "k + n \<le> length d" by linarith
  have tk: "take n (take n (drop k d) @ x) = take n (drop k d)" "\<not> length (take n (drop k d) @ x) < n"
    using kn by simp_all
  have dl: "deliver (Some (dispatch_rtmp_message app)) csid (c\<lparr>rtmp_message := Some ?m'\<rparr>) ?m' (pos + n) r =
      (put_stream csid \<lparr>chunk_message_header = chunk_message_header c, rtmp_message = None\<rparr> (handled app (received msg d) r), Consumed (pos + n))"
    if "k + n = length d"
  proof -
    have "data_buf ?m' = d" "using_bytes ?m' = length d"
      using building_done building_append [OF assms(1) kn] that by metis+
    then have "?m'\<lparr>chunk_stream_id := of_nat csid, timestamp := h_timestamp (chunk_message_header c),
        message_type_id := h_message_type_id (chunk_message_header c),
        message_stream_id := h_message_stream_id (chunk_message_header c)\<rparr> = received msg d"
      using h csid by (cases ?m') (auto simp: received_def matches_def)
    then show ?thesis using ok
      by (cases c) (simp add: deliver_def Let_def dispatch_accepts put_stream_def handled_def)
  qed
  have u: "using_bytes ?m = k" using assms(1) by (simp add: building_def)
  have upd: "c\<lparr>rtmp_message := v\<rparr> = \<lparr>chunk_message_header = chunk_message_header c, rtmp_message = v\<rparr>" for v
    by (cases c) simp
  note eq = take_payload_eq [OF ok_c L len less_imp_le [OF cs] refl n']
  show ?thesis
  proof (cases "k + n = length d")
    case True
    then show ?thesis by (simp only: eq tk u Let_def dl [OF True] if_True if_False refl)
  qed (simp only: eq tk u Let_def upd if_False)
qed


section \<open>One message across the wire\<close>

lemma chunk_run_Consumed:
  "chunk_step mem f (b @ x) s = (s', Consumed (length b)) \<Longrightarrow> chunk_run mem f (b @ x) s = chunk_run mem f x s'"
  by (subst chunk_run.simps) simp

text \<open>The header bytes of the next chunk.\<close>
definition chunk_head :: "RtmpChunk option \<Rightarrow> RtmpMessage \<Rightarrow> nat \<Rightarrow> bytes" where
  "chunk_head pc msg len = put_basic_header (choose_fmt pc msg len) (chunk_stream_id msg) @
     put_message_header (choose_fmt pc msg len) msg len (prev_timestamp pc)"

lemma send_chunks_step:
  assumes "rest \<noteq> []" and "send_chunks cs msg d rest n streams out = (out', n', streams', True)"
    and "pc = streams (unat (chunk_stream_id msg))" and "k = nat (min cs (int (length rest)))"
  shows "send_chunks cs msg d (drop k rest) (Suc n)
      (streams(unat (chunk_stream_id msg) \<mapsto> sent_chunk pc msg (length d)))
      (out @ [chunk_head pc msg (length d), take k rest]) = (out', n', streams', True)"
  using assms by (subst (asm) send_chunks.simps) (simp add: Let_def chunk_head_def prev_timestamp_def split: if_splits)

lemma sent_chunk_simps [simp]:
  "matches (chunk_message_header (sent_chunk pc msg len)) msg len" "rtmp_message (sent_chunk pc msg len) = Some msg"
  "h_timestamp (chunk_message_header (sent_chunk pc msg len)) = timestamp msg"
  by (simp_all add: sent_chunk_def matches_def)

lemma sent_chunk_again: "sent_chunk (Some (sent_chunk pc msg len)) msg len = sent_chunk (Some (sent_chunk pc' msg len)) msg len"
  by (simp add: sent_chunk_def)

lemma send_chunks_Nil: "send_chunks cs msg d [] n streams out = (out, n, streams, True)"
  by (subst send_chunks.simps) simp

text \<open>One chunk, whatever its place in the message.\<close>

lemma chunk_transfer:
  assumes "sendable msg" and "length d = using_bytes msg" and "accepts app (received msg d)"
    and csid: "csid = unat (chunk_stream_id msg)" and cs: "0 < in_chunk_size r"
    and parse: "parse_message_header (choose_fmt pc msg (length d)) (rtmp_message (next_chunk r csid) = None)
      (map_option chunk_message_header (recv_chunk_streams r csid)) ChunkMessageHeader_clear
      (put_message_header (choose_fmt pc msg (length d)) msg (length d) (prev_timestamp pc)) =
      HOk h (length (put_message_header (choose_fmt pc msg (length d)) msg (length d) (prev_timestamp pc)))"
    and h: "matches h msg (length d)" and c: "c = (next_chunk r csid)\<lparr>chunk_message_header := h\<rparr>"
    and b: "building d k (chunk_message mem c)" and j: "j = nat (min (in_chunk_size r) (int (length (drop k d))))"
  shows "chunk_run mem (dispatch_rtmp_message app) ((chunk_head pc msg (length d) @ take j (drop k d)) @ x) r =
    chunk_run mem (dispatch_rtmp_message app) x
      (if k + j = length d
       then put_stream csid \<lparr>chunk_message_header = h, rtmp_message = None\<rparr> (handled app (received msg d) r)
       else put_stream csid \<lparr>chunk_message_header = h,
              rtmp_message = Some (append_payload (take j (drop k d)) (chunk_message mem c))\<rparr> r)"
proof -
  let ?f = "dispatch_rtmp_message app" and ?fmt = "choose_fmt pc msg (length d)"
  let ?mh = "put_message_header ?fmt msg (length d) (prev_timestamp pc)"
  let ?pos = "length (put_basic_header ?fmt (chunk_stream_id msg)) + length ?mh"
  have sd: "2 \<le> unat (chunk_stream_id msg)" "unat (chunk_stream_id msg) \<le> 65599" "length d < MAX_RTMP_BUF_BYTES"
    using assms(1,2) by (simp_all add: sendable_def)
  have lj: "length (take j (drop k d)) = j" using b j by (auto simp: building_def min_def)
  have hc: "chunk_message_header c = h" by (simp add: c)
  have "chunk_step mem ?f (put_basic_header ?fmt (chunk_stream_id msg) @ ?mh @ take j (drop k d) @ x) r =
      take_payload mem (Some ?f) csid c ?pos (take j (drop k d) @ x) r"
    unfolding c csid by (rule chunk_step_parsed [OF choose_fmt_less sd(1,2)])
      (use parse_message_header_append [OF parse] csid in simp)
  also have "\<dots> = (if k + j = length d
       then put_stream csid \<lparr>chunk_message_header = h, rtmp_message = None\<rparr> (handled app (received msg d) r)
       else put_stream csid \<lparr>chunk_message_header = h,
              rtmp_message = Some (append_payload (take j (drop k d)) (chunk_message mem c))\<rparr> r, Consumed (?pos + j))"
    using payload_step [OF b _ sd(3) cs j csid [symmetric] assms(3), of ?pos x] h hc by simp
  finally show ?thesis
    by (intro chunk_run_Consumed) (simp only: chunk_head_def append.assoc length_append lj add.assoc)
qed

text \<open>The chunks after the first one.\<close>

lemma transfer_rest:
  assumes "sendable msg" and "length d = using_bytes msg" and "0 < cs" and "accepts app (received msg d)"
    and "csid = unat (chunk_stream_id msg)" and "0 < k" and "k < length d"
    and "send_chunks cs msg d (drop k d) n streams out = (out', n', streams', True)"
    and "streams csid = Some (sent_chunk pc msg (length d))"
    and "recv_chunk_streams r csid = Some \<lparr>chunk_message_header = h, rtmp_message = Some m\<rparr>"
    and "matches h msg (length d)" and "building d k m" and "in_chunk_size r = cs"
  shows "\<exists>bs h'. concat out' = concat out @ bs \<and> matches h' msg (length d) \<and>
    streams' = streams(csid \<mapsto> sent_chunk (Some (sent_chunk pc msg (length d))) msg (length d)) \<and>
    (\<forall>x. chunk_run mem (dispatch_rtmp_message app) (bs @ x) r = chunk_run mem (dispatch_rtmp_message app) x
       (put_stream csid \<lparr>chunk_message_header = h', rtmp_message = None\<rparr> (handled app (received msg d) r)))"
  using assms(6-13)
proof (induction "length d - k" arbitrary: k n streams out pc r h m rule: less_induct)
  case less
  let ?f = "dispatch_rtmp_message app" and ?pc = "streams csid"
  define j where "j = nat (min cs (int (length (drop k d))))"
  have j: "0 < j" "k + j \<le> length d" using less.prems(2) assms(3) by (auto simp: j_def min_def)
  let ?fmt = "choose_fmt ?pc msg (length d)" and ?head = "chunk_head ?pc msg (length d)"
  let ?mh = "put_message_header ?fmt msg (length d) (prev_timestamp ?pc)"
  let ?s2 = "streams(csid \<mapsto> sent_chunk (Some (sent_chunk pc msg (length d))) msg (length d))"
  have send: "send_chunks cs msg d (drop (k + j) d) (Suc n) ?s2 (out @ [?head, take j (drop k d)]) = (out', n', streams', True)"
    using send_chunks_step [OF _ less.prems(3) refl j_def] less.prems(2,4) assms(5) by (simp add: add.commute)
  obtain h' where h': "matches h' msg (length d)" and
    parse: "parse_message_header ?fmt False (Some h) ChunkMessageHeader_clear ?mh = HOk h' (length ?mh)"
    using next_header_parse [OF less.prems(6) sent_chunk_simps(1,2) refl, of pc "[]"] less.prems(4) by auto
  have c: "chunk_message mem ((next_chunk r csid)\<lparr>chunk_message_header := h'\<rparr>) = m"
    using less.prems(5) by (simp add: next_chunk_def chunk_message_def)
  have parse': "parse_message_header ?fmt (rtmp_message (next_chunk r csid) = None)
      (map_option chunk_message_header (recv_chunk_streams r csid)) ChunkMessageHeader_clear ?mh = HOk h' (length ?mh)"
    using parse less.prems(5) by (simp add: next_chunk_def)
  have b': "building d k (chunk_message mem ((next_chunk r csid)\<lparr>chunk_message_header := h'\<rparr>))"
    using less.prems(7) c by simp
  have jr: "j = nat (min (in_chunk_size r) (int (length (drop k d))))" and cs: "0 < in_chunk_size r"
    using less.prems(8) assms(3) by (simp_all add: j_def)
  have step: "chunk_run mem ?f ((?head @ take j (drop k d)) @ x) r = chunk_run mem ?f x (if k + j = length d
       then put_stream csid \<lparr>chunk_message_header = h', rtmp_message = None\<rparr> (handled app (received msg d) r)
       else put_stream csid \<lparr>chunk_message_header = h', rtmp_message = Some (append_payload (take j (drop k d)) m)\<rparr> r)" for x
    by (rule chunk_transfer [OF assms(1,2,4,5) cs parse' h' refl b' jr, unfolded c])
  show ?case
  proof (cases "k + j = length d")
    case True
    then have "out' = out @ [?head, take j (drop k d)]" "streams' = ?s2"
      using send by (simp_all add: send_chunks_Nil)
    moreover have "chunk_run mem ?f ((?head @ take j (drop k d)) @ x) r = chunk_run mem ?f x
        (put_stream csid \<lparr>chunk_message_header = h', rtmp_message = None\<rparr> (handled app (received msg d) r))" for x
      by (simp only: step True refl if_True)
    ultimately show ?thesis using h' by (intro exI [of _ "?head @ take j (drop k d)"] exI [of _ h']) simp
  next
    case False
    let ?m2 = "append_payload (take j (drop k d)) m"
    let ?r2 = "put_stream csid \<lparr>chunk_message_header = h', rtmp_message = Some ?m2\<rparr> r"
    have "length d - (k + j) < length d - k" using j less.prems(2) by linarith
    moreover have "building d (k + j) ?m2" by (rule building_append [OF less.prems(7) j(2)])
    moreover note less.hyps [of "k + j" "Suc n" ?s2 "out @ [?head, take j (drop k d)]" "Some (sent_chunk pc msg (length d))" ?r2 h' ?m2]
    ultimately obtain bs h'' where "concat out' = concat (out @ [?head, take j (drop k d)]) @ bs" "matches h'' msg (length d)"
      "streams' = ?s2(csid \<mapsto> sent_chunk (Some (sent_chunk (Some (sent_chunk pc msg (length d))) msg (length d))) msg (length d))"
      and run: "\<And>x. chunk_run mem ?f (bs @ x) ?r2 = chunk_run mem ?f x
        (put_stream csid \<lparr>chunk_message_header = h'', rtmp_message = None\<rparr> (handled app (received msg d) ?r2))"
      using send j False h' less.prems(8) by auto
    moreover have "chunk_run mem ?f ((?head @ take j (drop k d)) @ bs @ x) r = chunk_run mem ?f (bs @ x) ?r2" for x
      by (simp only: step False if_False)
    ultimately show ?thesis
      using sent_chunk_again [of "Some (sent_chunk pc msg (length d))" msg "length d" pc]
      by (intro exI [of _ "?head @ take j (drop k d) @ bs"] exI [of _ h'']) simp
  qed
qed


text \<open>The chunk that the sender remembers after a whole message.\<close>
definition last_sent :: "int \<Rightarrow> RtmpChunk option \<Rightarrow> RtmpMessage \<Rightarrow> nat \<Rightarrow> RtmpChunk" where
  "last_sent cs pc msg len =
     (if int len \<le> cs then sent_chunk pc msg len else sent_chunk (Some (sent_chunk pc msg len)) msg len)"

lemma transfer_message:
  assumes "sendable msg" and "length d = using_bytes msg" and "0 < cs" and "accepts app (received msg d)"
    and csid: "csid = unat (chunk_stream_id msg)"
    and send: "send_chunks cs msg d d n streams out = (out', n', streams', True)"
    and "choose_fmt (streams csid) msg (length d) \<noteq> 3"
    and sync: "synced (streams csid) (recv_chunk_streams r csid)" and "in_chunk_size r = cs"
  shows "\<exists>bs h'. concat out' = concat out @ bs \<and> matches h' msg (length d) \<and>
    streams' = streams(csid \<mapsto> last_sent cs (streams csid) msg (length d)) \<and>
    (\<forall>x. chunk_run mem (dispatch_rtmp_message app) (bs @ x) r = chunk_run mem (dispatch_rtmp_message app) x
       (put_stream csid \<lparr>chunk_message_header = h', rtmp_message = None\<rparr> (handled app (received msg d) r)))"
proof -
  let ?f = "dispatch_rtmp_message app" and ?pc = "streams csid"
  have sd: "length d < 2 ^ 24" "0 < length d" "unat (timestamp msg) < 2 ^ 31"
    using assms(1,2) by (simp_all add: sendable_def)
  define j where "j = nat (min cs (int (length (drop 0 d))))"
  have j: "0 < j" "j \<le> length d" using sd(2) assms(3) by (auto simp: j_def min_def)
  let ?fmt = "choose_fmt ?pc msg (length d)" and ?head = "chunk_head ?pc msg (length d)"
  let ?mh = "put_message_header ?fmt msg (length d) (prev_timestamp ?pc)"
  let ?s2 = "streams(csid \<mapsto> sent_chunk ?pc msg (length d))"
  have rest: "send_chunks cs msg d (drop j d) (Suc n) ?s2 (out @ [?head, take j d]) = (out', n', streams', True)"
    using send_chunks_step [OF _ send refl] sd(2) csid j_def by simp
  have nomsg: "rtmp_message (next_chunk r csid) = None" using sync by (simp add: next_chunk_def synced_def)
  obtain h where h: "matches h msg (length d)" and parse: "parse_message_header ?fmt True
      (map_option chunk_message_header (recv_chunk_streams r csid)) ChunkMessageHeader_clear ?mh = HOk h (length ?mh)"
    using first_header_parse [OF sync assms(7) sd(1,3), of "[]"] by auto
  define m where "m = chunk_message mem ((next_chunk r csid)\<lparr>chunk_message_header := h\<rparr>)"
  have b: "building d 0 m"
    using nomsg h sd(1) by (simp add: m_def chunk_message_def building_def matches_def unat_of_nat)
  have parse': "parse_message_header ?fmt (rtmp_message (next_chunk r csid) = None)
      (map_option chunk_message_header (recv_chunk_streams r csid)) ChunkMessageHeader_clear ?mh = HOk h (length ?mh)"
    using parse nomsg by simp
  have jr: "j = nat (min (in_chunk_size r) (int (length (drop 0 d))))" and cs: "0 < in_chunk_size r"
    using assms(3,9) by (simp_all add: j_def)
  have step: "chunk_run mem ?f ((?head @ take j d) @ x) r = chunk_run mem ?f x (if j = length d
       then put_stream csid \<lparr>chunk_message_header = h, rtmp_message = None\<rparr> (handled app (received msg d) r)
       else put_stream csid \<lparr>chunk_message_header = h, rtmp_message = Some (append_payload (take j d) m)\<rparr> r)" for x
    using chunk_transfer [OF assms(1,2,4) csid cs parse' h refl b [unfolded m_def] jr, of x]
    unfolding m_def [symmetric] by (simp only: drop0 add_0)
  show ?thesis
  proof (cases "j = length d")
    case True
    then have "out' = out @ [?head, d]" "streams' = ?s2" using rest by (simp_all add: send_chunks_Nil)
    moreover have "int (length d) \<le> cs" using True assms(3) by (simp add: j_def min_def split: if_splits)
    ultimately show ?thesis using h step True
      by (intro exI [of _ "?head @ d"] exI [of _ h]) (simp add: last_sent_def)
  next
    case False
    let ?m2 = "append_payload (take j d) m"
    let ?r2 = "put_stream csid \<lparr>chunk_message_header = h, rtmp_message = Some ?m2\<rparr> r"
    have b2: "building d j ?m2" using building_append [OF b, of j] j by simp
    obtain bs h'' where "concat out' = concat (out @ [?head, take j d]) @ bs" "matches h'' msg (length d)"
      "streams' = ?s2(csid \<mapsto> sent_chunk (Some (sent_chunk ?pc msg (length d))) msg (length d))"
      and run: "\<And>x. chunk_run mem ?f (bs @ x) ?r2 = chunk_run mem ?f x
        (put_stream csid \<lparr>chunk_message_header = h'', rtmp_message = None\<rparr> (handled app (received msg d) ?r2))"
      using transfer_rest [OF assms(1-4) csid j(1) _ rest _ _ h b2, of ?pc ?r2 mem] False j(2) assms(9) by auto
    moreover have "chunk_run mem ?f ((?head @ take j d) @ bs @ x) r = chunk_run mem ?f (bs @ x) ?r2" for x
      by (simp only: step False if_False)
    moreover have "\<not> int (length d) \<le> cs" using False assms(3) by (auto simp: j_def min_def split: if_splits)
    ultimately show ?thesis
      by (intro exI [of _ "?head @ take j d @ bs"] exI [of _ h'']) (simp add: last_sent_def)
  qed
qed


section \<open>A sequence of messages across the wire\<close>

definition payload :: "RtmpMessage \<Rightarrow> bytes" where
  "payload msg = take (using_bytes msg) (data_buf msg)"

text \<open>No message starts with a chunk of type 3, which would not advance the receiver's clock.\<close>
primrec type3_free :: "int \<Rightarrow> (nat \<rightharpoonup> RtmpChunk) \<Rightarrow> RtmpMessage list \<Rightarrow> bool" where
  "type3_free cs streams [] \<longleftrightarrow> True"
| "type3_free cs streams (msg # msgs) \<longleftrightarrow>
     choose_fmt (streams (unat (chunk_stream_id msg))) msg (using_bytes msg) \<noteq> 3 \<and>
     type3_free cs (streams(unat (chunk_stream_id msg) \<mapsto>
       last_sent cs (streams (unat (chunk_stream_id msg))) msg (using_bytes msg))) msgs"

definition in_sync :: "(nat \<rightharpoonup> RtmpChunk) \<Rightarrow> 'a RtmpChunkProtocol_scheme \<Rightarrow> bool" where
  "in_sync streams r \<longleftrightarrow> (\<forall>csid. synced (streams csid) (recv_chunk_streams r csid))"

definition carried :: "(RtmpMessage \<Rightarrow> 'a \<Rightarrow> 'a \<times> bool) \<Rightarrow> RtmpMessage \<Rightarrow> bool" where
  "carried app msg \<longleftrightarrow> sendable msg \<and> accepts app (received msg (payload msg))"

lemma synced_last_sent:
  assumes "matches h msg len" and "len < 2 ^ 24"
  shows "synced (Some (last_sent cs pc msg len)) (Some \<lparr>chunk_message_header = h, rtmp_message = None\<rparr>)"
proof -
  have "h_message_length (chunk_message_header (sent_chunk pc msg len)) = of_nat len" for pc
    by (simp add: sent_chunk_def)
  moreover have "unat (of_nat len :: u32) = len" using assms(2) by (simp add: unat_of_nat)
  ultimately show ?thesis
    using assms(1) by (simp add: synced_def last_sent_def)
qed

lemma transfer_all:
  assumes "\<And>msg. msg \<in> set msgs \<Longrightarrow> carried app msg" and "0 < cs"
    and "send_all cs msgs n streams out = Inr (out', streams', True)"
    and "type3_free cs streams msgs" and "in_sync streams r" and "in_chunk_size r = cs"
  shows "\<exists>bs r'. concat out' = concat out @ bs \<and> in_sync streams' r' \<and> in_chunk_size r' = cs \<and>
    RtmpChunkProtocol.more r' = fold (\<lambda>msg v. fst (app (received msg (payload msg)) v)) msgs (RtmpChunkProtocol.more r) \<and>
    (\<forall>x. chunk_run mem (dispatch_rtmp_message app) (bs @ x) r = chunk_run mem (dispatch_rtmp_message app) x r')"
  using assms
proof (induction msgs arbitrary: n streams out r)
  case Nil
  then show ?case by (intro exI [of _ "[]"] exI [of _ r]) simp
next
  case (Cons msg msgs)
  let ?d = "payload msg" and ?csid = "unat (chunk_stream_id msg)"
  have sd: "sendable msg" and ok: "accepts app (received msg ?d)" using Cons.prems(1) [of msg] by (simp_all add: carried_def)
  have gd: "get_using_data msg = Inr ?d" and len: "length ?d = using_bytes msg"
    using sd by (simp_all add: sendable_def get_using_data_ok payload_def packet_ok_def)
  obtain out1 n1 streams1 ok1 where sc: "send_chunks cs msg ?d ?d n streams out = (out1, n1, streams1, ok1)"
    using prod_cases4 by blast
  have ok1: "ok1" and rest: "send_all cs msgs n1 streams1 out1 = Inr (out', streams', True)"
    using Cons.prems(3) gd sc by (auto split: bool.splits)
  from ok1 sc have sc: "send_chunks cs msg ?d ?d n streams out = (out1, n1, streams1, True)" by simp
  have fm: "choose_fmt (streams ?csid) msg (length ?d) \<noteq> 3" using Cons.prems(4) len by simp
  have sy: "synced (streams ?csid) (recv_chunk_streams r ?csid)" using Cons.prems(5) by (simp add: in_sync_def)
  from transfer_message [OF sd len Cons.prems(2) ok refl sc fm sy Cons.prems(6), of mem]
  obtain bs h where bs: "concat out1 = concat out @ bs" and h: "matches h msg (length ?d)"
    and st: "streams1 = streams(?csid \<mapsto> last_sent cs (streams ?csid) msg (length ?d))"
    and run: "\<And>x. chunk_run mem (dispatch_rtmp_message app) (bs @ x) r = chunk_run mem (dispatch_rtmp_message app) x
       (put_stream ?csid \<lparr>chunk_message_header = h, rtmp_message = None\<rparr> (handled app (received msg ?d) r))"
    by blast
  let ?r1 = "put_stream ?csid \<lparr>chunk_message_header = h, rtmp_message = None\<rparr> (handled app (received msg ?d) r)"
  have "in_sync streams1 ?r1"
    using Cons.prems(5) synced_last_sent [OF h] sd len by (simp add: st in_sync_def sendable_def)
  moreover have "type3_free cs streams1 msgs" using Cons.prems(4) len by (simp add: st)
  ultimately obtain bs2 r2 where bs2: "concat out' = concat out1 @ bs2" and r2: "in_sync streams' r2" "in_chunk_size r2 = cs"
      "RtmpChunkProtocol.more r2 = fold (\<lambda>msg v. fst (app (received msg (payload msg)) v)) msgs (RtmpChunkProtocol.more ?r1)"
      "\<And>x. chunk_run mem (dispatch_rtmp_message app) (bs2 @ x) ?r1 = chunk_run mem (dispatch_rtmp_message app) x r2"
    using Cons.IH [OF _ Cons.prems(2) rest, of ?r1] Cons.prems(1,6) by auto
  moreover have "RtmpChunkProtocol.more ?r1 = fst (app (received msg ?d) (RtmpChunkProtocol.more r))"
    by (simp add: handled_def put_stream_def)
  ultimately show ?case
    using bs run by (intro exI [of _ "bs @ bs2"] exI [of _ r2]) simp
qed

text \<open>The chunks that \<open>len\<close> bytes take, rounded up.\<close>
definition chunks_of :: "int \<Rightarrow> nat \<Rightarrow> nat" where
  "chunks_of cs len = (len + nat cs - 1) div nat cs"

lemma chunks_of_0 [simp]: "0 < cs \<Longrightarrow> chunks_of cs 0 = 0"
  by (simp add: chunks_of_def)

lemma chunks_of_step:
  assumes "0 < cs" and "0 < len"
  shows "chunks_of cs len = Suc (chunks_of cs (len - nat (min cs (int len))))"
proof (cases "int len \<le> cs")
  case True
  then have "len + nat cs - 1 = nat cs + (len - 1)" "len - 1 < nat cs" using assms by linarith+
  then have "(len + nat cs - 1) div nat cs = 1" using assms by (simp only: div_add_self1) simp
  with True assms show ?thesis by (simp add: chunks_of_def)
next
  case False
  have "nat cs \<noteq> 0" using assms(1) by simp
  then have *: "((len - 1) + nat cs) div nat cs = Suc ((len - 1) div nat cs)" using div_add_self2 [of "nat cs" "len - 1"] by linarith
  have "len + nat cs - 1 = (len - 1) + nat cs" and "len - nat cs + nat cs - 1 = len - 1"
    and "len - nat (min cs (int len)) = len - nat cs" using False assms by linarith+
  then show ?thesis unfolding chunks_of_def by (simp only: *)
qed

lemma send_chunks_next:
  assumes "rest \<noteq> []" and "n < 200"
  shows "\<exists>streams1 out1. send_chunks cs msg d rest n streams out =
    send_chunks cs msg d (drop (nat (min cs (int (length rest)))) rest) (Suc n) streams1 out1"
  using assms by (subst send_chunks.simps) (simp add: Let_def, blast)

lemma send_chunks_count:
  assumes "0 < cs" and "n \<le> 200"
  shows "\<exists>out' streams'. send_chunks cs msg d rest n streams out =
    (out', min 200 (n + chunks_of cs (length rest)), streams', n + chunks_of cs (length rest) \<le> 200)"
  using assms(2)
proof (induction "200 - n" arbitrary: n rest streams out)
  case 0
  then show ?case using assms(1) by (subst send_chunks.simps) (simp add: chunks_of_step)
next
  case (Suc m)
  show ?case
  proof (cases "rest = []")
    case True
    then show ?thesis using Suc.prems assms(1) by (simp add: send_chunks_Nil min_def)
  next
    case False
    let ?r = "drop (nat (min cs (int (length rest)))) rest"
    have ch: "chunks_of cs (length rest) = Suc (chunks_of cs (length ?r))"
      using False assms(1) chunks_of_step [of cs "length rest"] by simp
    have n: "n < 200" "m = 200 - Suc n" "Suc n \<le> 200" using Suc.hyps(2) by linarith+
    obtain streams1 out1 where "send_chunks cs msg d rest n streams out = send_chunks cs msg d ?r (Suc n) streams1 out1"
      using send_chunks_next [OF False n(1)] by blast
    with Suc.hyps(1) [OF n(2,3), of ?r streams1 out1] ch show ?thesis by simp
  qed
qed

lemma send_all_count:
  assumes "0 < cs" and "n \<le> 200" and "\<forall>msg\<in>set msgs. packet_ok msg"
  shows "\<exists>out' streams'. send_all cs msgs n streams out =
    Inr (out', streams', n + sum_list (map (chunks_of cs \<circ> using_bytes) msgs) \<le> 200)"
  using assms(2,3)
proof (induction msgs arbitrary: n streams out)
  case (Cons msg msgs)
  let ?d = "take (using_bytes msg) (data_buf msg)" and ?k = "chunks_of cs (using_bytes msg)"
  have d: "get_using_data msg = Inr ?d" "length ?d = using_bytes msg"
    using Cons.prems by (simp_all add: get_using_data_ok packet_ok_def)
  show ?case
  proof (cases "n + ?k \<le> 200")
    case True
    then obtain out1 s1 where "send_chunks cs msg ?d ?d n streams out = (out1, n + ?k, s1, True)"
      using send_chunks_count [OF assms(1) Cons.prems(1), of msg ?d ?d streams out] d(2) by (auto simp: min_def)
    then show ?thesis using Cons.IH [OF True, of s1 out1] Cons.prems d(1) by (simp add: add.assoc)
  next
    case False
    then obtain out1 s1 where "send_chunks cs msg ?d ?d n streams out = (out1, 200, s1, False)"
      using send_chunks_count [OF assms(1) Cons.prems(1), of msg ?d ?d streams out] d(2) by (auto simp: min_def)
    then show ?thesis using False d(1) by simp
  qed
qed simp

lemma send_drain:
  assumes "send_rtmp_messages msgs s = Inr (Some wire, s')"
    and "\<forall>msg\<in>set msgs. carried app msg"
    and "type3_free (out_chunk_size s) (send_chunk_streams s) msgs"
    and "0 < out_chunk_size s" and "in_chunk_size r = out_chunk_size s"
    and "in_sync (send_chunk_streams s) r" and "cache_clean (recv_chunk_cache r)" and "recv_buffer r = wire"
  shows "\<exists>r'. drain mem (Some (dispatch_rtmp_message app)) r = (r', Inr ()) \<and> recv_buffer r' = [] \<and>
    in_sync (send_chunk_streams s') r' \<and>
    RtmpChunkProtocol.more r' = fold (\<lambda>msg v. fst (app (received msg (payload msg)) v)) msgs (RtmpChunkProtocol.more r)"
proof -
  obtain out streams where all: "send_all (out_chunk_size s) msgs 0 (send_chunk_streams s) [] = Inr (out, streams, True)"
    and w: "wire = concat out" "send_chunk_streams s' = streams"
    using assms(1) by (auto simp: send_rtmp_messages_def bindR_eq_Inr_iff split: if_splits)
  obtain bs r1 where bs: "concat out = concat [] @ bs" and r1: "in_sync streams r1"
      "RtmpChunkProtocol.more r1 = fold (\<lambda>msg v. fst (app (received msg (payload msg)) v)) msgs (RtmpChunkProtocol.more r)"
      "\<forall>x. chunk_run mem (dispatch_rtmp_message app) (bs @ x) r = chunk_run mem (dispatch_rtmp_message app) x r1"
    using transfer_all [OF _ assms(4) all assms(3,6,5), of app mem] assms(2) by blast
  have "chunk_run mem (dispatch_rtmp_message app) [] r1 = (r1, [], Inr ())"
    by (subst chunk_run.simps) (simp add: chunk_step_def basic_header_def)
  then have "chunk_run mem (dispatch_rtmp_message app) (recv_buffer r) r = (r1, [], Inr ())"
    using r1(3) bs w assms(8) by (metis append_Nil append_Nil2 concat.simps(1))
  from session_dispatch.drain_refines [OF assms(7) this] obtain ca
    where "drain mem (Some (dispatch_rtmp_message app)) r = (frame ca [] (max_buf_bytes r) r1, Inr ())" by blast
  then show ?thesis using r1 w by (simp add: in_sync_def) (simp add: frame_def)
qed

section \<open>Properties\<close>


text \<open>
  C24. With a positive chunk size, a call of \<^verbatim>\<open>send_rtmp_messages\<close> hands its messages to the socket if and
  only if they take at most 200 chunks together, each message's length divided by the
  chunk size and rounded up; otherwise nothing is sent.
\<close>
theorem send_chunk_limit:
  assumes "0 < out_chunk_size s" and "\<forall>msg\<in>set msgs. packet_ok msg"
  shows "\<exists>sent s'. send_rtmp_messages msgs s = Inr (sent, s') \<and>
    (sent \<noteq> None \<longleftrightarrow> sum_list (map (chunks_of (out_chunk_size s) \<circ> using_bytes) msgs) \<le> 200)"
  using send_all_count [OF assms(1) _ assms(2), of 0 "send_chunk_streams s" "[]"]
  by (auto simp: send_rtmp_messages_def)

theorem send_chunk_limit_witness:
  "\<exists>s'. send_rtmp_messages [RtmpMessage_new (\<lambda>_. 0) 25601\<lparr>using_bytes := 25601\<rparr>] RtmpChunkProtocol_new = Inr (None, s')"
  using send_chunk_limit [of RtmpChunkProtocol_new "[RtmpMessage_new (\<lambda>_. 0) 25601\<lparr>using_bytes := 25601\<rparr>]"]
  by (auto simp: RtmpChunkProtocol_new_def packet_ok_def RtmpMessage_new_def chunks_of_def)

lemma send_one_chunk:
  assumes "get_using_data msg = Inr d" and "0 < length d" and "int (length d) \<le> out_chunk_size s"
    and "pc = send_chunk_streams s (unat (chunk_stream_id msg))"
  shows "send_rtmp_messages [msg] s = Inr (Some (chunk_head pc msg (length d) @ d),
    s\<lparr>send_chunk_streams := (send_chunk_streams s)(unat (chunk_stream_id msg) \<mapsto> sent_chunk pc msg (length d))\<rparr>)"
proof -
  have "send_chunks (out_chunk_size s) msg d d 0 (send_chunk_streams s) [] =
      ([chunk_head pc msg (length d), d], 1, (send_chunk_streams s)(unat (chunk_stream_id msg) \<mapsto> sent_chunk pc msg (length d)), True)"
    using assms(2-4) by (subst send_chunks.simps)
      (simp add: Let_def chunk_head_def prev_timestamp_def send_chunks_Nil min_def)
  then show ?thesis using assms(1) by (simp add: send_rtmp_messages_def)
qed

text \<open>
  C32. A message that the sender starts with a type 3 chunk, because its size, type and time delta repeat
  those of the previous message, is delivered with the previous message's timestamp: the receiver does not
  add the delta, while the sender has moved on.
\<close>
theorem type3_start_loses_delta:
  assumes "sendable msg" and "using_bytes msg \<le> nat (out_chunk_size s)" and "0 < out_chunk_size s"
    and "in_chunk_size r = out_chunk_size s"
    and "send_chunk_streams s (unat (chunk_stream_id msg)) = Some a" and "choose_fmt (Some a) msg (using_bytes msg) = 3"
    and "timestamp msg - prev_timestamp (Some a) < 0xffffff"
    and "synced (Some a) (recv_chunk_streams r (unat (chunk_stream_id msg)))"
    and "accepts app (received (msg\<lparr>timestamp := prev_timestamp (Some a)\<rparr>) (payload msg))"
    and "cache_clean (recv_chunk_cache r)"
  shows "\<exists>wire s' r'. send_rtmp_messages [msg] s = Inr (Some wire, s') \<and>
    drain mem (Some (dispatch_rtmp_message app)) (r\<lparr>recv_buffer := wire\<rparr>) = (r', Inr ()) \<and>
    RtmpChunkProtocol.more r' = fst (app (received (msg\<lparr>timestamp := prev_timestamp (Some a)\<rparr>) (payload msg)) (RtmpChunkProtocol.more r))"
proof -
  let ?d = "payload msg" and ?csid = "unat (chunk_stream_id msg)" and ?f = "dispatch_rtmp_message app"
  let ?old = "msg\<lparr>timestamp := prev_timestamp (Some a)\<rparr>" and ?bh = "put_basic_header 3 (chunk_stream_id msg)"
  have gd: "get_using_data msg = Inr ?d" and len: "length ?d = using_bytes msg"
    using assms(1) by (simp_all add: sendable_def get_using_data_ok payload_def packet_ok_def)
  have sd: "2 \<le> ?csid" "?csid \<le> 65599" "length ?d < MAX_RTMP_BUF_BYTES" "0 < length ?d"
    using assms(1) len by (simp_all add: sendable_def)
  have head: "chunk_head (Some a) msg (length ?d) = ?bh"
    using assms(6,7) len
    by (simp add: chunk_head_def put_message_header_def Let_def put_ext_def linorder_not_less [symmetric])
  obtain m b where ab: "rtmp_message a = Some m" "recv_chunk_streams r ?csid = Some b" "rtmp_message b = None"
      "matches (chunk_message_header a) m (unat (h_message_length (chunk_message_header a)))"
      "matches (chunk_message_header b) m (unat (h_message_length (chunk_message_header a)))"
    using assms(8) by (auto simp: synced_def)
  have same: "h_message_length (chunk_message_header a) = of_nat (length ?d)"
      "h_message_type_id (chunk_message_header a) = message_type_id msg"
      "h_message_stream_id (chunk_message_header a) = message_stream_id msg"
    using assms(6) len by (simp_all add: choose_fmt_def Let_def split: if_splits)
  define h where "h = ChunkMessageHeader_clear\<lparr>h_fmt := 3, h_message_length := h_message_length (chunk_message_header b),
     h_message_type_id := h_message_type_id (chunk_message_header b), h_message_stream_id := h_message_stream_id (chunk_message_header b),
     h_timestamp := h_timestamp (chunk_message_header b), h_timestamp_delta := h_timestamp_delta (chunk_message_header b)\<rparr>"
  have h: "matches h ?old (length ?d)"
    using ab same by (simp add: h_def matches_def prev_timestamp_def)
  define c where "c = (next_chunk r ?csid)\<lparr>chunk_message_header := h\<rparr>"
  have c: "chunk_message_header c = h" "building ?d 0 (chunk_message mem c)"
    using ab h sd(3) by (simp_all add: c_def next_chunk_def RtmpChunk_clear_def chunk_message_def building_def matches_def unat_of_nat)
  have "parse_message_header 3 True (Some (chunk_message_header b)) ChunkMessageHeader_clear ([] @ x) = HOk h (length ([] :: bytes))" for x
    by (simp add: parse_message_header_def parse_type3_def h_def)
  then have "chunk_step mem ?f (?bh @ ?d) r = take_payload mem (Some ?f) ?csid c (length ?bh) ?d r"
    using chunk_step_parsed [OF _ sd(1,2), of 3 r "[]" ?d h mem ?f] ab by (simp add: c_def next_chunk_def)
  also have "\<dots> = (put_stream ?csid \<lparr>chunk_message_header = h, rtmp_message = None\<rparr> (handled app (received ?old ?d) r), Consumed (length (?bh @ ?d)))"
    using payload_step [OF c(2), of ?old r "length ?d" ?csid app "length ?bh" "[]"] c(1) h sd(3) assms(2,3,4,9) len by simp
  finally have "chunk_run mem ?f (?bh @ ?d) r =
      chunk_run mem ?f [] (put_stream ?csid \<lparr>chunk_message_header = h, rtmp_message = None\<rparr> (handled app (received ?old ?d) r))"
    using chunk_run_Consumed [of mem ?f "?bh @ ?d" "[]"] by simp
  then have run: "chunk_run mem ?f (?bh @ ?d) r =
      (put_stream ?csid \<lparr>chunk_message_header = h, rtmp_message = None\<rparr> (handled app (received ?old ?d) r), [], Inr ())"
    by (subst (asm) (2) chunk_run.simps) (simp add: chunk_step_def basic_header_def)
  let ?r = "frame (recv_chunk_cache r) (?bh @ ?d) (max_buf_bytes r) r"
  have "r\<lparr>recv_buffer := ?bh @ ?d\<rparr> = ?r" by (simp add: frame_def)
  moreover obtain ca where "drain mem (Some ?f) ?r = (frame ca [] (max_buf_bytes r)
      (put_stream ?csid \<lparr>chunk_message_header = h, rtmp_message = None\<rparr> (handled app (received ?old ?d) r)), Inr ())"
    using session_dispatch.drain_refines [of ?r mem app _ "[]" "Inr ()"] run assms(10)
    by (auto simp: session_dispatch.chunk_run_frame)
  ultimately show ?thesis
    using send_one_chunk [OF gd sd(4) _ refl, of s] assms(2,3,5) len head
    by (simp add: frame_def put_stream_def handled_def)
qed


section \<open>Witnesses\<close>

text \<open>A session that records the messages it gets, and two messages of one stream.\<close>

abbreviation (input) logging :: "RtmpMessage \<Rightarrow> RtmpMessage list \<Rightarrow> RtmpMessage list \<times> bool" where
  "logging \<equiv> \<lambda>msg log. (log @ [msg], True)"

abbreviation (input) fresh_receiver :: "RtmpMessage list RtmpChunkProtocol_scheme" where
  "fresh_receiver \<equiv> RtmpChunkProtocol.extend RtmpChunkProtocol_new []"

definition audio_message :: "u32 \<Rightarrow> RtmpMessage" where
  "audio_message t = \<lparr>data_buf = [7], using_bytes = 1, message_type_id = 8, timestamp = t, message_stream_id = 1,
     chunk_stream_id = 4\<rparr>"

lemma audio_message_ok: "sendable (audio_message 5)" "carried logging (audio_message 5)" "payload (audio_message t) = [7]"
    "get_using_data (audio_message t) = Inr [7]"
  by (simp_all add: sendable_def carried_def accepts_def audio_message_def packet_ok_def received_def payload_def get_using_data_def
      is_protocol_control_message_def)

lemma fresh_receiver_simps:
  "in_chunk_size fresh_receiver = 128" "recv_chunk_cache fresh_receiver = recv_chunk_cache RtmpChunkProtocol_new"
  "recv_chunk_streams fresh_receiver = Map.empty" "RtmpChunkProtocol.more fresh_receiver = []"
  "in_sync (send_chunk_streams RtmpChunkProtocol_new) fresh_receiver"
  by (simp_all add: RtmpChunkProtocol.defs RtmpChunkProtocol_new_def in_sync_def synced_def)


theorem type3_start_loses_delta_witness:
  "\<exists>wire s' r'. send_rtmp_messages [audio_message 80] (RtmpChunkProtocol_new\<lparr>send_chunk_streams :=
      [4 \<mapsto> sent_chunk (Some (sent_chunk None (audio_message 0) 1)) (audio_message 40) 1]\<rparr>) = Inr (Some wire, s') \<and>
    drain (\<lambda>_. 0) (Some (dispatch_rtmp_message logging)) (fresh_receiver\<lparr>recv_chunk_streams :=
      [4 \<mapsto> (sent_chunk None (audio_message 40) 1)\<lparr>rtmp_message := None\<rparr>], recv_buffer := wire\<rparr>) = (r', Inr ()) \<and>
    RtmpChunkProtocol.more r' = [received (audio_message 40) [7]]"
proof -
  let ?a = "sent_chunk (Some (sent_chunk None (audio_message 0) 1)) (audio_message 40) 1"
  let ?s = "RtmpChunkProtocol_new\<lparr>send_chunk_streams := [4 \<mapsto> ?a]\<rparr>"
  let ?r = "fresh_receiver\<lparr>recv_chunk_streams := [4 \<mapsto> (sent_chunk None (audio_message 40) 1)\<lparr>rtmp_message := None\<rparr>]\<rparr>"
  have old: "(audio_message 80)\<lparr>timestamp := prev_timestamp (Some ?a)\<rparr> = audio_message 40"
    by (simp add: prev_timestamp_def audio_message_def)
  have "sendable (audio_message 80)" "accepts logging (received (audio_message 40) [7])"
    by (simp_all add: sendable_def audio_message_def packet_ok_def accepts_def received_def is_protocol_control_message_def)
  moreover have "choose_fmt (Some ?a) (audio_message 80) (using_bytes (audio_message 80)) = 3"
    by (simp add: choose_fmt_def Let_def sent_chunk_def audio_message_def)
  moreover have "unat (chunk_stream_id (audio_message 80)) = 4" "using_bytes (audio_message 80) = 1"
    "timestamp (audio_message 80) - prev_timestamp (Some ?a) < 0xffffff"
    by (simp_all add: prev_timestamp_def audio_message_def)
  moreover have "synced (Some ?a) (Some ((sent_chunk None (audio_message 40) 1)\<lparr>rtmp_message := None\<rparr>))"
    by (simp add: synced_def sent_chunk_def matches_def audio_message_def)
  moreover have "out_chunk_size ?s = 128" "in_chunk_size ?r = 128" "recv_chunk_cache ?r = recv_chunk_cache RtmpChunkProtocol_new"
    by (simp_all add: RtmpChunkProtocol.defs RtmpChunkProtocol_new_def)
  ultimately show ?thesis
    using type3_start_loses_delta [of "audio_message 80" ?s ?r ?a logging "\<lambda>_. 0"] old audio_message_ok(3) cache_clean_new
      fresh_receiver_simps(4) by simp
qed

end
