(* ===== verification/Amf0.thy ===== *)
theory Amf0
  imports Prelude "HOL-Library.AList"
begin

text \<open>
  The AMF0 value layer of the RTMP stack (\<^verbatim>\<open>libs/protocol/rtmp/amf0\<close>): the value classes with
  their \<^verbatim>\<open>size\<close>, \<^verbatim>\<open>encode\<close> and \<^verbatim>\<open>decode\<close>. A buffer pointer with its \<^verbatim>\<open>len\<close> is the list of the
  bytes it covers, so reading or writing past the end is an \<open>Oob\<close> fault. The
  \<^verbatim>\<open>unordered_map\<close> of an object is an association list in its iteration order, which the
  statements leave arbitrary. Return codes of \<^verbatim>\<open>encode\<close> and \<^verbatim>\<open>decode\<close> that count bytes are
  natural numbers, negative ones are \<open>Rc\<close> faults.
\<close>

lemma AList_update_fresh: "k \<notin> fst ` set al \<Longrightarrow> AList.update k v al = al @ [(k, v)]"
  by (induction al) auto

section \<open>Values and markers\<close>

abbreviation (input) NUMBER_MARKER :: byte where "NUMBER_MARKER \<equiv> 0x00"
abbreviation (input) BOOLEAN_MARKER :: byte where "BOOLEAN_MARKER \<equiv> 0x01"
abbreviation (input) STRING_MARKER :: byte where "STRING_MARKER \<equiv> 0x02"
abbreviation (input) OBJECT_MARKER :: byte where "OBJECT_MARKER \<equiv> 0x03"
abbreviation (input) NULL_MARKER :: byte where "NULL_MARKER \<equiv> 0x05"
abbreviation (input) UNDEFINED_MARKER :: byte where "UNDEFINED_MARKER \<equiv> 0x06"
abbreviation (input) REFERENCE_MARKER :: byte where "REFERENCE_MARKER \<equiv> 0x07"
abbreviation (input) ECMA_ARRAY_MARKER :: byte where "ECMA_ARRAY_MARKER \<equiv> 0x08"
abbreviation (input) OBJECT_END_MARKER :: byte where "OBJECT_END_MARKER \<equiv> 0x09"
abbreviation (input) STRICT_ARRAY_MARKER :: byte where "STRICT_ARRAY_MARKER \<equiv> 0x0A"
abbreviation (input) DATE_MARKER :: byte where "DATE_MARKER \<equiv> 0x0B"

datatype Amf0Data =
    Amf0Number double
  | Amf0Boolean bool
  | Amf0String bytes
  | Amf0Object "(bytes \<times> Amf0Data) list"
  | Amf0Null
  | Amf0Undefined
  | Amf0Reference u16
  | Amf0EcmaArray "(bytes \<times> Amf0Data) list"
  | Amf0StrictArray "Amf0Data list"
  | Amf0Date double u16

type_synonym properties = "(bytes \<times> Amf0Data) list"

fun get_type :: "Amf0Data \<Rightarrow> byte" where
  "get_type (Amf0Number _) = NUMBER_MARKER"
| "get_type (Amf0Boolean _) = BOOLEAN_MARKER"
| "get_type (Amf0String _) = STRING_MARKER"
| "get_type (Amf0Object _) = OBJECT_MARKER"
| "get_type Amf0Null = NULL_MARKER"
| "get_type Amf0Undefined = UNDEFINED_MARKER"
| "get_type (Amf0Reference _) = REFERENCE_MARKER"
| "get_type (Amf0EcmaArray _) = ECMA_ARRAY_MARKER"
| "get_type (Amf0StrictArray _) = STRICT_ARRAY_MARKER"
| "get_type (Amf0Date _ _) = DATE_MARKER"

section \<open>Scalar values\<close>

definition Amf0Number_decode :: "bytes \<Rightarrow> (double \<times> nat) result" where
  "Amf0Number_decode data = (case data of
      [] \<Rightarrow> Inl (Rc (-1))
    | marker # d \<Rightarrow>
        if marker \<noteq> NUMBER_MARKER then Inl (Rc (-2))
        else if length d < 8 then Inl (Rc (-3))
        else Inr (get_be (take 8 d), 9))"

definition Amf0Number_encode :: "double \<Rightarrow> enc" where
  "Amf0Number_encode v buf =
     (if length buf < 1 then Inl (Rc (-1))
      else if length buf - 1 < 8 then Inl (Rc (-2))
      else Inr (9, NUMBER_MARKER # put_be 8 v @ drop 9 buf))"

definition Amf0Boolean_decode :: "bytes \<Rightarrow> (bool \<times> nat) result" where
  "Amf0Boolean_decode data = (case data of
      [] \<Rightarrow> Inl (Rc (-1))
    | marker # d \<Rightarrow>
        if marker \<noteq> BOOLEAN_MARKER then Inl (Rc (-2))
        else (case d of [] \<Rightarrow> Inl (Rc (-3)) | b # _ \<Rightarrow> Inr (b > 0, 2)))"

definition Amf0Boolean_encode :: "bool \<Rightarrow> enc" where
  "Amf0Boolean_encode v buf =
     (if length buf < 1 then Inl (Rc (-1))
      else if length buf - 1 < 1 then Inl (Rc (-2))
      else Inr (2, [BOOLEAN_MARKER, of_bool v] @ drop 2 buf))"

definition Amf0String_decode :: "bytes \<Rightarrow> (bytes \<times> nat) result" where
  "Amf0String_decode data = (case data of
      [] \<Rightarrow> Inl (Rc (-1))
    | marker # p \<Rightarrow>
        if marker \<noteq> STRING_MARKER then Inl (Rc (-2))
        else if length p < 2 then Inl (Rc (-3))
        else let string_len = be_nat (take 2 p) in
          if length p - 2 < string_len then Inl (Rc (-4))
          else Inr (take string_len (drop 2 p), 3 + string_len))"

text \<open>
  A string that does not fit returns 0, not an error, after it has written its marker
  and possibly its length.
\<close>
definition Amf0String_encode :: "bytes \<Rightarrow> enc" where
  "Amf0String_encode v buf =
     (if length buf < 1 then Inr (0, buf)
      else if length buf - 1 < 2 then Inr (0, STRING_MARKER # drop 1 buf)
      else let hd3 = STRING_MARKER # put_be 2 (of_nat (length v) :: u16) in
        if length buf - 3 < length v then Inr (0, hd3 @ drop 3 buf)
        else Inr (3 + length v, hd3 @ v @ drop (3 + length v) buf))"

definition Amf0Null_decode :: "bytes \<Rightarrow> (unit \<times> nat) result" where
  "Amf0Null_decode data = (case data of
      [] \<Rightarrow> Inl (Rc (-1))
    | marker # _ \<Rightarrow> if marker \<noteq> NULL_MARKER then Inl (Rc (-2)) else Inr ((), 1))"

definition Amf0Null_encode :: "enc" where
  "Amf0Null_encode buf =
     (if length buf < 1 then Inl (Rc (-1)) else Inr (1, NULL_MARKER # drop 1 buf))"

definition Amf0Undefined_decode :: "bytes \<Rightarrow> (unit \<times> nat) result" where
  "Amf0Undefined_decode data = (case data of
      [] \<Rightarrow> Inl (Rc (-1))
    | marker # _ \<Rightarrow> if marker \<noteq> UNDEFINED_MARKER then Inl (Rc (-2)) else Inr ((), 1))"

definition Amf0Undefined_encode :: "enc" where
  "Amf0Undefined_encode buf =
     (if length buf < 1 then Inl (Rc (-1)) else Inr (1, UNDEFINED_MARKER # drop 1 buf))"

definition Amf0Reference_decode :: "bytes \<Rightarrow> (u16 \<times> nat) result" where
  "Amf0Reference_decode data = (case data of
      [] \<Rightarrow> Inl (Rc (-1))
    | marker # d \<Rightarrow>
        if marker \<noteq> REFERENCE_MARKER then Inl (Rc (-2))
        else if length d < 2 then Inl (Rc (-3))
        else Inr (get_be (take 2 d), 3))"

definition Amf0Reference_encode :: "u16 \<Rightarrow> enc" where
  "Amf0Reference_encode v buf = Inr (0, buf)"

definition Amf0Date_decode :: "bytes \<Rightarrow> ((double \<times> u16) \<times> nat) result" where
  "Amf0Date_decode data = (case data of
      [] \<Rightarrow> Inl (Rc (-1))
    | marker # d \<Rightarrow>
        if marker \<noteq> DATE_MARKER then Inl (Rc (-2))
        else if length d < 8 then Inl (Rc (-3))
        else if length d - 8 < 2 then Inl (Rc (-4))
        else Inr ((get_be (take 8 d), get_be (take 2 (drop 8 d))), 11))"

definition Amf0Date_encode :: "double \<Rightarrow> u16 \<Rightarrow> enc" where
  "Amf0Date_encode utc tz buf = Inr (0, buf)"

definition Amf0ObjEnd_decode :: "bytes \<Rightarrow> nat result" where
  "Amf0ObjEnd_decode data =
     (if length data < 3 then Inl (Rc (-1))
      else if data ! 0 \<noteq> 0 \<or> data ! 1 \<noteq> 0 \<or> data ! 2 \<noteq> OBJECT_END_MARKER then Inl (Rc (-2))
      else Inr 3)"

definition Amf0ObjEnd_encode :: "enc" where
  "Amf0ObjEnd_encode buf =
     (if length buf < 3 then Inl (Rc (-1)) else Inr (3, [0, 0, OBJECT_END_MARKER] @ drop 3 buf))"

section \<open>Decoding objects and arrays\<close>

text \<open>The \<^verbatim>\<open>switch (marker)\<close> of the two recursive decoders and of the ECMA array.\<close>

definition obj_markers :: "byte list" where
  "obj_markers = [NUMBER_MARKER, BOOLEAN_MARKER, STRING_MARKER, OBJECT_MARKER, NULL_MARKER,
     UNDEFINED_MARKER, REFERENCE_MARKER, STRICT_ARRAY_MARKER, DATE_MARKER]"

definition arr_markers :: "byte list" where
  "arr_markers = [NUMBER_MARKER, BOOLEAN_MARKER, STRING_MARKER, OBJECT_MARKER, NULL_MARKER,
     UNDEFINED_MARKER, REFERENCE_MARKER, STRICT_ARRAY_MARKER]"

definition ecma_markers :: "byte list" where
  "ecma_markers = [NUMBER_MARKER, BOOLEAN_MARKER, STRING_MARKER, NULL_MARKER,
     UNDEFINED_MARKER, OBJECT_MARKER]"

definition map_value :: "('a \<Rightarrow> 'b) \<Rightarrow> ('a \<times> nat) result \<Rightarrow> ('b \<times> nat) result" where
  "map_value f r = bindR r (\<lambda>(x, c). Inr (f x, c))"

text \<open>
  \<open>obj_loop\<close> is the \<^verbatim>\<open>while\<close> loop of \<^verbatim>\<open>Amf0Object::decode\<close> over the properties gathered so
  far, \<open>arr_loop\<close> that of \<^verbatim>\<open>Amf0StrictArray::decode\<close> with the number of elements still
  announced, \<open>value_decode\<close> the virtual call \<^verbatim>\<open>value->decode(data, len)\<close> on the object the
  \<^verbatim>\<open>switch\<close> has created. After the key of a property the object loop reads the marker with
  no check that a byte is left.
\<close>

function (sequential) obj_loop :: "properties \<Rightarrow> bytes \<Rightarrow> (properties \<times> nat) result"
  and arr_loop :: "nat \<Rightarrow> Amf0Data list \<Rightarrow> bytes \<Rightarrow> (Amf0Data list \<times> nat) result"
  and value_decode :: "byte \<Rightarrow> bytes \<Rightarrow> (Amf0Data \<times> nat) result"
where
  "obj_loop props data =
     (if data = [] then Inr (props, 0)
      else case Amf0ObjEnd_decode data of
        Inr consumed \<Rightarrow> Inr (props, consumed)
      | Inl _ \<Rightarrow>
          if length data < 2 then Inl (Rc (-3))
          else let key_len = be_nat (take 2 data) in
          if length data - 2 < key_len then Inl (Rc (-4))
          else let key = take key_len (drop 2 data); data' = drop (2 + key_len) data in
          if data' = [] then Inl Oob
          else if hd data' \<notin> set obj_markers then Inl (Rc (-5))
          else bindR (orfail (-6) (value_decode (hd data') data')) (\<lambda>(value, consumed).
            bindR (obj_loop (AList.update key value props) (drop consumed data')) (\<lambda>(ps, n).
              Inr (ps, 2 + key_len + consumed + n))))"
| "arr_loop k datas data =
     (if k = 0 \<or> data = [] then Inr (datas, 0)
      else if hd data \<notin> set arr_markers then Inl (Rc (-5))
      else bindR (orfail (-6) (value_decode (hd data) data)) (\<lambda>(value, consumed).
        bindR (arr_loop (k - 1) (datas @ [value]) (drop consumed data)) (\<lambda>(ds, n).
          Inr (ds, consumed + n))))"
| "value_decode marker data =
     (if marker = NUMBER_MARKER then map_value Amf0Number (Amf0Number_decode data)
      else if marker = BOOLEAN_MARKER then map_value Amf0Boolean (Amf0Boolean_decode data)
      else if marker = STRING_MARKER then map_value Amf0String (Amf0String_decode data)
      else if marker = NULL_MARKER then map_value (\<lambda>_. Amf0Null) (Amf0Null_decode data)
      else if marker = UNDEFINED_MARKER then map_value (\<lambda>_. Amf0Undefined) (Amf0Undefined_decode data)
      else if marker = REFERENCE_MARKER then map_value Amf0Reference (Amf0Reference_decode data)
      else if marker = DATE_MARKER then map_value (\<lambda>(u, z). Amf0Date u z) (Amf0Date_decode data)
      else if marker = OBJECT_MARKER then
        (if data = [] then Inl (Rc (-1))
         else if hd data \<noteq> OBJECT_MARKER then Inl (Rc (-2))
         else bindR (obj_loop [] (tl data)) (\<lambda>(ps, n). Inr (Amf0Object ps, 1 + n)))
      else if marker = STRICT_ARRAY_MARKER then
        (if data = [] then Inl (Rc (-1))
         else if hd data \<noteq> STRICT_ARRAY_MARKER then Inl (Rc (-2))
         else if length data - 1 < 4 then Inl (Rc (-3))
         else bindR (arr_loop (be_nat (take 4 (tl data))) [] (drop 5 data)) (\<lambda>(ds, n).
           Inr (Amf0StrictArray ds, 5 + n)))
      else Inl (Rc (-5)))"
  by pat_completeness auto
termination
  by (relation "measures [
        case_sum (\<lambda>(_, d). length d) (case_sum (\<lambda>(_, _, d). length d) (\<lambda>(_, d). length d)),
        case_sum (\<lambda>_. 0) (case_sum (\<lambda>(k, _, _). Suc k) (\<lambda>_. 0))]")
     auto

declare obj_loop.simps [simp del] arr_loop.simps [simp del] value_decode.simps [simp del]

text \<open>The two public decoders, called on an object that may already hold properties.\<close>

definition Amf0Object_decode :: "properties \<Rightarrow> bytes \<Rightarrow> (properties \<times> nat) result" where
  "Amf0Object_decode props data =
     (if data = [] then Inl (Rc (-1))
      else if hd data \<noteq> OBJECT_MARKER then Inl (Rc (-2))
      else bindR (obj_loop props (tl data)) (\<lambda>(ps, n). Inr (ps, 1 + n)))"

definition Amf0StrictArray_decode :: "bytes \<Rightarrow> (Amf0Data list \<times> nat) result" where
  "Amf0StrictArray_decode data =
     (if data = [] then Inl (Rc (-1))
      else if hd data \<noteq> STRICT_ARRAY_MARKER then Inl (Rc (-2))
      else if length data - 1 < 4 then Inl (Rc (-3))
      else bindR (arr_loop (be_nat (take 4 (tl data))) [] (drop 5 data)) (\<lambda>(ds, n). Inr (ds, 5 + n)))"

text \<open>\<^verbatim>\<open>count\<close> is a signed 32-bit integer: a negative one means no element.\<close>

function (sequential) ecma_loop :: "int \<Rightarrow> properties \<Rightarrow> bytes \<Rightarrow> (properties \<times> nat) result" where
  "ecma_loop count props data =
     (if count \<le> 0 then Inr (props, 0)
      else if length data < 2 then Inl (Rc (-4))
      else let key_len = be_nat (take 2 data) in
        if length data - 2 < key_len then Inl (Rc (-5))
        else let key = take key_len (drop 2 data); data' = drop (2 + key_len) data in
          if length data' < 1 then Inl (Rc (-6))
          else if hd data' \<notin> set ecma_markers then Inl (Rc (-7))
          else bindR (orfail (-8) (value_decode (hd data') data')) (\<lambda>(value, consumed).
            bindR (ecma_loop (count - 1) (AList.update key value props) (drop consumed data')) (\<lambda>(ps, n).
              Inr (ps, 2 + key_len + consumed + n))))"
  by pat_completeness auto
termination
  by (relation "measure (\<lambda>(_, _, d). length d)") auto

declare ecma_loop.simps [simp del]

definition Amf0EcmaArray_decode :: "properties \<Rightarrow> bytes \<Rightarrow> (properties \<times> nat) result" where
  "Amf0EcmaArray_decode props data =
     (if length data < 1 then Inl (Rc (-1))
      else if hd data \<noteq> ECMA_ARRAY_MARKER then Inl (Rc (-2))
      else if length data - 1 < 4 then Inl (Rc (-3))
      else bindR (ecma_loop (sint (get_be (take 4 (tl data)) :: u32)) props (drop 5 data)) (\<lambda>(ps, n).
        bindR (orfail (-8) (Amf0ObjEnd_decode (drop (5 + n) data))) (\<lambda>c. Inr (ps, 5 + n + c))))"

section \<open>Sizes and encoding\<close>

fun Amf0Data_size :: "Amf0Data \<Rightarrow> nat"
  and props_size :: "properties \<Rightarrow> nat"
  and datas_size :: "Amf0Data list \<Rightarrow> nat"
where
  "Amf0Data_size (Amf0Number _) = 9"
| "Amf0Data_size (Amf0Boolean _) = 2"
| "Amf0Data_size (Amf0String s) = 1 + 2 + length s"
| "Amf0Data_size (Amf0Object ps) = 1 + props_size ps + 3"
| "Amf0Data_size Amf0Null = 1"
| "Amf0Data_size Amf0Undefined = 1"
| "Amf0Data_size (Amf0Reference _) = 3"
| "Amf0Data_size (Amf0EcmaArray _) = 0"
| "Amf0Data_size (Amf0StrictArray ds) = 1 + 4 + datas_size ds"
| "Amf0Data_size (Amf0Date _ _) = 11"
| "props_size [] = 0"
| "props_size ((k, v) # ps) = 2 + length k + Amf0Data_size v + props_size ps"
| "datas_size [] = 0"
| "datas_size (d # ds) = Amf0Data_size d + datas_size ds"

text \<open>
  The key of a property is copied with no check against the room left, and the count of a
  strict array is skipped, not written; an ECMA array is encoded as an object.
\<close>

fun Amf0Data_encode :: "Amf0Data \<Rightarrow> enc"
  and props_encode :: "properties \<Rightarrow> enc"
  and datas_encode :: "Amf0Data list \<Rightarrow> enc"
where
  "Amf0Data_encode (Amf0Number v) buf = Amf0Number_encode v buf"
| "Amf0Data_encode (Amf0Boolean v) buf = Amf0Boolean_encode v buf"
| "Amf0Data_encode (Amf0String v) buf = Amf0String_encode v buf"
| "Amf0Data_encode (Amf0Object ps) buf =
     (if length buf < 1 then Inl (Rc (-1))
      else bindR (props_encode ps (drop 1 buf)) (\<lambda>(n, body).
        if length (drop n body) < 3 then Inl (Rc (-4))
        else bindR (Amf0ObjEnd_encode (drop n body)) (\<lambda>(c, e).
          Inr (1 + n + c, OBJECT_MARKER # take n body @ e))))"
| "Amf0Data_encode Amf0Null buf = Amf0Null_encode buf"
| "Amf0Data_encode Amf0Undefined buf = Amf0Undefined_encode buf"
| "Amf0Data_encode (Amf0Reference v) buf = Amf0Reference_encode v buf"
| "Amf0Data_encode (Amf0EcmaArray ps) buf =
     (if length buf < 1 then Inl (Rc (-1))
      else bindR (props_encode ps (drop 1 buf)) (\<lambda>(n, body).
        if length (drop n body) < 3 then Inl (Rc (-4))
        else bindR (Amf0ObjEnd_encode (drop n body)) (\<lambda>(c, e).
          Inr (1 + n + c, OBJECT_MARKER # take n body @ e))))"
| "Amf0Data_encode (Amf0StrictArray ds) buf =
     (if length buf < 1 then Inl (Rc (-1))
      else if length buf - 1 < 4 then Inl (Rc (-2))
      else bindR (datas_encode ds (drop 5 buf)) (\<lambda>(n, body).
        Inr (5 + n, STRICT_ARRAY_MARKER # take 4 (drop 1 buf) @ body)))"
| "Amf0Data_encode (Amf0Date u z) buf = Amf0Date_encode u z buf"
| "props_encode [] buf = Inr (0, buf)"
| "props_encode ((k, v) # ps) buf =
     (if length buf < 2 then Inl (Rc (-3))
      else if length buf - 2 < length k then Inl Oob
      else bindR (orfail (-3) (Amf0Data_encode v (drop (2 + length k) buf))) (\<lambda>(c, vbuf).
        bindR (props_encode ps (drop c vbuf)) (\<lambda>(n, rest).
          Inr (2 + length k + c + n,
               put_be 2 (of_nat (length k) :: u16) @ k @ take c vbuf @ rest))))"
| "datas_encode [] buf = Inr (0, buf)"
| "datas_encode (d # ds) buf =
     bindR (orfail (-3) (Amf0Data_encode d buf)) (\<lambda>(c, dbuf).
       bindR (datas_encode ds (drop c dbuf)) (\<lambda>(n, rest). Inr (c + n, take c dbuf @ rest)))"

section \<open>Property access\<close>

definition get_string_property :: "properties \<Rightarrow> bytes \<Rightarrow> bytes option" where
  "get_string_property props key =
     (case map_of props key of Some (Amf0String s) \<Rightarrow> Some s | _ \<Rightarrow> None)"

definition get_number_property :: "properties \<Rightarrow> bytes \<Rightarrow> double option" where
  "get_number_property props key =
     (case map_of props key of Some (Amf0Number v) \<Rightarrow> Some v | _ \<Rightarrow> None)"

definition get_boolean_property :: "properties \<Rightarrow> bytes \<Rightarrow> bool option" where
  "get_boolean_property props key =
     (case map_of props key of Some (Amf0Boolean v) \<Rightarrow> Some v | _ \<Rightarrow> None)"

definition set_item_value :: "bytes \<Rightarrow> Amf0Data \<Rightarrow> properties \<Rightarrow> properties" where
  "set_item_value k v props = AList.update k v props"

section \<open>The wire format and its round trip\<close>

text \<open>
  The specification side: \<open>amf0_wire\<close> is the AMF0 grammar for the values the encoder
  supports, \<open>amf0_wf\<close> the values it covers (16-bit string and key lengths, distinct keys,
  none of the classes whose \<^verbatim>\<open>encode\<close> is empty or incomplete).
\<close>

fun amf0_wire :: "Amf0Data \<Rightarrow> bytes" and props_wire :: "properties \<Rightarrow> bytes" where
  "amf0_wire (Amf0Number v) = NUMBER_MARKER # put_be 8 v"
| "amf0_wire (Amf0Boolean b) = [BOOLEAN_MARKER, of_bool b]"
| "amf0_wire (Amf0String s) = STRING_MARKER # put_be 2 (of_nat (length s) :: u16) @ s"
| "amf0_wire (Amf0Object ps) = OBJECT_MARKER # props_wire ps @ [0, 0, OBJECT_END_MARKER]"
| "amf0_wire Amf0Null = [NULL_MARKER]"
| "amf0_wire Amf0Undefined = [UNDEFINED_MARKER]"
| "amf0_wire _ = []"
| "props_wire [] = []"
| "props_wire ((k, v) # ps) = put_be 2 (of_nat (length k) :: u16) @ k @ amf0_wire v @ props_wire ps"

fun amf0_wf :: "Amf0Data \<Rightarrow> bool" and props_wf :: "properties \<Rightarrow> bool" where
  "amf0_wf (Amf0Number v) = True"
| "amf0_wf (Amf0Boolean b) = True"
| "amf0_wf (Amf0String s) = (length s < 65536)"
| "amf0_wf (Amf0Object ps) = (props_wf ps \<and> distinct (map fst ps))"
| "amf0_wf Amf0Null = True"
| "amf0_wf Amf0Undefined = True"
| "amf0_wf _ = False"
| "props_wf [] = True"
| "props_wf ((k, v) # ps) = (length k < 65536 \<and> amf0_wf v \<and> props_wf ps)"

lemma amf0_size_wire:
  "amf0_wf v \<Longrightarrow> Amf0Data_size v = length (amf0_wire v)"
  "props_wf ps \<Longrightarrow> props_size ps = length (props_wire ps)"
  by (induction v and ps rule: amf0_wire_props_wire.induct) auto

lemma Amf0Number_writes: "writes (Amf0Number_encode v) (amf0_wire (Amf0Number v))"
  by (rule writesI) (auto simp: Amf0Number_encode_def)

lemma Amf0Boolean_writes: "writes (Amf0Boolean_encode b) (amf0_wire (Amf0Boolean b))"
  by (rule writesI) (auto simp: Amf0Boolean_encode_def numeral_2_eq_2)

lemma Amf0String_writes: "writes (Amf0String_encode s) (amf0_wire (Amf0String s))"
  by (rule writesI) (auto simp: Amf0String_encode_def Let_def numeral_eq_Suc)

lemma Amf0Null_writes: "writes Amf0Null_encode (amf0_wire Amf0Null)"
  by (rule writesI) (auto simp: Amf0Null_encode_def numeral_2_eq_2)

lemma Amf0Undefined_writes: "writes Amf0Undefined_encode (amf0_wire Amf0Undefined)"
  by (rule writesI) (auto simp: Amf0Undefined_encode_def numeral_2_eq_2)

lemma Amf0Data_encode_scalar [simp]:
  "Amf0Data_encode (Amf0Number v) = Amf0Number_encode v"
  "Amf0Data_encode (Amf0Boolean b) = Amf0Boolean_encode b"
  "Amf0Data_encode (Amf0String s) = Amf0String_encode s"
  "Amf0Data_encode Amf0Null = Amf0Null_encode"
  "Amf0Data_encode Amf0Undefined = Amf0Undefined_encode"
  by (auto intro: ext)

lemma amf0_encode_writes:
  "amf0_wf v \<Longrightarrow> writes (Amf0Data_encode v) (amf0_wire v)"
  "props_wf ps \<Longrightarrow> writes (props_encode ps) (props_wire ps)"
proof (induction v and ps rule: amf0_wire_props_wire.induct)
  case (4 ps)
  then have w: "writes (props_encode ps) (props_wire ps)" by simp
  show ?case
    by (rule writesI) (auto simp: writesD [OF w] Amf0ObjEnd_encode_def numeral_eq_Suc)
next
  case 8
  show ?case by (simp add: writes_def)
next
  case (9 k v ps)
  then have w: "writes (Amf0Data_encode v) (amf0_wire v)"
    and ws: "writes (props_encode ps) (props_wire ps)" by simp_all
  show ?case
    by (rule writesI) (simp add: writesD [OF w] writesD [OF ws] not_less ac_simps)
qed (simp_all add: Amf0Number_writes Amf0Boolean_writes Amf0String_writes Amf0Null_writes
  Amf0Undefined_writes del: amf0_wire.simps)

lemma u16_of_length: "n < 65536 \<Longrightarrow> unat (of_nat n :: u16) = n"
  by (simp add: unat_of_nat)

lemma be_nat_put_u16 [simp]: "n < 65536 \<Longrightarrow> be_nat (put_be 2 (of_nat n :: u16)) = n"
  by (simp add: get_be_put_be_trunc u16_of_length)

lemma amf0_wire_hd: "amf0_wf v \<Longrightarrow> amf0_wire v \<noteq> [] \<and> hd (amf0_wire v) = get_type v \<and> get_type v \<in> set obj_markers"
  by (cases v) (simp_all add: obj_markers_def)

lemma Amf0Number_decode_wire: "Amf0Number_decode (amf0_wire (Amf0Number v) @ rest) = Inr (v, length (amf0_wire (Amf0Number v)))"
  by (simp add: Amf0Number_decode_def)
lemma Amf0Boolean_decode_wire: "Amf0Boolean_decode (amf0_wire (Amf0Boolean v) @ rest) = Inr (v, length (amf0_wire (Amf0Boolean v)))"
  by (simp add: Amf0Boolean_decode_def)
lemma Amf0String_decode_wire: "length v < 65536 \<Longrightarrow> Amf0String_decode (amf0_wire (Amf0String v) @ rest) = Inr (v, length (amf0_wire (Amf0String v)))"
  by (simp add: Amf0String_decode_def Let_def)
lemma Amf0Null_decode_wire: "Amf0Null_decode (amf0_wire Amf0Null @ rest) = Inr ((), length (amf0_wire Amf0Null))"
  by (simp add: Amf0Null_decode_def)
lemma Amf0Undefined_decode_wire: "Amf0Undefined_decode (amf0_wire Amf0Undefined @ rest) = Inr ((), length (amf0_wire Amf0Undefined))"
  by (simp add: Amf0Undefined_decode_def)

lemmas scalar_decode_wire = Amf0Number_decode_wire Amf0Boolean_decode_wire Amf0String_decode_wire
  Amf0Null_decode_wire Amf0Undefined_decode_wire

lemma put_be_2: "put_be 2 w = [of_nat (unat w div 256), of_nat (unat w)]"
  by (simp add: put_be_def numeral_2_eq_2)

lemma obj_end_not_key:
  assumes k: "length k < 65536" and ds: "ds = [] \<or> hd ds \<noteq> OBJECT_END_MARKER"
  shows "\<exists>e. Amf0ObjEnd_decode (put_be 2 (of_nat (length k) :: u16) @ k @ ds) = Inl e"
proof (cases "put_be 2 (of_nat (length k) :: u16) = [0, 0]")
  case True
  then have "be_nat [0, 0] = length k" using k be_nat_put_u16 [of "length k"] by simp
  then have "k = []" by (simp add: be_nat_def)
  with ds show ?thesis by (cases ds) (auto simp: Amf0ObjEnd_decode_def put_be_2)
next
  case False
  then show ?thesis by (auto simp: Amf0ObjEnd_decode_def put_be_2)
qed

lemma value_decode_wire:
  "amf0_wf v \<Longrightarrow> value_decode (get_type v) (amf0_wire v @ rest) = Inr (v, length (amf0_wire v))"
  "props_wf ps \<Longrightarrow> distinct (map fst (acc @ ps)) \<Longrightarrow>
     obj_loop acc (props_wire ps @ [0, 0, OBJECT_END_MARKER] @ rest) = Inr (acc @ ps, length (props_wire ps) + 3)"
proof (induction v and ps arbitrary: rest and acc rest rule: amf0_wire_props_wire.induct)
  case (4 ps)
  then show ?case by (simp add: value_decode.simps)
next
  case 8
  show ?case by (simp add: obj_loop.simps Amf0ObjEnd_decode_def)
next
  case (9 k v ps)
  let ?tail = "props_wire ps @ [0, 0, OBJECT_END_MARKER] @ rest"
  from 9 have wf: "length k < 65536" "amf0_wf v" "props_wf ps" by simp_all
  have hd: "hd (amf0_wire v @ ?tail) = get_type v" "amf0_wire v @ ?tail \<noteq> []"
      "get_type v \<in> set obj_markers"
    using amf0_wire_hd [OF wf(2)] by simp_all
  then have ne: "get_type v \<noteq> OBJECT_END_MARKER" by (cases v) simp_all
  obtain e where e: "Amf0ObjEnd_decode (put_be 2 (of_nat (length k) :: u16) @ k @ amf0_wire v @ ?tail) = Inl e"
    using obj_end_not_key [OF wf(1), of "amf0_wire v @ ?tail"] hd ne by auto
  have upd: "AList.update k v acc = acc @ [(k, v)]"
    using 9(4) by (intro AList_update_fresh) auto
  have "obj_loop (acc @ [(k, v)]) ?tail = Inr (acc @ (k, v) # ps, length (props_wire ps) + 3)"
    using 9(2) [of "acc @ [(k, v)]" rest] 9(3,4) by simp
  moreover have "value_decode (get_type v) (amf0_wire v @ ?tail) = Inr (v, length (amf0_wire v))"
    by (rule 9(1)) (rule wf)
  ultimately show ?case
    using e wf(1) hd by (subst obj_loop.simps) (simp add: upd)
qed (simp_all add: value_decode.simps map_value_def scalar_decode_wire del: amf0_wire.simps)

section \<open>Bounds of the decoders\<close>

text \<open>Every successful decoder uses at least one byte and no more than it was given.\<close>

lemma scalar_decode_bounds:
  "Amf0Number_decode d = Inr (x, c) \<Longrightarrow> 0 < c \<and> c \<le> length d"
  "Amf0Boolean_decode d = Inr (b, c) \<Longrightarrow> 0 < c \<and> c \<le> length d"
  "Amf0String_decode d = Inr (s, c) \<Longrightarrow> 0 < c \<and> c \<le> length d"
  "Amf0Null_decode d = Inr (u, c) \<Longrightarrow> 0 < c \<and> c \<le> length d"
  "Amf0Undefined_decode d = Inr (u, c) \<Longrightarrow> 0 < c \<and> c \<le> length d"
  "Amf0Reference_decode d = Inr (r, c) \<Longrightarrow> 0 < c \<and> c \<le> length d"
  "Amf0Date_decode d = Inr (t, c) \<Longrightarrow> 0 < c \<and> c \<le> length d"
  "Amf0ObjEnd_decode d = Inr c \<Longrightarrow> 0 < c \<and> c \<le> length d"
  by (auto simp: Amf0Number_decode_def Amf0Boolean_decode_def Amf0String_decode_def Let_def
      Amf0Null_decode_def Amf0Undefined_decode_def Amf0Reference_decode_def Amf0Date_decode_def
      Amf0ObjEnd_decode_def split: list.splits if_splits)

lemma map_value_eq_Inr [simp]:
  "map_value f r = Inr (y, c) \<longleftrightarrow> (\<exists>x. r = Inr (x, c) \<and> y = f x)"
  by (auto simp: map_value_def bindR_eq_Inr_iff)

text \<open>
  The decoders never build an ECMA array inside another value, the only class whose
  announced size (0) is smaller than what it writes.
\<close>

fun no_ecma :: "Amf0Data \<Rightarrow> bool" and props_no_ecma :: "properties \<Rightarrow> bool"
  and datas_no_ecma :: "Amf0Data list \<Rightarrow> bool" where
  "no_ecma (Amf0EcmaArray _) = False"
| "no_ecma (Amf0Object ps) = props_no_ecma ps"
| "no_ecma (Amf0StrictArray ds) = datas_no_ecma ds"
| "no_ecma _ = True"
| "props_no_ecma [] = True"
| "props_no_ecma ((k, v) # ps) = (no_ecma v \<and> props_no_ecma ps)"
| "datas_no_ecma [] = True"
| "datas_no_ecma (d # ds) = (no_ecma d \<and> datas_no_ecma ds)"

lemma obj_loop_InrE:
  assumes run: "obj_loop props data = Inr (ps, n)"
  obtains (empty) "data = []" "ps = props" "n = 0"
  | (stop) "Amf0ObjEnd_decode data = Inr n" "ps = props"
  | (more) kl v c m where "2 \<le> length data" "kl = be_nat (take 2 data)" "kl < length data - 2"
      "value_decode (hd (drop (2 + kl) data)) (drop (2 + kl) data) = Inr (v, c)"
      "obj_loop (AList.update (take kl (drop 2 data)) v props) (drop c (drop (2 + kl) data)) = Inr (ps, m)"
      "n = 2 + kl + c + m"
proof (cases "data = []")
  case True
  then show ?thesis using run by (intro empty) (simp_all add: obj_loop.simps)
next
  case data: False
  show ?thesis
  proof (cases "Amf0ObjEnd_decode data")
    case (Inr c)
    then show ?thesis using run data by (intro stop) (simp_all add: obj_loop.simps)
  next
    case (Inl e)
    show ?thesis
      using run data Inl
      by (subst (asm) obj_loop.simps)
         (auto simp: Let_def bindR_eq_Inr_iff intro!: more split: if_splits)
  qed
qed

lemma arr_loop_InrE:
  assumes "arr_loop k datas data = Inr (ds, n)"
  obtains (stop) "ds = datas" "n = 0"
  | (elem) v c m where "value_decode (hd data) data = Inr (v, c)"
      "arr_loop (k - 1) (datas @ [v]) (drop c data) = Inr (ds, m)" "n = c + m" "data \<noteq> []"
  using assms
  by (subst (asm) arr_loop.simps) (auto simp: bindR_eq_Inr_iff split: if_splits)

lemma value_decode_InrE:
  assumes "value_decode marker data = Inr (v, c)"
  obtains (scalar) "0 < c" "c \<le> length data" "no_ecma v"
  | (object) ps n where "data \<noteq> []" "obj_loop [] (tl data) = Inr (ps, n)" "v = Amf0Object ps" "c = 1 + n"
  | (array) ds n where "5 \<le> length data" "arr_loop (be_nat (take 4 (tl data))) [] (drop 5 data) = Inr (ds, n)"
      "v = Amf0StrictArray ds" "c = 5 + n"
  using assms
  by (subst (asm) value_decode.simps)
     (auto simp: bindR_eq_Inr_iff dest: scalar_decode_bounds split: if_splits)

lemma decode_bounds_all:
  "(\<forall>marker v c. value_decode marker data = Inr (v, c) \<longrightarrow> 0 < c \<and> c \<le> length data) \<and>
   (\<forall>props ps n. obj_loop props data = Inr (ps, n) \<longrightarrow> n \<le> length data) \<and>
   (\<forall>k datas ds n. arr_loop k datas data = Inr (ds, n) \<longrightarrow> n \<le> length data)"
proof (induction data rule: length_induct)
  case (1 data)
  have v: "0 < c \<and> c \<le> length data" if "value_decode marker data = Inr (v, c)" for marker v c
    using that
  proof (cases rule: value_decode_InrE)
    case (object ps n)
    with 1 [rule_format, of "tl data"] have "n \<le> length (tl data)" by simp
    with object show ?thesis by (cases data) auto
  next
    case (array ds n)
    with 1 [rule_format, of "drop 5 data"] have "n \<le> length (drop 5 data)" by simp
    with array show ?thesis by simp
  qed simp
  moreover have "n \<le> length data" if "obj_loop props data = Inr (ps, n)" for props ps n
    using that
  proof (cases rule: obj_loop_InrE)
    case (more kl v c m)
    with 1 [rule_format, of "drop (2 + kl) data"] 1 [rule_format, of "drop c (drop (2 + kl) data)"]
    have "c \<le> length (drop (2 + kl) data)" "m \<le> length (drop c (drop (2 + kl) data))" by simp_all
    with more show ?thesis by simp
  qed (auto dest: scalar_decode_bounds)
  moreover have "n \<le> length data" if "arr_loop k datas data = Inr (ds, n)" for k datas ds n
    using that
  proof (cases rule: arr_loop_InrE)
    case (elem v c m)
    then have c: "0 < c \<and> c \<le> length data" by (intro v)
    with elem 1 [rule_format, of "drop c data"] have "m \<le> length (drop c data)" by simp
    with c elem(3) show ?thesis by auto
  qed simp
  ultimately show ?case by blast
qed

lemmas decode_bounds = decode_bounds_all [THEN conjunct1, rule_format]
  decode_bounds_all [THEN conjunct2, THEN conjunct1, rule_format]
  decode_bounds_all [THEN conjunct2, THEN conjunct2, rule_format]

section \<open>Encoding stays inside the announced size\<close>

lemma datas_no_ecma_snoc [simp]: "datas_no_ecma (ds @ [d]) \<longleftrightarrow> datas_no_ecma ds \<and> no_ecma d"
  by (induction ds) auto

lemma props_no_ecma_update [intro]:
  "props_no_ecma ps \<Longrightarrow> no_ecma v \<Longrightarrow> props_no_ecma (AList.update k v ps)"
  by (induction ps) auto

text \<open>\<open>fits e m\<close>: with \<open>m\<close> bytes of room the encoder stays inside the buffer.\<close>

definition fits :: "enc \<Rightarrow> nat \<Rightarrow> bool" where
  "fits e m \<longleftrightarrow> (\<forall>buf. m \<le> length buf \<longrightarrow>
     (\<exists>c out. e buf = Inr (c, out) \<and> c \<le> m \<and> length out = length buf))"

lemma fitsI: "(\<And>buf. m \<le> length buf \<Longrightarrow> \<exists>c out. e buf = Inr (c, out) \<and> c \<le> m \<and> length out = length buf) \<Longrightarrow> fits e m"
  by (simp add: fits_def)

lemma fitsE:
  assumes "fits e m" "m \<le> length buf"
  obtains c out where "e buf = Inr (c, out)" "c \<le> m" "length out = length buf"
  using assms by (auto simp: fits_def)

lemma writes_fits: "writes e w \<Longrightarrow> fits e (length w)"
  by (rule fitsI) (auto dest: writesD)

lemma scalar_fits:
  "fits (Amf0Number_encode v) 9" "fits (Amf0Boolean_encode b) 2"
  "fits (Amf0String_encode s) (Suc (Suc (Suc (length s))))"
  "fits Amf0Null_encode 1" "fits Amf0Undefined_encode 1"
  "fits (Amf0Reference_encode r) 3" "fits (Amf0Date_encode t z) 11"
  using Amf0Number_writes [THEN writes_fits] Amf0Boolean_writes [THEN writes_fits]
    Amf0String_writes [THEN writes_fits] Amf0Null_writes [THEN writes_fits] Amf0Undefined_writes [THEN writes_fits]
  by (simp_all add: fits_def Amf0Reference_encode_def Amf0Date_encode_def numeral_2_eq_2)

lemma amf0_encode_fits:
  "no_ecma v \<Longrightarrow> fits (Amf0Data_encode v) (Amf0Data_size v)"
  "props_no_ecma ps \<Longrightarrow> fits (props_encode ps) (props_size ps)"
  "datas_no_ecma ds \<Longrightarrow> fits (datas_encode ds) (datas_size ds)"
proof (induction v and ps and ds rule: Amf0Data_size_props_size_datas_size.induct)
  case (4 ps)
  then have f: "fits (props_encode ps) (props_size ps)" by simp
  show ?case
  proof (rule fitsI)
    fix buf :: bytes assume len: "Amf0Data_size (Amf0Object ps) \<le> length buf"
    obtain c out where "props_encode ps (drop 1 buf) = Inr (c, out)" "c \<le> props_size ps" "length out = length (drop 1 buf)"
      using f by (rule fitsE [where buf = "drop 1 buf"]) (use len in simp)
    then show "\<exists>c out. Amf0Data_encode (Amf0Object ps) buf = Inr (c, out) \<and> c \<le> Amf0Data_size (Amf0Object ps) \<and> length out = length buf"
      using len by (auto simp: Amf0ObjEnd_encode_def)
  qed
next
  case (9 ds)
  then have f: "fits (datas_encode ds) (datas_size ds)" by simp
  show ?case
  proof (rule fitsI)
    fix buf :: bytes assume len: "Amf0Data_size (Amf0StrictArray ds) \<le> length buf"
    obtain c out where "datas_encode ds (drop 5 buf) = Inr (c, out)" "c \<le> datas_size ds" "length out = length (drop 5 buf)"
      using f by (rule fitsE [where buf = "drop 5 buf"]) (use len in simp)
    then show "\<exists>c out. Amf0Data_encode (Amf0StrictArray ds) buf = Inr (c, out) \<and> c \<le> Amf0Data_size (Amf0StrictArray ds) \<and> length out = length buf"
      using len by auto
  qed
next
  case (12 k v ps)
  then have f: "fits (Amf0Data_encode v) (Amf0Data_size v)" "fits (props_encode ps) (props_size ps)" by simp_all
  show ?case
  proof (rule fitsI)
    fix buf :: bytes assume len: "props_size ((k, v) # ps) \<le> length buf"
    obtain c vbuf where 1: "Amf0Data_encode v (drop (2 + length k) buf) = Inr (c, vbuf)" "c \<le> Amf0Data_size v"
        "length vbuf = length (drop (2 + length k) buf)"
      using f(1) by (rule fitsE [where buf = "drop (2 + length k) buf"]) (use len in simp)
    obtain n out where "props_encode ps (drop c vbuf) = Inr (n, out)" "n \<le> props_size ps" "length out = length (drop c vbuf)"
      using f(2) by (rule fitsE [where buf = "drop c vbuf"]) (use len 1 in simp)
    then show "\<exists>c out. props_encode ((k, v) # ps) buf = Inr (c, out) \<and> c \<le> props_size ((k, v) # ps) \<and> length out = length buf"
      using len 1 by auto
  qed
next
  case (14 d ds)
  then have f: "fits (Amf0Data_encode d) (Amf0Data_size d)" "fits (datas_encode ds) (datas_size ds)" by simp_all
  show ?case
  proof (rule fitsI)
    fix buf :: bytes assume len: "datas_size (d # ds) \<le> length buf"
    obtain c dbuf where 1: "Amf0Data_encode d buf = Inr (c, dbuf)" "c \<le> Amf0Data_size d" "length dbuf = length buf"
      using f(1) by (rule fitsE [where buf = buf]) (use len in simp)
    obtain n out where "datas_encode ds (drop c dbuf) = Inr (n, out)" "n \<le> datas_size ds" "length out = length (drop c dbuf)"
      using f(2) by (rule fitsE [where buf = "drop c dbuf"]) (use len 1 in simp)
    then show "\<exists>c out. datas_encode (d # ds) buf = Inr (c, out) \<and> c \<le> datas_size (d # ds) \<and> length out = length buf"
      using len 1 by auto
  qed
qed (insert scalar_fits, auto simp: fits_def)
lemma decode_no_ecma_all:
  "(\<forall>marker v c. value_decode marker data = Inr (v, c) \<longrightarrow> no_ecma v) \<and>
   (\<forall>props ps n. obj_loop props data = Inr (ps, n) \<longrightarrow> props_no_ecma props \<longrightarrow> props_no_ecma ps) \<and>
   (\<forall>k datas ds n. arr_loop k datas data = Inr (ds, n) \<longrightarrow> datas_no_ecma datas \<longrightarrow> datas_no_ecma ds)"
proof (induction data rule: length_induct)
  case (1 data)
  note IHv = 1 [THEN spec, THEN mp, THEN conjunct1, rule_format]
    and IHo = 1 [THEN spec, THEN mp, THEN conjunct2, THEN conjunct1, rule_format]
    and IHa = 1 [THEN spec, THEN mp, THEN conjunct2, THEN conjunct2, rule_format]
  have v: "no_ecma v" if "value_decode marker data = Inr (v, c)" for marker v c
    using that
  proof (cases rule: value_decode_InrE)
    case (object ps n)
    have "props_no_ecma ps" by (rule IHo [OF _ object(2)]) (use object in auto)
    with object show ?thesis by simp
  next
    case (array ds n)
    have "datas_no_ecma ds" by (rule IHa [OF _ array(2)]) (use array in auto)
    with array show ?thesis by simp
  qed simp
  moreover have "props_no_ecma ps" if "obj_loop props data = Inr (ps, n)" "props_no_ecma props" for props ps n
    using that(1)
  proof (cases rule: obj_loop_InrE)
    case (more kl v c m)
    have "no_ecma v" by (rule IHv [OF _ more(4)]) (use more in auto)
    with that(2) have p: "props_no_ecma (AList.update (take kl (drop 2 data)) v props)" by auto
    show ?thesis by (rule IHo [OF _ more(5) p]) (use more in auto)
  qed (use that(2) in auto)
  moreover have "datas_no_ecma ds" if "arr_loop k datas data = Inr (ds, n)" "datas_no_ecma datas" for k datas ds n
    using that(1)
  proof (cases rule: arr_loop_InrE)
    case (elem w c m)
    then have "0 < c" "no_ecma w" using decode_bounds(1) v by blast+
    with that(2) elem(4) show ?thesis by (intro IHa [OF _ elem(2)]) simp_all
  qed (use that(2) in auto)
  ultimately show ?case by blast
qed

section \<open>The classes as wire types\<close>

interpretation amf0_number: wire_codec "\<lambda>_. True" "\<lambda>v. amf0_wire (Amf0Number v)"
    "\<lambda>v. Amf0Data_size (Amf0Number v)" Amf0Number_encode Amf0Number_decode
  by unfold_locales (simp_all add: Amf0Number_writes Amf0Number_decode_wire amf0_size_wire del: amf0_wire.simps Amf0Data_size.simps)

interpretation amf0_boolean: wire_codec "\<lambda>_. True" "\<lambda>v. amf0_wire (Amf0Boolean v)"
    "\<lambda>v. Amf0Data_size (Amf0Boolean v)" Amf0Boolean_encode Amf0Boolean_decode
  by unfold_locales (simp_all add: Amf0Boolean_writes Amf0Boolean_decode_wire amf0_size_wire del: amf0_wire.simps Amf0Data_size.simps)

interpretation amf0_string: wire_codec "\<lambda>s. length s < 65536" "\<lambda>v. amf0_wire (Amf0String v)"
    "\<lambda>v. Amf0Data_size (Amf0String v)" Amf0String_encode Amf0String_decode
  by unfold_locales (simp_all add: Amf0String_writes Amf0String_decode_wire del: amf0_wire.simps Amf0Data_size.simps add: amf0_size_wire)

interpretation amf0_null: wire_codec "\<lambda>_. True" "\<lambda>_. amf0_wire Amf0Null"
    "\<lambda>_. Amf0Data_size Amf0Null" "\<lambda>_. Amf0Null_encode" Amf0Null_decode
  by unfold_locales (simp_all add: Amf0Null_writes Amf0Null_decode_wire del: amf0_wire.simps Amf0Data_size.simps add: amf0_size_wire)

interpretation amf0_undefined: wire_codec "\<lambda>_. True" "\<lambda>_. amf0_wire Amf0Undefined"
    "\<lambda>_. Amf0Data_size Amf0Undefined" "\<lambda>_. Amf0Undefined_encode" Amf0Undefined_decode
  by unfold_locales (simp_all add: Amf0Undefined_writes Amf0Undefined_decode_wire del: amf0_wire.simps Amf0Data_size.simps add: amf0_size_wire)

lemma Amf0Object_decode_wire:
  "amf0_wf (Amf0Object ps) \<Longrightarrow>
   Amf0Object_decode [] (amf0_wire (Amf0Object ps) @ rest) = Inr (ps, length (amf0_wire (Amf0Object ps)))"
  using value_decode_wire(2) [of ps "[]" rest] by (simp add: Amf0Object_decode_def)

interpretation amf0_object: wire_codec "\<lambda>ps. amf0_wf (Amf0Object ps)" "\<lambda>ps. amf0_wire (Amf0Object ps)"
    "\<lambda>ps. Amf0Data_size (Amf0Object ps)" "\<lambda>ps. Amf0Data_encode (Amf0Object ps)" "Amf0Object_decode []"
  by unfold_locales (simp_all add: amf0_size_wire amf0_encode_writes Amf0Object_decode_wire
    del: amf0_wire.simps Amf0Data_size.simps amf0_wf.simps)


interpretation amf0_value: wire_codec amf0_wf amf0_wire Amf0Data_size Amf0Data_encode
    "\<lambda>data. value_decode (hd data) data"
proof unfold_locales
  fix v rest assume "amf0_wf v"
  then show "value_decode (hd (amf0_wire v @ rest)) (amf0_wire v @ rest) = Inr (v, length (amf0_wire v))"
    using amf0_wire_hd value_decode_wire(1) by simp
qed (simp_all add: amf0_size_wire amf0_encode_writes)

section \<open>Properties\<close>

text \<open>
  C5. Encoding any supported AMF0 value (numbers, booleans, strings and keys under 64 KiB,
  nested objects with distinct keys, null, undefined) into a buffer of at least its announced
  size succeeds, advances by exactly that size, and decoding the buffer gives the value back
  and consumes the same number of bytes, whatever follows in the buffer.
\<close>
theorem amf0_roundtrip:
  assumes "amf0_wf v" and "Amf0Data_size v \<le> length buf"
  shows "\<exists>out. Amf0Data_encode v buf = Inr (Amf0Data_size v, out) \<and> length out = length buf \<and>
    value_decode (hd out) out = Inr (v, Amf0Data_size v)"
  using assms amf0_value.encode_fits amf0_value.roundtrip
  by (fastforce simp: amf0_value.sz_wire)

theorem amf0_roundtrip_witness:
  "\<exists>out. Amf0Data_encode (Amf0Object [([97], Amf0Number 5), ([98], Amf0Object [([], Amf0Boolean True)])])
       (replicate 30 255) = Inr (27, out) \<and> length out = 30 \<and>
    value_decode (hd out) out = Inr (Amf0Object [([97], Amf0Number 5), ([98], Amf0Object [([], Amf0Boolean True)])], 27)"
  using amf0_roundtrip [of "Amf0Object [([97], Amf0Number 5), ([98], Amf0Object [([], Amf0Boolean True)])]" "replicate 30 255"]
  by simp

text \<open>
  C21. Whatever bytes a peer sends, a successful AMF0 decode consumes at least one byte and
  never more than it was given, so the callers that advance by the returned count stay inside
  the message and their loops make progress.
\<close>
theorem amf0_decode_progress:
  assumes "value_decode marker data = Inr (v, c)"
  shows "0 < c \<and> c \<le> length data"
  using assms by (rule decode_bounds(1))

theorem amf0_decode_progress_witness:
  "value_decode 1 [1, 7, 9] = Inr (Amf0Boolean True, 2) \<and> 0 < (2::nat) \<and> 2 \<le> length [1::byte, 7, 9]"
proof -
  have "value_decode 1 [1, 7, 9] = Inr (Amf0Boolean True, 2)"
    by (simp add: value_decode.simps Amf0Boolean_decode_def map_value_def)
  from this amf0_decode_progress [OF this] show ?thesis by simp
qed

text \<open>
  C23. A value obtained from the decoder, including references, dates and strict arrays, can be
  encoded again into a buffer of its announced size without leaving the buffer.
\<close>
theorem amf0_reencode_in_bounds:
  assumes "value_decode marker data = Inr (v, c)" and "Amf0Data_size v \<le> length buf"
  shows "\<exists>n out. Amf0Data_encode v buf = Inr (n, out) \<and> n \<le> Amf0Data_size v \<and> length out = length buf"
proof -
  have "no_ecma v" using assms(1) decode_no_ecma_all [of data] by blast
  then have "fits (Amf0Data_encode v) (Amf0Data_size v)" by (rule amf0_encode_fits)
  with assms(2) show ?thesis by (auto elim: fitsE)
qed

theorem amf0_reencode_in_bounds_witness:
  "\<exists>n out. Amf0Data_encode (Amf0Reference 258) [0, 0, 0] = Inr (n, out) \<and> n \<le> 3 \<and> length out = Suc (Suc (Suc 0))"
proof -
  have "value_decode 7 [7, 1, 2] = Inr (Amf0Reference 258, 3)"
    by (simp add: value_decode.simps Amf0Reference_decode_def map_value_def wire_eval)
  from amf0_reencode_in_bounds [OF this, of "[0, 0, 0]"] show ?thesis by simp
qed

text \<open>
  An object whose data ends right after a property key makes the decoder read the value
  marker one byte past the end of the received message: \<^verbatim>\<open>Amf0Object::decode\<close> checks the
  length of the key but not that a marker follows it.
\<close>
theorem amf0_object_decode_overread:
  assumes "length key < 65536"
  shows "Amf0Object_decode props (OBJECT_MARKER # put_be 2 (of_nat (length key) :: u16) @ key) = Inl Oob"
proof -
  have "\<exists>e. Amf0ObjEnd_decode (put_be 2 (of_nat (length key) :: u16) @ key) = Inl e"
    using obj_end_not_key [OF assms, of "[]"] by simp
  then show ?thesis
    using assms by (auto simp: Amf0Object_decode_def obj_loop.simps put_be_2 [of 0])
qed

theorem amf0_object_decode_overread_witness:
  "Amf0Object_decode [] [3, 0, 1, 97] = Inl Oob"
  using amf0_object_decode_overread [of "[97]" "[]"] by (simp add: put_be_2)

text \<open>
  The length field of an AMF0 string has 16 bits and the encoder does not check that the
  string fits: decoding what it wrote gives back only the first \<open>length s mod 65536\<close> bytes.
\<close>
theorem amf0_string_length_wraps:
  assumes "3 + length s \<le> length buf"
  shows "\<exists>out. Amf0String_encode s buf = Inr (3 + length s, out) \<and>
    Amf0String_decode out = Inr (take (length s mod 65536) s, 3 + length s mod 65536)"
proof -
  have "Amf0String_encode s buf = Inr (length (amf0_wire (Amf0String s)), amf0_wire (Amf0String s) @ drop (3 + length s) buf)"
    using writesD [OF Amf0String_writes, of s buf] assms by (simp add: numeral_3_eq_3)
  moreover have "be_nat (put_be 2 (of_nat (length s) :: u16)) = length s mod 65536"
    by (simp add: get_be_put_be_trunc unat_of_nat)
  moreover have "length s mod 65536 \<le> length s" by simp
  ultimately show ?thesis by (simp add: Amf0String_decode_def Let_def)
qed

theorem amf0_string_length_wraps_witness:
  "\<exists>out. Amf0String_encode (replicate 65537 97) (replicate 65540 0) = Inr (65540, out) \<and>
    Amf0String_decode out = Inr ([97], 4)"
  using amf0_string_length_wraps [of "replicate 65537 97" "replicate 65540 0"] by simp

text \<open>
  What \<^verbatim>\<open>Amf0EcmaArray::encode\<close> produces is never accepted by \<^verbatim>\<open>Amf0EcmaArray::decode\<close>:
  it starts with the object marker, so the decoder answers -2.
\<close>
theorem amf0_ecma_encode_not_decodable:
  assumes "Amf0Data_encode (Amf0EcmaArray ps) buf = Inr (c, out)"
  shows "Amf0EcmaArray_decode props out = Inl (Rc (-2))"
  using assms
  by (auto simp: Amf0EcmaArray_decode_def bindR_eq_Inr_iff split: if_splits)

theorem amf0_ecma_encode_not_decodable_witness:
  "Amf0Data_encode (Amf0EcmaArray []) [0, 0, 0, 0] = Inr (4, [3, 0, 0, 9]) \<and>
   Amf0EcmaArray_decode [] [3, 0, 0, 9] = Inl (Rc (-2))"
proof -
  have "Amf0Data_encode (Amf0EcmaArray []) [0, 0, 0, 0] = Inr (4, [3, 0, 0, 9])"
    by (simp add: Amf0ObjEnd_encode_def)
  from this amf0_ecma_encode_not_decodable [OF this] show ?thesis by simp
qed

text \<open>
  Encoding a strict array leaves its element count unwritten: the four count bytes of the
  output are whatever the buffer held before.
\<close>
theorem amf0_strict_array_count_unwritten:
  assumes "Amf0Data_encode (Amf0StrictArray ds) buf = Inr (c, out)"
  shows "take 4 (drop 1 out) = take 4 (drop 1 buf)"
  using assms by (auto simp: bindR_eq_Inr_iff split: if_splits)

theorem amf0_strict_array_count_unwritten_witness:
  "Amf0Data_encode (Amf0StrictArray [Amf0Null]) [0, 1, 2, 3, 4, 5] = Inr (6, [0x0A, 1, 2, 3, 4, 5]) \<and>
   take 4 (drop 1 [0x0A, 1, 2, 3, 4, 5]) = [1::byte, 2, 3, 4]"
proof -
  have "Amf0Data_encode (Amf0StrictArray [Amf0Null]) [0, 1, 2, 3, 4, 5] = Inr (6, [0x0A, 1, 2, 3, 4, 5])"
    by (simp add: Amf0Null_encode_def)
  from this amf0_strict_array_count_unwritten [OF this] show ?thesis by simp
qed

end
