(* ===== verification/RtmpCommands.thy ===== *)
theory RtmpCommands
  imports Amf0 RtmpControl
begin

text \<open>
  The AMF0 command messages of RTMP (\<^verbatim>\<open>libs/protocol/rtmp/rtmp_message/command_message\<close>): connect,
  create stream, FCPublish, release stream, publish, play, their responses, onStatus and the
  sample access message. Each is a sequence of AMF0 values; a decoder is called on a
  default-constructed object. The locale \<open>command_message\<close> is what the sessions rely on.
\<close>

section \<open>Sequences of values\<close>

named_theorems command_eval \<open>decoding a field of a command message\<close>

text \<open>
  The idiom \<^verbatim>\<open>consumed = x.decode(payload, len); if (consumed < 0) return err; pos += consumed; payload +=
  consumed; len -= consumed;\<close>. \<open>nonzero\<close> is the variant with \<^verbatim>\<open>consumed <= 0\<close>.
\<close>
definition field :: "int \<Rightarrow> (bytes \<Rightarrow> ('v \<times> nat) result) \<Rightarrow> bytes \<Rightarrow> nat \<Rightarrow>
    ('v \<Rightarrow> bytes \<Rightarrow> nat \<Rightarrow> 'r result) \<Rightarrow> 'r result" where
  "field err dec data pos k =
     bindR (orfail err (dec data)) (\<lambda>(v, consumed). k v (drop consumed data) (pos + consumed))"

definition nonzero :: "(bytes \<Rightarrow> ('v \<times> nat) result) \<Rightarrow> bytes \<Rightarrow> ('v \<times> nat) result" where
  "nonzero dec data = bindR (dec data) (\<lambda>(v, consumed). if consumed = 0 then Inl (Rc 0) else Inr (v, consumed))"

text \<open>
  The common shape of the encoders: allocate \<open>need_size\<close> bytes, set the message fields, run the field
  encoders one after the other and mark the bytes as used: all that were announced, or
  (\<open>use_pos\<close>) those that were written. A \<^verbatim>\<open>nullptr\<close> is the error of the failing field.
\<close>
definition encode_command :: "(nat \<Rightarrow> byte) \<Rightarrow> nat \<Rightarrow> u32 \<Rightarrow> byte \<Rightarrow> enc list \<Rightarrow> bool \<Rightarrow> RtmpMessage result" where
  "encode_command mem need_size csid mtype encs use_pos =
     (let msg = (RtmpMessage_new mem need_size)\<lparr>chunk_stream_id := csid, timestamp := 0,
            message_type_id := mtype, message_stream_id := RTMP_MESSAGE_ID_PROTOCOL_CONTROL\<rparr>
      in bindR (enc_seq encs (data_buf msg)) (\<lambda>(pos, buf).
           Inr (inc_used_bytes (if use_pos then pos else need_size) (msg\<lparr>data_buf := buf\<rparr>))))"

lemma amf0_wire_nonempty [simp]:
  "amf0_wire (Amf0Number v) \<noteq> []" "amf0_wire (Amf0Boolean b) \<noteq> []" "amf0_wire (Amf0String s) \<noteq> []"
  "amf0_wire (Amf0Object ps) \<noteq> []" "amf0_wire Amf0Null \<noteq> []" "amf0_wire Amf0Undefined \<noteq> []"
  by simp_all

lemma field_rules [command_eval]:
  "length s < 65536 \<Longrightarrow> field err Amf0String_decode (amf0_wire (Amf0String s) @ rest) pos ks = ks s rest (pos + length (amf0_wire (Amf0String s)))"
  "length s < 65536 \<Longrightarrow> field err (nonzero Amf0String_decode) (amf0_wire (Amf0String s) @ rest) pos ks = ks s rest (pos + length (amf0_wire (Amf0String s)))"
  "field err Amf0Number_decode (amf0_wire (Amf0Number n) @ rest) pos kn = kn n rest (pos + length (amf0_wire (Amf0Number n)))"
  "field err (nonzero Amf0Number_decode) (amf0_wire (Amf0Number n) @ rest) pos kn = kn n rest (pos + length (amf0_wire (Amf0Number n)))"
  "field err Amf0Null_decode (amf0_wire Amf0Null @ rest) pos ku = ku () rest (pos + length (amf0_wire Amf0Null))"
  "field err (nonzero Amf0Null_decode) (amf0_wire Amf0Null @ rest) pos ku = ku () rest (pos + length (amf0_wire Amf0Null))"
  "field err Amf0Undefined_decode (amf0_wire Amf0Undefined @ rest) pos ku = ku () rest (pos + length (amf0_wire Amf0Undefined))"
  "field err (nonzero Amf0Undefined_decode) (amf0_wire Amf0Undefined @ rest) pos ku = ku () rest (pos + length (amf0_wire Amf0Undefined))"
  "amf0_wf (Amf0Object ps) \<Longrightarrow> field err (Amf0Object_decode []) (amf0_wire (Amf0Object ps) @ rest) pos ko = ko ps rest (pos + length (amf0_wire (Amf0Object ps)))"
  "amf0_wf (Amf0Object ps) \<Longrightarrow> field err (nonzero (Amf0Object_decode [])) (amf0_wire (Amf0Object ps) @ rest) pos ko = ko ps rest (pos + length (amf0_wire (Amf0Object ps)))"
  "field err Amf0Boolean_decode (amf0_wire (Amf0Boolean b) @ rest) pos kb = kb b rest (pos + length (amf0_wire (Amf0Boolean b)))"
  "field err (nonzero Amf0Boolean_decode) (amf0_wire (Amf0Boolean b) @ rest) pos kb = kb b rest (pos + length (amf0_wire (Amf0Boolean b)))"
  by (simp_all add: field_def nonzero_def amf0_string.decode_wire amf0_number.decode_wire amf0_null.decode_wire [where v = "()"]
      amf0_undefined.decode_wire [where v = "()"] amf0_object.decode_wire amf0_boolean.decode_wire del: amf0_wire.simps amf0_wf.simps)

lemmas field_rules_last [command_eval] = field_rules [where rest = "[]", unfolded append_Nil2]

lemma writes_one: "writes e w \<Longrightarrow> writes (enc_seq [e]) w"
  using writes_seq(1) [OF _ writes_seq(2)] by fastforce

lemmas field_writes =
  writes_seq writes_one amf0_string.encode_writes amf0_number.encode_writes [OF TrueI] amf0_null.encode_writes [OF TrueI]
  amf0_undefined.encode_writes [OF TrueI] amf0_object.encode_writes amf0_boolean.encode_writes [OF TrueI]
  writes_must_advance

lemma encode_command_ok:
  assumes "writes (enc_seq encs) w" and "length w = need_size"
  shows "\<exists>m. encode_command mem need_size csid mtype encs use_pos = Inr m \<and> get_using_data m = Inr w \<and>
    packet_ok m \<and> using_bytes m = need_size \<and> chunk_stream_id m = csid \<and> message_type_id m = mtype \<and>
    message_stream_id m = RTMP_MESSAGE_ID_PROTOCOL_CONTROL \<and> timestamp m = 0"
  using writesD [OF assms(1), of "map mem [0..<need_size]"] assms(2)
  by (simp add: encode_command_def RtmpMessage_new_def inc_used_bytes_def get_using_data_def packet_ok_def)

section \<open>The interface\<close>

locale command_message =
  fixes wf :: "'v \<Rightarrow> bool"
    and wire :: "'v \<Rightarrow> bytes"
    and encode :: "(nat \<Rightarrow> byte) \<Rightarrow> 'v \<Rightarrow> RtmpMessage result"
    and decode :: "RtmpMessage \<Rightarrow> ('v \<times> nat) result"
    and csid :: u32 and mtype :: byte
  assumes encode_wire: "wf v \<Longrightarrow> \<exists>m. encode mem v = Inr m \<and> get_using_data m = Inr (wire v) \<and> packet_ok m \<and>
      chunk_stream_id m = csid \<and> message_type_id m = mtype \<and>
      message_stream_id m = RTMP_MESSAGE_ID_PROTOCOL_CONTROL \<and> timestamp m = 0"
    and decode_wire: "wf v \<Longrightarrow> get_using_data m = Inr (wire v) \<Longrightarrow> decode m = Inr (v, length (wire v))"
begin

text \<open>Whatever carries the payload unchanged, the peer decodes what was encoded.\<close>
lemma carried_decode:
  assumes "wf v" and "encode mem v = Inr m" and "get_using_data m' = get_using_data m"
  shows "decode m' = Inr (v, length (wire v))"
  using encode_wire [OF assms(1), of mem] assms decode_wire by auto

lemma roundtrip:
  assumes "wf v"
  shows "\<exists>m. encode mem v = Inr m \<and> decode m = Inr (v, using_bytes m)"
proof -
  obtain m where m: "encode mem v = Inr m" "get_using_data m = Inr (wire v)" "packet_ok m"
    using encode_wire [OF assms, of mem] by blast
  then have "using_bytes m = length (wire v)"
    by (simp add: get_using_data_ok packet_ok_def) (metis length_take min.absorb2)
  with m decode_wire [OF assms m(2)] show ?thesis by simp
qed

end

lemma command_messageI:
  assumes "\<And>mem v. encode mem v = encode_command mem (sz v) csid mtype (encs v) use_pos"
    and "\<And>v. good v \<Longrightarrow> writes (enc_seq (encs v)) (wire v)" and "\<And>v. good v \<Longrightarrow> length (wire v) = sz v"
    and "\<And>v m. good v \<Longrightarrow> get_using_data m = Inr (wire v) \<Longrightarrow> decode m = Inr (v, length (wire v))"
  shows "command_message good wire encode decode csid mtype"
  using encode_command_ok [OF assms(2,3)] assms(1,4) by unfold_locales (fastforce, blast)


section \<open>FCPublish and release stream\<close>

record RtmpFCPublishMessage =
  fp_command_name :: bytes
  fp_transaction_id :: double
  fp_stream_name :: bytes

definition RtmpFCPublishMessage_size :: "RtmpFCPublishMessage \<Rightarrow> nat" where
  "RtmpFCPublishMessage_size v = Amf0Data_size (Amf0String (fp_command_name v)) +
     Amf0Data_size (Amf0Number (fp_transaction_id v)) + Amf0Data_size Amf0Null +
     Amf0Data_size (Amf0String (fp_stream_name v))"

definition RtmpFCPublishMessage_decode :: "RtmpMessage \<Rightarrow> (RtmpFCPublishMessage \<times> nat) result" where
  "RtmpFCPublishMessage_decode rtmp_msg = bindR (get_using_data rtmp_msg) (\<lambda>payload.
     field (-1) Amf0String_decode payload 0 (\<lambda>command_name payload pos.
     field (-2) Amf0Number_decode payload pos (\<lambda>transaction_id payload pos.
     field (-3) Amf0Null_decode payload pos (\<lambda>_ payload pos.
     field (-4) Amf0String_decode payload pos (\<lambda>stream_name payload pos.
       Inr (\<lparr>fp_command_name = command_name, fp_transaction_id = transaction_id, fp_stream_name = stream_name\<rparr>, pos))))))"

definition RtmpFCPublishMessage_encode :: "(nat \<Rightarrow> byte) \<Rightarrow> RtmpFCPublishMessage \<Rightarrow> RtmpMessage result" where
  "RtmpFCPublishMessage_encode mem v =
     encode_command mem (RtmpFCPublishMessage_size v) RTMP_CHUNK_ID_COMMAND_MESSAGE RTMP_MESSAGE_TYPE_AMF0_COMMAND
       [Amf0String_encode (fp_command_name v), Amf0Number_encode (fp_transaction_id v), Amf0Null_encode,
        Amf0String_encode (fp_stream_name v)] True"

text \<open>The release stream message has the same fields and the same code.\<close>
type_synonym RtmpReleaseStreamMessage = RtmpFCPublishMessage

definition RtmpReleaseStreamMessage_size :: "RtmpReleaseStreamMessage \<Rightarrow> nat" where
  "RtmpReleaseStreamMessage_size v = Amf0Data_size (Amf0String (fp_command_name v)) +
     Amf0Data_size (Amf0Number (fp_transaction_id v)) + Amf0Data_size Amf0Null +
     Amf0Data_size (Amf0String (fp_stream_name v))"

definition RtmpReleaseStreamMessage_decode :: "RtmpMessage \<Rightarrow> (RtmpReleaseStreamMessage \<times> nat) result" where
  "RtmpReleaseStreamMessage_decode rtmp_msg = bindR (get_using_data rtmp_msg) (\<lambda>payload.
     field (-1) Amf0String_decode payload 0 (\<lambda>command_name payload pos.
     field (-2) Amf0Number_decode payload pos (\<lambda>transaction_id payload pos.
     field (-3) Amf0Null_decode payload pos (\<lambda>_ payload pos.
     field (-4) Amf0String_decode payload pos (\<lambda>stream_name payload pos.
       Inr (\<lparr>fp_command_name = command_name, fp_transaction_id = transaction_id, fp_stream_name = stream_name\<rparr>, pos))))))"

definition RtmpReleaseStreamMessage_encode :: "(nat \<Rightarrow> byte) \<Rightarrow> RtmpReleaseStreamMessage \<Rightarrow> RtmpMessage result" where
  "RtmpReleaseStreamMessage_encode mem v =
     encode_command mem (RtmpReleaseStreamMessage_size v) RTMP_CHUNK_ID_COMMAND_MESSAGE RTMP_MESSAGE_TYPE_AMF0_COMMAND
       [Amf0String_encode (fp_command_name v), Amf0Number_encode (fp_transaction_id v), Amf0Null_encode,
        Amf0String_encode (fp_stream_name v)] True"

section \<open>The responses to them\<close>

record RtmpFCPublishRespMessage =
  fr_command_name :: bytes
  fr_transaction_id :: double

definition RtmpFCPublishRespMessage_decode :: "RtmpMessage \<Rightarrow> (RtmpFCPublishRespMessage \<times> nat) result" where
  "RtmpFCPublishRespMessage_decode rtmp_msg = bindR (get_using_data rtmp_msg) (\<lambda>payload.
     field (-1) Amf0String_decode payload 0 (\<lambda>command_name payload pos.
     field (-2) Amf0Number_decode payload pos (\<lambda>transaction_id payload pos.
     field (-3) Amf0Null_decode payload pos (\<lambda>_ payload pos.
     field (-3) Amf0Undefined_decode payload pos (\<lambda>_ payload pos.
       Inr (\<lparr>fr_command_name = command_name, fr_transaction_id = transaction_id\<rparr>, pos))))))"

definition RtmpFCPublishRespMessage_encode :: "(nat \<Rightarrow> byte) \<Rightarrow> RtmpFCPublishRespMessage \<Rightarrow> RtmpMessage result" where
  "RtmpFCPublishRespMessage_encode mem v =
     encode_command mem (Amf0Data_size (Amf0String (fr_command_name v)) + Amf0Data_size (Amf0Number (fr_transaction_id v)) +
         Amf0Data_size Amf0Null + Amf0Data_size Amf0Undefined)
       RTMP_CHUNK_ID_PROTOCOL_CONTROL_MESSAGE RTMP_MESSAGE_TYPE_AMF0_COMMAND
       [Amf0String_encode (fr_command_name v), Amf0Number_encode (fr_transaction_id v), Amf0Null_encode,
        Amf0Undefined_encode] False"

definition RtmpReleaseStreamRespMessage_decode :: "RtmpMessage \<Rightarrow> (RtmpFCPublishRespMessage \<times> nat) result" where
  "RtmpReleaseStreamRespMessage_decode rtmp_msg = bindR (get_using_data rtmp_msg) (\<lambda>payload.
     field (-1) Amf0String_decode payload 0 (\<lambda>command_name payload pos.
     field (-2) Amf0Number_decode payload pos (\<lambda>transaction_id payload pos.
     field (-3) Amf0Null_decode payload pos (\<lambda>_ payload pos.
     field (-4) Amf0Undefined_decode payload pos (\<lambda>_ payload pos.
       Inr (\<lparr>fr_command_name = command_name, fr_transaction_id = transaction_id\<rparr>, pos))))))"

definition RtmpReleaseStreamRespMessage_encode :: "(nat \<Rightarrow> byte) \<Rightarrow> RtmpFCPublishRespMessage \<Rightarrow> RtmpMessage result" where
  "RtmpReleaseStreamRespMessage_encode mem v =
     encode_command mem (Amf0Data_size (Amf0String (fr_command_name v)) + Amf0Data_size (Amf0Number (fr_transaction_id v)) +
         Amf0Data_size Amf0Null + Amf0Data_size Amf0Undefined)
       RTMP_CHUNK_ID_PROTOCOL_CONTROL_MESSAGE RTMP_MESSAGE_TYPE_AMF0_COMMAND
       [Amf0String_encode (fr_command_name v), Amf0Number_encode (fr_transaction_id v), Amf0Null_encode,
        Amf0Undefined_encode] False"

section \<open>Publish\<close>

record RtmpPublishMessage =
  pb_command_name :: bytes
  pb_transaction_id :: double
  pb_stream_name :: bytes
  pb_publish_type :: bytes

definition RtmpPublishMessage_size :: "RtmpPublishMessage \<Rightarrow> nat" where
  "RtmpPublishMessage_size v = Amf0Data_size (Amf0String (pb_command_name v)) +
     Amf0Data_size (Amf0Number (pb_transaction_id v)) + Amf0Data_size Amf0Null +
     Amf0Data_size (Amf0String (pb_stream_name v)) + Amf0Data_size (Amf0String (pb_publish_type v))"

definition RtmpPublishMessage_decode :: "RtmpMessage \<Rightarrow> (RtmpPublishMessage \<times> nat) result" where
  "RtmpPublishMessage_decode rtmp_msg = bindR (get_using_data rtmp_msg) (\<lambda>payload.
     field (-1) Amf0String_decode payload 0 (\<lambda>command_name payload pos.
     field (-2) Amf0Number_decode payload pos (\<lambda>transaction_id payload pos.
     field (-4) Amf0Null_decode payload pos (\<lambda>_ payload pos.
     field (-5) Amf0String_decode payload pos (\<lambda>stream_name payload pos.
     field (-6) Amf0String_decode payload pos (\<lambda>publish_type payload pos.
       Inr (\<lparr>pb_command_name = command_name, pb_transaction_id = transaction_id, pb_stream_name = stream_name,
             pb_publish_type = publish_type\<rparr>, pos)))))))"

definition RtmpPublishMessage_encode :: "(nat \<Rightarrow> byte) \<Rightarrow> RtmpPublishMessage \<Rightarrow> RtmpMessage result" where
  "RtmpPublishMessage_encode mem v =
     encode_command mem (RtmpPublishMessage_size v) RTMP_CHUNK_ID_COMMAND_MESSAGE RTMP_MESSAGE_TYPE_AMF0_COMMAND
       [Amf0String_encode (pb_command_name v), Amf0Number_encode (pb_transaction_id v), Amf0Null_encode,
        Amf0String_encode (pb_stream_name v), Amf0String_encode (pb_publish_type v)] True"

section \<open>Status\<close>

record RtmpOnStatusMessage =
  os_command_name :: bytes
  os_transaction_id :: double
  os_info :: properties

definition RtmpOnStatusMessage_decode :: "RtmpMessage \<Rightarrow> (RtmpOnStatusMessage \<times> nat) result" where
  "RtmpOnStatusMessage_decode rtmp_msg = bindR (get_using_data rtmp_msg) (\<lambda>payload.
     field (-1) (nonzero Amf0String_decode) payload 0 (\<lambda>command_name payload pos.
     field (-2) (nonzero Amf0Number_decode) payload pos (\<lambda>transaction_id payload pos.
     field (-3) (nonzero Amf0Null_decode) payload pos (\<lambda>_ payload pos.
     field (-4) (nonzero (Amf0Object_decode [])) payload pos (\<lambda>info payload pos.
       Inr (\<lparr>os_command_name = command_name, os_transaction_id = transaction_id, os_info = info\<rparr>, pos))))))"

definition RtmpOnStatusMessage_encode :: "(nat \<Rightarrow> byte) \<Rightarrow> RtmpOnStatusMessage \<Rightarrow> RtmpMessage result" where
  "RtmpOnStatusMessage_encode mem v =
     encode_command mem (Amf0Data_size (Amf0String (os_command_name v)) + Amf0Data_size (Amf0Number (os_transaction_id v)) +
         Amf0Data_size Amf0Null + Amf0Data_size (Amf0Object (os_info v)))
       RTMP_CHUNK_ID_PROTOCOL_CONTROL_MESSAGE RTMP_MESSAGE_TYPE_AMF0_COMMAND
       [Amf0String_encode (os_command_name v), Amf0Number_encode (os_transaction_id v), Amf0Null_encode,
        Amf0Data_encode (Amf0Object (os_info v))] False"

section \<open>Connect\<close>

record RtmpConnectRespMessage =
  cr_command_name :: bytes
  cr_transaction_id :: double
  cr_props :: properties
  cr_info :: properties

definition RtmpConnectRespMessage_decode :: "RtmpMessage \<Rightarrow> (RtmpConnectRespMessage \<times> nat) result" where
  "RtmpConnectRespMessage_decode rtmp_msg = bindR (get_using_data rtmp_msg) (\<lambda>payload.
     field (-1) (nonzero Amf0String_decode) payload 0 (\<lambda>command_name payload pos.
     field (-2) (nonzero Amf0Number_decode) payload pos (\<lambda>transaction_id payload pos.
     field (-3) (nonzero (Amf0Object_decode [])) payload pos (\<lambda>props payload pos.
     field (-4) (nonzero (Amf0Object_decode [])) payload pos (\<lambda>info payload pos.
       Inr (\<lparr>cr_command_name = command_name, cr_transaction_id = transaction_id, cr_props = props, cr_info = info\<rparr>, pos))))))"

definition RtmpConnectRespMessage_encode :: "(nat \<Rightarrow> byte) \<Rightarrow> RtmpConnectRespMessage \<Rightarrow> RtmpMessage result" where
  "RtmpConnectRespMessage_encode mem v =
     encode_command mem (Amf0Data_size (Amf0String (cr_command_name v)) + Amf0Data_size (Amf0Number (cr_transaction_id v)) +
         Amf0Data_size (Amf0Object (cr_props v)) + Amf0Data_size (Amf0Object (cr_info v)))
       RTMP_CHUNK_ID_PROTOCOL_CONTROL_MESSAGE RTMP_MESSAGE_TYPE_AMF0_COMMAND
       [Amf0String_encode (cr_command_name v), Amf0Number_encode (cr_transaction_id v),
        Amf0Data_encode (Amf0Object (cr_props v)), Amf0Data_encode (Amf0Object (cr_info v))] False"

text \<open>
  The strings taken from the command object are empty, and the encoding number is 0, when the object
  has no such property; \<^verbatim>\<open>tcUrl\<close> is mandatory.
\<close>
record RtmpConnectCommandMessage =
  cc_command_name :: bytes
  cc_transaction_id :: double
  cc_command_object :: properties
  cc_optional_user_args :: "properties option"
  cc_tc_url :: bytes
  cc_page_url :: bytes
  cc_swf_url :: bytes
  cc_app :: bytes
  cc_object_encoding :: double

abbreviation (input) ascii :: "string \<Rightarrow> bytes" where "ascii s \<equiv> map of_char s"

definition RtmpConnectCommandMessage_new :: "double \<Rightarrow> bytes \<Rightarrow> bytes \<Rightarrow> bytes \<Rightarrow> bytes \<Rightarrow> RtmpConnectCommandMessage" where
  "RtmpConnectCommandMessage_new transaction_id tc_url page_url swf_url app =
     \<lparr>cc_command_name = ascii ''connect'', cc_transaction_id = transaction_id,
      cc_command_object = set_item_value (ascii ''app'') (Amf0String app)
        (set_item_value (ascii ''swfUrl'') (Amf0String swf_url)
        (set_item_value (ascii ''pageUrl'') (Amf0String page_url)
        (set_item_value (ascii ''tcUrl'') (Amf0String tc_url) []))),
      cc_optional_user_args = None, cc_tc_url = tc_url, cc_page_url = page_url, cc_swf_url = swf_url, cc_app = app,
      cc_object_encoding = 0\<rparr>"

definition orempty :: "bytes option \<Rightarrow> bytes" where
  "orempty s = (case s of Some x \<Rightarrow> x | None \<Rightarrow> [])"

definition RtmpConnectCommandMessage_decode :: "RtmpMessage \<Rightarrow> (RtmpConnectCommandMessage \<times> nat) result" where
  "RtmpConnectCommandMessage_decode rtmp_msg = bindR (get_using_data rtmp_msg) (\<lambda>payload.
     field (-1) Amf0String_decode payload 0 (\<lambda>command_name payload pos.
     field (-2) Amf0Number_decode payload pos (\<lambda>transaction_id payload pos.
     field (-3) (Amf0Object_decode []) payload pos (\<lambda>command_object payload pos.
     bindR (if payload = [] then Inr (None, pos)
            else field (-4) (Amf0Object_decode []) payload pos (\<lambda>opt payload pos. Inr (Some opt, pos)))
       (\<lambda>(opt, pos).
         case get_string_property command_object (ascii ''tcUrl'') of None \<Rightarrow> Inl (Rc (-5))
         | Some tc_url \<Rightarrow>
             Inr (\<lparr>cc_command_name = command_name, cc_transaction_id = transaction_id, cc_command_object = command_object,
               cc_optional_user_args = opt, cc_tc_url = tc_url,
               cc_page_url = orempty (get_string_property command_object (ascii ''pageUrl'')),
               cc_swf_url = orempty (get_string_property command_object (ascii ''swfUrl'')),
               cc_app = orempty (get_string_property command_object (ascii ''app'')),
               cc_object_encoding = (case get_number_property command_object (ascii ''objectEncoding'') of
                  Some n \<Rightarrow> n | None \<Rightarrow> 0)\<rparr>, pos))))))"

definition RtmpConnectCommandMessage_size :: "RtmpConnectCommandMessage \<Rightarrow> nat" where
  "RtmpConnectCommandMessage_size v = Amf0Data_size (Amf0String (cc_command_name v)) +
     Amf0Data_size (Amf0Number (cc_transaction_id v)) + Amf0Data_size (Amf0Object (cc_command_object v)) +
     (case cc_optional_user_args v of Some opt \<Rightarrow> Amf0Data_size (Amf0Object opt) | None \<Rightarrow> 0)"

definition RtmpConnectCommandMessage_encode :: "(nat \<Rightarrow> byte) \<Rightarrow> RtmpConnectCommandMessage \<Rightarrow> RtmpMessage result" where
  "RtmpConnectCommandMessage_encode mem v =
     encode_command mem (RtmpConnectCommandMessage_size v) RTMP_CHUNK_ID_COMMAND_MESSAGE RTMP_MESSAGE_TYPE_AMF0_COMMAND
       (map must_advance ([Amf0String_encode (cc_command_name v), Amf0Number_encode (cc_transaction_id v),
         Amf0Data_encode (Amf0Object (cc_command_object v))] @
         (case cc_optional_user_args v of Some opt \<Rightarrow> [Amf0Data_encode (Amf0Object opt)] | None \<Rightarrow> []))) False"

section \<open>Create stream\<close>

record RtmpCreateStreamMessage =
  cs_command_name :: bytes
  cs_transaction_id :: double
  cs_command_obj :: properties

text \<open>An object that fails to decode is not an error if the value is a null.\<close>
definition RtmpCreateStreamMessage_decode :: "RtmpMessage \<Rightarrow> (RtmpCreateStreamMessage \<times> nat) result" where
  "RtmpCreateStreamMessage_decode rtmp_msg = bindR (get_using_data rtmp_msg) (\<lambda>payload.
     field (-1) Amf0String_decode payload 0 (\<lambda>command_name payload pos.
     field (-2) Amf0Number_decode payload pos (\<lambda>transaction_id payload pos.
       case Amf0Object_decode [] payload of
         Inr (command_obj, consumed) \<Rightarrow>
           Inr (\<lparr>cs_command_name = command_name, cs_transaction_id = transaction_id, cs_command_obj = command_obj\<rparr>, pos + consumed)
       | Inl (Rc _) \<Rightarrow> field (-4) Amf0Null_decode payload pos (\<lambda>_ payload pos.
           Inr (\<lparr>cs_command_name = command_name, cs_transaction_id = transaction_id, cs_command_obj = []\<rparr>, pos))
       | Inl e \<Rightarrow> Inl e)))"

definition RtmpCreateStreamMessage_size :: "RtmpCreateStreamMessage \<Rightarrow> nat" where
  "RtmpCreateStreamMessage_size v = Amf0Data_size (Amf0String (cs_command_name v)) +
     Amf0Data_size (Amf0Number (cs_transaction_id v)) +
     (if length (cs_command_obj v) \<le> 0 then Amf0Data_size Amf0Null else Amf0Data_size (Amf0Object (cs_command_obj v)))"

definition RtmpCreateStreamMessage_encode :: "(nat \<Rightarrow> byte) \<Rightarrow> RtmpCreateStreamMessage \<Rightarrow> RtmpMessage result" where
  "RtmpCreateStreamMessage_encode mem v =
     encode_command mem (RtmpCreateStreamMessage_size v) RTMP_CHUNK_ID_COMMAND_MESSAGE RTMP_MESSAGE_TYPE_AMF0_COMMAND
       (map must_advance [Amf0String_encode (cs_command_name v), Amf0Number_encode (cs_transaction_id v),
         (if 0 < length (cs_command_obj v) then Amf0Data_encode (Amf0Object (cs_command_obj v)) else Amf0Null_encode)]) False"

record RtmpCreateStreamRespMessage =
  sr_command_name :: bytes
  sr_transaction_id :: double
  sr_stream_id :: double

definition RtmpCreateStreamRespMessage_decode :: "RtmpMessage \<Rightarrow> (RtmpCreateStreamRespMessage \<times> nat) result" where
  "RtmpCreateStreamRespMessage_decode rtmp_msg = bindR (get_using_data rtmp_msg) (\<lambda>payload.
     field (-1) (nonzero Amf0String_decode) payload 0 (\<lambda>command_name payload pos.
     field (-2) (nonzero Amf0Number_decode) payload pos (\<lambda>transaction_id payload pos.
     field (-3) (nonzero Amf0Null_decode) payload pos (\<lambda>_ payload pos.
     field (-4) (nonzero Amf0Number_decode) payload pos (\<lambda>stream_id payload pos.
       Inr (\<lparr>sr_command_name = command_name, sr_transaction_id = transaction_id, sr_stream_id = stream_id\<rparr>, pos))))))"

definition RtmpCreateStreamRespMessage_encode :: "(nat \<Rightarrow> byte) \<Rightarrow> RtmpCreateStreamRespMessage \<Rightarrow> RtmpMessage result" where
  "RtmpCreateStreamRespMessage_encode mem v =
     encode_command mem (Amf0Data_size (Amf0String (sr_command_name v)) + Amf0Data_size (Amf0Number (sr_transaction_id v)) +
         Amf0Data_size Amf0Null + Amf0Data_size (Amf0Number (sr_stream_id v)))
       RTMP_CHUNK_ID_PROTOCOL_CONTROL_MESSAGE RTMP_MESSAGE_TYPE_AMF0_COMMAND
       [Amf0String_encode (sr_command_name v), Amf0Number_encode (sr_transaction_id v), Amf0Null_encode,
        Amf0Number_encode (sr_stream_id v)] False"

section \<open>Play\<close>

text \<open>The integer copies \<^verbatim>\<open>start_pts_\<close>, \<^verbatim>\<open>duration_ms_\<close>, \<^verbatim>\<open>reset_play_\<close> of the optional values are left out.\<close>
record RtmpPlayMessage =
  pl_command_name :: bytes
  pl_transaction_id :: double
  pl_stream_name :: bytes
  pl_start :: "double option"
  pl_duration :: "double option"
  pl_reset :: "bool option"

text \<open>An optional trailing value, present when bytes are left.\<close>
definition opt_field :: "int \<Rightarrow> (bytes \<Rightarrow> ('v \<times> nat) result) \<Rightarrow> bytes \<Rightarrow> nat \<Rightarrow>
    ('v option \<Rightarrow> bytes \<Rightarrow> nat \<Rightarrow> 'r result) \<Rightarrow> 'r result" where
  "opt_field err dec data pos k =
     (if length data > 0 then field err dec data pos (\<lambda>v. k (Some v)) else k None data pos)"

definition RtmpPlayMessage_decode :: "RtmpMessage \<Rightarrow> (RtmpPlayMessage \<times> nat) result" where
  "RtmpPlayMessage_decode rtmp_msg = bindR (get_using_data rtmp_msg) (\<lambda>payload.
     field (-1) Amf0String_decode payload 0 (\<lambda>command_name payload pos.
     field (-2) Amf0Number_decode payload pos (\<lambda>transaction_id payload pos.
     field (-3) Amf0Null_decode payload pos (\<lambda>_ payload pos.
     field (-5) Amf0String_decode payload pos (\<lambda>stream_name payload pos.
     opt_field (-6) Amf0Number_decode payload pos (\<lambda>start payload pos.
     opt_field (-7) Amf0Number_decode payload pos (\<lambda>duration payload pos.
     opt_field (-8) Amf0Boolean_decode payload pos (\<lambda>reset payload pos.
       Inr (\<lparr>pl_command_name = command_name, pl_transaction_id = transaction_id, pl_stream_name = stream_name,
             pl_start = start, pl_duration = duration, pl_reset = reset\<rparr>, pos)))))))))"

definition RtmpPlayMessage_size :: "RtmpPlayMessage \<Rightarrow> nat" where
  "RtmpPlayMessage_size v = Amf0Data_size (Amf0String (pl_command_name v)) +
     Amf0Data_size (Amf0Number (pl_transaction_id v)) + Amf0Data_size Amf0Null +
     Amf0Data_size (Amf0String (pl_stream_name v)) +
     (case pl_start v of Some n \<Rightarrow> Amf0Data_size (Amf0Number n) | None \<Rightarrow> 0) +
     (case pl_duration v of Some n \<Rightarrow> Amf0Data_size (Amf0Number n) | None \<Rightarrow> 0) +
     (case pl_reset v of Some b \<Rightarrow> Amf0Data_size (Amf0Boolean b) | None \<Rightarrow> 0)"

definition RtmpPlayMessage_encode :: "(nat \<Rightarrow> byte) \<Rightarrow> RtmpPlayMessage \<Rightarrow> RtmpMessage result" where
  "RtmpPlayMessage_encode mem v =
     encode_command mem (RtmpPlayMessage_size v) RTMP_CHUNK_ID_COMMAND_MESSAGE RTMP_MESSAGE_TYPE_AMF0_COMMAND
       ([Amf0String_encode (pl_command_name v), Amf0Number_encode (pl_transaction_id v), Amf0Null_encode,
         Amf0String_encode (pl_stream_name v)] @
        (case pl_start v of Some n \<Rightarrow> [Amf0Number_encode n] | None \<Rightarrow> []) @
        (case pl_duration v of Some n \<Rightarrow> [Amf0Number_encode n] | None \<Rightarrow> []) @
        (case pl_reset v of Some b \<Rightarrow> [Amf0Boolean_encode b] | None \<Rightarrow> [])) True"

section \<open>Sample access\<close>

definition RtmpAccessSampleMessage_encode :: "(nat \<Rightarrow> byte) \<Rightarrow> bool \<Rightarrow> bool \<Rightarrow> RtmpMessage result" where
  "RtmpAccessSampleMessage_encode mem video audio =
     (let command_name = ascii ''|RtmpSampleAccess'' in
      encode_command mem (Amf0Data_size (Amf0String command_name) + Amf0Data_size (Amf0Boolean audio) +
          Amf0Data_size (Amf0Boolean video))
        RTMP_CHUNK_ID_PROTOCOL_CONTROL_MESSAGE RTMP_MESSAGE_TYPE_AMF0_DATA
        [Amf0String_encode command_name, Amf0Boolean_encode video, Amf0Boolean_encode audio] False)"

section \<open>Round trips\<close>

lemmas size_wire = amf0_string.sz_wire amf0_number.sz_wire amf0_null.sz_wire amf0_undefined.sz_wire
  amf0_object.sz_wire amf0_boolean.sz_wire

lemmas command_wires = writes_seq field_writes size_wire length_append list.size add_0_right

lemmas keep = amf0_wire.simps Amf0Data_size.simps amf0_wf.simps

text \<open>The wire forms, and the messages they cover.\<close>

abbreviation (input) "fp_wire v \<equiv> amf0_wire (Amf0String (fp_command_name v)) @ amf0_wire (Amf0Number (fp_transaction_id v)) @
  amf0_wire Amf0Null @ amf0_wire (Amf0String (fp_stream_name v)) @ []"
abbreviation (input) "fp_ok v \<equiv> length (fp_command_name v) < 65536 \<and> length (fp_stream_name v) < 65536"

interpretation fcpublish_command: command_message fp_ok fp_wire
    RtmpFCPublishMessage_encode RtmpFCPublishMessage_decode RTMP_CHUNK_ID_COMMAND_MESSAGE RTMP_MESSAGE_TYPE_AMF0_COMMAND
  by (rule command_messageI [where sz = RtmpFCPublishMessage_size, OF RtmpFCPublishMessage_encode_def])
     (simp_all only: command_wires RtmpFCPublishMessage_size_def,
      simp_all add: RtmpFCPublishMessage_decode_def command_eval del: keep)

interpretation release_stream_command: command_message fp_ok fp_wire
    RtmpReleaseStreamMessage_encode RtmpReleaseStreamMessage_decode RTMP_CHUNK_ID_COMMAND_MESSAGE RTMP_MESSAGE_TYPE_AMF0_COMMAND
  by (rule command_messageI [where sz = RtmpReleaseStreamMessage_size, OF RtmpReleaseStreamMessage_encode_def])
     (simp_all only: command_wires RtmpReleaseStreamMessage_size_def,
      simp_all add: RtmpReleaseStreamMessage_decode_def command_eval del: keep)

abbreviation (input) "fr_wire v \<equiv> amf0_wire (Amf0String (fr_command_name v)) @ amf0_wire (Amf0Number (fr_transaction_id v)) @
  amf0_wire Amf0Null @ amf0_wire Amf0Undefined @ []"

interpretation fcpublish_resp_command: command_message "\<lambda>v. length (fr_command_name v) < 65536" fr_wire
    RtmpFCPublishRespMessage_encode RtmpFCPublishRespMessage_decode RTMP_CHUNK_ID_PROTOCOL_CONTROL_MESSAGE
    RTMP_MESSAGE_TYPE_AMF0_COMMAND
  by (rule command_messageI [OF RtmpFCPublishRespMessage_encode_def])
     (simp_all only: command_wires, simp_all add: RtmpFCPublishRespMessage_decode_def command_eval del: keep)

interpretation release_stream_resp_command: command_message "\<lambda>v. length (fr_command_name v) < 65536" fr_wire
    RtmpReleaseStreamRespMessage_encode RtmpReleaseStreamRespMessage_decode RTMP_CHUNK_ID_PROTOCOL_CONTROL_MESSAGE
    RTMP_MESSAGE_TYPE_AMF0_COMMAND
  by (rule command_messageI [OF RtmpReleaseStreamRespMessage_encode_def])
     (simp_all only: command_wires, simp_all add: RtmpReleaseStreamRespMessage_decode_def command_eval del: keep)

abbreviation (input) "pb_wire v \<equiv> amf0_wire (Amf0String (pb_command_name v)) @ amf0_wire (Amf0Number (pb_transaction_id v)) @
  amf0_wire Amf0Null @ amf0_wire (Amf0String (pb_stream_name v)) @ amf0_wire (Amf0String (pb_publish_type v)) @ []"
abbreviation (input) "pb_ok v \<equiv> length (pb_command_name v) < 65536 \<and> length (pb_stream_name v) < 65536 \<and>
  length (pb_publish_type v) < 65536"

interpretation publish_command: command_message pb_ok pb_wire
    RtmpPublishMessage_encode RtmpPublishMessage_decode RTMP_CHUNK_ID_COMMAND_MESSAGE RTMP_MESSAGE_TYPE_AMF0_COMMAND
  by (rule command_messageI [where sz = RtmpPublishMessage_size, OF RtmpPublishMessage_encode_def])
     (simp_all only: command_wires RtmpPublishMessage_size_def,
      simp_all add: RtmpPublishMessage_decode_def command_eval del: keep)

abbreviation (input) "os_wire v \<equiv> amf0_wire (Amf0String (os_command_name v)) @ amf0_wire (Amf0Number (os_transaction_id v)) @
  amf0_wire Amf0Null @ amf0_wire (Amf0Object (os_info v)) @ []"
abbreviation (input) "os_ok v \<equiv> length (os_command_name v) < 65536 \<and> amf0_wf (Amf0Object (os_info v))"

interpretation onstatus_command: command_message os_ok os_wire
    RtmpOnStatusMessage_encode RtmpOnStatusMessage_decode RTMP_CHUNK_ID_PROTOCOL_CONTROL_MESSAGE RTMP_MESSAGE_TYPE_AMF0_COMMAND
  by (rule command_messageI [OF RtmpOnStatusMessage_encode_def])
     (simp_all only: command_wires, simp_all add: RtmpOnStatusMessage_decode_def command_eval del: keep)

abbreviation (input) "cr_wire v \<equiv> amf0_wire (Amf0String (cr_command_name v)) @ amf0_wire (Amf0Number (cr_transaction_id v)) @
  amf0_wire (Amf0Object (cr_props v)) @ amf0_wire (Amf0Object (cr_info v)) @ []"
abbreviation (input) "cr_ok v \<equiv> length (cr_command_name v) < 65536 \<and> amf0_wf (Amf0Object (cr_props v)) \<and>
  amf0_wf (Amf0Object (cr_info v))"

interpretation connect_resp_command: command_message cr_ok cr_wire
    RtmpConnectRespMessage_encode RtmpConnectRespMessage_decode RTMP_CHUNK_ID_PROTOCOL_CONTROL_MESSAGE
    RTMP_MESSAGE_TYPE_AMF0_COMMAND
  by (rule command_messageI [OF RtmpConnectRespMessage_encode_def])
     (simp_all only: command_wires, simp_all add: RtmpConnectRespMessage_decode_def command_eval del: keep)

abbreviation (input) "sr_wire v \<equiv> amf0_wire (Amf0String (sr_command_name v)) @ amf0_wire (Amf0Number (sr_transaction_id v)) @
  amf0_wire Amf0Null @ amf0_wire (Amf0Number (sr_stream_id v)) @ []"

interpretation create_stream_resp_command: command_message "\<lambda>v. length (sr_command_name v) < 65536" sr_wire
    RtmpCreateStreamRespMessage_encode RtmpCreateStreamRespMessage_decode RTMP_CHUNK_ID_PROTOCOL_CONTROL_MESSAGE
    RTMP_MESSAGE_TYPE_AMF0_COMMAND
  by (rule command_messageI [OF RtmpCreateStreamRespMessage_encode_def])
     (simp_all only: command_wires, simp_all add: RtmpCreateStreamRespMessage_decode_def command_eval del: keep)

abbreviation (input) "cs_wire v \<equiv> amf0_wire (Amf0String (cs_command_name v)) @ amf0_wire (Amf0Number (cs_transaction_id v)) @
  amf0_wire (if cs_command_obj v = [] then Amf0Null else Amf0Object (cs_command_obj v)) @ []"
abbreviation (input) "cs_ok v \<equiv> length (cs_command_name v) < 65536 \<and> amf0_wf (Amf0Object (cs_command_obj v))"

lemma Amf0Object_decode_null: "Amf0Object_decode [] (amf0_wire Amf0Null @ rest) = Inl (Rc (-2))"
  by (simp add: Amf0Object_decode_def)

interpretation create_stream_command: command_message cs_ok cs_wire
    RtmpCreateStreamMessage_encode RtmpCreateStreamMessage_decode RTMP_CHUNK_ID_COMMAND_MESSAGE RTMP_MESSAGE_TYPE_AMF0_COMMAND
proof (rule command_messageI [where sz = RtmpCreateStreamMessage_size, OF RtmpCreateStreamMessage_encode_def])
  fix v :: RtmpCreateStreamMessage and m :: RtmpMessage
  assume ok: "cs_ok v"
  show "writes (enc_seq (map must_advance [Amf0String_encode (cs_command_name v), Amf0Number_encode (cs_transaction_id v),
      (if 0 < length (cs_command_obj v) then Amf0Data_encode (Amf0Object (cs_command_obj v)) else Amf0Null_encode)])) (cs_wire v)"
    using ok by (cases "cs_command_obj v = []") (simp_all add: field_writes del: keep)
  show "length (cs_wire v) = RtmpCreateStreamMessage_size v"
    using ok by (cases "cs_command_obj v = []") (simp_all add: RtmpCreateStreamMessage_size_def size_wire del: keep)
  assume "get_using_data m = Inr (cs_wire v)"
  then show "RtmpCreateStreamMessage_decode m = Inr (v, length (cs_wire v))"
    using ok Amf0Object_decode_null [of "[]"] amf0_object.decode_wire [of "cs_command_obj v" "[]"]
    by (cases "cs_command_obj v = []") (simp_all add: RtmpCreateStreamMessage_decode_def command_eval del: keep)
qed

text \<open>A play message with an optional value has all the optional values before it.\<close>

abbreviation (input) "pl_opts v \<equiv>
  (case pl_start v of Some n \<Rightarrow> [Amf0Number n] | None \<Rightarrow> []) @ (case pl_duration v of Some n \<Rightarrow> [Amf0Number n] | None \<Rightarrow> []) @
  (case pl_reset v of Some b \<Rightarrow> [Amf0Boolean b] | None \<Rightarrow> [])"
abbreviation (input) "pl_wire v \<equiv> amf0_wire (Amf0String (pl_command_name v)) @ amf0_wire (Amf0Number (pl_transaction_id v)) @
  amf0_wire Amf0Null @ amf0_wire (Amf0String (pl_stream_name v)) @ concat (map amf0_wire (pl_opts v))"
abbreviation (input) "pl_ok v \<equiv> length (pl_command_name v) < 65536 \<and> length (pl_stream_name v) < 65536 \<and>
  (pl_start v = None \<longrightarrow> pl_duration v = None) \<and> (pl_duration v = None \<longrightarrow> pl_reset v = None)"

lemma opt_field_Nil [command_eval]: "opt_field err dec [] pos k = k None [] pos"
  by (simp add: opt_field_def)

lemma opt_field_present [command_eval]: "w \<noteq> [] \<Longrightarrow> opt_field err dec (w @ rest) pos k = field err dec (w @ rest) pos (\<lambda>v. k (Some v))"
  "w \<noteq> [] \<Longrightarrow> opt_field err dec w pos k = field err dec w pos (\<lambda>v. k (Some v))"
  by (simp_all add: opt_field_def)

interpretation play_command: command_message pl_ok pl_wire
    RtmpPlayMessage_encode RtmpPlayMessage_decode RTMP_CHUNK_ID_COMMAND_MESSAGE RTMP_MESSAGE_TYPE_AMF0_COMMAND
proof (rule command_messageI [where sz = RtmpPlayMessage_size, OF RtmpPlayMessage_encode_def])
  fix v :: RtmpPlayMessage and m :: RtmpMessage
  assume ok: "pl_ok v"
  show "writes (enc_seq ([Amf0String_encode (pl_command_name v), Amf0Number_encode (pl_transaction_id v), Amf0Null_encode,
         Amf0String_encode (pl_stream_name v)] @
        (case pl_start v of Some n \<Rightarrow> [Amf0Number_encode n] | None \<Rightarrow> []) @
        (case pl_duration v of Some n \<Rightarrow> [Amf0Number_encode n] | None \<Rightarrow> []) @
        (case pl_reset v of Some b \<Rightarrow> [Amf0Boolean_encode b] | None \<Rightarrow> []))) (pl_wire v)"
    using ok by (cases "pl_start v"; cases "pl_duration v"; cases "pl_reset v") (simp_all add: field_writes del: keep)
  show "length (pl_wire v) = RtmpPlayMessage_size v"
    using ok by (cases "pl_start v"; cases "pl_duration v"; cases "pl_reset v")
      (simp_all add: RtmpPlayMessage_size_def size_wire del: keep)
  assume "get_using_data m = Inr (pl_wire v)"
  then show "RtmpPlayMessage_decode m = Inr (v, length (pl_wire v))"
    using ok by (cases "pl_start v"; cases "pl_duration v"; cases "pl_reset v")
      (simp_all add: RtmpPlayMessage_decode_def command_eval del: keep)
qed

abbreviation (input) "cc_wire v \<equiv> amf0_wire (Amf0String (cc_command_name v)) @ amf0_wire (Amf0Number (cc_transaction_id v)) @
  amf0_wire (Amf0Object (cc_command_object v)) @
  (case cc_optional_user_args v of Some opt \<Rightarrow> amf0_wire (Amf0Object opt) | None \<Rightarrow> [])"

text \<open>The derived fields of a connect message are those of its command object.\<close>
definition cc_ok :: "RtmpConnectCommandMessage \<Rightarrow> bool" where
  "cc_ok v \<longleftrightarrow> length (cc_command_name v) < 65536 \<and> amf0_wf (Amf0Object (cc_command_object v)) \<and>
     (case cc_optional_user_args v of Some opt \<Rightarrow> amf0_wf (Amf0Object opt) | None \<Rightarrow> True) \<and>
     get_string_property (cc_command_object v) (ascii ''tcUrl'') = Some (cc_tc_url v) \<and>
     orempty (get_string_property (cc_command_object v) (ascii ''pageUrl'')) = cc_page_url v \<and>
     orempty (get_string_property (cc_command_object v) (ascii ''swfUrl'')) = cc_swf_url v \<and>
     orempty (get_string_property (cc_command_object v) (ascii ''app'')) = cc_app v \<and>
     (case get_number_property (cc_command_object v) (ascii ''objectEncoding'') of Some n \<Rightarrow> n | None \<Rightarrow> 0) = cc_object_encoding v"

interpretation connect_command: command_message cc_ok cc_wire
    RtmpConnectCommandMessage_encode RtmpConnectCommandMessage_decode RTMP_CHUNK_ID_COMMAND_MESSAGE RTMP_MESSAGE_TYPE_AMF0_COMMAND
proof (rule command_messageI [where sz = RtmpConnectCommandMessage_size, OF RtmpConnectCommandMessage_encode_def])
  fix v :: RtmpConnectCommandMessage and m :: RtmpMessage
  assume ok: "cc_ok v"
  show "writes (enc_seq (map must_advance ([Amf0String_encode (cc_command_name v), Amf0Number_encode (cc_transaction_id v),
         Amf0Data_encode (Amf0Object (cc_command_object v))] @
         (case cc_optional_user_args v of Some opt \<Rightarrow> [Amf0Data_encode (Amf0Object opt)] | None \<Rightarrow> [])))) (cc_wire v)"
    using ok by (cases "cc_optional_user_args v") (simp_all add: cc_ok_def field_writes del: keep)
  show "length (cc_wire v) = RtmpConnectCommandMessage_size v"
    using ok by (cases "cc_optional_user_args v") (simp_all add: cc_ok_def RtmpConnectCommandMessage_size_def size_wire del: keep)
  assume "get_using_data m = Inr (cc_wire v)"
  then show "RtmpConnectCommandMessage_decode m = Inr (v, length (cc_wire v))"
    using ok by (cases "cc_optional_user_args v")
      (simp_all add: cc_ok_def RtmpConnectCommandMessage_decode_def command_eval del: keep)
qed

lemma connect_new_ok:
  assumes "length tc_url < 65536" "length page_url < 65536" "length swf_url < 65536" "length app < 65536"
  shows "cc_ok (RtmpConnectCommandMessage_new tid tc_url page_url swf_url app)"
  using assms
  by (simp add: cc_ok_def RtmpConnectCommandMessage_new_def set_item_value_def get_string_property_def orempty_def
      get_number_property_def)

section \<open>Properties\<close>

text \<open>
  C26. A connect command made by its constructor, with strings shorter than 65536 bytes, is encoded and
  decoded to the same message, the URLs and application name extracted from its command object included;
  the decoder consumes exactly the bytes marked as used.
\<close>
theorem connect_roundtrip:
  assumes "length tc_url < 65536" and "length page_url < 65536" and "length swf_url < 65536" and "length app < 65536"
  shows "\<exists>msg. RtmpConnectCommandMessage_encode mem (RtmpConnectCommandMessage_new tid tc_url page_url swf_url app) = Inr msg \<and>
    RtmpConnectCommandMessage_decode msg =
      Inr (RtmpConnectCommandMessage_new tid tc_url page_url swf_url app, using_bytes msg)"
  by (rule connect_command.roundtrip [OF connect_new_ok]) (fact assms)+

theorem connect_roundtrip_witness:
  "\<exists>msg. RtmpConnectCommandMessage_encode (\<lambda>_. 0) (RtmpConnectCommandMessage_new 1 (ascii ''rtmp://h/live'') [] [] (ascii ''live'')) = Inr msg \<and>
    RtmpConnectCommandMessage_decode msg =
      Inr (RtmpConnectCommandMessage_new 1 (ascii ''rtmp://h/live'') [] [] (ascii ''live''), using_bytes msg)"
  by (rule connect_roundtrip) simp_all

text \<open>
  C27. The four commands by which a client starts publishing (release stream, FCPublish, create stream,
  publish) are each decoded to the message that was encoded, for strings shorter than 65536 bytes;
  a create stream command without a command object travels as a null.
\<close>
theorem publish_commands_roundtrip:
  assumes "length name < 65536" and "length stream < 65536" and "length ptype < 65536" and "amf0_wf (Amf0Object obj)"
  shows "(\<exists>msg. RtmpReleaseStreamMessage_encode mem \<lparr>fp_command_name = name, fp_transaction_id = tid, fp_stream_name = stream\<rparr> = Inr msg \<and>
      RtmpReleaseStreamMessage_decode msg =
        Inr (\<lparr>fp_command_name = name, fp_transaction_id = tid, fp_stream_name = stream\<rparr>, using_bytes msg)) \<and>
    (\<exists>msg. RtmpFCPublishMessage_encode mem \<lparr>fp_command_name = name, fp_transaction_id = tid, fp_stream_name = stream\<rparr> = Inr msg \<and>
      RtmpFCPublishMessage_decode msg =
        Inr (\<lparr>fp_command_name = name, fp_transaction_id = tid, fp_stream_name = stream\<rparr>, using_bytes msg)) \<and>
    (\<exists>msg. RtmpCreateStreamMessage_encode mem \<lparr>cs_command_name = name, cs_transaction_id = tid, cs_command_obj = obj\<rparr> = Inr msg \<and>
      RtmpCreateStreamMessage_decode msg =
        Inr (\<lparr>cs_command_name = name, cs_transaction_id = tid, cs_command_obj = obj\<rparr>, using_bytes msg)) \<and>
    (\<exists>msg. RtmpPublishMessage_encode mem \<lparr>pb_command_name = name, pb_transaction_id = tid, pb_stream_name = stream,
          pb_publish_type = ptype\<rparr> = Inr msg \<and>
      RtmpPublishMessage_decode msg = Inr (\<lparr>pb_command_name = name, pb_transaction_id = tid, pb_stream_name = stream,
          pb_publish_type = ptype\<rparr>, using_bytes msg))"
  using assms
  by (intro conjI release_stream_command.roundtrip fcpublish_command.roundtrip create_stream_command.roundtrip
      publish_command.roundtrip) simp_all

theorem publish_commands_roundtrip_witness:
  "\<exists>msg. RtmpPublishMessage_encode (\<lambda>_. 0) \<lparr>pb_command_name = ascii ''publish'', pb_transaction_id = 0,
      pb_stream_name = ascii ''s'', pb_publish_type = ascii ''live''\<rparr> = Inr msg \<and>
    RtmpPublishMessage_decode msg = Inr (\<lparr>pb_command_name = ascii ''publish'', pb_transaction_id = 0,
      pb_stream_name = ascii ''s'', pb_publish_type = ascii ''live''\<rparr>, using_bytes msg)"
  using publish_commands_roundtrip [of "ascii ''publish''" "ascii ''s''" "ascii ''live''" "[]" "\<lambda>_. 0" 0] by simp

text \<open>
  A play command whose optional values (start, duration, reset) are a prefix of the three is
  decoded to the message that was encoded.
\<close>
theorem play_roundtrip:
  assumes "length (pl_command_name v) < 65536" and "length (pl_stream_name v) < 65536"
    and "pl_start v = None \<Longrightarrow> pl_duration v = None" and "pl_duration v = None \<Longrightarrow> pl_reset v = None"
  shows "\<exists>msg. RtmpPlayMessage_encode mem v = Inr msg \<and> RtmpPlayMessage_decode msg = Inr (v, using_bytes msg)"
  by (rule play_command.roundtrip) (simp add: assms)

theorem play_roundtrip_witness:
  "\<exists>msg. RtmpPlayMessage_encode (\<lambda>_. 0) \<lparr>pl_command_name = ascii ''play'', pl_transaction_id = 0, pl_stream_name = ascii ''s'',
      pl_start = Some 0, pl_duration = None, pl_reset = None\<rparr> = Inr msg \<and>
    RtmpPlayMessage_decode msg = Inr (\<lparr>pl_command_name = ascii ''play'', pl_transaction_id = 0, pl_stream_name = ascii ''s'',
      pl_start = Some 0, pl_duration = None, pl_reset = None\<rparr>, using_bytes msg)"
  by (rule play_roundtrip) simp_all

text \<open>
  The responses of the server (to connect, release stream, FCPublish, create stream, and the
  status notification) are decoded to what was encoded, with well-formed AMF0 objects and a
  command name shorter than 65536 bytes.
\<close>
theorem server_responses_roundtrip:
  assumes "length name < 65536" and "amf0_wf (Amf0Object props)" and "amf0_wf (Amf0Object info)"
  shows "(\<exists>msg. RtmpConnectRespMessage_encode mem \<lparr>cr_command_name = name, cr_transaction_id = tid, cr_props = props,
          cr_info = info\<rparr> = Inr msg \<and>
      RtmpConnectRespMessage_decode msg = Inr (\<lparr>cr_command_name = name, cr_transaction_id = tid, cr_props = props,
          cr_info = info\<rparr>, using_bytes msg)) \<and>
    (\<exists>msg. RtmpReleaseStreamRespMessage_encode mem \<lparr>fr_command_name = name, fr_transaction_id = tid\<rparr> = Inr msg \<and>
      RtmpReleaseStreamRespMessage_decode msg = Inr (\<lparr>fr_command_name = name, fr_transaction_id = tid\<rparr>, using_bytes msg)) \<and>
    (\<exists>msg. RtmpFCPublishRespMessage_encode mem \<lparr>fr_command_name = name, fr_transaction_id = tid\<rparr> = Inr msg \<and>
      RtmpFCPublishRespMessage_decode msg = Inr (\<lparr>fr_command_name = name, fr_transaction_id = tid\<rparr>, using_bytes msg)) \<and>
    (\<exists>msg. RtmpCreateStreamRespMessage_encode mem \<lparr>sr_command_name = name, sr_transaction_id = tid, sr_stream_id = sid\<rparr> = Inr msg \<and>
      RtmpCreateStreamRespMessage_decode msg =
        Inr (\<lparr>sr_command_name = name, sr_transaction_id = tid, sr_stream_id = sid\<rparr>, using_bytes msg)) \<and>
    (\<exists>msg. RtmpOnStatusMessage_encode mem \<lparr>os_command_name = name, os_transaction_id = tid, os_info = info\<rparr> = Inr msg \<and>
      RtmpOnStatusMessage_decode msg = Inr (\<lparr>os_command_name = name, os_transaction_id = tid, os_info = info\<rparr>, using_bytes msg))"
  using assms
  by (intro conjI connect_resp_command.roundtrip release_stream_resp_command.roundtrip fcpublish_resp_command.roundtrip
      create_stream_resp_command.roundtrip onstatus_command.roundtrip) simp_all

theorem server_responses_roundtrip_witness:
  "\<exists>msg. RtmpCreateStreamRespMessage_encode (\<lambda>_. 0) \<lparr>sr_command_name = ascii ''_result'', sr_transaction_id = 4,
      sr_stream_id = 1\<rparr> = Inr msg \<and>
    RtmpCreateStreamRespMessage_decode msg = Inr (\<lparr>sr_command_name = ascii ''_result'', sr_transaction_id = 4,
      sr_stream_id = 1\<rparr>, using_bytes msg)"
  using server_responses_roundtrip [of "ascii ''_result''" "[]" "[]" "\<lambda>_. 0" 4 1] by simp

end
