(* ===== verification/NetBuffer.thy ===== *)
theory NetBuffer
  imports Prelude
begin

text \<open>
  The cursor over a byte buffer of \<^verbatim>\<open>libs/base/net_buffer.cpp\<close>, with which the MP4 boxes are read and
  written. Every access is guarded by an \<^verbatim>\<open>assert\<close>. The programs over it are state
  transformers with failure; \<open>emits\<close> and \<open>reads\<close> say what such a program writes and what it
  makes of given bytes, and their composition rules carry the proofs about the boxes.
\<close>

section \<open>The cursor\<close>

text \<open>The bytes behind the cursor and those ahead of it.\<close>
record NetBuffer =
  nb_done :: bytes
  nb_rest :: bytes

definition NetBuffer_new :: "bytes \<Rightarrow> NetBuffer" where
  "NetBuffer_new buf = \<lparr>nb_done = [], nb_rest = buf\<rparr>"

type_synonym 'a nb = "NetBuffer \<Rightarrow> ('a \<times> NetBuffer) result"

definition returnN :: "'a \<Rightarrow> 'a nb" where
  "returnN x b = Inr (x, b)"

definition bindN :: "'a nb \<Rightarrow> ('a \<Rightarrow> 'b nb) \<Rightarrow> 'b nb" where
  "bindN p f b = bindR (p b) (\<lambda>(x, b'). f x b')"

definition thenN :: "'a nb \<Rightarrow> 'b nb \<Rightarrow> 'b nb" where
  "thenN p q = bindN p (\<lambda>_. q)"

text \<open>Running a program for each element, and running one a number of times.\<close>

primrec eachN :: "('a \<Rightarrow> unit nb) \<Rightarrow> 'a list \<Rightarrow> unit nb" where
  "eachN f [] = returnN ()"
| "eachN f (x # xs) = thenN (f x) (eachN f xs)"

primrec timesN :: "nat \<Rightarrow> 'a nb \<Rightarrow> 'a list nb" where
  "timesN 0 p = returnN []"
| "timesN (Suc n) p = bindN p (\<lambda>x. bindN (timesN n p) (\<lambda>xs. returnN (x # xs)))"

text \<open>Moving over \<open>n\<close> bytes, replaced by \<open>f\<close> of them.\<close>
definition advance :: "nat \<Rightarrow> (bytes \<Rightarrow> bytes) \<Rightarrow> bytes nb" where
  "advance n f b =
     (if length (nb_rest b) < n then Inl AssertFail
      else let bs = take n (nb_rest b) in Inr (bs, \<lparr>nb_done = nb_done b @ f bs, nb_rest = drop n (nb_rest b)\<rparr>))"

definition skip :: "nat \<Rightarrow> unit nb" where
  "skip bytes = bindN (advance bytes id) (\<lambda>_. returnN ())"

definition read_1bytes :: "byte nb" where
  "read_1bytes = bindN (advance 1 id) (\<lambda>bs. returnN (get_be bs))"

text \<open>
  The two-byte read applies the four-byte \<^verbatim>\<open>htonl\<close> to the 16-bit value it loads and stores the low
  16 bits of the result.
\<close>
definition htonl :: "u32 \<Rightarrow> u32" where
  "htonl w = get_be (rev (put_be 4 w))"

definition read_2bytes :: "u16 nb" where
  "read_2bytes = bindN (advance 2 id) (\<lambda>bs. returnN (ucast (htonl (get_be (rev bs)))))"

definition read_3bytes :: "u32 nb" where
  "read_3bytes = bindN (advance 3 id) (\<lambda>bs. returnN (get_be bs))"

definition read_4bytes :: "u32 nb" where
  "read_4bytes = bindN (advance 4 id) (\<lambda>bs. returnN (get_be bs))"

definition read_8bytes :: "u64 nb" where
  "read_8bytes = bindN (advance 8 id) (\<lambda>bs. returnN (get_be bs))"

definition read_string :: "nat \<Rightarrow> bytes nb" where
  "read_string len = advance len id"

definition write_string :: "bytes \<Rightarrow> unit nb" where
  "write_string v = bindN (advance (length v) (\<lambda>_. v)) (\<lambda>_. returnN ())"

definition write_1bytes :: "byte \<Rightarrow> unit nb" where
  "write_1bytes v = write_string (put_be 1 v)"

definition write_2bytes :: "u16 \<Rightarrow> unit nb" where
  "write_2bytes v = write_string (put_be 2 v)"

definition write_3bytes :: "u32 \<Rightarrow> unit nb" where
  "write_3bytes v = write_string (put_be 3 v)"

definition write_4bytes :: "u32 \<Rightarrow> unit nb" where
  "write_4bytes v = write_string (put_be 4 v)"

definition write_8bytes :: "u64 \<Rightarrow> unit nb" where
  "write_8bytes v = write_string (put_be 8 v)"

definition left_bytes :: "NetBuffer \<Rightarrow> u32" where
  "left_bytes b = of_nat (length (nb_rest b))"

definition pos :: "NetBuffer \<Rightarrow> u32" where
  "pos b = of_nat (length (nb_done b))"

text \<open>
  The idiom \<^verbatim>\<open>auto start = buf.pos(); ...; return buf.pos() - start;\<close>: the difference is taken in
  32 bits and widened.
\<close>
definition measured :: "'a nb \<Rightarrow> ('a \<times> int) nb" where
  "measured p b = bindR (p b) (\<lambda>(x, b'). Inr ((x, uint (pos b' - pos b)), b'))"

section \<open>What a program writes\<close>

text \<open>
  A pattern of bytes: \<open>None\<close> is a byte that is skipped and keeps what the buffer held.
\<close>
type_synonym pattern = "byte option list"

definition fill :: "pattern \<Rightarrow> bytes \<Rightarrow> bytes" where
  "fill pat old = map2 (\<lambda>p b. case p of Some x \<Rightarrow> x | None \<Rightarrow> b) pat old"

definition fits :: "bytes \<Rightarrow> pattern \<Rightarrow> bool" where
  "fits bs pat \<longleftrightarrow> list_all2 (\<lambda>b p. p = None \<or> p = Some b) bs pat"

abbreviation (input) exactly :: "bytes \<Rightarrow> pattern" where "exactly bs \<equiv> map Some bs"
abbreviation (input) gap :: "nat \<Rightarrow> pattern" where "gap n \<equiv> replicate n None"

text \<open>
  The program writes the pattern and returns \<open>x\<close> whenever the bytes ahead are enough, and fails an assertion
  otherwise.
\<close>
definition emits :: "'a nb \<Rightarrow> pattern \<Rightarrow> 'a \<Rightarrow> bool" where
  "emits p pat x \<longleftrightarrow> (\<forall>d r. p \<lparr>nb_done = d, nb_rest = r\<rparr> =
     (if length pat \<le> length r
      then Inr (x, \<lparr>nb_done = d @ fill pat r, nb_rest = drop (length pat) r\<rparr>) else Inl AssertFail))"

text \<open>The program, given the bytes \<open>bs\<close> ahead, consumes exactly these and returns \<open>x\<close>.\<close>
definition reads :: "'a nb \<Rightarrow> bytes \<Rightarrow> 'a \<Rightarrow> bool" where
  "reads p bs x \<longleftrightarrow> (\<forall>d r. p \<lparr>nb_done = d, nb_rest = bs @ r\<rparr> = Inr (x, \<lparr>nb_done = d @ bs, nb_rest = r\<rparr>))"

lemma length_fill [simp]: "length (fill pat old) = min (length pat) (length old)"
  by (simp add: fill_def)

lemma fill_append: "length pat \<le> length r \<Longrightarrow> fill (pat @ pat') r = fill pat r @ fill pat' (drop (length pat) r)"
  by (induction pat arbitrary: r) (auto simp: fill_def Suc_le_length_iff)

lemma fill_exactly: "length bs \<le> length r \<Longrightarrow> fill (exactly bs) r = bs"
  by (induction bs arbitrary: r) (auto simp: fill_def Suc_le_length_iff)

lemma fill_gap: "n \<le> length r \<Longrightarrow> fill (gap n) r = take n r"
  by (induction n arbitrary: r) (auto simp: fill_def Suc_le_length_iff)

lemma fits_fill: "length pat \<le> length r \<Longrightarrow> fits (fill pat r) pat"
  by (induction pat arbitrary: r) (auto simp: fill_def fits_def Suc_le_length_iff split: option.split)

lemma fits_append: "fits bs (pat @ pat') \<longleftrightarrow> (\<exists>b1 b2. bs = b1 @ b2 \<and> fits b1 pat \<and> fits b2 pat')"
  unfolding fits_def list_all2_append2 by (blast dest: list_all2_lengthD)

lemma fits_exactly [simp]: "fits bs (exactly cs) \<longleftrightarrow> bs = cs"
  by (auto simp: fits_def list_all2_conv_all_nth intro: nth_equalityI)

lemma fits_gap [simp]: "fits bs (gap n) \<longleftrightarrow> length bs = n"
  by (auto simp: fits_def list_all2_conv_all_nth)

lemma fits_length: "fits bs pat \<Longrightarrow> length bs = length pat"
  by (simp add: fits_def list_all2_lengthD)

named_theorems emit_rules \<open>what the operations write\<close>
named_theorems read_rules \<open>what the operations read\<close>

lemma emits_return [emit_rules]: "emits (returnN x) [] x"
  by (simp add: emits_def returnN_def fill_def)

lemma emits_bind:
  assumes "emits p pat x" and "emits (f x) pat' y"
  shows "emits (bindN p f) (pat @ pat') y"
  unfolding emits_def
proof (intro allI)
  fix d r
  show "bindN p f \<lparr>nb_done = d, nb_rest = r\<rparr> = (if length (pat @ pat') \<le> length r
      then Inr (y, \<lparr>nb_done = d @ fill (pat @ pat') r, nb_rest = drop (length (pat @ pat')) r\<rparr>) else Inl AssertFail)"
  proof (cases "length pat \<le> length r")
    case True
    then have "p \<lparr>nb_done = d, nb_rest = r\<rparr> = Inr (x, \<lparr>nb_done = d @ fill pat r, nb_rest = drop (length pat) r\<rparr>)"
      using assms(1) by (simp add: emits_def)
    moreover have "length pat' \<le> length (drop (length pat) r) \<longleftrightarrow> length (pat @ pat') \<le> length r"
      using True by auto
    ultimately show ?thesis
      using assms(2) True unfolding emits_def bindN_def by (simp add: fill_append add.commute)
  next
    case False
    then show ?thesis using assms(1) by (simp add: emits_def bindN_def)
  qed
qed

lemma emits_then: "emits p pat x \<Longrightarrow> emits q pat' y \<Longrightarrow> emits (thenN p q) (pat @ pat') y"
  unfolding thenN_def by (rule emits_bind)

lemma emits_bind_return: "emits p pat x \<Longrightarrow> emits (bindN p (\<lambda>x. returnN (g x))) pat (g x)"
  using emits_bind [OF _ emits_return, of p pat x] by simp

lemma emits_advance: "emits (bindN (advance (length v) (\<lambda>_. v)) (\<lambda>_. returnN ())) (exactly v) ()"
  by (simp add: emits_def advance_def bindN_def returnN_def fill_exactly)

lemma emits_write [emit_rules]:
  "emits (write_string v) (exactly v) ()" "emits (write_1bytes b) (exactly (put_be 1 b)) ()"
  "emits (write_2bytes h) (exactly (put_be 2 h)) ()" "emits (write_3bytes w) (exactly (put_be 3 w)) ()"
  "emits (write_4bytes w) (exactly (put_be 4 w)) ()" "emits (write_8bytes q) (exactly (put_be 8 q)) ()"
  unfolding write_1bytes_def write_2bytes_def write_3bytes_def write_4bytes_def write_8bytes_def write_string_def
  by (rule emits_advance)+

lemma emits_skip [emit_rules]: "emits (skip n) (gap n) ()"
  by (simp add: emits_def skip_def advance_def bindN_def returnN_def fill_gap Let_def)

lemma emits_each [emit_rules]:
  "(\<And>x. x \<in> set xs \<Longrightarrow> emits (f x) (g x) ()) \<Longrightarrow> emits (eachN f xs) (concat (map g xs)) ()"
  by (induction xs) (simp_all add: emits_return emits_then)

lemma emits_measured: "emits p pat x \<Longrightarrow> emits (measured p) pat (x, uint (of_nat (length pat) :: u32))"
  by (auto simp: emits_def measured_def pos_def min_def)

section \<open>What a program reads\<close>

lemma reads_return [read_rules]: "reads (returnN x) [] x"
  by (simp add: reads_def returnN_def)

lemma reads_bind:
  assumes "reads p bs x" and "reads (f x) bs' y"
  shows "reads (bindN p f) (bs @ bs') y"
  using assms by (simp add: reads_def bindN_def)

lemma reads_then: "reads p bs x \<Longrightarrow> reads q bs' y \<Longrightarrow> reads (thenN p q) (bs @ bs') y"
  unfolding thenN_def by (rule reads_bind)

lemma reads_bind_return: "reads p bs x \<Longrightarrow> reads (bindN p (\<lambda>x. returnN (g x))) bs (g x)"
  using reads_bind [OF _ reads_return, of p bs x] by simp

lemma reads_advance: "length bs = n \<Longrightarrow> reads (advance n id) bs bs"
  by (simp add: reads_def advance_def)

lemma reads_string [read_rules]: "length bs = n \<Longrightarrow> reads (read_string n) bs bs"
  by (simp add: read_string_def reads_advance)

lemma reads_skip [read_rules]: "length bs = n \<Longrightarrow> reads (skip n) bs ()"
  unfolding skip_def by (rule reads_bind_return [OF reads_advance])

lemma reads_get_be: "length bs = n \<Longrightarrow> get_be bs = x \<Longrightarrow> reads (bindN (advance n id) (\<lambda>bs. returnN (get_be bs))) bs x"
  using reads_bind_return [OF reads_advance] by blast

lemma reads_bytes [read_rules]:
  "reads read_1bytes (put_be 1 b) b" "reads read_4bytes (put_be 4 w) w" "reads read_8bytes (put_be 8 q) q"
  unfolding read_1bytes_def read_4bytes_def read_8bytes_def by (rule reads_get_be, simp, simp)+

lemma reads_3bytes [read_rules]: "unat w < 2 ^ 24 \<Longrightarrow> reads read_3bytes (put_be 3 w) w"
  unfolding read_3bytes_def by (rule reads_get_be) (simp_all add: get_be_def get_be_put_be_trunc)

text \<open>The two-byte read loses the value: its result is always zero.\<close>
lemma htonl_low16:
  assumes "unat w < 2 ^ 16"
  shows "(ucast (htonl w) :: u16) = 0"
proof -
  have "put_be 4 w = [0, 0, of_nat (unat w div 256), of_nat (unat w)]"
    using assms by (simp add: put_be_def nat_be_numeral div_mult2_eq [symmetric])
  then have "htonl w = of_nat (be_nat [of_nat (unat w), of_nat (unat w div 256)] * 2 ^ 16)"
    by (simp add: htonl_def get_be_def be_nat_def)
  then have "unat (ucast (htonl w) :: u16) = 0"
    by (simp add: unsigned_ucast_eq take_bit_eq_mod unat_word_ariths mod_mod_cancel)
  then show ?thesis by (simp only: unat_eq_zero)
qed

lemma reads_2bytes [read_rules]:
  assumes "length bs = 2"
  shows "reads read_2bytes bs 0"
proof -
  have "unat (get_be (rev bs) :: u32) < 2 ^ 16"
    using be_nat_bound [of "rev bs"] assms by (simp add: unat_get_be)
  from reads_bind_return [OF reads_advance [OF assms], of "\<lambda>bs. ucast (htonl (get_be (rev bs))) :: u16"] htonl_low16 [OF this]
  show ?thesis by (simp add: read_2bytes_def)
qed

lemma reads_times:
  "(\<And>x. x \<in> set xs \<Longrightarrow> reads p (g x) (h x)) \<Longrightarrow> reads (timesN (length xs) p) (concat (map g xs)) (map h xs)"
proof (induction xs)
  case (Cons x xs)
  then have "reads (bindN (timesN (length xs) p) (\<lambda>ys. returnN (h x # ys))) (concat (map g xs)) (h x # map h xs)"
    by (intro reads_bind_return) simp
  with Cons.prems show ?case by (auto intro: reads_bind)
qed (simp add: reads_return)

lemma reads_measured: "reads p bs x \<Longrightarrow> reads (measured p) bs (x, uint (of_nat (length bs) :: u32))"
  by (simp add: reads_def measured_def pos_def)

text \<open>On a new cursor.\<close>

lemma emits_new:
  "emits p pat x \<Longrightarrow> length pat \<le> length buf \<Longrightarrow>
     p (NetBuffer_new buf) = Inr (x, \<lparr>nb_done = fill pat buf, nb_rest = drop (length pat) buf\<rparr>)"
  by (simp add: emits_def NetBuffer_new_def)

lemma emits_new_short: "emits p pat x \<Longrightarrow> length buf < length pat \<Longrightarrow> p (NetBuffer_new buf) = Inl AssertFail"
  by (simp add: emits_def NetBuffer_new_def)

lemma reads_new: "reads p bs x \<Longrightarrow> p (NetBuffer_new (bs @ r)) = Inr (x, \<lparr>nb_done = bs, nb_rest = r\<rparr>)"
  by (simp add: reads_def NetBuffer_new_def)

section \<open>Properties\<close>

text \<open>
  What is written with the cursor is read back by the read of the same width at the same place, for one, three,
  four and eight bytes and for strings, and exactly the written bytes are consumed.
\<close>
theorem net_buffer_write_read:
  assumes "unat w3 < 2 ^ 24" and "16 + length s \<le> length buf"
  shows "\<exists>b. thenN (write_1bytes v1) (thenN (write_3bytes w3) (thenN (write_4bytes w4) (thenN (write_8bytes w8) (write_string s))))
      (NetBuffer_new buf) = Inr ((), b) \<and> length (nb_done b) = 16 + length s \<and> nb_rest b = drop (16 + length s) buf \<and>
    bindN read_1bytes (\<lambda>r1. bindN read_3bytes (\<lambda>r3. bindN read_4bytes (\<lambda>r4. bindN read_8bytes (\<lambda>r8.
        bindN (read_string (length s)) (\<lambda>rs. returnN (r1, r3, r4, r8, rs)))))) (NetBuffer_new (nb_done b)) =
      Inr ((v1, w3, w4, w8, s), \<lparr>nb_done = nb_done b, nb_rest = []\<rparr>)"
proof -
  let ?bs = "put_be 1 v1 @ put_be 3 w3 @ put_be 4 w4 @ put_be 8 w8 @ s"
  let ?w = "thenN (write_1bytes v1) (thenN (write_3bytes w3) (thenN (write_4bytes w4) (thenN (write_8bytes w8) (write_string s))))"
  have "emits ?w (exactly ?bs) ()"
    unfolding map_append by (rule emits_then emits_write)+
  from emits_new [OF this, of buf] have w: "?w (NetBuffer_new buf) = Inr ((), \<lparr>nb_done = ?bs, nb_rest = drop (16 + length s) buf\<rparr>)"
    using assms(2) by (simp add: fill_exactly del: map_append)
  have "reads (bindN read_1bytes (\<lambda>r1. bindN read_3bytes (\<lambda>r3. bindN read_4bytes (\<lambda>r4. bindN read_8bytes (\<lambda>r8.
        bindN (read_string (length s)) (\<lambda>rs. returnN (r1, r3, r4, r8, rs))))))) ?bs (v1, w3, w4, w8, s)"
    by (rule reads_bind reads_bytes reads_3bytes [OF assms(1)] reads_string reads_bind_return refl)+
  from reads_new [OF this, of "[]"] w show ?thesis by simp
qed

theorem net_buffer_write_read_witness:
  "\<exists>b. thenN (write_1bytes 1) (thenN (write_3bytes 0x20304) (thenN (write_4bytes 5) (thenN (write_8bytes 6) (write_string [7, 8]))))
      (NetBuffer_new (replicate 20 0)) = Inr ((), b) \<and>
    bindN read_1bytes (\<lambda>r1. bindN read_3bytes (\<lambda>r3. bindN read_4bytes (\<lambda>r4. bindN read_8bytes (\<lambda>r8.
        bindN (read_string (length [7, 8 :: byte])) (\<lambda>rs. returnN (r1, r3, r4, r8, rs)))))) (NetBuffer_new (nb_done b)) =
      Inr ((1, 0x20304, 5, 6, [7, 8]), \<lparr>nb_done = nb_done b, nb_rest = []\<rparr>)"
  using net_buffer_write_read [of "0x20304" "[7, 8]" "replicate 20 0" 1 5 6] by simp blast

text \<open>
  Reading two bytes yields zero whatever the bytes are: the conversion is the one for four bytes and its
  low half is always empty.
\<close>
theorem read_2bytes_always_zero:
  assumes "2 \<le> length (nb_rest b)"
  shows "\<exists>b'. read_2bytes b = Inr (0, b') \<and> nb_rest b' = drop 2 (nb_rest b)"
proof -
  obtain d r where b: "b = \<lparr>nb_done = d, nb_rest = r\<rparr>" by (cases b)
  have "reads read_2bytes (take 2 r) 0" using assms b by (intro reads_2bytes) simp
  then have "read_2bytes \<lparr>nb_done = d, nb_rest = take 2 r @ drop 2 r\<rparr> = Inr (0, \<lparr>nb_done = d @ take 2 r, nb_rest = drop 2 r\<rparr>)"
    unfolding reads_def by blast
  with b show ?thesis by simp
qed

theorem read_2bytes_always_zero_witness: "\<exists>b'. read_2bytes (NetBuffer_new [0x55, 0xc4]) = Inr (0, b') \<and> nb_rest b' = []"
  using read_2bytes_always_zero [of "NetBuffer_new [0x55, 0xc4]"] by (simp add: NetBuffer_new_def)

end
