(* ===== verification/Mp4Box.thy ===== *)
theory Mp4Box
  imports NetBuffer
begin

text \<open>
  The base classes of the MP4 boxes (\<^verbatim>\<open>libs/protocol/mp4/box.cpp\<close>, \<^verbatim>\<open>full_box.cpp\<close>) and the contract every box
  class is to keep: its \<^verbatim>\<open>size()\<close> is what its \<^verbatim>\<open>encode\<close> writes, and its \<^verbatim>\<open>decode\<close> reads that back. An object's
  uninitialised members are arbitrary. A method that is overridden is an argument (the virtual \<^verbatim>\<open>size\<close> of
  \<^verbatim>\<open>update_size\<close>).
\<close>

section \<open>Boxes\<close>

definition box_type :: "string \<Rightarrow> u32" where
  "box_type s = get_be (map of_char s)"

abbreviation (input) BOX_TYPE_UUID :: u32 where "BOX_TYPE_UUID \<equiv> 0x75756964"

record Box =
  b_size :: u64
  b_type :: u32
  b_large_size :: u64
  b_user_type :: bytes

definition Box_size :: "'a Box_scheme \<Rightarrow> int" where
  "Box_size v = 8 + (if b_size v = 1 then 8 else 0) + (if b_type v = BOX_TYPE_UUID then 16 else 0)"

definition decoded_size :: "'a Box_scheme \<Rightarrow> int" where
  "decoded_size v = (if b_size v = 1 then sint (b_large_size v) else sint (b_size v))"

definition update_size :: "('a Box_scheme \<Rightarrow> int) \<Rightarrow> 'a Box_scheme \<Rightarrow> 'a Box_scheme" where
  "update_size virtual_size v =
     (let s = of_int (virtual_size v) in
      if s \<ge> 0xffffffff then v\<lparr>b_size := 1, b_large_size := s\<rparr> else v\<lparr>b_size := s\<rparr>)"

definition Box_encode :: "'a Box_scheme \<Rightarrow> (unit \<times> int) nb" where
  "Box_encode v = measured
     (thenN (write_4bytes (ucast (b_size v))) (thenN (write_4bytes (b_type v))
       (thenN (if b_size v = 1 then write_8bytes (b_large_size v) else returnN ())
         (if b_type v = BOX_TYPE_UUID then write_string (b_user_type v) else returnN ()))))"

definition Box_decode :: "'a Box_scheme \<Rightarrow> ('a Box_scheme \<times> int) nb" where
  "Box_decode v = measured
     (bindN read_4bytes (\<lambda>s. bindN read_4bytes (\<lambda>t.
      let v1 = v\<lparr>b_size := ucast s, b_type := t\<rparr> in
      bindN (if b_size v1 = 1 then bindN read_8bytes (\<lambda>l. returnN (v1\<lparr>b_large_size := l\<rparr>)) else returnN v1) (\<lambda>v2.
      if t = BOX_TYPE_UUID then bindN (read_string 16) (\<lambda>u. returnN (v2\<lparr>b_user_type := u\<rparr>)) else returnN v2))))"

record FullBox = Box +
  version :: byte
  flags :: u32

definition FullBox_size :: "'a FullBox_scheme \<Rightarrow> int" where
  "FullBox_size v = Box_size v + 4"

definition FullBox_encode :: "'a FullBox_scheme \<Rightarrow> (unit \<times> int) nb" where
  "FullBox_encode v = measured (thenN (Box_encode v) (thenN (write_1bytes (version v)) (write_3bytes (flags v))))"

definition FullBox_decode :: "'a FullBox_scheme \<Rightarrow> ('a FullBox_scheme \<times> int) nb" where
  "FullBox_decode v = measured
     (bindN (Box_decode v) (\<lambda>(v1, _). bindN read_1bytes (\<lambda>ver. bindN read_3bytes (\<lambda>fl.
       returnN (v1\<lparr>version := ver, flags := fl\<rparr>)))))"

section \<open>Headers\<close>

text \<open>The boxes of the development: not of the UUID type, smaller than 4 GiB, no left-over large size.\<close>
definition plain :: "int \<Rightarrow> 'a Box_scheme \<Rightarrow> bool" where
  "plain n v \<longleftrightarrow> b_size v \<noteq> 1 \<and> b_type v \<noteq> BOX_TYPE_UUID \<and> n < 0xffffffff"

definition box_head :: "int \<Rightarrow> u32 \<Rightarrow> bytes" where
  "box_head n t = put_be 4 (of_int n :: u32) @ put_be 4 t"

definition full_head :: "int \<Rightarrow> u32 \<Rightarrow> byte \<Rightarrow> u32 \<Rightarrow> bytes" where
  "full_head n t ver fl = box_head n t @ put_be 1 ver @ put_be 3 fl"

lemma length_head [simp]: "length (box_head n t) = 8" "length (full_head n t ver fl) = 12"
  by (simp_all add: box_head_def full_head_def)

lemma plain_size [simp]: "plain n v \<Longrightarrow> Box_size v = 8"
  by (simp add: plain_def Box_size_def)

lemma of_int_small:
  assumes "0 \<le> n" and "n < 0xffffffff"
  shows "uint (of_int n :: u64) = n" and "uint (of_int n :: u32) = n" and "(ucast (of_int n :: u32) :: u64) = of_int n"
    and "(ucast (of_int n :: u64) :: u32) = of_int n" and "sint (of_int n :: u64) = n"
proof -
  show a: "uint (of_int n :: u64) = n" and b: "uint (of_int n :: u32) = n"
    using assms by (simp_all add: unsigned_of_int take_bit_eq_mod)
  show "(ucast (of_int n :: u32) :: u64) = of_int n" by (simp only: ucast_eq b)
  show "(ucast (of_int n :: u64) :: u32) = of_int n" by (simp only: ucast_eq a)
  show "sint (of_int n :: u64) = n" using assms by (simp add: signed_of_int signed_take_bit_int_eq_self)
qed

lemma update_size_small:
  assumes "plain (sz v) v" and "2 \<le> sz v"
  shows "update_size sz v = v\<lparr>b_size := of_int (sz v)\<rparr>" and "(of_int (sz v) :: u64) \<noteq> 1"
proof -
  have *: "uint (of_int (sz v) :: u64) = sz v" using assms by (intro of_int_small) (simp_all add: plain_def)
  then have "\<not> (0xffffffff :: u64) \<le> of_int (sz v)" using assms by (simp add: word_le_def plain_def)
  then show "update_size sz v = v\<lparr>b_size := of_int (sz v)\<rparr>" by (simp add: update_size_def Let_def)
  show "(of_int (sz v) :: u64) \<noteq> 1" using * assms(2) by auto
qed

text \<open>What the header operations write and read.\<close>

lemma emits_Box_encode:
  assumes "b_size v = of_int n" and "b_size v \<noteq> 1" and "b_type v \<noteq> BOX_TYPE_UUID" and "0 \<le> n" and "n < 0xffffffff"
  shows "emits (Box_encode v) (exactly (box_head n (b_type v))) ((), 8)"
proof -
  have "emits (thenN (write_4bytes (ucast (b_size v))) (thenN (write_4bytes (b_type v)) (thenN (returnN ()) (returnN ()))))
      (exactly (put_be 4 (of_int n :: u32)) @ exactly (put_be 4 (b_type v)) @ [] @ []) ()"
    unfolding assms(1) of_int_small(4) [OF assms(4,5)] by (rule emits_then emits_write emits_return)+
  from emits_measured [OF this] show ?thesis using assms(2,3) by (simp add: Box_encode_def box_head_def)
qed

lemma emits_FullBox_encode:
  assumes "b_size v = of_int n" and "b_size v \<noteq> 1" and "b_type v \<noteq> BOX_TYPE_UUID" and "0 \<le> n" and "n < 0xffffffff"
  shows "emits (FullBox_encode v) (exactly (full_head n (b_type v) (version v) (flags v))) ((), 12)"
proof -
  have "emits (thenN (Box_encode v) (thenN (write_1bytes (version v)) (write_3bytes (flags v))))
      (exactly (box_head n (b_type v)) @ exactly (put_be 1 (version v)) @ exactly (put_be 3 (flags v))) ()"
    by (rule emits_then emits_write emits_Box_encode [OF assms])+
  from emits_measured [OF this] show ?thesis by (simp add: FullBox_encode_def full_head_def)
qed

lemma reads_Box_decode:
  assumes "2 \<le> n" and "n < 0xffffffff" and "t \<noteq> BOX_TYPE_UUID"
  shows "reads (Box_decode v) (box_head n t) (v\<lparr>b_size := of_int n, b_type := t\<rparr>, 8)"
proof -
  have n: "(ucast (of_int n :: u32) :: u64) = of_int n" "(of_int n :: u64) \<noteq> 1"
    using of_int_small [of n] assms by auto
  have "reads (bindN read_4bytes (\<lambda>s. bindN read_4bytes (\<lambda>t. let v1 = v\<lparr>b_size := ucast s, b_type := t\<rparr> in
      bindN (if b_size v1 = 1 then bindN read_8bytes (\<lambda>l. returnN (v1\<lparr>b_large_size := l\<rparr>)) else returnN v1) (\<lambda>v2.
      if t = BOX_TYPE_UUID then bindN (read_string 16) (\<lambda>u. returnN (v2\<lparr>b_user_type := u\<rparr>)) else returnN v2))))
      (put_be 4 (of_int n :: u32) @ put_be 4 t @ [] @ []) (v\<lparr>b_size := of_int n, b_type := t\<rparr>)"
    by (rule reads_bind [OF reads_bytes(2)] reads_bind [OF reads_bytes(2)])+
      (use n assms(3) in \<open>simp add: Let_def bindN_def returnN_def reads_def\<close>)
  from reads_measured [OF this] show ?thesis by (simp add: Box_decode_def box_head_def)
qed

lemma reads_FullBox_decode:
  assumes "2 \<le> n" and "n < 0xffffffff" and "t \<noteq> BOX_TYPE_UUID" and "unat fl < 2 ^ 24"
  shows "reads (FullBox_decode v) (full_head n t ver fl) (v\<lparr>b_size := of_int n, b_type := t, version := ver, flags := fl\<rparr>, 12)"
proof -
  have "reads (bindN (Box_decode v) (\<lambda>(v1, _). bindN read_1bytes (\<lambda>ver. bindN read_3bytes (\<lambda>fl.
       returnN (v1\<lparr>version := ver, flags := fl\<rparr>))))) (box_head n t @ put_be 1 ver @ put_be 3 fl)
       (v\<lparr>b_size := of_int n, b_type := t, version := ver, flags := fl\<rparr>)"
    by (rule reads_bind [OF reads_Box_decode [OF assms(1-3)]], unfold prod.case)
       (rule reads_bind [OF reads_bytes(1)], rule reads_bind_return [OF reads_3bytes [OF assms(4)]])
  from reads_measured [OF this] show ?thesis by (simp add: FullBox_decode_def full_head_def)
qed

section \<open>The contract of a box class\<close>

text \<open>
  The callers allocate \<^verbatim>\<open>size()\<close> bytes and encode into them. \<open>upd\<close> is what encoding does to the object (it stores the sizes).
\<close>
locale mp4_writer =
  fixes wf :: "'v \<Rightarrow> bool"
    and sz :: "'v \<Rightarrow> int"
    and encode :: "'v \<Rightarrow> ('v \<times> int) nb"
    and layout :: "'v \<Rightarrow> pattern"
    and upd :: "'v \<Rightarrow> 'v"
  assumes size_layout: "wf v \<Longrightarrow> sz v = int (length (layout v))"
    and encode_layout: "wf v \<Longrightarrow> emits (encode v) (layout v) (upd v, sz v)"
begin

lemma encode_fits:
  assumes "wf v" and "sz v \<le> int (length buf)"
  shows "encode v (NetBuffer_new buf) =
    Inr ((upd v, sz v), \<lparr>nb_done = fill (layout v) buf, nb_rest = drop (nat (sz v)) buf\<rparr>)"
  using emits_new [OF encode_layout [OF assms(1)], of buf] assms by (simp add: size_layout)

lemma encode_short: "wf v \<Longrightarrow> int (length buf) < sz v \<Longrightarrow> encode v (NetBuffer_new buf) = Inl AssertFail"
  using emits_new_short [OF encode_layout] by (simp add: size_layout)

end

text \<open>
  A class that also reads: into a new object \<open>v0\<close>, from any bytes of the layout of \<open>v\<close>, \<open>seen v0 v\<close>.
\<close>
locale mp4_box = mp4_writer +
  fixes decode :: "'v \<Rightarrow> ('v \<times> int) nb"
    and fresh :: "'v \<Rightarrow> bool"
    and seen :: "'v \<Rightarrow> 'v \<Rightarrow> 'v"
  assumes decode_layout: "wf v \<Longrightarrow> fresh v0 \<Longrightarrow> fits bs (layout v) \<Longrightarrow> reads (decode v0) bs (seen v0 v, sz v)"
begin

lemma roundtrip:
  assumes "wf v" and "fresh v0" and "sz v \<le> int (length buf)"
  shows "\<exists>out. encode v (NetBuffer_new buf) = Inr ((upd v, sz v), \<lparr>nb_done = out, nb_rest = drop (nat (sz v)) buf\<rparr>) \<and>
    decode v0 (NetBuffer_new (out @ rest)) = Inr ((seen v0 v, sz v), \<lparr>nb_done = out, nb_rest = rest\<rparr>)"
  using encode_fits [OF assms(1,3)] reads_new [OF decode_layout [OF assms(1,2) fits_fill]] assms(3) size_layout [OF assms(1)]
  by simp

end

text \<open>
  The two members of the base class that are not part of a plain box keep the values of the new object.
\<close>
definition rebase :: "'a Box_scheme \<Rightarrow> 'a Box_scheme \<Rightarrow> 'a Box_scheme" where
  "rebase v0 v = v\<lparr>b_large_size := b_large_size v0, b_user_type := b_user_type v0\<rparr>"

definition sized :: "('a Box_scheme \<Rightarrow> int) \<Rightarrow> 'a Box_scheme \<Rightarrow> 'a Box_scheme" where
  "sized sz v = v\<lparr>b_size := of_int (sz v)\<rparr>"

section \<open>Classes with a version and flags\<close>

abbreviation (input) full_layout :: "('a FullBox_scheme \<Rightarrow> int) \<Rightarrow> ('a FullBox_scheme \<Rightarrow> pattern) \<Rightarrow> 'a FullBox_scheme \<Rightarrow> pattern" where
  "full_layout sz body v \<equiv> exactly (full_head (sz v) (b_type v) (version v) (flags v)) @ body v"

text \<open>The object after its header was read.\<close>
definition headed :: "('a FullBox_scheme \<Rightarrow> int) \<Rightarrow> 'a FullBox_scheme \<Rightarrow> 'a FullBox_scheme \<Rightarrow> 'a FullBox_scheme" where
  "headed sz v0 v = v0\<lparr>b_size := of_int (sz v), b_type := b_type v, version := version v, flags := flags v\<rparr>"

lemma headed_version: "version (headed sz v0 v) = version v" "flags (headed sz v0 v) = flags v"
  by (simp_all add: headed_def)

lemma uint_len32: "n = int (length xs) \<Longrightarrow> n < 0xffffffff \<Longrightarrow> uint (of_nat (length xs) :: u32) = n"
  using of_int_small(2) [of n] by simp

lemma sized_simps [simp]:
  "b_type (sized sz v) = b_type v" "b_size (sized sz v) = of_int (sz v)"
  by (simp_all add: sized_def)

lemma sized_full_simps [simp]:
  "version (sized sz v) = version v" "flags (sized sz v) = flags v"
  by (simp_all add: sized_def)

lemma full_writer:
  assumes plain: "\<And>v. ok v \<Longrightarrow> plain (sz v) v" and size: "\<And>v. ok v \<Longrightarrow> sz v = 12 + int (length (body v))"
    and enc: "\<And>v. ok v \<Longrightarrow> encode v = measured (thenN (FullBox_encode (update_size sz v)) (prog (update_size sz v)))"
    and prog: "\<And>v. ok v \<Longrightarrow> emits (prog (sized sz v)) (body v) (upd v)"
  shows "mp4_writer ok sz encode (full_layout sz body) upd"
proof
  fix v assume ok: "ok v"
  let ?v = "sized sz v"
  have n: "2 \<le> sz v" "sz v < 0xffffffff" using size [OF ok] plain [OF ok] by (simp_all add: plain_def)
  have u: "update_size sz v = ?v" "(of_int (sz v) :: u64) \<noteq> 1"
    using update_size_small [of sz v] plain [OF ok] n by (simp_all add: sized_def)
  show sz: "sz v = int (length (full_layout sz body v))" using size [OF ok] by simp
  have "emits (FullBox_encode ?v) (exactly (full_head (sz v) (b_type v) (version v) (flags v))) ((), 12)"
    using emits_FullBox_encode [of ?v "sz v"] u(2) n plain [OF ok] by (simp add: plain_def)
  from emits_measured [OF emits_then [OF this prog [OF ok]]]
  show "emits (encode v) (full_layout sz body v) (upd v, sz v)"
    using uint_len32 [OF sz n(2)] by (simp add: enc [OF ok] u(1))
qed

lemma full_box:
  assumes writer: "mp4_writer ok sz encode (full_layout sz body) (sized sz)" and plain: "\<And>v. ok v \<Longrightarrow> plain (sz v) v"
    and flags: "\<And>v. ok v \<Longrightarrow> unat (flags v) < 2 ^ 24"
    and dec: "\<And>v0. decode v0 = measured (bindN (FullBox_decode v0) (\<lambda>(v, n). prog v n))"
    and prog: "\<And>v v0 bs. ok v \<Longrightarrow> fresh v0 \<Longrightarrow> fits bs (body v) \<Longrightarrow> reads (prog (headed sz v0 v) 12) bs (seen v0 v)"
  shows "mp4_box ok sz encode (full_layout sz body) (sized sz) decode fresh seen"
proof -
  note size_layout = mp4_writer.size_layout [OF writer]
  show ?thesis
  proof (rule mp4_box.intro [OF writer], rule mp4_box_axioms.intro)
    fix v v0 bs assume ok: "ok v" and fresh: "fresh v0" and "fits bs (full_layout sz body v)"
    then obtain bs' where bs: "bs = full_head (sz v) (b_type v) (version v) (flags v) @ bs'" "fits bs' (body v)"
      unfolding fits_append by auto
    have sz: "sz v = int (length bs)" using size_layout [OF ok] bs fits_length [OF bs(2)] by simp
    have "2 \<le> sz v" "sz v < 0xffffffff" "b_type v \<noteq> BOX_TYPE_UUID"
      using sz bs(1) plain [OF ok] by (simp_all add: plain_def)
    from reads_FullBox_decode [OF this flags [OF ok]] prog [OF ok fresh bs(2)]
    have "reads (bindN (FullBox_decode v0) (\<lambda>(v, n). prog v n)) bs (seen v0 v)"
      unfolding bs(1) by (intro reads_bind) (auto simp: headed_def)
    from reads_measured [OF this] show "reads (decode v0) bs (seen v0 v, sz v)"
      using uint_len32 [OF sz] plain [OF ok] by (simp add: dec plain_def)
  qed
qed

section \<open>Classes without them\<close>

abbreviation (input) box_layout :: "('a Box_scheme \<Rightarrow> int) \<Rightarrow> ('a Box_scheme \<Rightarrow> pattern) \<Rightarrow> 'a Box_scheme \<Rightarrow> pattern" where
  "box_layout sz body v \<equiv> exactly (box_head (sz v) (b_type v)) @ body v"

definition titled :: "('a Box_scheme \<Rightarrow> int) \<Rightarrow> 'a Box_scheme \<Rightarrow> 'a Box_scheme \<Rightarrow> 'a Box_scheme" where
  "titled sz v0 v = v0\<lparr>b_size := of_int (sz v), b_type := b_type v\<rparr>"

lemma box_writer:
  assumes plain: "\<And>v. ok v \<Longrightarrow> plain (sz v) v" and size: "\<And>v. ok v \<Longrightarrow> sz v = 8 + int (length (body v))"
    and enc: "\<And>v. ok v \<Longrightarrow> encode v = measured (thenN (Box_encode (update_size sz v)) (prog (update_size sz v)))"
    and prog: "\<And>v. ok v \<Longrightarrow> emits (prog (sized sz v)) (body v) (upd v)"
  shows "mp4_writer ok sz encode (box_layout sz body) upd"
proof
  fix v assume ok: "ok v"
  let ?v = "sized sz v"
  have n: "2 \<le> sz v" "sz v < 0xffffffff" using size [OF ok] plain [OF ok] by (simp_all add: plain_def)
  have u: "update_size sz v = ?v" "(of_int (sz v) :: u64) \<noteq> 1"
    using update_size_small [of sz v] plain [OF ok] n by (simp_all add: sized_def)
  show sz: "sz v = int (length (box_layout sz body v))" using size [OF ok] by simp
  have "emits (Box_encode ?v) (exactly (box_head (sz v) (b_type v))) ((), 8)"
    using emits_Box_encode [of ?v "sz v"] u(2) n plain [OF ok] by (simp add: plain_def)
  from emits_measured [OF emits_then [OF this prog [OF ok]]]
  show "emits (encode v) (box_layout sz body v) (upd v, sz v)"
    using uint_len32 [OF sz n(2)] by (simp add: enc [OF ok] u(1))
qed

lemma box_box:
  assumes writer: "mp4_writer ok sz encode (box_layout sz body) (sized sz)" and plain: "\<And>v. ok v \<Longrightarrow> plain (sz v) v"
    and dec: "\<And>v0. decode v0 = measured (bindN (Box_decode v0) (\<lambda>(v, n). prog v n))"
    and prog: "\<And>v v0 bs. ok v \<Longrightarrow> fresh v0 \<Longrightarrow> fits bs (body v) \<Longrightarrow> reads (prog (titled sz v0 v) 8) bs (seen v0 v)"
  shows "mp4_box ok sz encode (box_layout sz body) (sized sz) decode fresh seen"
proof (rule mp4_box.intro [OF writer], rule mp4_box_axioms.intro)
  fix v v0 bs assume ok: "ok v" and fresh: "fresh v0" and "fits bs (box_layout sz body v)"
  then obtain bs' where bs: "bs = box_head (sz v) (b_type v) @ bs'" "fits bs' (body v)"
    unfolding fits_append by auto
  have sz: "sz v = int (length bs)" using mp4_writer.size_layout [OF writer ok] bs fits_length [OF bs(2)] by simp
  have "2 \<le> sz v" "sz v < 0xffffffff" "b_type v \<noteq> BOX_TYPE_UUID"
    using sz bs(1) plain [OF ok] by (simp_all add: plain_def)
  from reads_Box_decode [OF this] prog [OF ok fresh bs(2)]
  have "reads (bindN (Box_decode v0) (\<lambda>(v, n). prog v n)) bs (seen v0 v)"
    unfolding bs(1) by (intro reads_bind) (auto simp: titled_def)
  from reads_measured [OF this] show "reads (decode v0) bs (seen v0 v, sz v)"
    using uint_len32 [OF sz] plain [OF ok] by (simp add: dec plain_def)
qed

section \<open>Parts of a body\<close>

lemma emits_if [emit_rules]:
  "(c \<Longrightarrow> emits p a ()) \<Longrightarrow> (\<not> c \<Longrightarrow> emits q b ()) \<Longrightarrow> emits (if c then p else q) (if c then a else b) ()"
  by simp

lemma emits_cong: "emits p pat x \<Longrightarrow> pat = pat' \<Longrightarrow> emits p pat' x"
  by simp

lemma reads_if:
  "(c \<Longrightarrow> reads p a x) \<Longrightarrow> (\<not> c \<Longrightarrow> reads q b y) \<Longrightarrow> reads (if c then p else q) (if c then a else b) (if c then x else y)"
  by simp

lemma length_concat_const: "(\<And>x. x \<in> set xs \<Longrightarrow> length (f x) = k) \<Longrightarrow> length (concat (map f xs)) = k * length xs"
  by (induction xs) simp_all

lemma exactly_concat: "concat (map (\<lambda>x. exactly (g x)) xs) = exactly (concat (map g xs))"
  by (induction xs) simp_all

lemma unat_count: "n < 2 ^ 32 \<Longrightarrow> unat (of_nat n :: u32) = n"
  by (simp add: unat_of_nat)

lemma sint_count: "n < 2 ^ 31 \<Longrightarrow> sint (of_nat n :: u32) = int n"
  by (simp add: signed_of_nat signed_take_bit_int_eq_self)

lemma fits_Nil [simp]: "fits bs [] \<longleftrightarrow> bs = []"
  by (simp add: fits_def)

lemma fits_partE:
  "fits bs (exactly a @ p) \<Longrightarrow> (\<And>c. bs = a @ c \<Longrightarrow> fits c p \<Longrightarrow> P) \<Longrightarrow> P"
  "fits bs (gap n @ p) \<Longrightarrow> (\<And>b c. bs = b @ c \<Longrightarrow> length b = n \<Longrightarrow> fits c p \<Longrightarrow> P) \<Longrightarrow> P"
  by (auto simp: fits_append)

lemma reads_cong: "reads p bs x \<Longrightarrow> x = y \<Longrightarrow> reads p bs y"
  by simp

lemma emits_object: "emits p pat () \<Longrightarrow> emits (thenN p (returnN v)) pat v"
  using emits_then [OF _ emits_return, of p pat "()"] by simp

section \<open>Introduction rules\<close>

definition full_ok :: "('a FullBox_scheme \<Rightarrow> int) \<Rightarrow> 'a FullBox_scheme \<Rightarrow> bool" where
  "full_ok sz v \<longleftrightarrow> plain (sz v) v \<and> unat (flags v) < 2 ^ 24"

text \<open>The object read back: the one that was encoded.\<close>
abbreviation (input) same :: "('a Box_scheme \<Rightarrow> int) \<Rightarrow> 'a Box_scheme \<Rightarrow> 'a Box_scheme \<Rightarrow> 'a Box_scheme" where
  "same sz v0 v \<equiv> rebase v0 (sized sz v)"

lemmas box_state = headed_def titled_def rebase_def sized_def

lemma full_boxI:
  assumes emits: "\<And>v. emits (wprog v) (body v) v"
    and size: "\<And>v. FullBox_size v = 12 \<Longrightarrow> full_ok sz v \<Longrightarrow> good v \<Longrightarrow> sz v = 12 + int (length (body v))"
    and body: "\<And>v. body (sized sz v) = body v"
    and enc: "\<And>v. encode v = (let v = update_size sz v in measured (thenN (FullBox_encode v) (wprog v)))"
    and dec: "\<And>v. decode v = measured (bindN (FullBox_decode v) (\<lambda>(v, n). rprog v n))"
    and reads: "\<And>v v0 bs. full_ok sz v \<Longrightarrow> good v \<Longrightarrow> fresh v0 \<Longrightarrow> fits bs (body v) \<Longrightarrow>
      reads (rprog (headed sz v0 v) 12) bs (seen v0 v)"
  shows "mp4_box (\<lambda>v. full_ok sz v \<and> good v) sz encode (full_layout sz body) (sized sz) decode fresh seen"
proof -
  have "mp4_writer (\<lambda>v. full_ok sz v \<and> good v) sz encode (full_layout sz body) (sized sz)"
  proof (rule full_writer [where prog = wprog])
    fix v assume ok: "full_ok sz v \<and> good v"
    then show plain: "plain (sz v) v" by (simp add: full_ok_def)
    then have "FullBox_size v = 12" by (simp add: FullBox_size_def)
    with ok show "sz v = 12 + int (length (body v))" by (intro size) simp_all
    show "encode v = measured (thenN (FullBox_encode (update_size sz v)) (wprog (update_size sz v)))" by (simp add: enc Let_def)
    show "emits (wprog (sized sz v)) (body v) (sized sz v)" using emits [of "sized sz v"] by (simp add: body)
  qed
  then show ?thesis by (rule full_box [OF _ _ _ dec]) (simp add: full_ok_def, simp add: full_ok_def, use reads in blast)
qed

lemma box_boxI:
  assumes emits: "\<And>v. emits (wprog v) (body v) v"
    and size: "\<And>v. Box_size v = 8 \<Longrightarrow> sz v = 8 + int (length (body v))"
    and body: "\<And>v. body (sized sz v) = body v"
    and enc: "\<And>v. encode v = (let v = update_size sz v in measured (thenN (Box_encode v) (wprog v)))"
    and dec: "\<And>v. decode v = measured (bindN (Box_decode v) (\<lambda>(v, n). rprog v n))"
    and reads: "\<And>v v0 bs. plain (sz v) v \<Longrightarrow> fresh v0 \<Longrightarrow> fits bs (body v) \<Longrightarrow> reads (rprog (titled sz v0 v) 8) bs (seen v0 v)"
  shows "mp4_box (\<lambda>v. plain (sz v) v) sz encode (box_layout sz body) (sized sz) decode fresh seen"
proof -
  have "mp4_writer (\<lambda>v. plain (sz v) v) sz encode (box_layout sz body) (sized sz)"
  proof (rule box_writer [where prog = wprog])
    fix v assume "plain (sz v) v"
    then have "Box_size v = 8" by simp
    then show "sz v = 8 + int (length (body v))" by (rule size)
    show "encode v = measured (thenN (Box_encode (update_size sz v)) (wprog (update_size sz v)))" by (simp add: enc Let_def)
    show "emits (wprog (sized sz v)) (body v) (sized sz v)" using emits [of "sized sz v"] by (simp add: body)
  qed
  then show ?thesis by (rule box_box [OF _ _ dec]) (assumption, use reads in blast)
qed

text \<open>
  A time field: eight bytes in the boxes of a later version (\<open>wide\<close>), the low four bytes otherwise.
\<close>
definition write_time :: "bool \<Rightarrow> u64 \<Rightarrow> unit nb" where
  "write_time wide t = (if wide then write_8bytes t else write_4bytes (ucast t))"

definition read_time :: "bool \<Rightarrow> u64 nb" where
  "read_time wide = (if wide then read_8bytes else bindN read_4bytes (\<lambda>t. returnN (ucast t)))"

definition time_bytes :: "bool \<Rightarrow> u64 \<Rightarrow> bytes" where
  "time_bytes wide t = (if wide then put_be 8 t else put_be 4 (ucast t :: u32))"

lemma length_time_bytes [simp]: "length (time_bytes wide t) = (if wide then 8 else 4)"
  by (simp add: time_bytes_def)

lemma emits_time: "emits (write_time wide t) (exactly (time_bytes wide t)) ()"
  by (simp add: write_time_def time_bytes_def emits_write)

lemma narrow_wide: "unat (w :: u64) < 2 ^ 32 \<Longrightarrow> (ucast (ucast w :: u32) :: u64) = w"
  by (simp add: word_unat_eq_iff unsigned_ucast_eq unsigned_take_bit_eq take_bit_nat_eq_self)

lemma reads_time: "(wide \<or> unat t < 2 ^ 32) \<Longrightarrow> reads (read_time wide) (time_bytes wide t) t"
  using reads_bytes(3) [of t] reads_bind_return [OF reads_bytes(2), of "ucast :: u32 \<Rightarrow> u64" "ucast t"]
  by (auto simp: read_time_def time_bytes_def narrow_wide)

text \<open>A part that is present only under a condition on the flags.\<close>

lemma emits_opt: "emits p (exactly a) () \<Longrightarrow> emits (if c then p else returnN ()) (exactly (if c then a else [])) ()"
  by (simp add: emits_return)

lemma reads_opt: "reads r bs x \<Longrightarrow> reads (if c then r else returnN y) (if c then bs else []) (if c then x else y)"
  by (simp add: reads_return)

lemma reads_value: "reads p bs (x, n) \<Longrightarrow> reads (bindN p (\<lambda>(x, _). returnN x)) bs x"
  by (simp add: reads_def bindN_def returnN_def)

lemma emits_ignored: "emits p pat x \<Longrightarrow> emits (thenN p (returnN ())) pat ()"
  using emits_then [OF _ emits_return, of p pat x "()"] by simp

text \<open>A table: its entries one after the other.\<close>

lemma emits_table:
  "(\<And>x. x \<in> set xs \<Longrightarrow> emits (f x) (exactly (g x)) ()) \<Longrightarrow> emits (eachN f xs) (exactly (concat (map g xs))) ()"
  using emits_each [of xs f "\<lambda>x. exactly (g x)"] by (simp add: exactly_concat)

lemma reads_table:
  "n = length xs \<Longrightarrow> (\<And>x. x \<in> set xs \<Longrightarrow> reads p (g x) (h x)) \<Longrightarrow> reads (timesN n p) (concat (map g xs)) (map h xs)"
  by (simp add: reads_times)

lemmas field_reads = reads_bind reads_bytes reads_return
lemmas field_emits = emits_then emits_write emits_time emits_opt emits_skip emits_return

section \<open>Children\<close>

text \<open>Encoding a member that may be absent, and the members of a list.\<close>

definition encode_opt :: "('b \<Rightarrow> ('b \<times> int) nb) \<Rightarrow> 'b option \<Rightarrow> 'b option nb" where
  "encode_opt enc c = (case c of None \<Rightarrow> returnN None | Some b \<Rightarrow> bindN (enc b) (\<lambda>(b', _). returnN (Some b')))"

primrec encode_all :: "('b \<Rightarrow> ('b \<times> int) nb) \<Rightarrow> 'b list \<Rightarrow> 'b list nb" where
  "encode_all enc [] = returnN []"
| "encode_all enc (b # bs) = bindN (enc b) (\<lambda>(b', _). bindN (encode_all enc bs) (\<lambda>bs'. returnN (b' # bs')))"

definition size_opt :: "('b \<Rightarrow> int) \<Rightarrow> 'b option \<Rightarrow> int" where
  "size_opt sz c = (case c of None \<Rightarrow> 0 | Some b \<Rightarrow> sz b)"

definition layout_opt :: "('b \<Rightarrow> pattern) \<Rightarrow> 'b option \<Rightarrow> pattern" where
  "layout_opt layout c = (case c of None \<Rightarrow> [] | Some b \<Rightarrow> layout b)"

lemma emits_bind_fst: "emits p pat (x, n) \<Longrightarrow> emits (k x) pat' y \<Longrightarrow> emits (bindN p (\<lambda>(x, _). k x)) (pat @ pat') y"
  using emits_bind [of p pat "(x, n)" "\<lambda>(x, _). k x" pat' y] by simp

context mp4_writer
begin

lemma emits_opt_child:
  "pred_option wf c \<Longrightarrow> emits (encode_opt encode c) (layout_opt layout c) (map_option upd c)"
  using emits_bind_fst [OF encode_layout emits_return, of _ Some]
  by (cases c) (auto simp: encode_opt_def layout_opt_def emits_return)

lemma emits_all_children: "list_all wf cs \<Longrightarrow> emits (encode_all encode cs) (concat (map layout cs)) (map upd cs)"
proof (induction cs)
  case (Cons c cs)
  then have "emits (bindN (encode_all encode cs) (\<lambda>cs'. returnN (upd c # cs'))) (concat (map layout cs)) (upd c # map upd cs)"
    by (intro emits_bind_return) simp
  with Cons.prems show ?case by (auto intro: emits_bind_fst encode_layout)
qed (simp add: emits_return)

lemma size_opt_child: "pred_option wf c \<Longrightarrow> size_opt sz c = int (length (layout_opt layout c))"
  by (cases c) (simp_all add: size_opt_def layout_opt_def size_layout)

lemma size_all_children: "list_all wf cs \<Longrightarrow> sum_list (map sz cs) = int (length (concat (map layout cs)))"
  by (induction cs) (simp_all add: size_layout)

end

end
