(* ===== verification/Mp4Fragment.thy ===== *)
theory Mp4Fragment
  imports Mp4Box
begin

text \<open>
  The boxes of a movie fragment (\<^verbatim>\<open>mfhd\<close>, \<^verbatim>\<open>tfhd\<close>, \<^verbatim>\<open>tfdt\<close>, \<^verbatim>\<open>trun\<close>, \<^verbatim>\<open>trex\<close>, \<^verbatim>\<open>sidx\<close>, \<^verbatim>\<open>mdat\<close>) and the
  fragment itself (\<^verbatim>\<open>traf\<close>, \<^verbatim>\<open>moof\<close>), which the server writes for every segment.
\<close>

section \<open>Simple headers\<close>

record MfhdBox = FullBox +
  mfhd_sequence_number :: u32

definition MfhdBox_size :: "MfhdBox \<Rightarrow> int" where
  "MfhdBox_size v = FullBox_size v + 4"

definition MfhdBox_encode :: "MfhdBox \<Rightarrow> (MfhdBox \<times> int) nb" where
  "MfhdBox_encode v = (let v = update_size MfhdBox_size v in
     measured (thenN (FullBox_encode v) (thenN (write_4bytes (mfhd_sequence_number v)) (returnN v))))"

definition MfhdBox_decode :: "MfhdBox \<Rightarrow> (MfhdBox \<times> int) nb" where
  "MfhdBox_decode v = measured (bindN (FullBox_decode v) (\<lambda>(v, _).
     bindN read_4bytes (\<lambda>n. returnN (v\<lparr>mfhd_sequence_number := n\<rparr>))))"

record TrexBox = FullBox +
  trex_track_ID :: u32
  trex_default_sample_description_index :: u32
  trex_default_sample_duration :: u32
  trex_default_sample_size :: u32
  trex_default_sample_flags :: u32

definition TrexBox_size :: "TrexBox \<Rightarrow> int" where
  "TrexBox_size v = FullBox_size v + 4 * 5"

definition TrexBox_encode :: "TrexBox \<Rightarrow> (TrexBox \<times> int) nb" where
  "TrexBox_encode v = (let v = update_size TrexBox_size v in
     measured (thenN (FullBox_encode v) (thenN (write_4bytes (trex_track_ID v))
       (thenN (write_4bytes (trex_default_sample_description_index v)) (thenN (write_4bytes (trex_default_sample_duration v))
       (thenN (write_4bytes (trex_default_sample_size v)) (thenN (write_4bytes (trex_default_sample_flags v)) (returnN v))))))))"

definition TrexBox_decode :: "TrexBox \<Rightarrow> (TrexBox \<times> int) nb" where
  "TrexBox_decode v = measured (bindN (FullBox_decode v) (\<lambda>(v, _).
     bindN read_4bytes (\<lambda>a. bindN read_4bytes (\<lambda>b. bindN read_4bytes (\<lambda>c. bindN read_4bytes (\<lambda>d. bindN read_4bytes (\<lambda>e.
       returnN (v\<lparr>trex_track_ID := a, trex_default_sample_description_index := b, trex_default_sample_duration := c,
         trex_default_sample_size := d, trex_default_sample_flags := e\<rparr>))))))))"

record TfdtBox = FullBox +
  tfdt_base_media_decode_time :: u64

definition TfdtBox_size :: "TfdtBox \<Rightarrow> int" where
  "TfdtBox_size v = FullBox_size v + (if version v \<noteq> 0 then 8 else 4)"

definition TfdtBox_encode :: "TfdtBox \<Rightarrow> (TfdtBox \<times> int) nb" where
  "TfdtBox_encode v = (let v = update_size TfdtBox_size v in
     measured (thenN (FullBox_encode v)
       (thenN (write_time (version v \<noteq> 0) (tfdt_base_media_decode_time v)) (returnN v))))"

definition TfdtBox_decode :: "TfdtBox \<Rightarrow> (TfdtBox \<times> int) nb" where
  "TfdtBox_decode v = measured (bindN (FullBox_decode v) (\<lambda>(v, _).
     bindN (read_time (version v \<noteq> 0)) (\<lambda>t.
       returnN (v\<lparr>tfdt_base_media_decode_time := t\<rparr>))))"

abbreviation (input) "mfhd_body v \<equiv> exactly (put_be 4 (mfhd_sequence_number v)) @ []"

lemma mfhd_emits: "emits (thenN (write_4bytes (mfhd_sequence_number v)) (returnN v)) (mfhd_body v) v"
  by (rule field_emits)+

interpretation mfhd: mp4_box "\<lambda>v. full_ok MfhdBox_size v \<and> True" MfhdBox_size MfhdBox_encode "full_layout MfhdBox_size mfhd_body"
    "sized MfhdBox_size" MfhdBox_decode "\<lambda>_. True" "same MfhdBox_size"
  by (rule full_boxI [OF mfhd_emits _ _ MfhdBox_encode_def MfhdBox_decode_def])
     (simp add: MfhdBox_size_def, simp add: sized_def,
      elim fits_partE, unfold fits_Nil, hypsubst, rule reads_cong, (rule field_reads)+, rule MfhdBox.equality, simp_all add: box_state)

abbreviation (input) "trex_body v \<equiv> exactly (put_be 4 (trex_track_ID v)) @ exactly (put_be 4 (trex_default_sample_description_index v)) @
  exactly (put_be 4 (trex_default_sample_duration v)) @ exactly (put_be 4 (trex_default_sample_size v)) @
  exactly (put_be 4 (trex_default_sample_flags v)) @ []"

lemma trex_emits: "emits (thenN (write_4bytes (trex_track_ID v)) (thenN (write_4bytes (trex_default_sample_description_index v))
    (thenN (write_4bytes (trex_default_sample_duration v)) (thenN (write_4bytes (trex_default_sample_size v))
    (thenN (write_4bytes (trex_default_sample_flags v)) (returnN v)))))) (trex_body v) v"
  by (rule field_emits)+

interpretation trex: mp4_box "\<lambda>v. full_ok TrexBox_size v \<and> True" TrexBox_size TrexBox_encode "full_layout TrexBox_size trex_body"
    "sized TrexBox_size" TrexBox_decode "\<lambda>_. True" "same TrexBox_size"
  by (rule full_boxI [OF trex_emits _ _ TrexBox_encode_def TrexBox_decode_def])
     (simp add: TrexBox_size_def, simp add: sized_def,
      elim fits_partE, unfold fits_Nil, hypsubst, rule reads_cong, (rule field_reads)+, rule TrexBox.equality, simp_all add: box_state)

abbreviation (input) "tfdt_body v \<equiv> exactly (time_bytes (version v \<noteq> 0) (tfdt_base_media_decode_time v)) @ []"
abbreviation (input) "tfdt_good v \<equiv> version v \<noteq> 0 \<or> unat (tfdt_base_media_decode_time v) < 2 ^ 32"

lemma tfdt_emits: "emits (thenN (write_time (version v \<noteq> 0) (tfdt_base_media_decode_time v)) (returnN v)) (tfdt_body v) v"
  by (rule field_emits)+

interpretation tfdt: mp4_box "\<lambda>v. full_ok TfdtBox_size v \<and> tfdt_good v" TfdtBox_size TfdtBox_encode
    "full_layout TfdtBox_size tfdt_body" "sized TfdtBox_size" TfdtBox_decode "\<lambda>_. True" "same TfdtBox_size"
  by (rule full_boxI [OF tfdt_emits _ _ TfdtBox_encode_def TfdtBox_decode_def])
     (simp add: TfdtBox_size_def, simp add: sized_def,
      elim fits_partE, unfold fits_Nil headed_version, hypsubst, rule reads_cong, (rule field_reads reads_time | assumption)+,
      rule TfdtBox.equality, simp_all add: box_state)

section \<open>Headers with optional fields\<close>

text \<open>The test \<^verbatim>\<open>(flags_ & F) == F\<close>.\<close>
definition has :: "u32 \<Rightarrow> u32 \<Rightarrow> bool" where
  "has f fl \<longleftrightarrow> f AND fl = fl"

record TfhdBox = FullBox +
  tfhd_track_id :: u32
  tfhd_base_data_offset :: u64
  tfhd_sample_description_index :: u32
  tfhd_default_sample_duration :: u32
  tfhd_default_sample_size :: u32
  tfhd_default_sample_flags :: u32

definition TfhdBox_size :: "TfhdBox \<Rightarrow> int" where
  "TfhdBox_size v = FullBox_size v + 4 + (if has (flags v) 0x1 then 8 else 0) + (if has (flags v) 0x2 then 4 else 0) +
     (if has (flags v) 0x8 then 4 else 0) + (if has (flags v) 0x10 then 4 else 0) + (if has (flags v) 0x20 then 4 else 0)"

definition TfhdBox_encode :: "TfhdBox \<Rightarrow> (TfhdBox \<times> int) nb" where
  "TfhdBox_encode v = (let v = update_size TfhdBox_size v in
     measured (thenN (FullBox_encode v) (thenN (write_4bytes (tfhd_track_id v))
       (thenN (if has (flags v) 0x1 then write_8bytes (tfhd_base_data_offset v) else returnN ())
       (thenN (if has (flags v) 0x2 then write_4bytes (tfhd_sample_description_index v) else returnN ())
       (thenN (if has (flags v) 0x8 then write_4bytes (tfhd_default_sample_duration v) else returnN ())
       (thenN (if has (flags v) 0x10 then write_4bytes (tfhd_default_sample_size v) else returnN ())
       (thenN (if has (flags v) 0x20 then write_4bytes (tfhd_default_sample_flags v) else returnN ()) (returnN v)))))))))"

definition TfhdBox_decode :: "TfhdBox \<Rightarrow> (TfhdBox \<times> int) nb" where
  "TfhdBox_decode v = measured (bindN (FullBox_decode v) (\<lambda>(v, _). bindN read_4bytes (\<lambda>t.
     bindN (if has (flags v) 0x1 then read_8bytes else returnN (tfhd_base_data_offset v)) (\<lambda>a.
     bindN (if has (flags v) 0x2 then read_4bytes else returnN (tfhd_sample_description_index v)) (\<lambda>b.
     bindN (if has (flags v) 0x8 then read_4bytes else returnN (tfhd_default_sample_duration v)) (\<lambda>c.
     bindN (if has (flags v) 0x10 then read_4bytes else returnN (tfhd_default_sample_size v)) (\<lambda>d.
     bindN (if has (flags v) 0x20 then read_4bytes else returnN (tfhd_default_sample_flags v)) (\<lambda>e.
       returnN (v\<lparr>tfhd_track_id := t, tfhd_base_data_offset := a, tfhd_sample_description_index := b,
         tfhd_default_sample_duration := c, tfhd_default_sample_size := d, tfhd_default_sample_flags := e\<rparr>)))))))))"

abbreviation (input) "tfhd_body v \<equiv> exactly (put_be 4 (tfhd_track_id v)) @
  exactly (if has (flags v) 0x1 then put_be 8 (tfhd_base_data_offset v) else []) @
  exactly (if has (flags v) 0x2 then put_be 4 (tfhd_sample_description_index v) else []) @
  exactly (if has (flags v) 0x8 then put_be 4 (tfhd_default_sample_duration v) else []) @
  exactly (if has (flags v) 0x10 then put_be 4 (tfhd_default_sample_size v) else []) @
  exactly (if has (flags v) 0x20 then put_be 4 (tfhd_default_sample_flags v) else []) @ []"

lemma tfhd_emits: "emits (thenN (write_4bytes (tfhd_track_id v))
       (thenN (if has (flags v) 0x1 then write_8bytes (tfhd_base_data_offset v) else returnN ())
       (thenN (if has (flags v) 0x2 then write_4bytes (tfhd_sample_description_index v) else returnN ())
       (thenN (if has (flags v) 0x8 then write_4bytes (tfhd_default_sample_duration v) else returnN ())
       (thenN (if has (flags v) 0x10 then write_4bytes (tfhd_default_sample_size v) else returnN ())
       (thenN (if has (flags v) 0x20 then write_4bytes (tfhd_default_sample_flags v) else returnN ()) (returnN v)))))))
    (tfhd_body v) v"
  by (rule field_emits)+

text \<open>A field that is absent keeps the value it had in the new object.\<close>
definition tfhd_seen :: "TfhdBox \<Rightarrow> TfhdBox \<Rightarrow> TfhdBox" where
  "tfhd_seen v0 v = same TfhdBox_size v0 (v\<lparr>
     tfhd_base_data_offset := (if has (flags v) 0x1 then tfhd_base_data_offset v else tfhd_base_data_offset v0),
     tfhd_sample_description_index := (if has (flags v) 0x2 then tfhd_sample_description_index v else tfhd_sample_description_index v0),
     tfhd_default_sample_duration := (if has (flags v) 0x8 then tfhd_default_sample_duration v else tfhd_default_sample_duration v0),
     tfhd_default_sample_size := (if has (flags v) 0x10 then tfhd_default_sample_size v else tfhd_default_sample_size v0),
     tfhd_default_sample_flags := (if has (flags v) 0x20 then tfhd_default_sample_flags v else tfhd_default_sample_flags v0)\<rparr>)"

interpretation tfhd: mp4_box "\<lambda>v. full_ok TfhdBox_size v \<and> True" TfhdBox_size TfhdBox_encode
    "full_layout TfhdBox_size tfhd_body" "sized TfhdBox_size" TfhdBox_decode "\<lambda>_. True" tfhd_seen
  by (rule full_boxI [OF tfhd_emits _ _ TfhdBox_encode_def TfhdBox_decode_def])
     (simp add: TfhdBox_size_def, simp add: sized_def,
      elim fits_partE, unfold fits_Nil headed_version, hypsubst, rule reads_cong, (rule reads_opt field_reads)+,
      rule TfhdBox.equality, simp_all add: box_state tfhd_seen_def TfhdBox_size_def FullBox_size_def Box_size_def)

text \<open>
  An entry of a track run; its owner is the box, of which it uses the flags and the version. The members
  of a new entry are not initialised.
\<close>
record TrunEntry =
  te_sample_duration :: u32
  te_sample_size :: u32
  te_sample_flags :: u32
  te_sample_composition_time_offset :: u64

definition TrunEntry_size :: "u32 \<Rightarrow> int" where
  "TrunEntry_size fl = (if has fl 0x100 then 4 else 0) + (if has fl 0x200 then 4 else 0) +
     (if has fl 0x400 then 4 else 0) + (if has fl 0x800 then 4 else 0)"

definition TrunEntry_encode :: "u32 \<Rightarrow> TrunEntry \<Rightarrow> (unit \<times> int) nb" where
  "TrunEntry_encode fl e = measured
     (thenN (if has fl 0x100 then write_4bytes (te_sample_duration e) else returnN ())
     (thenN (if has fl 0x200 then write_4bytes (te_sample_size e) else returnN ())
     (thenN (if has fl 0x400 then write_4bytes (te_sample_flags e) else returnN ())
            (if has fl 0x800 then write_4bytes (ucast (te_sample_composition_time_offset e)) else returnN ()))))"

definition TrunEntry_decode :: "u32 \<Rightarrow> byte \<Rightarrow> TrunEntry \<Rightarrow> (TrunEntry \<times> int) nb" where
  "TrunEntry_decode fl ver e = measured
     (bindN (if has fl 0x100 then read_4bytes else returnN (te_sample_duration e)) (\<lambda>a.
      bindN (if has fl 0x200 then read_4bytes else returnN (te_sample_size e)) (\<lambda>b.
      bindN (if has fl 0x400 then read_4bytes else returnN (te_sample_flags e)) (\<lambda>c.
      bindN (if has fl 0x800 then bindN read_4bytes (\<lambda>x. returnN (if ver = 0 then ucast x else scast x))
             else returnN (te_sample_composition_time_offset e)) (\<lambda>d.
        returnN \<lparr>te_sample_duration = a, te_sample_size = b, te_sample_flags = c, te_sample_composition_time_offset = d\<rparr>)))))"

definition trun_entry_bytes :: "u32 \<Rightarrow> TrunEntry \<Rightarrow> bytes" where
  "trun_entry_bytes fl e = (if has fl 0x100 then put_be 4 (te_sample_duration e) else []) @
     (if has fl 0x200 then put_be 4 (te_sample_size e) else []) @ (if has fl 0x400 then put_be 4 (te_sample_flags e) else []) @
     (if has fl 0x800 then put_be 4 (ucast (te_sample_composition_time_offset e) :: u32) else [])"

definition trun_entry_seen :: "u32 \<Rightarrow> TrunEntry \<Rightarrow> TrunEntry \<Rightarrow> TrunEntry" where
  "trun_entry_seen fl e0 e =
     \<lparr>te_sample_duration = (if has fl 0x100 then te_sample_duration e else te_sample_duration e0),
      te_sample_size = (if has fl 0x200 then te_sample_size e else te_sample_size e0),
      te_sample_flags = (if has fl 0x400 then te_sample_flags e else te_sample_flags e0),
      te_sample_composition_time_offset = (if has fl 0x800 then te_sample_composition_time_offset e
        else te_sample_composition_time_offset e0)\<rparr>"

text \<open>The composition offset fits 32 bits, unsigned in version 0 and signed in the others.\<close>
definition trun_offset_ok :: "byte \<Rightarrow> TrunEntry \<Rightarrow> bool" where
  "trun_offset_ok ver e \<longleftrightarrow> (let w = ucast (te_sample_composition_time_offset e) :: u32 in
     (if ver = 0 then ucast w else scast w) = te_sample_composition_time_offset e)"

lemma emits_TrunEntry: "emits (TrunEntry_encode fl e) (exactly (trun_entry_bytes fl e))
    ((), uint (of_nat (length (exactly (trun_entry_bytes fl e))) :: u32))"
  unfolding TrunEntry_encode_def by (rule emits_measured) (unfold trun_entry_bytes_def map_append, (rule field_emits)+)

lemma reads_TrunEntry:
  assumes "trun_offset_ok ver e"
  shows "reads (TrunEntry_decode fl ver e0) (trun_entry_bytes fl e)
    (trun_entry_seen fl e0 e, uint (of_nat (length (trun_entry_bytes fl e)) :: u32))"
proof -
  have "reads (bindN read_4bytes (\<lambda>x. returnN (if ver = 0 then ucast x else scast x)))
      (put_be 4 (ucast (te_sample_composition_time_offset e) :: u32)) (te_sample_composition_time_offset e)"
    using reads_bind_return [OF reads_bytes(2), of "\<lambda>x. (if ver = 0 then ucast x else scast x) :: u64" "ucast (te_sample_composition_time_offset e)"]
      assms by (simp add: trun_offset_ok_def Let_def)
  from reads_opt [OF this]
  have "reads (bindN (if has fl 0x100 then read_4bytes else returnN (te_sample_duration e0)) (\<lambda>a.
      bindN (if has fl 0x200 then read_4bytes else returnN (te_sample_size e0)) (\<lambda>b.
      bindN (if has fl 0x400 then read_4bytes else returnN (te_sample_flags e0)) (\<lambda>c.
      bindN (if has fl 0x800 then bindN read_4bytes (\<lambda>x. returnN (if ver = 0 then ucast x else scast x))
             else returnN (te_sample_composition_time_offset e0)) (\<lambda>d.
        returnN \<lparr>te_sample_duration = a, te_sample_size = b, te_sample_flags = c, te_sample_composition_time_offset = d\<rparr>)))))
      (trun_entry_bytes fl e) (trun_entry_seen fl e0 e)"
    unfolding trun_entry_bytes_def trun_entry_seen_def
    by (intro reads_bind [OF reads_opt [OF reads_bytes(2)]] reads_bind_return)
  then show ?thesis unfolding TrunEntry_decode_def by (rule reads_measured)
qed

record TrunBox = FullBox +
  trun_entries :: "TrunEntry list"
  trun_data_offset :: u32
  trun_first_sample_flags :: u32

definition TrunBox_size :: "TrunBox \<Rightarrow> int" where
  "TrunBox_size v = FullBox_size v + 4 + (if has (flags v) 0x1 then 4 else 0) + (if has (flags v) 0x4 then 4 else 0) +
     sum_list (map (\<lambda>e. TrunEntry_size (flags v)) (trun_entries v))"

definition TrunBox_encode :: "TrunBox \<Rightarrow> (TrunBox \<times> int) nb" where
  "TrunBox_encode v = (let v = update_size TrunBox_size v in
     measured (thenN (FullBox_encode v) (thenN (write_4bytes (of_nat (length (trun_entries v))))
       (thenN (if has (flags v) 0x1 then write_4bytes (trun_data_offset v) else returnN ())
       (thenN (if has (flags v) 0x4 then write_4bytes (trun_first_sample_flags v) else returnN ())
       (thenN (eachN (\<lambda>e. thenN (TrunEntry_encode (flags v) e) (returnN ())) (trun_entries v)) (returnN v)))))))"

text \<open>The counter of the reading loop is a signed integer.\<close>
definition TrunBox_decode :: "TrunEntry \<Rightarrow> TrunBox \<Rightarrow> (TrunBox \<times> int) nb" where
  "TrunBox_decode e0 v = measured (bindN (FullBox_decode v) (\<lambda>(v, _). bindN read_4bytes (\<lambda>entry_count.
     bindN (if has (flags v) 0x1 then read_4bytes else returnN (trun_data_offset v)) (\<lambda>a.
     bindN (if has (flags v) 0x4 then read_4bytes else returnN (trun_first_sample_flags v)) (\<lambda>b.
     bindN (timesN (nat (sint entry_count)) (bindN (TrunEntry_decode (flags v) (version v) e0) (\<lambda>(e, _). returnN e))) (\<lambda>es.
       returnN (v\<lparr>trun_data_offset := a, trun_first_sample_flags := b, trun_entries := trun_entries v @ es\<rparr>)))))))"

abbreviation (input) "trun_body v \<equiv> exactly (put_be 4 (of_nat (length (trun_entries v)) :: u32)) @
  exactly (if has (flags v) 0x1 then put_be 4 (trun_data_offset v) else []) @
  exactly (if has (flags v) 0x4 then put_be 4 (trun_first_sample_flags v) else []) @
  exactly (concat (map (trun_entry_bytes (flags v)) (trun_entries v))) @ []"

abbreviation (input) "trun_good v \<equiv> length (trun_entries v) < 2 ^ 31 \<and> (\<forall>e\<in>set (trun_entries v). trun_offset_ok (version v) e)"

lemma trun_emits: "emits (thenN (write_4bytes (of_nat (length (trun_entries v))))
       (thenN (if has (flags v) 0x1 then write_4bytes (trun_data_offset v) else returnN ())
       (thenN (if has (flags v) 0x4 then write_4bytes (trun_first_sample_flags v) else returnN ())
       (thenN (eachN (\<lambda>e. thenN (TrunEntry_encode (flags v) e) (returnN ())) (trun_entries v)) (returnN v)))))
    (trun_body v) v"
proof -
  from emits_table [OF emits_ignored [OF emits_TrunEntry]] show ?thesis by (intro emits_then [where x = "()"] emits_write emits_opt emits_return)
qed

lemma length_trun_entry: "int (length (trun_entry_bytes fl e)) = TrunEntry_size fl"
  by (simp add: trun_entry_bytes_def TrunEntry_size_def)

lemma length_trun_entries: "int (length (concat (map (trun_entry_bytes fl) es))) = sum_list (map (\<lambda>e. TrunEntry_size fl) es)"
  by (induction es) (simp_all add: length_trun_entry)

definition trun_seen :: "TrunEntry \<Rightarrow> TrunBox \<Rightarrow> TrunBox \<Rightarrow> TrunBox" where
  "trun_seen e0 v0 v = (same TrunBox_size v0 v)\<lparr>
     trun_data_offset := (if has (flags v) 0x1 then trun_data_offset v else trun_data_offset v0),
     trun_first_sample_flags := (if has (flags v) 0x4 then trun_first_sample_flags v else trun_first_sample_flags v0),
     trun_entries := map (trun_entry_seen (flags v) e0) (trun_entries v)\<rparr>"

lemma trun_table_reads:
  assumes "trun_good v"
  shows "reads (timesN (nat (sint (of_nat (length (trun_entries v)) :: u32)))
      (bindN (TrunEntry_decode (flags v) (version v) e0) (\<lambda>(e, _). returnN e)))
    (concat (map (trun_entry_bytes (flags v)) (trun_entries v))) (map (trun_entry_seen (flags v) e0) (trun_entries v))"
proof (rule reads_table)
  show "nat (sint (of_nat (length (trun_entries v)) :: u32)) = length (trun_entries v)"
    using assms by (simp add: sint_count)
  fix e assume "e \<in> set (trun_entries v)"
  then show "reads (bindN (TrunEntry_decode (flags v) (version v) e0) (\<lambda>(e, _). returnN e)) (trun_entry_bytes (flags v) e)
      (trun_entry_seen (flags v) e0 e)"
    using assms by (intro reads_value [OF reads_TrunEntry]) simp
qed

interpretation trun: mp4_box "\<lambda>v. full_ok TrunBox_size v \<and> trun_good v" TrunBox_size TrunBox_encode
    "full_layout TrunBox_size trun_body" "sized TrunBox_size" "TrunBox_decode e0" "\<lambda>v0. trun_entries v0 = []" "trun_seen e0"
    for e0
  by (rule full_boxI [OF trun_emits _ _ TrunBox_encode_def TrunBox_decode_def])
     (simp add: TrunBox_size_def length_trun_entries, simp add: sized_def,
      elim fits_partE, unfold fits_Nil headed_version, hypsubst, rule reads_cong,
      (rule trun_table_reads reads_opt field_reads | assumption)+,
      rule TrunBox.equality, simp_all add: box_state trun_seen_def)

section \<open>The segment index\<close>

record SegmentIndexEntry =
  sie_reference_type :: byte
  sie_referenced_size :: u32
  sie_subsegment_duration :: u32
  sie_starts_with_SAP :: byte
  sie_SAP_type :: byte
  sie_SAP_delta_time :: u32

definition SegmentIndexEntry_encode :: "SegmentIndexEntry \<Rightarrow> (unit \<times> int) nb" where
  "SegmentIndexEntry_encode e = measured
     (thenN (write_4bytes (push_bit 31 (ucast (sie_reference_type e AND 0x01)) OR (sie_referenced_size e AND 0x7fffffff)))
     (thenN (write_4bytes (sie_subsegment_duration e))
            (write_4bytes (push_bit 31 (ucast (sie_starts_with_SAP e AND 0x01)) OR push_bit 28 (ucast (sie_SAP_type e AND 0x7)) OR
               (sie_SAP_delta_time e AND 0xfffffff)))))"

definition SegmentIndexEntry_decode :: "(SegmentIndexEntry \<times> int) nb" where
  "SegmentIndexEntry_decode = measured
     (bindN read_4bytes (\<lambda>v. bindN read_4bytes (\<lambda>d. bindN read_4bytes (\<lambda>w.
       returnN \<lparr>sie_reference_type = ucast (drop_bit 31 (v AND 0x80000000)), sie_referenced_size = v AND 0x7fffffff,
         sie_subsegment_duration = d, sie_starts_with_SAP = ucast (drop_bit 31 (w AND 0x80000000)),
         sie_SAP_type = ucast (drop_bit 28 (w AND 0x70000000)), sie_SAP_delta_time = w AND 0xfffffff\<rparr>))))"

record SidxBox = FullBox +
  sidx_reference_id :: u32
  sidx_timescale :: u32
  sidx_earliest_presentation_time :: u64
  sidx_first_offset :: u64
  sidx_entries :: "SegmentIndexEntry list"

definition SidxBox_size :: "SidxBox \<Rightarrow> int" where
  "SidxBox_size v = FullBox_size v + 8 + (if version v = 1 then 16 else 8) + 4 + int (length (sidx_entries v)) * 12"

definition SidxBox_encode :: "SidxBox \<Rightarrow> (SidxBox \<times> int) nb" where
  "SidxBox_encode v = (let v = update_size SidxBox_size v in
     measured (thenN (FullBox_encode v) (thenN (write_4bytes (sidx_reference_id v)) (thenN (write_4bytes (sidx_timescale v))
       (thenN (write_time (version v = 1) (sidx_earliest_presentation_time v)) (thenN (write_time (version v = 1) (sidx_first_offset v))
       (thenN (write_4bytes (of_nat (length (sidx_entries v))))
       (thenN (eachN (\<lambda>e. thenN (SegmentIndexEntry_encode e) (returnN ())) (sidx_entries v)) (returnN v)))))))))"

text \<open>The entries are decoded one by one into a local variable; none is stored.\<close>
definition SidxBox_decode :: "SidxBox \<Rightarrow> (SidxBox \<times> int) nb" where
  "SidxBox_decode v = measured (bindN (FullBox_decode v) (\<lambda>(v, _).
     bindN read_4bytes (\<lambda>a. bindN read_4bytes (\<lambda>b.
     bindN (read_time (version v = 1)) (\<lambda>c. bindN (read_time (version v = 1)) (\<lambda>d.
     bindN read_4bytes (\<lambda>entry_count. bindN (timesN (unat entry_count) SegmentIndexEntry_decode) (\<lambda>_.
       returnN (v\<lparr>sidx_reference_id := a, sidx_timescale := b, sidx_earliest_presentation_time := c, sidx_first_offset := d\<rparr>)))))))))"

definition sidx_entry_bytes :: "SegmentIndexEntry \<Rightarrow> bytes" where
  "sidx_entry_bytes e =
     put_be 4 (push_bit 31 (ucast (sie_reference_type e AND 0x01)) OR (sie_referenced_size e AND 0x7fffffff) :: u32) @
     put_be 4 (sie_subsegment_duration e) @
     put_be 4 (push_bit 31 (ucast (sie_starts_with_SAP e AND 0x01)) OR push_bit 28 (ucast (sie_SAP_type e AND 0x7)) OR
       (sie_SAP_delta_time e AND 0xfffffff) :: u32)"

lemma emits_SegmentIndexEntry: "emits (SegmentIndexEntry_encode e) (exactly (sidx_entry_bytes e)) ((), 12)"
proof -
  have "emits (SegmentIndexEntry_encode e) (exactly (sidx_entry_bytes e))
      ((), uint (of_nat (length (exactly (sidx_entry_bytes e))) :: u32))"
    unfolding SegmentIndexEntry_encode_def
    by (rule emits_measured) (unfold sidx_entry_bytes_def map_append, (rule field_emits)+)
  then show ?thesis by (simp add: sidx_entry_bytes_def)
qed

lemma reads_SegmentIndexEntry: "\<exists>e'. reads SegmentIndexEntry_decode (sidx_entry_bytes e) (e', 12)"
proof -
  have "\<exists>e'. reads SegmentIndexEntry_decode (sidx_entry_bytes e) (e', uint (of_nat (length (sidx_entry_bytes e)) :: u32))"
    unfolding SegmentIndexEntry_decode_def
    by (rule exI, rule reads_measured) (unfold sidx_entry_bytes_def, (rule reads_bind reads_bytes reads_bind_return)+)
  then show ?thesis by (simp add: sidx_entry_bytes_def)
qed

text \<open>Within the widths of its fields an entry would be read back.\<close>
definition sidx_entry_ok :: "SegmentIndexEntry \<Rightarrow> bool" where
  "sidx_entry_ok e \<longleftrightarrow> unat (sie_reference_type e) < 2 ^ 1 \<and> unat (sie_referenced_size e) < 2 ^ 31 \<and>
     unat (sie_starts_with_SAP e) < 2 ^ 1 \<and> unat (sie_SAP_type e) < 2 ^ 3 \<and> unat (sie_SAP_delta_time e) < 2 ^ 28"

lemma masks: "(0x7fffffff :: u32) = mask 31" "(0xfffffff :: u32) = mask 28" "(1 :: byte) = mask 1" "(7 :: byte) = mask 3"
  "(0x80000000 :: u32) = push_bit 31 (mask 1)" "(0x70000000 :: u32) = push_bit 28 (mask 3)"
  by (simp_all add: mask_eq_exp_minus_1)

lemma packed_size:
  assumes "unat (x :: byte) < 2 ^ 1" "unat (s :: u32) < 2 ^ 31"
  shows "ucast (drop_bit 31 ((push_bit 31 (ucast (x AND 1)) OR (s AND 0x7fffffff)) AND (0x80000000 :: u32))) = x"
    "(push_bit 31 (ucast (x AND 1)) OR (s AND 0x7fffffff)) AND (0x7fffffff :: u32) = s"
  unfolding masks
  by (rule bit_word_eqI; auto simp: bit_simps dest: bit_below [OF assms(1)] bit_below [OF assms(2)])+

lemma packed_sap:
  assumes "unat (x :: byte) < 2 ^ 1" "unat (t :: byte) < 2 ^ 3" "unat (s :: u32) < 2 ^ 28"
  shows "ucast (drop_bit 31 ((push_bit 31 (ucast (x AND 1)) OR push_bit 28 (ucast (t AND 7)) OR (s AND 0xfffffff)) AND (0x80000000 :: u32))) = x"
    "ucast (drop_bit 28 ((push_bit 31 (ucast (x AND 1)) OR push_bit 28 (ucast (t AND 7)) OR (s AND 0xfffffff)) AND (0x70000000 :: u32))) = t"
    "(push_bit 31 (ucast (x AND 1)) OR push_bit 28 (ucast (t AND 7)) OR (s AND 0xfffffff)) AND (0xfffffff :: u32) = s"
  unfolding masks
  by (rule bit_word_eqI; auto simp: bit_simps dest: bit_below [OF assms(1)] bit_below [OF assms(2)] bit_below [OF assms(3)])+

lemma sidx_entry_roundtrip:
  assumes "sidx_entry_ok e"
  shows "reads SegmentIndexEntry_decode (sidx_entry_bytes e) (e, 12)"
proof -
  have ok: "unat (sie_reference_type e) < 2 ^ 1" "unat (sie_referenced_size e) < 2 ^ 31" "unat (sie_starts_with_SAP e) < 2 ^ 1"
      "unat (sie_SAP_type e) < 2 ^ 3" "unat (sie_SAP_delta_time e) < 2 ^ 28"
    using assms by (simp_all only: sidx_entry_ok_def)
  have "reads SegmentIndexEntry_decode (sidx_entry_bytes e) (e, uint (of_nat (length (sidx_entry_bytes e)) :: u32))"
    unfolding SegmentIndexEntry_decode_def
    by (rule reads_measured, unfold sidx_entry_bytes_def, rule reads_cong, (rule reads_bind reads_bytes reads_bind_return)+)
      (simp only: packed_size [OF ok(1,2)] packed_sap [OF ok(3-5)], simp)
  then show ?thesis by (simp add: sidx_entry_bytes_def)
qed

abbreviation (input) "sidx_body v \<equiv> exactly (put_be 4 (sidx_reference_id v)) @ exactly (put_be 4 (sidx_timescale v)) @
  exactly (time_bytes (version v = 1) (sidx_earliest_presentation_time v)) @ exactly (time_bytes (version v = 1) (sidx_first_offset v)) @
  exactly (put_be 4 (of_nat (length (sidx_entries v)) :: u32)) @ exactly (concat (map sidx_entry_bytes (sidx_entries v))) @ []"
abbreviation (input) "sidx_good v \<equiv> length (sidx_entries v) < 2 ^ 32 \<and>
  (version v = 1 \<or> unat (sidx_earliest_presentation_time v) < 2 ^ 32) \<and> (version v = 1 \<or> unat (sidx_first_offset v) < 2 ^ 32)"

lemma sidx_emits: "emits (thenN (write_4bytes (sidx_reference_id v)) (thenN (write_4bytes (sidx_timescale v))
       (thenN (write_time (version v = 1) (sidx_earliest_presentation_time v)) (thenN (write_time (version v = 1) (sidx_first_offset v))
       (thenN (write_4bytes (of_nat (length (sidx_entries v))))
       (thenN (eachN (\<lambda>e. thenN (SegmentIndexEntry_encode e) (returnN ())) (sidx_entries v)) (returnN v)))))))
    (sidx_body v) v"
proof -
  from emits_table [OF emits_ignored [OF emits_SegmentIndexEntry]] show ?thesis by (intro emits_then [where x = "()"] emits_write emits_time emits_return)
qed

lemma sidx_table_reads:
  assumes "length es < 2 ^ 32"
  shows "reads (timesN (unat (of_nat (length es) :: u32)) SegmentIndexEntry_decode) (concat (map sidx_entry_bytes es))
    (map (\<lambda>e. (SOME e'. reads SegmentIndexEntry_decode (sidx_entry_bytes e) (e', 12), 12)) es)"
  using assms by (intro reads_table) (simp_all add: unat_count someI_ex [OF reads_SegmentIndexEntry])

interpretation sidx: mp4_box "\<lambda>v. full_ok SidxBox_size v \<and> sidx_good v" SidxBox_size SidxBox_encode
    "full_layout SidxBox_size sidx_body" "sized SidxBox_size" SidxBox_decode "\<lambda>v0. sidx_entries v0 = []"
    "\<lambda>v0 v. (same SidxBox_size v0 v)\<lparr>sidx_entries := []\<rparr>"
  by (rule full_boxI [OF sidx_emits _ _ SidxBox_encode_def SidxBox_decode_def])
     (simp add: SidxBox_size_def length_concat_const [of _ sidx_entry_bytes 12] sidx_entry_bytes_def, simp add: sized_def,
      elim fits_partE conjE, unfold fits_Nil headed_version, hypsubst, rule reads_cong,
      (rule sidx_table_reads reads_time field_reads | assumption)+,
      rule SidxBox.equality, simp_all add: box_state)

section \<open>File type, media data\<close>

record FtypBox = Box +
  ftyp_major_brand :: u32
  ftyp_minor_version :: u32
  ftyp_compatible_brands :: "u32 list"

definition FtypBox_size :: "FtypBox \<Rightarrow> int" where
  "FtypBox_size v = Box_size v + 4 + 4 + int (length (ftyp_compatible_brands v)) * 4"

definition FtypBox_encode :: "FtypBox \<Rightarrow> (FtypBox \<times> int) nb" where
  "FtypBox_encode v = (let v = update_size FtypBox_size v in
     measured (thenN (Box_encode v) (thenN (write_4bytes (ftyp_major_brand v)) (thenN (write_4bytes (ftyp_minor_version v))
       (thenN (eachN write_4bytes (ftyp_compatible_brands v)) (returnN v))))))"

text \<open>The loop \<^verbatim>\<open>while (left_bytes > 0) { ...; left_bytes -= 4; }\<close>.\<close>
definition FtypBox_decode :: "FtypBox \<Rightarrow> (FtypBox \<times> int) nb" where
  "FtypBox_decode v = measured (bindN (Box_decode v) (\<lambda>(v, n).
     bindN read_4bytes (\<lambda>a. bindN read_4bytes (\<lambda>b.
     bindN (timesN (nat ((decoded_size v - (n + 8) + 3) div 4)) read_4bytes) (\<lambda>bs.
       returnN (v\<lparr>ftyp_major_brand := a, ftyp_minor_version := b, ftyp_compatible_brands := ftyp_compatible_brands v @ bs\<rparr>))))))"

abbreviation (input) "ftyp_body v \<equiv> exactly (put_be 4 (ftyp_major_brand v)) @ exactly (put_be 4 (ftyp_minor_version v)) @
  exactly (concat (map (put_be 4) (ftyp_compatible_brands v))) @ []"

lemma ftyp_emits: "emits (thenN (write_4bytes (ftyp_major_brand v)) (thenN (write_4bytes (ftyp_minor_version v))
    (thenN (eachN write_4bytes (ftyp_compatible_brands v)) (returnN v)))) (ftyp_body v) v"
  by (intro emits_then [where x = "()"] emits_write emits_table emits_return)

lemma decoded_size_titled:
  "plain (sz v) v \<Longrightarrow> 2 \<le> sz v \<Longrightarrow> decoded_size (titled sz v0 v) = sz v"
  using of_int_small [of "sz v"] by (auto simp: decoded_size_def titled_def plain_def)

lemma brands_read:
  assumes "plain (FtypBox_size v) v"
  shows "reads (timesN (nat ((decoded_size (titled FtypBox_size v0 v) - (8 + 8) + 3) div 4)) read_4bytes)
    (concat (map (put_be 4) (ftyp_compatible_brands v))) (map id (ftyp_compatible_brands v))"
proof (rule reads_table)
  have "FtypBox_size v = 16 + int (length (ftyp_compatible_brands v)) * 4" using assms by (simp add: FtypBox_size_def)
  with assms show "nat ((decoded_size (titled FtypBox_size v0 v) - (8 + 8) + 3) div 4) = length (ftyp_compatible_brands v)"
    by (simp add: decoded_size_titled)
qed (simp add: reads_bytes)

interpretation ftyp: mp4_box "\<lambda>v. plain (FtypBox_size v) v" FtypBox_size FtypBox_encode "box_layout FtypBox_size ftyp_body"
    "sized FtypBox_size" FtypBox_decode "\<lambda>v0. ftyp_compatible_brands v0 = []" "same FtypBox_size"
  by (rule box_boxI [OF ftyp_emits _ _ FtypBox_encode_def FtypBox_decode_def])
     (simp add: FtypBox_size_def length_concat_const [of _ "put_be 4" 4], simp add: sized_def,
      elim fits_partE, unfold fits_Nil, hypsubst, rule reads_cong, (rule brands_read field_reads | assumption)+,
      rule FtypBox.equality, simp_all add: box_state)

record MdatBox = Box +
  mdat_datas :: "bytes list"

definition MdatBox_size :: "MdatBox \<Rightarrow> int" where
  "MdatBox_size v = Box_size v + sum_list (map (int \<circ> length) (mdat_datas v))"

definition MdatBox_encode :: "MdatBox \<Rightarrow> (MdatBox \<times> int) nb" where
  "MdatBox_encode v = (let v = update_size MdatBox_size v in
     measured (thenN (Box_encode v)
       (thenN (eachN (\<lambda>d. if d \<noteq> [] then write_string d else returnN ()) (mdat_datas v)) (returnN v))))"

abbreviation (input) "mdat_body v \<equiv> exactly (concat (mdat_datas v)) @ []"

lemma sum_lengths: "sum_list (map (int \<circ> length) xs) = int (length (concat xs))"
  by (induction xs) simp_all

lemma mdat_emits: "emits (thenN (eachN (\<lambda>d. if d \<noteq> [] then write_string d else returnN ()) (mdat_datas v)) (returnN v)) (mdat_body v) v"
proof -
  have "emits (if d \<noteq> [] then write_string d else returnN ()) (exactly d) ()" for d
    by (simp add: emits_write emits_return)
  from emits_table [of "mdat_datas v" _ "\<lambda>d. d", OF this] show ?thesis by (simp add: emits_object)
qed

interpretation mdat: mp4_writer "\<lambda>v. plain (MdatBox_size v) v" MdatBox_size MdatBox_encode "box_layout MdatBox_size mdat_body"
    "sized MdatBox_size"
proof (rule box_writer)
  fix v :: MdatBox
  assume "plain (MdatBox_size v) v"
  then show "MdatBox_size v = 8 + int (length (mdat_body v))"
    by (simp add: MdatBox_size_def sum_lengths del: map_map)
  show "MdatBox_encode v = measured (thenN (Box_encode (update_size MdatBox_size v))
     (thenN (eachN (\<lambda>d. if d \<noteq> [] then write_string d else returnN ()) (mdat_datas (update_size MdatBox_size v)))
       (returnN (update_size MdatBox_size v))))" by (simp add: MdatBox_encode_def Let_def)
  show "emits (thenN (eachN (\<lambda>d. if d \<noteq> [] then write_string d else returnN ()) (mdat_datas (sized MdatBox_size v)))
       (returnN (sized MdatBox_size v))) (mdat_body v) (sized MdatBox_size v)"
    using mdat_emits [of "sized MdatBox_size v"] by (simp add: sized_def)
qed

section \<open>The fragment\<close>

record TrafBox = Box +
  traf_tfhd :: "TfhdBox option"
  traf_tfdt :: "TfdtBox option"
  traf_trun :: "TrunBox option"

definition TrafBox_size :: "TrafBox \<Rightarrow> int" where
  "TrafBox_size v = Box_size v + size_opt TfhdBox_size (traf_tfhd v) + size_opt TfdtBox_size (traf_tfdt v) +
     size_opt TrunBox_size (traf_trun v)"

definition TrafBox_encode :: "TrafBox \<Rightarrow> (TrafBox \<times> int) nb" where
  "TrafBox_encode v = (let v = update_size TrafBox_size v in
     measured (thenN (Box_encode v)
       (bindN (encode_opt TfhdBox_encode (traf_tfhd v)) (\<lambda>a. bindN (encode_opt TfdtBox_encode (traf_tfdt v)) (\<lambda>b.
        bindN (encode_opt TrunBox_encode (traf_trun v)) (\<lambda>c. returnN (v\<lparr>traf_tfhd := a, traf_tfdt := b, traf_trun := c\<rparr>)))))))"

record MoofBox = Box +
  moof_mfhd :: "MfhdBox option"
  moof_traf :: "TrafBox option"

definition MoofBox_size :: "MoofBox \<Rightarrow> int" where
  "MoofBox_size v = Box_size v + size_opt MfhdBox_size (moof_mfhd v) + size_opt TrafBox_size (moof_traf v)"

definition MoofBox_encode :: "MoofBox \<Rightarrow> (MoofBox \<times> int) nb" where
  "MoofBox_encode v = (let v = update_size MoofBox_size v in
     measured (thenN (Box_encode v)
       (bindN (encode_opt MfhdBox_encode (moof_mfhd v)) (\<lambda>a. bindN (encode_opt TrafBox_encode (moof_traf v)) (\<lambda>b.
        returnN (v\<lparr>moof_mfhd := a, moof_traf := b\<rparr>))))))"

abbreviation (input) "mfhd_layout \<equiv> full_layout MfhdBox_size mfhd_body"
abbreviation (input) "tfhd_layout \<equiv> full_layout TfhdBox_size tfhd_body"
abbreviation (input) "tfdt_layout \<equiv> full_layout TfdtBox_size tfdt_body"
abbreviation (input) "trun_layout \<equiv> full_layout TrunBox_size trun_body"
abbreviation (input) "mfhd_ok \<equiv> \<lambda>v. full_ok MfhdBox_size v \<and> True"
abbreviation (input) "tfhd_ok \<equiv> \<lambda>v. full_ok TfhdBox_size v \<and> True"
abbreviation (input) "tfdt_ok \<equiv> \<lambda>v. full_ok TfdtBox_size v \<and> tfdt_good v"
abbreviation (input) "trun_ok \<equiv> \<lambda>v. full_ok TrunBox_size v \<and> trun_good v"

definition traf_body :: "TrafBox \<Rightarrow> pattern" where
  "traf_body v = layout_opt tfhd_layout (traf_tfhd v) @ layout_opt tfdt_layout (traf_tfdt v) @ layout_opt trun_layout (traf_trun v) @ []"

definition traf_upd :: "TrafBox \<Rightarrow> TrafBox" where
  "traf_upd v = (sized TrafBox_size v)\<lparr>traf_tfhd := map_option (sized TfhdBox_size) (traf_tfhd v),
     traf_tfdt := map_option (sized TfdtBox_size) (traf_tfdt v), traf_trun := map_option (sized TrunBox_size) (traf_trun v)\<rparr>"

definition traf_ok :: "TrafBox \<Rightarrow> bool" where
  "traf_ok v \<longleftrightarrow> plain (TrafBox_size v) v \<and> pred_option tfhd_ok (traf_tfhd v) \<and> pred_option tfdt_ok (traf_tfdt v) \<and>
     pred_option trun_ok (traf_trun v)"

interpretation traf: mp4_writer traf_ok TrafBox_size TrafBox_encode "box_layout TrafBox_size traf_body" traf_upd
proof (rule box_writer [where prog = "\<lambda>v. bindN (encode_opt TfhdBox_encode (traf_tfhd v)) (\<lambda>a.
    bindN (encode_opt TfdtBox_encode (traf_tfdt v)) (\<lambda>b. bindN (encode_opt TrunBox_encode (traf_trun v)) (\<lambda>c.
      returnN (v\<lparr>traf_tfhd := a, traf_tfdt := b, traf_trun := c\<rparr>))))"])
  fix v assume ok: "traf_ok v"
  then show "plain (TrafBox_size v) v" by (simp add: traf_ok_def)
  then have "Box_size v = 8" by simp
  with ok show "TrafBox_size v = 8 + int (length (traf_body v))"
    using tfhd.size_opt_child [of "traf_tfhd v"] tfdt.size_opt_child [of "traf_tfdt v"] trun.size_opt_child [of "traf_trun v"]
    by (simp add: TrafBox_size_def traf_body_def traf_ok_def)
  have fields: "traf_tfhd (sized TrafBox_size v) = traf_tfhd v" "traf_tfdt (sized TrafBox_size v) = traf_tfdt v"
      "traf_trun (sized TrafBox_size v) = traf_trun v" by (simp_all add: sized_def)
  have "pred_option tfhd_ok (traf_tfhd v)" "pred_option tfdt_ok (traf_tfdt v)" "pred_option trun_ok (traf_trun v)"
    using ok unfolding traf_ok_def by blast+
  note kids = tfhd.emits_opt_child [OF this(1)] tfdt.emits_opt_child [OF this(2)] trun.emits_opt_child [OF this(3)]
  show "emits (bindN (encode_opt TfhdBox_encode (traf_tfhd (sized TrafBox_size v))) (\<lambda>a.
      bindN (encode_opt TfdtBox_encode (traf_tfdt (sized TrafBox_size v))) (\<lambda>b.
      bindN (encode_opt TrunBox_encode (traf_trun (sized TrafBox_size v))) (\<lambda>c.
        returnN (sized TrafBox_size v\<lparr>traf_tfhd := a, traf_tfdt := b, traf_trun := c\<rparr>))))) (traf_body v) (traf_upd v)"
    unfolding traf_body_def traf_upd_def fields by (rule emits_bind [OF kids(1)], rule emits_bind [OF kids(2)],
      rule emits_bind [OF kids(3)], rule emits_return)
qed (simp add: TrafBox_encode_def Let_def)

definition moof_body :: "MoofBox \<Rightarrow> pattern" where
  "moof_body v = layout_opt mfhd_layout (moof_mfhd v) @ layout_opt (box_layout TrafBox_size traf_body) (moof_traf v) @ []"

definition moof_upd :: "MoofBox \<Rightarrow> MoofBox" where
  "moof_upd v = (sized MoofBox_size v)\<lparr>moof_mfhd := map_option (sized MfhdBox_size) (moof_mfhd v),
     moof_traf := map_option traf_upd (moof_traf v)\<rparr>"

definition moof_ok :: "MoofBox \<Rightarrow> bool" where
  "moof_ok v \<longleftrightarrow> plain (MoofBox_size v) v \<and> pred_option mfhd_ok (moof_mfhd v) \<and> pred_option traf_ok (moof_traf v)"

interpretation moof: mp4_writer moof_ok MoofBox_size MoofBox_encode "box_layout MoofBox_size moof_body" moof_upd
proof (rule box_writer [where prog = "\<lambda>v. bindN (encode_opt MfhdBox_encode (moof_mfhd v)) (\<lambda>a.
    bindN (encode_opt TrafBox_encode (moof_traf v)) (\<lambda>b. returnN (v\<lparr>moof_mfhd := a, moof_traf := b\<rparr>)))"])
  fix v assume ok: "moof_ok v"
  then show "plain (MoofBox_size v) v" by (simp add: moof_ok_def)
  then have "Box_size v = 8" by simp
  with ok show "MoofBox_size v = 8 + int (length (moof_body v))"
    using mfhd.size_opt_child [of "moof_mfhd v"] traf.size_opt_child [of "moof_traf v"]
    by (simp add: MoofBox_size_def moof_body_def moof_ok_def)
  have fields: "moof_mfhd (sized MoofBox_size v) = moof_mfhd v" "moof_traf (sized MoofBox_size v) = moof_traf v"
    by (simp_all add: sized_def)
  have "pred_option mfhd_ok (moof_mfhd v)" "pred_option traf_ok (moof_traf v)"
    using ok unfolding moof_ok_def by blast+
  note kids = mfhd.emits_opt_child [OF this(1)] traf.emits_opt_child [OF this(2)]
  show "emits (bindN (encode_opt MfhdBox_encode (moof_mfhd (sized MoofBox_size v))) (\<lambda>a.
      bindN (encode_opt TrafBox_encode (moof_traf (sized MoofBox_size v))) (\<lambda>b.
        returnN (sized MoofBox_size v\<lparr>moof_mfhd := a, moof_traf := b\<rparr>)))) (moof_body v) (moof_upd v)"
    unfolding moof_body_def moof_upd_def fields by (rule emits_bind [OF kids(1)], rule emits_bind [OF kids(2)], rule emits_return)
qed (simp add: MoofBox_encode_def Let_def)

section \<open>Properties\<close>

text \<open>
  A track run box whose composition offsets fit its version, encoded into any buffer of at least \<^verbatim>\<open>size()\<close> bytes and read back
  into a new object: the encoder writes exactly \<^verbatim>\<open>size()\<close> bytes and the decoder consumes exactly those, whatever follows, and
  finds every entry and every optional field that the flags announce.
\<close>
theorem trun_roundtrip:
  assumes "full_ok TrunBox_size v" and "length (trun_entries v) < 2 ^ 31"
    and "\<forall>e\<in>set (trun_entries v). trun_offset_ok (version v) e"
    and "trun_entries v0 = []" and "TrunBox_size v \<le> int (length buf)"
  shows "\<exists>out. TrunBox_encode v (NetBuffer_new buf) =
      Inr ((v\<lparr>b_size := of_int (TrunBox_size v)\<rparr>, TrunBox_size v), \<lparr>nb_done = out, nb_rest = drop (nat (TrunBox_size v)) buf\<rparr>) \<and>
    TrunBox_decode e0 v0 (NetBuffer_new (out @ rest)) = Inr ((trun_seen e0 v0 v, TrunBox_size v), \<lparr>nb_done = out, nb_rest = rest\<rparr>)"
  using trun.roundtrip [OF _ assms(4,5), of e0 rest] assms(1-3) by (simp add: sized_def)

definition one_run :: "TrunEntry list \<Rightarrow> TrunBox" where
  "one_run es = \<lparr>b_size = 0, b_type = 0x7472756e, b_large_size = 0, b_user_type = [], version = 1, flags = 0xf01,
     trun_entries = es, trun_data_offset = 112, trun_first_sample_flags = 0\<rparr>"

abbreviation (input) "one_sample \<equiv> \<lparr>te_sample_duration = 40, te_sample_size = 6, te_sample_flags = 0x02000000,
  te_sample_composition_time_offset = - 40\<rparr>"

theorem trun_roundtrip_witness:
  "\<exists>out. TrunBox_encode (one_run [one_sample]) (NetBuffer_new (replicate 36 0)) =
      Inr (((one_run [one_sample])\<lparr>b_size := 36\<rparr>, 36), \<lparr>nb_done = out, nb_rest = []\<rparr>) \<and>
    TrunBox_decode (one_sample\<lparr>te_sample_size := 0\<rparr>) (one_run []) (NetBuffer_new (out @ [7])) =
      Inr ((trun_seen (one_sample\<lparr>te_sample_size := 0\<rparr>) (one_run []) (one_run [one_sample]), 36), \<lparr>nb_done = out, nb_rest = [7]\<rparr>)"
proof -
  have size: "TrunBox_size (one_run [one_sample]) = 36" by code_simp
  have "full_ok TrunBox_size (one_run [one_sample])" by (simp only: full_ok_def plain_def size) (simp add: one_run_def)
  moreover have "trun_offset_ok (version (one_run [one_sample])) one_sample" by code_simp
  moreover have "trun_entries (one_run es) = es" for es by (simp add: one_run_def)
  ultimately show ?thesis
    using trun_roundtrip [of "one_run [one_sample]" "one_run []" "replicate 36 0"] by (simp add: size)
qed

text \<open>
  Reading a segment index box consumes the bytes of all its entries, but the loop never stores them: the object read back has
  none, whatever was encoded. (The entries themselves are read correctly, see \<^verbatim>\<open>sidx_entry_roundtrip\<close>.)
\<close>
theorem sidx_decode_loses_entries:
  assumes "full_ok SidxBox_size v" and "length (sidx_entries v) < 2 ^ 32" and "version v = 1"
    and "sidx_entries v0 = []" and "SidxBox_size v \<le> int (length buf)"
  shows "\<exists>out v1. SidxBox_encode v (NetBuffer_new buf) =
      Inr ((v\<lparr>b_size := of_int (SidxBox_size v)\<rparr>, SidxBox_size v), \<lparr>nb_done = out, nb_rest = drop (nat (SidxBox_size v)) buf\<rparr>) \<and>
    SidxBox_decode v0 (NetBuffer_new out) = Inr ((v1, SidxBox_size v), \<lparr>nb_done = out, nb_rest = []\<rparr>) \<and>
    sidx_timescale v1 = sidx_timescale v \<and> sidx_entries v1 = []"
proof -
  obtain out where "SidxBox_encode v (NetBuffer_new buf) =
        Inr ((v\<lparr>b_size := of_int (SidxBox_size v)\<rparr>, SidxBox_size v), \<lparr>nb_done = out, nb_rest = drop (nat (SidxBox_size v)) buf\<rparr>)"
      "SidxBox_decode v0 (NetBuffer_new out) = Inr (((same SidxBox_size v0 v)\<lparr>sidx_entries := []\<rparr>, SidxBox_size v), \<lparr>nb_done = out, nb_rest = []\<rparr>)"
    using sidx.roundtrip [OF _ assms(4,5), of "[]"] assms(1-3) by (auto simp: sized_def)
  then show ?thesis by (intro exI conjI) (assumption | simp add: rebase_def sized_def)+
qed

definition one_index :: "SegmentIndexEntry list \<Rightarrow> SidxBox" where
  "one_index es = \<lparr>b_size = 0, b_type = 0x73696478, b_large_size = 0, b_user_type = [], version = 1, flags = 0,
     sidx_reference_id = 1, sidx_timescale = 1000, sidx_earliest_presentation_time = 5, sidx_first_offset = 0, sidx_entries = es\<rparr>"

abbreviation (input) "one_subsegment \<equiv> \<lparr>sie_reference_type = 0, sie_referenced_size = 500, sie_subsegment_duration = 40,
  sie_starts_with_SAP = 1, sie_SAP_type = 0, sie_SAP_delta_time = 0\<rparr>"

theorem sidx_decode_loses_entries_witness:
  "\<exists>out v1. SidxBox_encode (one_index [one_subsegment]) (NetBuffer_new (replicate 52 0)) =
      Inr (((one_index [one_subsegment])\<lparr>b_size := 52\<rparr>, 52), \<lparr>nb_done = out, nb_rest = []\<rparr>) \<and>
    SidxBox_decode (one_index []) (NetBuffer_new out) = Inr ((v1, 52), \<lparr>nb_done = out, nb_rest = []\<rparr>) \<and>
    sidx_timescale v1 = 1000 \<and> sidx_entries v1 = []"
proof -
  have size: "SidxBox_size (one_index [one_subsegment]) = 52" by code_simp
  have "full_ok SidxBox_size (one_index [one_subsegment])" by (simp only: full_ok_def plain_def size) (simp add: one_index_def)
  moreover have "sidx_entries (one_index es) = es" "version (one_index es) = 1" "sidx_timescale (one_index es) = 1000" for es
    by (simp_all add: one_index_def)
  ultimately show ?thesis
    using sidx_decode_loses_entries [of "one_index [one_subsegment]" "one_index []" "replicate 52 0"] by (simp add: size)
qed

text \<open>
  The encoder of a movie fragment with well-formed children, given a buffer, either writes exactly \<^verbatim>\<open>size()\<close> bytes, stores the
  sizes in the fragment and its children and leaves the rest of the buffer alone, or stops at the assertion of the buffer when the
  buffer is shorter than \<^verbatim>\<open>size()\<close>; it never writes beyond it.
\<close>
theorem moof_encode_exact:
  assumes "moof_ok v"
  shows "MoofBox_encode v (NetBuffer_new buf) =
    (if MoofBox_size v \<le> int (length buf)
     then Inr ((moof_upd v, MoofBox_size v),
       \<lparr>nb_done = fill (exactly (box_head (MoofBox_size v) (b_type v)) @ moof_body v) buf, nb_rest = drop (nat (MoofBox_size v)) buf\<rparr>)
     else Inl AssertFail)"
  using moof.encode_fits [OF assms] moof.encode_short [OF assms] by (simp add: not_le)

definition bare_moof :: MoofBox where
  "bare_moof = \<lparr>b_size = 0, b_type = 0x6d6f6f66, b_large_size = 0, b_user_type = [],
     moof_mfhd = Some \<lparr>b_size = 0, b_type = 0x6d666864, b_large_size = 0, b_user_type = [], version = 0, flags = 0, mfhd_sequence_number = 3\<rparr>,
     moof_traf = None\<rparr>"

theorem moof_encode_exact_witness:
  "MoofBox_size bare_moof = 24 \<and> MoofBox_encode bare_moof (NetBuffer_new (replicate 23 0)) = Inl AssertFail \<and>
   MoofBox_encode bare_moof (NetBuffer_new (replicate 24 0)) = Inr ((moof_upd bare_moof, 24),
     \<lparr>nb_done = [0, 0, 0, 24, 0x6d, 0x6f, 0x6f, 0x66, 0, 0, 0, 16, 0x6d, 0x66, 0x68, 0x64, 0, 0, 0, 0, 0, 0, 0, 3], nb_rest = []\<rparr>)"
proof -
  have size: "MoofBox_size bare_moof = 24" by code_simp
  then have ok: "moof_ok bare_moof"
    by (simp add: moof_ok_def plain_def full_ok_def bare_moof_def MfhdBox_size_def FullBox_size_def Box_size_def)
  have zeros: "replicate 24 (0 :: byte) = [0, 0, 0, 0, 0, 0, 0, 0, 0, 0, 0, 0, 0, 0, 0, 0, 0, 0, 0, 0, 0, 0, 0, 0]" by code_simp
  have "fill (exactly (box_head 24 (b_type bare_moof)) @ moof_body bare_moof) (replicate 24 0) =
      [0, 0, 0, 24, 0x6d, 0x6f, 0x6f, 0x66, 0, 0, 0, 16, 0x6d, 0x66, 0x68, 0x64, 0, 0, 0, 0, 0, 0, 0, 3]"
    unfolding zeros by (simp add: fill_def moof_body_def layout_opt_def bare_moof_def box_head_def full_head_def wire_eval MfhdBox_size_def FullBox_size_def
        Box_size_def)
  then show ?thesis
    using moof_encode_exact [OF ok, of "replicate 23 0"] moof_encode_exact [OF ok, of "replicate 24 0"] by (simp add: size)
qed

end
