(* ===== verification/FlvTag.thy ===== *)
theory FlvTag
  imports Packet
begin

text \<open>
  FLV headers, tag headers and tags (\<^verbatim>\<open>libs/protocol/rtmp/flv\<close>), which also frame the audio and video payloads
  of RTMP messages. A decoder returns the object and the value of its \<^verbatim>\<open>int32_t\<close> result (0: more data needed); a
  payload view is the bytes it shows.
\<close>

section \<open>File header\<close>

definition FlvHeader_encode :: "byte \<Rightarrow> enc" where
  "FlvHeader_encode flag buf =
     (if length buf < 9 then Inr (0, buf)
      else Inr (9, [0x46, 0x4c, 0x56, 0x01, flag, 0, 0, 0, 0x09] @ drop 9 buf))"

text \<open>Version and flags; \<open>None\<close> when more data is needed.\<close>
definition FlvHeader_decode :: "bytes \<Rightarrow> ((byte \<times> byte) option \<times> nat) result" where
  "FlvHeader_decode data =
     (if length data < 9 then Inr (None, 0)
      else if data ! 0 \<noteq> 0x46 \<or> data ! 1 \<noteq> 0x4c \<or> data ! 2 \<noteq> 0x56 then Inl (Rc (-1))
      else if data ! 8 \<noteq> 0x09 then Inl (Rc (-2))
      else Inr (Some (data ! 3, data ! 4), 9))"

section \<open>Tag header\<close>

record FlvTagHeader =
  th_tag_type :: byte
  th_data_size :: u32
  th_timestamp :: u32
  th_stream_id :: u32

definition FlvTagHeader_encode :: "FlvTagHeader \<Rightarrow> enc" where
  "FlvTagHeader_encode h buf =
     (if length buf < 1 then Inl (Rc (-1))
      else if length buf - 1 < 3 then Inl (Rc (-2))
      else if length buf - 4 < 4 then Inl (Rc (-3))
      else if length buf - 8 < 3 then Inl (Rc (-4))
      else Inr (11, [th_tag_type h] @ put_be 3 (th_data_size h) @ put_be 3 (th_timestamp h) @ [ucast (drop_bit 24 (th_timestamp h))] @
                    put_be 3 (th_stream_id h) @ drop 11 buf))"

text \<open>The top byte of the stream id is not written and keeps its value.\<close>
definition FlvTagHeader_decode :: "bytes \<Rightarrow> FlvTagHeader \<Rightarrow> FlvTagHeader \<times> nat" where
  "FlvTagHeader_decode data h =
     (if length data < 1 then (h, 0)
      else let h1 = h\<lparr>th_tag_type := data ! 0\<rparr> in
      if length data - 1 < 3 then (h1, 0)
      else let h2 = h1\<lparr>th_data_size := get_be (take 3 (drop 1 data))\<rparr> in
      if length data - 4 < 4 then (h2, 0)
      else let h3 = h2\<lparr>th_timestamp := get_be (take 3 (drop 4 data)) OR push_bit 24 (ucast (data ! 7))\<rparr> in
      if length data - 8 < 3 then (h3, 0)
      else (h3\<lparr>th_stream_id := set_low3 (th_stream_id h3) (take 3 (drop 8 data))\<rparr>, 11))"

section \<open>Audio tag header\<close>

abbreviation (input) AAC :: byte where "AAC \<equiv> 10"

record AudioTagHeader =
  sound_format :: byte
  sound_rate :: byte
  sound_size :: byte
  sound_type :: byte
  aac_packet_type :: byte

text \<open>The format of a new header is not initialised.\<close>
definition AudioTagHeader_new :: "byte \<Rightarrow> AudioTagHeader" where
  "AudioTagHeader_new junk = \<lparr>sound_format = junk AND 0x0f, sound_rate = 3, sound_size = 1, sound_type = 1, aac_packet_type = 0\<rparr>"

definition AudioTagHeader_is_seq_header :: "AudioTagHeader \<Rightarrow> bool" where
  "AudioTagHeader_is_seq_header h \<longleftrightarrow> aac_packet_type h = 0"

definition AudioTagHeader_decode :: "bytes \<Rightarrow> AudioTagHeader \<Rightarrow> AudioTagHeader \<times> int" where
  "AudioTagHeader_decode data h =
     (if length data < 1 then (h, -1)
      else let d = data ! 0;
               h1 = h\<lparr>sound_type := d AND 0x01, sound_size := drop_bit 1 d AND 0x01, sound_rate := drop_bit 2 d AND 0x03,
                      sound_format := drop_bit 4 d AND 0x0f\<rparr> in
      if sound_format h1 = AAC then
        (if length data - 1 < 1 then (h1, -2) else (h1\<lparr>aac_packet_type := data ! 1\<rparr>, 2))
      else (h1, 1))"

definition AudioTagHeader_encode :: "AudioTagHeader \<Rightarrow> enc" where
  "AudioTagHeader_encode h buf =
     (if length buf < 1 then Inl (Rc (-1))
      else let d = push_bit 4 (sound_format h) OR push_bit 2 (sound_rate h) OR push_bit 1 (sound_size h) OR sound_type h in
      if sound_format h = AAC then
        (if length buf - 1 < 1 then Inl (Rc (-2)) else Inr (2, [d, aac_packet_type h] @ drop 2 buf))
      else Inr (1, d # drop 1 buf))"

section \<open>Video tag header\<close>

abbreviation (input) AVC :: u32 where "AVC \<equiv> 7"
abbreviation (input) HEVC :: u32 where "HEVC \<equiv> 12"
abbreviation (input) HEVC_FOURCC :: u32 where "HEVC_FOURCC \<equiv> 0x68766331"
abbreviation (input) PacketTypeSequeneStart :: byte where "PacketTypeSequeneStart \<equiv> 0"
abbreviation (input) PacketTypeCodedFrames :: byte where "PacketTypeCodedFrames \<equiv> 1"
abbreviation (input) PacketTypeSequenceEnd :: byte where "PacketTypeSequenceEnd \<equiv> 2"
abbreviation (input) PacketTypeCodedFramesX :: byte where "PacketTypeCodedFramesX \<equiv> 3"

record VideoTagHeader =
  frame_type :: byte
  codec_id :: u32
  avc_packet_type :: byte
  composition_time :: u32
  is_extheader :: bool
  ext_packet_type :: byte
  fourcc :: u32
  vh_size :: int

text \<open>Frame type, extended packet type and four-character code of a new header are not initialised.\<close>
definition VideoTagHeader_new :: "byte \<Rightarrow> byte \<Rightarrow> u32 \<Rightarrow> VideoTagHeader" where
  "VideoTagHeader_new ft et fc = \<lparr>frame_type = ft, codec_id = AVC, avc_packet_type = 0, composition_time = 0,
     is_extheader = False, ext_packet_type = et, fourcc = fc, vh_size = -1\<rparr>"

definition is_key_frame :: "VideoTagHeader \<Rightarrow> bool" where
  "is_key_frame h \<longleftrightarrow> frame_type h = 1"

definition VideoTagHeader_is_seq_header :: "VideoTagHeader \<Rightarrow> bool" where
  "VideoTagHeader_is_seq_header h =
     (if \<not> is_extheader h then
        (if codec_id h = AVC \<or> codec_id h = HEVC \<or> codec_id h = HEVC_FOURCC then avc_packet_type h = 0 else False)
      else
        (if codec_id h = HEVC \<or> codec_id h = HEVC_FOURCC \<or> fourcc h = HEVC_FOURCC
         then ext_packet_type h = PacketTypeSequeneStart else False))"

definition decode_ext :: "bytes \<Rightarrow> VideoTagHeader \<Rightarrow> VideoTagHeader \<times> int" where
  "decode_ext data h0 =
     (let h = h0\<lparr>ext_packet_type := data ! 0 AND 0x0f\<rparr> in
      if length data - 1 < 4 then (h, 0)
      else let h1 = h\<lparr>fourcc := get_be (take 4 (drop 1 data))\<rparr> in
      if fourcc h1 \<noteq> HEVC_FOURCC then (h1, -1)
      else let h2 = h1\<lparr>codec_id := HEVC\<rparr> in
      if ext_packet_type h2 = PacketTypeSequeneStart then (h2\<lparr>avc_packet_type := 0, vh_size := 5\<rparr>, 5)
      else if ext_packet_type h2 = PacketTypeCodedFrames then
        (if length data - 5 < 3 then (h2, 0)
         else (h2\<lparr>composition_time := get_be (take 3 (drop 5 data)), avc_packet_type := 1, vh_size := 8\<rparr>, 8))
      else if ext_packet_type h2 = PacketTypeCodedFramesX then (h2\<lparr>avc_packet_type := 1, vh_size := 5\<rparr>, 5)
      else if ext_packet_type h2 = PacketTypeSequenceEnd then (h2\<lparr>avc_packet_type := 2, vh_size := 5\<rparr>, 5)
      else (h2\<lparr>vh_size := 5\<rparr>, 5))"

definition VideoTagHeader_decode :: "bytes \<Rightarrow> VideoTagHeader \<Rightarrow> VideoTagHeader \<times> int" where
  "VideoTagHeader_decode data h0 =
     (if length data < 1 then (h0, 0)
      else let t = drop_bit 4 (data ! 0) AND 0x0f;
               h = h0\<lparr>is_extheader := is_extheader h0 \<or> t AND 0x08 \<noteq> 0, frame_type := drop_bit 4 (data ! 0) AND 0x07\<rparr> in
      if is_extheader h then decode_ext data h
      else let h1 = h\<lparr>codec_id := ucast (data ! 0 AND 0x0f)\<rparr> in
      if codec_id h1 = AVC \<or> codec_id h1 = HEVC then
        (if length data - 1 < 4 then (h1, 0)
         else (h1\<lparr>avc_packet_type := data ! 1, composition_time := get_be (take 3 (drop 2 data)), vh_size := 5\<rparr>, 5))
      else (h1, -1))"

text \<open>
  The encoder; it may normalise the codec id of its object, which is returned with the bytes. The return value 0
  for a short buffer is the pair with 0 bytes.
\<close>
definition VideoTagHeader_encode :: "VideoTagHeader \<Rightarrow> enc" where
  "VideoTagHeader_encode h buf =
     (if \<not> is_extheader h then
        (if length buf < 1 then Inr (0, buf)
         else let d = push_bit 4 (frame_type h) OR ucast (codec_id h);
                  c = (if codec_id h = HEVC_FOURCC then HEVC else codec_id h) in
         if c = AVC \<or> c = HEVC then
           (if length buf - 1 < 4 then Inl (Rc (-2))
            else Inr (5, [d, avc_packet_type h] @ put_be 3 (composition_time h) @ drop 5 buf))
         else Inl (Rc (-1)))
      else if length buf < 1 then Inr (0, buf)
      else let d = 0x80 OR push_bit 4 (frame_type h AND 0x0f) OR (ext_packet_type h AND 0x0f) in
        if length buf - 1 < 4 then Inr (0, d # drop 1 buf)
        else if fourcc h = HEVC_FOURCC \<and> ext_packet_type h = PacketTypeCodedFrames then
          (if length buf - 5 < 3 then Inr (0, d # put_be 4 (fourcc h) @ drop 5 buf)
           else Inr (8, d # put_be 4 (fourcc h) @ put_be 3 (composition_time h) @ drop 8 buf))
        else Inr (5, d # put_be 4 (fourcc h) @ drop 5 buf))"

definition VideoTagHeader_size :: "VideoTagHeader \<Rightarrow> nat" where
  "VideoTagHeader_size h =
     (if \<not> is_extheader h then 1 + (if codec_id h = AVC \<or> codec_id h = HEVC then 4 else 0)
      else 5 + (if fourcc h = HEVC_FOURCC \<and> ext_packet_type h = PacketTypeCodedFrames then 3 else 0))"

section \<open>Tags\<close>

text \<open>The presentation and decoding times of a video are set for AVC only.\<close>
datatype TAGDATA =
    AUDIODATA AudioTagHeader bytes
  | VIDEODATA VideoTagHeader bytes "u32 option" "u32 option"
  | SCRIPTDATA bytes

text \<open>The uninitialised members of new audio and video headers.\<close>
type_synonym junk = "byte \<times> byte \<times> byte \<times> u32"

definition AUDIODATA_decode :: "junk \<Rightarrow> bytes \<Rightarrow> TAGDATA \<times> int" where
  "AUDIODATA_decode j data = (case j of (sf, _) \<Rightarrow>
     case AudioTagHeader_decode data (AudioTagHeader_new sf) of (h, consumed) \<Rightarrow>
       if consumed < 0 then (AUDIODATA h [], -1) else (AUDIODATA h (drop (nat consumed) data), int (length data)))"

definition VIDEODATA_decode :: "junk \<Rightarrow> bytes \<Rightarrow> TAGDATA \<times> int" where
  "VIDEODATA_decode j data = (case j of (_, ft, et, fc) \<Rightarrow>
     case VideoTagHeader_decode data (VideoTagHeader_new ft et fc) of (h, consumed) \<Rightarrow>
       if consumed \<le> 0 then (VIDEODATA h [] None None, consumed)
       else (VIDEODATA h (drop (nat consumed) data) None None, int (length data)))"

fun set_times :: "u32 \<Rightarrow> TAGDATA \<Rightarrow> TAGDATA" where
  "set_times ts (VIDEODATA h p pts dts) =
     (if codec_id h = AVC then VIDEODATA h p (Some (ts + composition_time h)) (Some ts) else VIDEODATA h p pts dts)"
| "set_times ts d = d"

record FlvTag = Packet +
  tag_header :: FlvTagHeader
  tag_data :: "TAGDATA option"

text \<open>The data of a tag, from the bytes its header announces: the new data and the result of the inner decoder.\<close>
definition decode_tag_data :: "junk \<Rightarrow> FlvTagHeader \<Rightarrow> bytes \<Rightarrow> (TAGDATA \<times> int) option" where
  "decode_tag_data j h body =
     (let t = th_tag_type h AND 0x1f in
      if t = 8 then Some (AUDIODATA_decode j body)
      else if t = 9 then
        (case VIDEODATA_decode j body of (d, consumed) \<Rightarrow> Some (if consumed > 0 then set_times (th_timestamp h) d else d, consumed))
      else if t = 18 then Some (SCRIPTDATA body, int (length body))
      else None)"

definition FlvTag_decode :: "junk \<Rightarrow> bytes \<Rightarrow> FlvTag \<Rightarrow> FlvTag \<times> int" where
  "FlvTag_decode j data tag = (case FlvTagHeader_decode data (tag_header tag) of (h, consumed) \<Rightarrow>
     let tag1 = tag\<lparr>tag_header := h\<rparr> in
     if consumed = 0 then (tag1, 0)
     else if length data - consumed < unat (th_data_size h) then (tag1, 0)
     else case decode_tag_data j h (take (unat (th_data_size h)) (drop consumed data)) of
         None \<Rightarrow> (tag1, -3)
       | Some (d, c) \<Rightarrow> let tag2 = tag1\<lparr>tag_data := Some d\<rparr> in
           if c < 0 then (tag2, -2) else if c = 0 then (tag2, 0) else (tag2, int consumed + c))"

text \<open>The variant that keeps a copy of the bytes, and the data refers to the copy.\<close>
definition FlvTag_decode_and_store :: "junk \<Rightarrow> bytes \<Rightarrow> FlvTag \<Rightarrow> FlvTag \<times> int" where
  "FlvTag_decode_and_store j data tag = (case FlvTagHeader_decode data (tag_header tag) of (h, consumed) \<Rightarrow>
     let tag1 = tag\<lparr>tag_header := h\<rparr> in
     if consumed = 0 then (tag1, 0)
     else if length data - consumed < unat (th_data_size h) then (tag1, 0)
     else let total = consumed + unat (th_data_size h);
              tag2 = tag1\<lparr>data_buf := take total data, using_bytes := 0\<rparr> in
       case decode_tag_data j h (take (unat (th_data_size h)) (drop consumed (data_buf tag2))) of
         None \<Rightarrow> (tag2, -3)
       | Some (d, c) \<Rightarrow> let tag3 = tag2\<lparr>tag_data := Some d\<rparr> in
           if c < 0 then (tag3, -2) else (inc_used_bytes total tag3, int total))"

text \<open>Writing the data; the payload follows its header.\<close>
definition with_payload :: "enc \<Rightarrow> bytes \<Rightarrow> enc" where
  "with_payload e p buf = (case e buf of
       Inl (Rc _) \<Rightarrow> Inl (Rc (-1)) | Inl f \<Rightarrow> Inl f
     | Inr (c, buf') \<Rightarrow> if length buf' - c < length p then Inl (Rc (-2))
         else Inr (c + length p, take c buf' @ p @ drop (c + length p) buf'))"

fun TAGDATA_encode :: "TAGDATA \<Rightarrow> enc" where
  "TAGDATA_encode (AUDIODATA h p) buf = with_payload (AudioTagHeader_encode h) p buf"
| "TAGDATA_encode (VIDEODATA h p pts dts) buf = with_payload (VideoTagHeader_encode h) p buf"
| "TAGDATA_encode (SCRIPTDATA p) buf =
     (if length buf < length p then Inl (Rc (-1)) else Inr (length p, p @ drop (length p) buf))"

definition FlvTag_encode :: "FlvTag \<Rightarrow> (FlvTag \<times> nat) result" where
  "FlvTag_encode tag = bindR (orfail (-1) (FlvTagHeader_encode (tag_header tag) (data_buf tag))) (\<lambda>(c, buf).
     case tag_data tag of None \<Rightarrow> Inl Oob
     | Some d \<Rightarrow> bindR (orfail (-2) (TAGDATA_encode d (drop c buf))) (\<lambda>(c2, rest).
         Inr (inc_used_bytes (c + c2) (tag\<lparr>data_buf := take c buf @ rest\<rparr>), c + c2)))"

section \<open>Bits of the header bytes\<close>

lemma byte_masks: "(1 :: byte) = mask 1" "(3 :: byte) = mask 2" "(7 :: byte) = mask 3" "(0xf :: byte) = mask 4"
  by (simp_all add: mask_eq_exp_minus_1)

lemma bit_single: "bit (8 :: int) n \<longleftrightarrow> n = 3" "bit (128 :: int) n \<longleftrightarrow> n = 7"
  using bit_exp_iff [of 3 n, where ?'a = int] bit_exp_iff [of 7 n, where ?'a = int] by simp_all

lemma audio_byte:
  assumes "unat f < 2 ^ 4" "unat r < 2 ^ 2" "unat s < 2 ^ 1" "unat t < 2 ^ 1"
    and d: "d = push_bit 4 f OR push_bit 2 r OR push_bit 1 s OR (t :: byte)"
  shows "d AND 1 = t" "drop_bit 1 d AND 1 = s" "drop_bit 2 d AND 3 = r" "drop_bit 4 d AND 0xf = f"
  unfolding byte_masks d
  by (rule bit_word_eqI; auto simp: bit_simps bit_single simp del: push_bit_Suc dest: bit_below [OF assms(1)] bit_below [OF assms(2)] bit_below [OF assms(3)] bit_below [OF assms(4)])+

lemma video_byte:
  assumes "unat f < 2 ^ 3" "unat c < 2 ^ 4" and d: "d = push_bit 4 f OR (c :: byte)"
  shows "(drop_bit 4 d AND 0xf) AND 8 = 0" "drop_bit 4 d AND 7 = f" "d AND 0xf = c"
  unfolding byte_masks d
  by (rule bit_word_eqI; auto simp: bit_simps bit_single simp del: push_bit_Suc dest: bit_below [OF assms(1)] bit_below [OF assms(2)])+

lemma ext_byte:
  assumes "unat f < 2 ^ 3" "unat e < 2 ^ 4" and d: "d = 0x80 OR push_bit 4 (f AND 0xf) OR (e AND 0xf :: byte)"
  shows "(drop_bit 4 d AND 0xf) AND 8 \<noteq> 0" "drop_bit 4 d AND 7 = f" "d AND 0xf = e"
proof -
  have "bit ((drop_bit 4 d AND 0xf) AND 8) 3"
    unfolding byte_masks d by (simp add: bit_simps bit_single)
  then show "(drop_bit 4 d AND 0xf) AND 8 \<noteq> 0" by (metis bit_0_eq bot_apply bot_bool_def)
qed (unfold byte_masks d, (rule bit_word_eqI; auto simp: bit_simps bit_single simp del: push_bit_Suc dest: bit_below [OF assms(1)] bit_below [OF assms(2)])+)

lemma timestamp_bytes:
  "get_be (put_be 3 (t :: u32)) OR push_bit 24 (ucast (ucast (drop_bit 24 t) :: byte)) = t"
proof -
  have "get_be (put_be 3 t) = (take_bit 24 t :: u32)"
    by (simp add: get_be_def get_be_put_be_trunc take_bit_eq_mod word_unat_eq_iff unsigned_take_bit_eq unat_of_nat unat_mod)
  moreover have "take_bit 24 t OR push_bit 24 (ucast (ucast (drop_bit 24 t) :: byte)) = t"
    by (rule bit_word_eqI) (auto simp: bit_simps)
  ultimately show ?thesis by simp
qed

section \<open>Headers read back\<close>

definition audio_ok :: "AudioTagHeader \<Rightarrow> bool" where
  "audio_ok h \<longleftrightarrow> unat (sound_format h) < 2 ^ 4 \<and> unat (sound_rate h) < 2 ^ 2 \<and> unat (sound_size h) < 2 ^ 1 \<and>
     unat (sound_type h) < 2 ^ 1 \<and> (sound_format h \<noteq> AAC \<longrightarrow> aac_packet_type h = 0)"

definition audio_bytes :: "AudioTagHeader \<Rightarrow> bytes" where
  "audio_bytes h = (push_bit 4 (sound_format h) OR push_bit 2 (sound_rate h) OR push_bit 1 (sound_size h) OR sound_type h) #
     (if sound_format h = AAC then [aac_packet_type h] else [])"

lemma audio_encode_writes: "writes (AudioTagHeader_encode h) (audio_bytes h)"
  by (rule writesI) (auto simp: AudioTagHeader_encode_def audio_bytes_def Let_def Suc_le_eq numeral_2_eq_2 simp del: push_bit_Suc)

lemma audio_decode:
  assumes "audio_ok h"
  shows "AudioTagHeader_decode (audio_bytes h @ rest) (AudioTagHeader_new j) = (h, int (length (audio_bytes h)))"
proof -
  have ok: "unat (sound_format h) < 2 ^ 4" "unat (sound_rate h) < 2 ^ 2" "unat (sound_size h) < 2 ^ 1" "unat (sound_type h) < 2 ^ 1"
    using assms by (simp_all only: audio_ok_def)
  define d where "d = push_bit 4 (sound_format h) OR push_bit 2 (sound_rate h) OR push_bit 1 (sound_size h) OR sound_type h"
  note bits = audio_byte [OF ok d_def]
  have "audio_bytes h @ rest = d # ((if sound_format h = AAC then [aac_packet_type h] else []) @ rest)"
    by (simp add: audio_bytes_def d_def del: push_bit_Suc)
  moreover have "length (audio_bytes h) = (if sound_format h = AAC then 2 else 1)" by (simp add: audio_bytes_def)
  ultimately show ?thesis
    using assms by (simp add: AudioTagHeader_decode_def Let_def bits AudioTagHeader_new_def audio_ok_def
      del: push_bit_Suc One_nat_def)
qed

definition video_ok :: "VideoTagHeader \<Rightarrow> bool" where
  "video_ok h \<longleftrightarrow> unat (frame_type h) < 2 ^ 3 \<and> unat (composition_time h) < 2 ^ 24 \<and>
     (if is_extheader h then unat (ext_packet_type h) < 2 ^ 4 \<and> fourcc h = HEVC_FOURCC \<and> codec_id h = HEVC \<and>
        (ext_packet_type h = PacketTypeCodedFrames \<or> composition_time h = 0) \<and>
        avc_packet_type h = (if ext_packet_type h = PacketTypeCodedFrames \<or> ext_packet_type h = PacketTypeCodedFramesX then 1
          else if ext_packet_type h = PacketTypeSequenceEnd then 2 else 0)
      else codec_id h = AVC \<or> codec_id h = HEVC) \<and> vh_size h = int (VideoTagHeader_size h)"

definition video_bytes :: "VideoTagHeader \<Rightarrow> bytes" where
  "video_bytes h =
     (if is_extheader h then (0x80 OR push_bit 4 (frame_type h AND 0x0f) OR (ext_packet_type h AND 0x0f)) # put_be 4 (fourcc h) @
        (if ext_packet_type h = PacketTypeCodedFrames then put_be 3 (composition_time h) else [])
      else [push_bit 4 (frame_type h) OR ucast (codec_id h), avc_packet_type h] @ put_be 3 (composition_time h))"

lemma video_encode_writes:
  assumes "video_ok h"
  shows "writes (VideoTagHeader_encode h) (video_bytes h)"
proof (rule writesI)
  fix buf :: bytes
  assume len: "length (video_bytes h) \<le> length buf"
  have "buf \<noteq> []" "\<not> length buf \<le> 4" using len by (auto simp: video_bytes_def split: if_splits)
  moreover have "\<not> length buf - 5 < 3" if "is_extheader h" "ext_packet_type h = PacketTypeCodedFrames"
    using len that by (simp add: video_bytes_def)
  ultimately show "VideoTagHeader_encode h buf = Inr (length (video_bytes h), video_bytes h @ drop (length (video_bytes h)) buf)"
    using assms by (cases "is_extheader h") (auto simp: VideoTagHeader_encode_def video_bytes_def video_ok_def Let_def)
qed

lemma video_decode:
  assumes "video_ok h"
  shows "VideoTagHeader_decode (video_bytes h @ rest) (VideoTagHeader_new ft et fc) =
    (if is_extheader h then h else h\<lparr>ext_packet_type := et, fourcc := fc\<rparr>, int (length (video_bytes h)))"
proof (cases "is_extheader h")
  case True
  have ok: "unat (frame_type h) < 2 ^ 3" "unat (ext_packet_type h) < 2 ^ 4" using assms True by (simp_all add: video_ok_def)
  define d where "d = 0x80 OR push_bit 4 (frame_type h AND 0x0f) OR (ext_packet_type h AND 0x0f)"
  note bits = ext_byte [OF ok d_def]
  have w: "video_bytes h @ rest = d # put_be 4 HEVC_FOURCC @
      (if ext_packet_type h = PacketTypeCodedFrames then put_be 3 (composition_time h) else []) @ rest"
    using assms True by (simp add: video_bytes_def d_def video_ok_def)
  have ct: "get_be (put_be 3 (composition_time h)) = composition_time h"
    using assms by (simp add: get_be_def get_be_put_be_trunc video_ok_def)
  have sz: "vh_size h = int (length (video_bytes h))" "int (length (video_bytes h)) = (if ext_packet_type h = PacketTypeCodedFrames then 8 else 5)"
    using assms True by (auto simp: video_ok_def VideoTagHeader_size_def video_bytes_def)
  have "h = \<lparr>frame_type = frame_type h, codec_id = HEVC, avc_packet_type = avc_packet_type h, composition_time = composition_time h,
      is_extheader = True, ext_packet_type = ext_packet_type h, fourcc = HEVC_FOURCC, vh_size = vh_size h\<rparr>"
    using assms True by (cases h) (simp add: video_ok_def)
  then show ?thesis
    unfolding w VideoTagHeader_decode_def decode_ext_def sz(2) using assms True bits ct sz
    by (simp add: Let_def VideoTagHeader_new_def video_ok_def split: if_split_asm)
next
  case False
  have ok: "unat (frame_type h) < 2 ^ 3" "unat (ucast (codec_id h) :: byte) < 2 ^ 4" "ucast (ucast (codec_id h) :: byte) = codec_id h"
    using assms False by (auto simp: video_ok_def)
  define d where "d = push_bit 4 (frame_type h) OR (ucast (codec_id h) :: byte)"
  note bits = video_byte [OF ok(1,2) d_def]
  have w: "video_bytes h @ rest = d # avc_packet_type h # put_be 3 (composition_time h) @ rest"
    using False by (simp add: video_bytes_def d_def)
  have ct: "get_be (put_be 3 (composition_time h)) = composition_time h"
    using assms by (simp add: get_be_def get_be_put_be_trunc video_ok_def)
  have sz: "vh_size h = 5" "int (length (video_bytes h)) = 5"
    using assms False by (auto simp: video_ok_def VideoTagHeader_size_def video_bytes_def)
  have "h\<lparr>ext_packet_type := et, fourcc := fc\<rparr> = \<lparr>frame_type = frame_type h, codec_id = codec_id h,
      avc_packet_type = avc_packet_type h, composition_time = composition_time h,
      is_extheader = False, ext_packet_type = et, fourcc = fc, vh_size = 5\<rparr>"
    using False sz by (cases h) simp
  then show ?thesis
    unfolding w VideoTagHeader_decode_def sz(2) using assms False bits ct ok(3)
    by (simp add: Let_def VideoTagHeader_new_def video_ok_def)
qed

section \<open>Tags read back\<close>

text \<open>The bytes of the data of a tag, its type, and what a reader makes of it.\<close>

primrec data_bytes :: "TAGDATA \<Rightarrow> bytes" where
  "data_bytes (AUDIODATA h p) = audio_bytes h @ p"
| "data_bytes (VIDEODATA h p pts dts) = video_bytes h @ p"
| "data_bytes (SCRIPTDATA p) = p"

primrec data_ok :: "TAGDATA \<Rightarrow> bool" where
  "data_ok (AUDIODATA h p) \<longleftrightarrow> audio_ok h"
| "data_ok (VIDEODATA h p pts dts) \<longleftrightarrow> video_ok h"
| "data_ok (SCRIPTDATA p) \<longleftrightarrow> True"

primrec data_kind :: "TAGDATA \<Rightarrow> byte" where
  "data_kind (AUDIODATA h p) = 8"
| "data_kind (VIDEODATA h p pts dts) = 9"
| "data_kind (SCRIPTDATA p) = 18"

primrec data_seen :: "junk \<Rightarrow> u32 \<Rightarrow> TAGDATA \<Rightarrow> TAGDATA" where
  "data_seen j ts (AUDIODATA h p) = AUDIODATA h p"
| "data_seen j ts (VIDEODATA h p pts dts) = (case j of (_, _, et, fc) \<Rightarrow>
     set_times ts (VIDEODATA (if is_extheader h then h else h\<lparr>ext_packet_type := et, fourcc := fc\<rparr>) p None None))"
| "data_seen j ts (SCRIPTDATA p) = SCRIPTDATA p"

lemma with_payload_writes:
  assumes "writes e w"
  shows "writes (with_payload e p) (w @ p)"
proof (rule writesI)
  fix buf :: bytes
  assume "length (w @ p) \<le> length buf"
  with writesD [OF assms, of buf] show "with_payload e p buf = Inr (length (w @ p), (w @ p) @ drop (length (w @ p)) buf)"
    by (simp add: with_payload_def add.commute)
qed

lemma data_encode_writes: "data_ok d \<Longrightarrow> writes (TAGDATA_encode d) (data_bytes d)"
  using with_payload_writes [OF audio_encode_writes] with_payload_writes [OF video_encode_writes]
  by (cases d) (simp_all add: writes_def)

lemma video_bytes_pos [simp]: "0 < int (length (video_bytes h)) + int (length p)" "video_bytes h \<noteq> []"
  by (simp_all add: video_bytes_def)

lemma decode_tag_data_ok:
  assumes "data_ok d" and "th_tag_type h AND 0x1f = data_kind d"
  shows "\<exists>c. decode_tag_data j h (data_bytes d) = Some (data_seen j (th_timestamp h) d, c) \<and> 0 \<le> c"
  using assms
  by (cases d; cases j)
     (simp_all add: decode_tag_data_def AUDIODATA_decode_def VIDEODATA_decode_def audio_decode video_decode Let_def)

definition tag_header_bytes :: "FlvTagHeader \<Rightarrow> bytes" where
  "tag_header_bytes h = [th_tag_type h] @ put_be 3 (th_data_size h) @ put_be 3 (th_timestamp h) @
     [ucast (drop_bit 24 (th_timestamp h))] @ put_be 3 (th_stream_id h)"

lemma length_tag_header [simp]: "length (tag_header_bytes h) = 11"
  by (simp add: tag_header_bytes_def)

lemma tag_header_writes: "writes (FlvTagHeader_encode h) (tag_header_bytes h)"
  by (rule writesI) (auto simp: FlvTagHeader_encode_def tag_header_bytes_def)

lemma tag_header_decode:
  assumes "unat (th_data_size h) < 2 ^ 24"
  shows "FlvTagHeader_decode (tag_header_bytes h @ rest) h0 =
    (h\<lparr>th_stream_id := set_low3 (th_stream_id h0) (put_be 3 (th_stream_id h))\<rparr>, 11)"
proof -
  have size: "get_be (put_be 3 (th_data_size h)) = th_data_size h"
    using assms by (simp add: get_be_def get_be_put_be_trunc)
  have w: "tag_header_bytes h @ rest = th_tag_type h # put_be 3 (th_data_size h) @ put_be 3 (th_timestamp h) @
      ucast (drop_bit 24 (th_timestamp h)) # put_be 3 (th_stream_id h) @ rest" by (simp add: tag_header_bytes_def)
  have "(put_be 3 (th_data_size h) @ put_be 3 (th_timestamp h) @
      ucast (drop_bit 24 (th_timestamp h)) # put_be 3 (th_stream_id h) @ rest) ! 6 = (ucast (drop_bit 24 (th_timestamp h)) :: byte)"
    by (simp add: nth_append)
  then show ?thesis
    unfolding w FlvTagHeader_decode_def using size timestamp_bytes [of "th_timestamp h"]
    by (simp add: Let_def)
qed

section \<open>Properties\<close>

text \<open>
  C28. An FLV tag is written into a buffer with room for it and read back by the storing decoder, whatever
  follows: same tag header (24 bits of the stream id), same audio, video or script data, the presentation time of an AVC
  frame being the tag time plus the composition time, and the stored bytes are the written ones. Every legal header is covered:
  AAC and other sounds, AVC and HEVC frames, and the enhanced header with its packet types.
\<close>
theorem flv_tag_roundtrip:
  assumes "tag_data tag = Some d" and "data_ok d" and "th_tag_type (tag_header tag) AND 0x1f = data_kind d"
    and "unat (th_data_size (tag_header tag)) = length (data_bytes d)" and "length (data_bytes d) < 2 ^ 24"
    and "using_bytes tag = 0" and "11 + length (data_bytes d) \<le> length (data_buf tag)"
  shows "\<exists>tag' w n stored. FlvTag_encode tag = Inr (tag', n) \<and> n = 11 + length (data_bytes d) \<and> get_using_data tag' = Inr w \<and>
    FlvTag_decode_and_store j (w @ rest) tag0 = (stored, int n) \<and>
    tag_header stored = (tag_header tag)\<lparr>th_stream_id :=
      set_low3 (th_stream_id (tag_header tag0)) (put_be 3 (th_stream_id (tag_header tag)))\<rparr> \<and>
    tag_data stored = Some (data_seen j (th_timestamp (tag_header tag)) d) \<and> get_using_data stored = Inr w"
proof -
  let ?h = "tag_header tag" and ?b = "data_bytes d"
  let ?w = "tag_header_bytes ?h @ ?b" and ?buf = "data_buf tag"
  let ?h' = "?h\<lparr>th_stream_id := set_low3 (th_stream_id (tag_header tag0)) (put_be 3 (th_stream_id ?h))\<rparr>"
  have "FlvTagHeader_encode ?h ?buf = Inr (11, tag_header_bytes ?h @ drop 11 ?buf)"
    using writesD [OF tag_header_writes, of ?h ?buf] assms(7) by simp
  moreover have "TAGDATA_encode d (drop 11 ?buf) = Inr (length ?b, ?b @ drop (length ?b) (drop 11 ?buf))"
    using assms(7) by (intro writesD [OF data_encode_writes [OF assms(2)]]) simp
  ultimately have enc: "FlvTag_encode tag = Inr (inc_used_bytes (11 + length ?b) (tag\<lparr>data_buf := ?w @ drop (11 + length ?b) ?buf\<rparr>), 11 + length ?b)"
    using assms(1) by (simp add: FlvTag_encode_def add.commute)
  obtain c where c: "decode_tag_data j ?h' ?b = Some (data_seen j (th_timestamp ?h) d, c)" "0 \<le> c"
    using decode_tag_data_ok [of d ?h' j] assms(2,3) by auto
  have "FlvTagHeader_decode (?w @ rest) (tag_header tag0) = (?h', 11)"
    using tag_header_decode [of ?h "?b @ rest" "tag_header tag0"] assms(4,5) by simp
  then have dec: "FlvTag_decode_and_store j (?w @ rest) tag0 = (inc_used_bytes (11 + length ?b)
      (tag0\<lparr>tag_header := ?h', data_buf := ?w, using_bytes := 0, tag_data := Some (data_seen j (th_timestamp ?h) d)\<rparr>), int (11 + length ?b))"
    using c assms(4) by (simp add: FlvTag_decode_and_store_def Let_def)
  show ?thesis using enc dec assms(6)
    by (simp add: inc_used_bytes_def get_using_data_def)
qed

definition sample_video :: VideoTagHeader where
  "sample_video = \<lparr>frame_type = 1, codec_id = AVC, avc_packet_type = 1, composition_time = 40, is_extheader = False,
     ext_packet_type = 0, fourcc = 0, vh_size = 5\<rparr>"

definition sample_tag :: FlvTag where
  "sample_tag = \<lparr>data_buf = replicate 20 0, using_bytes = 0,
     tag_header = \<lparr>th_tag_type = 9, th_data_size = 7, th_timestamp = 0x01000010, th_stream_id = 0\<rparr>,
     tag_data = Some (VIDEODATA sample_video [0x65, 0x88] None None)\<rparr>"

theorem flv_tag_roundtrip_witness:
  "\<exists>tag' w stored. FlvTag_encode sample_tag = Inr (tag', 18) \<and> get_using_data tag' = Inr w \<and>
    FlvTag_decode_and_store (0, 0, 0, 0) w sample_tag = (stored, 18) \<and>
    tag_data stored = Some (VIDEODATA sample_video [0x65, 0x88] (Some 0x01000038) (Some 0x01000010))"
  using flv_tag_roundtrip [of sample_tag "VIDEODATA sample_video [0x65, 0x88] None None" "(0, 0, 0, 0)" "[]" sample_tag]
  by (simp add: sample_tag_def sample_video_def video_ok_def VideoTagHeader_size_def video_bytes_def) blast

text \<open>
  The composition time of a video frame is taken as unsigned: whatever the bytes, a successfully decoded header of a new
  object has one below \<open>2\<^sup>2\<^sup>4\<close>, so the three bytes of a negative offset \<open>-x\<close> are read as \<open>2\<^sup>2\<^sup>4 - x\<close>.
\<close>
theorem video_composition_time_unsigned:
  assumes "VideoTagHeader_decode data (VideoTagHeader_new ft et fc) = (h, n)"
  shows "unat (composition_time h) < 2 ^ 24"
proof -
  have three: "unat (get_be bs :: u32) < 2 ^ 24" if "length bs = 3" for bs :: bytes
    using be_nat_bound [of bs] that by (simp add: unat_get_be)
  show ?thesis
    using assms three [of "take 3 (drop 2 data)"] three [of "take 3 (drop 5 data)"]
    by (auto simp: VideoTagHeader_decode_def decode_ext_def VideoTagHeader_new_def Let_def split: if_splits)
qed

theorem video_composition_time_unsigned_witness:
  "\<exists>h. VideoTagHeader_decode [0x27, 1, 0xff, 0xff, 0xd8] (VideoTagHeader_new 0 0 0) = (h, 5) \<and>
     unat (composition_time h) < 2 ^ 24 \<and> composition_time h = 16777176"
proof -
  have "VideoTagHeader_decode [0x27, 1, 0xff, 0xff, 0xd8] (VideoTagHeader_new 0 0 0) =
      (\<lparr>frame_type = 2, codec_id = 7, avc_packet_type = 1, composition_time = 16777176, is_extheader = False,
        ext_packet_type = 0, fourcc = 0, vh_size = 5\<rparr>, 5)"
    by (simp add: VideoTagHeader_decode_def VideoTagHeader_new_def Let_def get_be_def be_nat_def)
  from video_composition_time_unsigned [OF this] this show ?thesis by simp
qed

end
