(* ===== verification/Mp4Segment.thy ===== *)
theory Mp4Segment
  imports Mp4Fragment FlvTag
begin

text \<open>
  Media segments: the growing buffer of \<^verbatim>\<open>libs/protocol/mp4/m4s_segment.cpp\<close> and the two functions of
  \<^verbatim>\<open>live-server/bridge/rtmp/rtmp_to_m4s.cpp\<close> that cut a segment from the queued RTMP packets:
  \<^verbatim>\<open>styp\<close>, \<^verbatim>\<open>sidx\<close>, \<^verbatim>\<open>moof\<close> and \<^verbatim>\<open>mdat\<close>, each encoded into a view of the buffer.
\<close>

section \<open>The buffer\<close>

abbreviation (input) MP4_DEFAULT_SIZE :: nat where "MP4_DEFAULT_SIZE \<equiv> 1024 * 1024"

record Mp4Segment =
  seg_filename :: string
  seg_buf :: bytes
  seg_used :: nat
  seg_seq_no :: u32
  seg_start_timestamp :: int
  seg_end_timestamp :: int
  seg_duration_ms :: int

definition Mp4Segment_new :: "Mp4Segment" where
  "Mp4Segment_new = \<lparr>seg_filename = [], seg_buf = replicate MP4_DEFAULT_SIZE 0, seg_used = 0, seg_seq_no = 0, seg_start_timestamp = -1,
     seg_end_timestamp = 0, seg_duration_ms = 0\<rparr>"

text \<open>The offset and the size of the view that is handed out.\<close>
definition alloc_buffer :: "nat \<Rightarrow> Mp4Segment \<Rightarrow> (nat \<times> nat) \<times> Mp4Segment" where
  "alloc_buffer s seg =
     (let seg1 = (if seg_used seg + s \<ge> length (seg_buf seg)
                  then seg\<lparr>seg_buf := take (seg_used seg) (seg_buf seg) @
                         replicate (length (seg_buf seg) * 2 - seg_used seg) 0\<rparr>
                  else seg)
      in ((seg_used seg1, s), seg1\<lparr>seg_used := seg_used seg1 + s\<rparr>))"

definition get_used_buf :: "Mp4Segment \<Rightarrow> bytes result" where
  "get_used_buf seg = (if seg_used seg \<le> length (seg_buf seg) then Inr (take (seg_used seg) (seg_buf seg)) else Inl Oob)"

definition update_timestamp :: "int \<Rightarrow> int \<Rightarrow> Mp4Segment \<Rightarrow> Mp4Segment" where
  "update_timestamp start end seg =
     (let start = (if start < 0 \<or> start \<ge> 0x20c49ba5e353f7 then 0 else start);
          end = (if end < 0 \<or> end \<ge> 0x20c49ba5e353f7 then 0 else end)
      in seg\<lparr>seg_start_timestamp := start, seg_end_timestamp := end, seg_duration_ms := end - start\<rparr>)"

text \<open>
  The idiom \<^verbatim>\<open>s = box.size(); n = NetBuffer(seg->alloc_buffer(s)); box.encode(n);\<close>. Writing through a view that
  ends behind the buffer is an \<open>Oob\<close> fault.
\<close>
definition add_box :: "('v \<Rightarrow> int) \<Rightarrow> ('v \<Rightarrow> ('v \<times> int) nb) \<Rightarrow> 'v \<Rightarrow> Mp4Segment \<Rightarrow> Mp4Segment result" where
  "add_box sz enc v seg = (case alloc_buffer (nat (sz v)) seg of ((off, s), seg1) \<Rightarrow>
     if off + s \<le> length (seg_buf seg1) then
       bindR (enc v (NetBuffer_new (take s (drop off (seg_buf seg1))))) (\<lambda>(_, b).
         Inr (seg1\<lparr>seg_buf := take off (seg_buf seg1) @ nb_done b @ nb_rest b @ drop (off + s) (seg_buf seg1)\<rparr>))
     else Inl Oob)"

section \<open>Cutting a segment\<close>

text \<open>
  A packet of the queue: its timestamp, the composition time of its header and the frame behind the header. A negative result of
  the header decoder is not checked; the view then starts before the payload.
\<close>
type_synonym frame = "u32 \<times> u32 \<times> bytes"

definition video_frame :: "junk \<Rightarrow> RtmpMessage \<Rightarrow> frame result" where
  "video_frame j pkt = (case j of (_, ft, et, fc) \<Rightarrow> bindR (get_using_data pkt) (\<lambda>payload.
     case VideoTagHeader_decode payload (VideoTagHeader_new ft et fc) of (h, consumed) \<Rightarrow>
       if consumed < 0 then Inl Oob else Inr (timestamp pkt, composition_time h, drop (nat consumed) payload)))"

definition audio_frame :: "junk \<Rightarrow> RtmpMessage \<Rightarrow> frame result" where
  "audio_frame j pkt = (case j of (sf, _) \<Rightarrow> bindR (get_using_data pkt) (\<lambda>payload.
     case AudioTagHeader_decode payload (AudioTagHeader_new sf) of (h, consumed) \<Rightarrow>
       if consumed < 0 then Inl Oob else Inr (timestamp pkt, 0, drop (nat consumed) payload)))"

primrec mapR :: "('a \<Rightarrow> 'b result) \<Rightarrow> 'a list \<Rightarrow> 'b list result" where
  "mapR f [] = Inr []"
| "mapR f (x # xs) = bindR (f x) (\<lambda>y. bindR (mapR f xs) (\<lambda>ys. Inr (y # ys)))"

text \<open>The loop that fills the track run.\<close>
fun run_entries :: "bool \<Rightarrow> int \<Rightarrow> frame list \<Rightarrow> TrunEntry list" where
  "run_entries first dts [] = []"
| "run_entries first dts ((ts, ct, d) # rest) =
     \<lparr>te_sample_duration = (case rest of [] \<Rightarrow> of_int dts - ts | (ts', _) # _ \<Rightarrow> ts' - ts),
      te_sample_size = of_nat (length d),
      te_sample_flags = (if first then 0x02000000 else 0x01000000),
      te_sample_composition_time_offset = ucast ct\<rparr> # run_entries False dts rest"

text \<open>The members of a new box that its constructor leaves uninitialised are those of an arbitrary \<open>u\<close>.\<close>

definition segment_styp :: "Box \<Rightarrow> FtypBox" where
  "segment_styp u = \<lparr>b_size = b_size u, b_type = box_type ''styp'', b_large_size = b_large_size u, b_user_type = b_user_type u,
     ftyp_major_brand = box_type ''msdh'', ftyp_minor_version = 0,
     ftyp_compatible_brands = [box_type ''dash'', box_type ''msdh'', box_type ''msix'']\<rparr>"

definition segment_sidx :: "Box \<Rightarrow> u32 \<Rightarrow> u32 \<Rightarrow> u32 \<Rightarrow> u32 \<Rightarrow> SidxBox" where
  "segment_sidx u track first_ts duration referenced_size =
     \<lparr>b_size = b_size u, b_type = box_type ''sidx'', b_large_size = b_large_size u, b_user_type = b_user_type u,
      version = 1, flags = 0, sidx_reference_id = track, sidx_timescale = 1000,
      sidx_earliest_presentation_time = scast first_ts, sidx_first_offset = 0,
      sidx_entries = [\<lparr>sie_reference_type = 0, sie_referenced_size = referenced_size, sie_subsegment_duration = duration,
        sie_starts_with_SAP = 1, sie_SAP_type = 0, sie_SAP_delta_time = 0\<rparr>]\<rparr>"

definition segment_trun :: "Box \<Rightarrow> TrunEntry list \<Rightarrow> u32 \<Rightarrow> u32 \<Rightarrow> TrunBox" where
  "segment_trun u entries data_offset junk =
     \<lparr>b_size = b_size u, b_type = box_type ''trun'', b_large_size = b_large_size u, b_user_type = b_user_type u,
      version = (if \<exists>e\<in>set entries. sint (te_sample_composition_time_offset e) < 0 then 1 else 0), flags = 0xf01,
      trun_entries = entries, trun_data_offset = data_offset, trun_first_sample_flags = junk\<rparr>"

definition segment_traf :: "Box \<Rightarrow> u32 \<Rightarrow> u32 \<Rightarrow> TrunEntry list \<Rightarrow> u32 \<Rightarrow> u32 \<Rightarrow> TrafBox" where
  "segment_traf u track first_ts entries data_offset junk =
     \<lparr>b_size = b_size u, b_type = box_type ''traf'', b_large_size = b_large_size u, b_user_type = b_user_type u,
      traf_tfhd = Some \<lparr>b_size = b_size u, b_type = box_type ''tfhd'', b_large_size = b_large_size u, b_user_type = b_user_type u,
        version = 0, flags = 0x020000, tfhd_track_id = track, tfhd_base_data_offset = b_size u, tfhd_sample_description_index = junk,
        tfhd_default_sample_duration = junk, tfhd_default_sample_size = junk, tfhd_default_sample_flags = junk\<rparr>,
      traf_tfdt = Some \<lparr>b_size = b_size u, b_type = box_type ''tfdt'', b_large_size = b_large_size u, b_user_type = b_user_type u,
        version = 1, flags = 0, tfdt_base_media_decode_time = scast first_ts\<rparr>,
      traf_trun = Some (segment_trun u entries data_offset junk)\<rparr>"

definition segment_moof :: "Box \<Rightarrow> u32 \<Rightarrow> u32 \<Rightarrow> u32 \<Rightarrow> TrunEntry list \<Rightarrow> u32 \<Rightarrow> u32 \<Rightarrow> MoofBox" where
  "segment_moof u track seq first_ts entries data_offset junk =
     \<lparr>b_size = b_size u, b_type = box_type ''moof'', b_large_size = b_large_size u, b_user_type = b_user_type u,
      moof_mfhd = Some \<lparr>b_size = b_size u, b_type = box_type ''mfhd'', b_large_size = b_large_size u, b_user_type = b_user_type u,
        version = 0, flags = 0, mfhd_sequence_number = seq\<rparr>,
      moof_traf = Some (segment_traf u track first_ts entries data_offset junk)\<rparr>"

definition segment_mdat :: "Box \<Rightarrow> frame list \<Rightarrow> MdatBox" where
  "segment_mdat u frames = \<lparr>b_size = b_size u, b_type = box_type ''mdat'', b_large_size = b_large_size u, b_user_type = b_user_type u,
     mdat_datas = map (snd \<circ> snd) frames\<rparr>"

text \<open>The offset of the media data from the start of the fragment.\<close>
definition segment_offset :: "Box \<Rightarrow> u32 \<Rightarrow> u32 \<Rightarrow> u32 \<Rightarrow> u32 \<Rightarrow> TrunEntry list \<Rightarrow> frame list \<Rightarrow> int" where
  "segment_offset u track seq first_ts junk entries frames =
     MoofBox_size (segment_moof u track seq first_ts entries junk junk) +
     (MdatBox_size (segment_mdat u frames) - sum_list (map (\<lambda>e. uint (te_sample_size e)) entries))"

text \<open>\<^verbatim>\<open>std::to_string\<close> of an unsigned number.\<close>
fun to_string :: "nat \<Rightarrow> string" where
  "to_string n = (if n < 10 then [char_of (48 + n)] else to_string (n div 10) @ [char_of (48 + n mod 10)])"

text \<open>
  The common part of both functions, from the decoded frames; \<open>duration\<close> and the name of the file are what they compute differently.
  The sequence number is 64 bits wide; the movie fragment header and the segment keep its low 32 bits.
\<close>
definition write_segment :: "string \<Rightarrow> Box \<Rightarrow> u32 \<Rightarrow> u64 \<Rightarrow> u32 \<Rightarrow> int \<Rightarrow> frame list \<Rightarrow> u32 \<Rightarrow> (Mp4Segment \<times> u64) result" where
  "write_segment prefix u track seq junk dts frames duration =
     (let first_ts = fst (hd frames); entries = run_entries True dts frames;
          offset = segment_offset u track (ucast seq) first_ts junk entries frames;
          mdat_bytes = sum_list (map (\<lambda>e. uint (te_sample_size e)) entries) in
      bindR (add_box FtypBox_size FtypBox_encode (segment_styp u) Mp4Segment_new) (\<lambda>s1.
      bindR (add_box SidxBox_size SidxBox_encode (segment_sidx u track first_ts duration (of_int (offset + mdat_bytes))) s1) (\<lambda>s2.
      bindR (add_box MoofBox_size MoofBox_encode (segment_moof u track (ucast seq) first_ts entries (of_int offset) junk) s2) (\<lambda>s3.
      bindR (add_box MdatBox_size MdatBox_encode (segment_mdat u frames) s3) (\<lambda>s4.
        Inr ((update_timestamp (sint first_ts) dts s4)\<lparr>seg_seq_no := ucast seq, seg_filename := prefix @ to_string (unat seq) @ ''.m4s''\<rparr>,
             seq + 1))))))"

text \<open>The queue is not empty when the functions are called; the source reads its first element without a check.\<close>

definition reap_video_seg :: "junk \<Rightarrow> Box \<Rightarrow> u32 \<Rightarrow> 16 word \<Rightarrow> u64 \<Rightarrow> int \<Rightarrow> RtmpMessage list \<Rightarrow> (Mp4Segment \<times> u64) result" where
  "reap_video_seg j u junk track seq dts video_pkts =
     (if video_pkts = [] then Inl Oob
      else bindR (mapR (video_frame j) video_pkts) (\<lambda>frames.
        write_segment ''video-'' u (scast track) seq junk dts frames (fst (last frames) - fst (hd frames))))"

definition reap_audio_seg :: "junk \<Rightarrow> Box \<Rightarrow> u32 \<Rightarrow> 16 word \<Rightarrow> u64 \<Rightarrow> int \<Rightarrow> RtmpMessage list \<Rightarrow> (Mp4Segment \<times> u64) result" where
  "reap_audio_seg j u junk track seq dts audio_pkts =
     (if audio_pkts = [] then Inl Oob
      else bindR (mapR (audio_frame j) audio_pkts) (\<lambda>frames.
        write_segment ''audio-'' u (scast track) seq junk dts frames (of_int dts - fst (hd frames))))"

section \<open>Adding a box\<close>

text \<open>What the buffer holds so far.\<close>
definition holds :: "Mp4Segment \<Rightarrow> bytes \<Rightarrow> bool" where
  "holds seg bs \<longleftrightarrow> seg_used seg = length bs \<and> length bs \<le> length (seg_buf seg) \<and> take (length bs) (seg_buf seg) = bs \<and>
     MP4_DEFAULT_SIZE \<le> length (seg_buf seg)"

lemma holds_new: "holds Mp4Segment_new []"
  by (simp add: holds_def Mp4Segment_new_def)

lemma holds_used: "holds seg bs \<Longrightarrow> get_used_buf seg = Inr bs"
  by (auto simp: holds_def get_used_buf_def)

lemma alloc_buffer_holds:
  assumes "holds seg bs" and "length bs + s \<le> 2 * length (seg_buf seg)"
  shows "\<exists>seg'. alloc_buffer s seg = ((length bs, s), seg'\<lparr>seg_used := length bs + s\<rparr>) \<and> holds seg' bs \<and>
    length bs + s \<le> length (seg_buf seg') \<and> (length bs + s < length (seg_buf seg) \<longrightarrow> length (seg_buf seg') = length (seg_buf seg))"
proof (cases "seg_used seg + s \<ge> length (seg_buf seg)")
  case True
  with assms show ?thesis
    by (intro exI [of _ "seg\<lparr>seg_buf := take (length bs) (seg_buf seg) @ replicate (length (seg_buf seg) * 2 - length bs) 0\<rparr>"])
       (auto simp: alloc_buffer_def holds_def Let_def)
next
  case False
  with assms show ?thesis by (intro exI [of _ seg]) (auto simp: alloc_buffer_def holds_def)
qed

context mp4_writer
begin

lemma add_box_ok:
  assumes "holds seg bs" and "wf v" and "int (length bs) + sz v \<le> 2 * int (length (seg_buf seg))"
  shows "\<exists>seg' w. add_box sz encode v seg = Inr seg' \<and> fits w (layout v) \<and> holds seg' (bs @ w) \<and>
    (int (length bs) + sz v < int (length (seg_buf seg)) \<longrightarrow> length (seg_buf seg') = length (seg_buf seg))"
proof -
  let ?n = "nat (sz v)"
  have n: "?n = length (layout v)" using size_layout [OF assms(2)] by simp
  have "length bs + ?n \<le> 2 * length (seg_buf seg)" using assms(3) size_layout [OF assms(2)] by linarith
  then obtain seg1 where a: "alloc_buffer ?n seg = ((length bs, ?n), seg1\<lparr>seg_used := length bs + ?n\<rparr>)" "holds seg1 bs"
      "length bs + ?n \<le> length (seg_buf seg1)" "length bs + ?n < length (seg_buf seg) \<longrightarrow> length (seg_buf seg1) = length (seg_buf seg)"
    using alloc_buffer_holds [OF assms(1), of ?n] by blast
  let ?view = "take ?n (drop (length bs) (seg_buf seg1))" let ?w = "fill (layout v) ?view"
  have view: "length ?view = ?n" using a(3) by simp
  have "encode v (NetBuffer_new ?view) = Inr ((upd v, sz v), \<lparr>nb_done = ?w, nb_rest = []\<rparr>)"
    using encode_fits [OF assms(2), of ?view] view size_layout [OF assms(2)] by simp
  moreover have "fits ?w (layout v)" using fits_fill [of "layout v" ?view] view n by simp
  moreover have "length ?w = ?n" using view n by simp
  ultimately show ?thesis
    using a size_layout [OF assms(2)] by (intro exI [of _ "seg1\<lparr>seg_used := length bs + ?n,
        seg_buf := take (length bs) (seg_buf seg1) @ ?w @ drop (length bs + ?n) (seg_buf seg1)\<rparr>"] exI [of _ ?w])
      (auto simp: add_box_def holds_def)
qed

lemma add_box_within:
  assumes "holds seg bs" and "wf v" and "int (length bs) + sz v \<le> 2 * int MP4_DEFAULT_SIZE"
  obtains seg' w where "add_box sz encode v seg = Inr seg'" and "fits w (layout v)" and "holds seg' (bs @ w)" and "int (length w) = sz v"
    and "int (length bs) + sz v < int (length (seg_buf seg)) \<Longrightarrow> length (seg_buf seg') = length (seg_buf seg)"
  using add_box_ok [OF assms(1,2)] assms(1,3) fits_length size_layout [OF assms(2)] by (force simp: holds_def)

lemma add_box_overflow:
  assumes "holds seg bs" and "wf v" and "int (length bs) + sz v > 2 * int (length (seg_buf seg))"
  shows "add_box sz encode v seg = Inl Oob"
  using assms size_layout [OF assms(2)] by (auto simp: add_box_def alloc_buffer_def holds_def Let_def)

end

section \<open>The boxes of a segment\<close>

lemma box_types:
  "box_type ''styp'' = 0x73747970" "box_type ''sidx'' = 0x73696478" "box_type ''moof'' = 0x6d6f6f66" "box_type ''mfhd'' = 0x6d666864"
  "box_type ''traf'' = 0x74726166" "box_type ''tfhd'' = 0x74666864" "box_type ''tfdt'' = 0x74666474" "box_type ''trun'' = 0x7472756e"
  "box_type ''mdat'' = 0x6d646174"
  by (simp_all add: box_type_def get_be_def be_nat_def)

lemmas sizes = MfhdBox_size_def TfhdBox_size_def TfdtBox_size_def TrunBox_size_def TrafBox_size_def MoofBox_size_def
  FtypBox_size_def SidxBox_size_def MdatBox_size_def FullBox_size_def Box_size_def size_opt_def TrunEntry_size_def has_def

lemma segment_sizes:
  assumes "b_size u \<noteq> 1"
  shows "FtypBox_size (segment_styp u) = 28" "SidxBox_size (segment_sidx u track ts dur ref) = 52"
    "MoofBox_size (segment_moof u track seq ts es off junk) = 88 + 16 * int (length es)"
    "MdatBox_size (segment_mdat u frames) = 8 + int (length (concat (map (snd \<circ> snd) frames)))"
  using assms
  by (simp_all add: sizes segment_styp_def segment_sidx_def segment_moof_def segment_traf_def segment_trun_def segment_mdat_def box_types sum_list_triv
      sum_lengths [symmetric] del: map_map)

lemma length_run_entries [simp]: "length (run_entries first dts frames) = length frames"
  by (induction first dts frames rule: run_entries.induct) simp_all

lemma run_entries_sizes: "map te_sample_size (run_entries first dts frames) = map (\<lambda>f. of_nat (length (snd (snd f)))) frames"
  by (induction first dts frames rule: run_entries.induct) simp_all

lemma run_entries_offsets: "e \<in> set (run_entries first dts frames) \<Longrightarrow> \<exists>ct :: u32. te_sample_composition_time_offset e = ucast ct"
  by (induction first dts frames rule: run_entries.induct) auto

lemma ucast_offset:
  "(ucast (ucast (ucast (ct :: u32) :: u64) :: u32) :: u64) = ucast ct" "\<not> sint (ucast (ct :: u32) :: u64) < 0"
  by (rule bit_word_eqI, auto simp: bit_simps dest: bit_imp_le_length) (transfer, simp add: not_less bit_simps)


abbreviation (input) "frame_data \<equiv> \<lambda>fs :: frame list. map (snd \<circ> snd) fs"

text \<open>The bytes of the whole segment.\<close>
definition segment_bytes :: "frame list \<Rightarrow> nat" where
  "segment_bytes frames = 176 + 16 * length frames + length (concat (frame_data frames))"

lemma length_le_concat: "x \<in> set xs \<Longrightarrow> length x \<le> length (concat xs)"
  by (induction xs) auto

lemma run_entries_total:
  assumes "length (concat (frame_data frames)) < 2 ^ 32"
  shows "sum_list (map (\<lambda>e. uint (te_sample_size e)) (run_entries first dts frames)) = int (length (concat (frame_data frames)))"
    and "map (\<lambda>e. unat (te_sample_size e)) (run_entries first dts frames) = map length (frame_data frames)"
proof -
  have each: "length d < 2 ^ 32" if "d \<in> set (frame_data frames)" for d
    using length_le_concat [OF that] assms by linarith
  have "map unat (map te_sample_size (run_entries first dts frames)) = map length (frame_data frames)"
    unfolding run_entries_sizes using each by (auto simp: unat_of_nat)
  then show *: "map (\<lambda>e. unat (te_sample_size e)) (run_entries first dts frames) = map length (frame_data frames)"
    by (simp add: comp_def)
  have "sum_list (map (\<lambda>e. uint (te_sample_size e)) es) = int (sum_list (map (\<lambda>e. unat (te_sample_size e)) es))" for es :: "TrunEntry list"
    by (induction es) simp_all
  then show "sum_list (map (\<lambda>e. uint (te_sample_size e)) (run_entries first dts frames)) = int (length (concat (frame_data frames)))"
    by (simp only: * length_concat)
qed

lemma run_entries_good: "e \<in> set (run_entries first dts frames) \<Longrightarrow> trun_offset_ok 0 e"
  "\<not> (\<exists>e\<in>set (run_entries first dts frames). sint (te_sample_composition_time_offset e) < 0)"
  using run_entries_offsets ucast_offset unfolding trun_offset_ok_def Let_def by fastforce+

lemmas segment_boxes = segment_styp_def segment_sidx_def segment_moof_def segment_traf_def segment_trun_def segment_mdat_def

text \<open>The boxes of a segment of at most two mebibytes are well formed.\<close>

lemma segment_trun_ok:
  assumes "b_size u \<noteq> 1" and "length frames < 2 ^ 20"
  shows "trun_ok (segment_trun u (run_entries True dts frames) off junk)"
  using assms run_entries_good(1) [of _ True dts frames] run_entries_good(2) [of True dts frames]
  by (simp add: full_ok_def plain_def sizes segment_trun_def box_types sum_list_triv)

lemma segment_moof_ok:
  assumes "b_size u \<noteq> 1" and "length frames < 2 ^ 20"
  shows "moof_ok (segment_moof u track seq ts (run_entries True dts frames) off junk)"
proof -
  let ?traf = "segment_traf u track ts (run_entries True dts frames) off junk"
  have "TrafBox_size ?traf = 64 + 16 * int (length frames)"
    using assms by (simp add: sizes segment_traf_def segment_trun_def box_types sum_list_triv)
  then have "traf_ok ?traf"
    using assms segment_trun_ok [OF assms]
    by (simp add: traf_ok_def full_ok_def plain_def segment_traf_def box_types MfhdBox_size_def TfhdBox_size_def TfdtBox_size_def
        FullBox_size_def Box_size_def has_def)
  then show ?thesis
    using assms segment_sizes(3) [OF assms(1), of track seq ts "run_entries True dts frames" off junk]
    by (simp add: moof_ok_def plain_def full_ok_def segment_moof_def box_types MfhdBox_size_def FullBox_size_def Box_size_def)
qed

lemma segment_index_ok:
  assumes "b_size u \<noteq> 1"
  shows "plain (FtypBox_size (segment_styp u)) (segment_styp u)"
    and "full_ok SidxBox_size (segment_sidx u track ts dur ref) \<and> sidx_good (segment_sidx u track ts dur ref)"
  unfolding full_ok_def plain_def segment_sizes [OF assms] using assms by (simp_all add: segment_styp_def segment_sidx_def box_types)

lemma segment_mdat_ok:
  assumes "b_size u \<noteq> 1" and "length (concat (frame_data frames)) < 2 ^ 31"
  shows "plain (MdatBox_size (segment_mdat u frames)) (segment_mdat u frames)"
  unfolding plain_def segment_sizes [OF assms(1)] using assms by (simp_all add: segment_mdat_def box_types)

section \<open>The segment that is written\<close>

lemma segment_until_moof:
  fixes frames :: "frame list" and track seq ts off junk dur ref :: u32 and dts :: int
  assumes u: "b_size u \<noteq> 1" and few: "168 + 16 * int (length frames) \<le> 2 * int MP4_DEFAULT_SIZE"
  defines "moof \<equiv> segment_moof u track seq ts (run_entries True dts frames) off junk" and "sidx \<equiv> segment_sidx u track ts dur ref"
  obtains s1 s2 s3 w1 w2 w3 where "add_box FtypBox_size FtypBox_encode (segment_styp u) Mp4Segment_new = Inr s1"
    and "add_box SidxBox_size SidxBox_encode sidx s1 = Inr s2" and "add_box MoofBox_size MoofBox_encode moof s2 = Inr s3"
    and "fits w1 (box_layout FtypBox_size ftyp_body (segment_styp u))" and "fits w2 (full_layout SidxBox_size sidx_body sidx)"
    and "fits w3 (box_layout MoofBox_size moof_body moof)" and "holds s3 (w1 @ w2 @ w3)" and "length w1 = 28" and "length w2 = 52"
    and "length w3 = 88 + 16 * length frames"
    and "168 + 16 * length frames < MP4_DEFAULT_SIZE \<Longrightarrow> length (seg_buf s3) = MP4_DEFAULT_SIZE"
proof -
  note sz = segment_sizes [OF u] and ok = segment_index_ok [OF u]
  have "int (length []) + FtypBox_size (segment_styp u) \<le> 2 * int MP4_DEFAULT_SIZE" by (simp add: sz)
  from ftyp.add_box_within [OF holds_new ok(1) this]
  obtain s1 w1 where s1: "add_box FtypBox_size FtypBox_encode (segment_styp u) Mp4Segment_new = Inr s1"
      "fits w1 (box_layout FtypBox_size ftyp_body (segment_styp u))" "holds s1 w1" "int (length w1) = 28"
      "length (seg_buf s1) = MP4_DEFAULT_SIZE"
    unfolding sz append_Nil by (auto simp: Mp4Segment_new_def)
  have "int (length w1) + SidxBox_size sidx \<le> 2 * int MP4_DEFAULT_SIZE" by (simp add: sidx_def sz s1(4))
  from sidx.add_box_within [OF s1(3) ok(2) [of track ts dur ref, folded sidx_def] this]
  obtain s2 w2 where s2: "add_box SidxBox_size SidxBox_encode sidx s1 = Inr s2"
      "fits w2 (full_layout SidxBox_size sidx_body sidx)" "holds s2 (w1 @ w2)" "int (length w2) = SidxBox_size sidx"
      "int (length w1) + SidxBox_size sidx < int (length (seg_buf s1)) \<Longrightarrow> length (seg_buf s2) = length (seg_buf s1)"
    by metis
  have l: "length w1 = 28" "length w2 = 52" "length (seg_buf s2) = MP4_DEFAULT_SIZE" using s1(4,5) s2(4,5) by (simp_all add: sidx_def sz)
  have m: "MoofBox_size moof = 88 + 16 * int (length frames)" by (simp add: moof_def sz)
  have "length frames < 2 ^ 20" using few by simp
  then have moof_ok: "moof_ok moof" unfolding moof_def by (rule segment_moof_ok [OF u])
  have "int (length (w1 @ w2)) + MoofBox_size moof \<le> 2 * int MP4_DEFAULT_SIZE" using few by (simp add: m l)
  from moof.add_box_within [OF s2(3) moof_ok this]
  obtain s3 w3 where s3: "add_box MoofBox_size MoofBox_encode moof s2 = Inr s3"
      "fits w3 (box_layout MoofBox_size moof_body moof)" "holds s3 ((w1 @ w2) @ w3)" "int (length w3) = MoofBox_size moof"
      "int (length (w1 @ w2)) + MoofBox_size moof < int (length (seg_buf s2)) \<Longrightarrow> length (seg_buf s3) = length (seg_buf s2)"
    by metis
  show thesis
    by (rule that [OF s1(1) s2(1) s3(1) s1(2) s2(2) s3(2)]) (use s3(3-5) l m in simp_all)
qed

lemma segment_numbers:
  assumes "b_size u \<noteq> 1" and "length (concat (frame_data frames)) < 2 ^ 31"
  shows "segment_offset u track seq ts junk (run_entries True dts frames) frames = int (96 + 16 * length frames)"
    and "sum_list (map (\<lambda>e. uint (te_sample_size e)) (run_entries True dts frames)) = int (length (concat (frame_data frames)))"
  using run_entries_total(1) [of frames True dts] assms(2) by (simp_all add: segment_offset_def segment_sizes [OF assms(1)])

lemma write_segment_layout:
  fixes frames :: "frame list" and track junk dur :: u32 and seq :: u64 and dts :: int
  assumes u: "b_size u \<noteq> 1" and total: "segment_bytes frames \<le> 2 * MP4_DEFAULT_SIZE"
  defines "moof \<equiv> segment_moof u track (ucast seq) (fst (hd frames)) (run_entries True dts frames) (of_nat (96 + 16 * length frames)) junk"
    and "sidx \<equiv> segment_sidx u track (fst (hd frames)) dur (of_nat (96 + 16 * length frames + length (concat (frame_data frames))))"
  obtains seg w1 w2 w3 where "write_segment prefix u track seq junk dts frames dur = Inr (seg, seq + 1)"
    and "get_used_buf seg = Inr (w1 @ w2 @ w3 @ box_head (MdatBox_size (segment_mdat u frames)) (box_type ''mdat'') @ concat (frame_data frames))"
    and "seg_filename seg = prefix @ to_string (unat seq) @ ''.m4s''"
    and "length w1 = 28" and "length w2 = 52" and "length w3 = 88 + 16 * length frames"
    and "fits w2 (full_layout SidxBox_size sidx_body sidx)" and "fits w3 (box_layout MoofBox_size moof_body moof)"
proof -
  have few: "168 + 16 * int (length frames) \<le> 2 * int MP4_DEFAULT_SIZE" and n: "length (concat (frame_data frames)) < 2 ^ 31"
    using total by (simp_all add: segment_bytes_def)
  note numbers = segment_numbers [OF u n]
  obtain s1 s2 s3 w1 w2 w3 where s: "add_box FtypBox_size FtypBox_encode (segment_styp u) Mp4Segment_new = Inr s1"
      "add_box SidxBox_size SidxBox_encode sidx s1 = Inr s2" "add_box MoofBox_size MoofBox_encode moof s2 = Inr s3"
    and w: "fits w2 (full_layout SidxBox_size sidx_body sidx)" "fits w3 (box_layout MoofBox_size moof_body moof)" "holds s3 (w1 @ w2 @ w3)"
      "length w1 = 28" "length w2 = 52" "length w3 = 88 + 16 * length frames"
    using segment_until_moof [OF u few] unfolding moof_def sidx_def by metis
  have "int (length (w1 @ w2 @ w3)) + MdatBox_size (segment_mdat u frames) \<le> 2 * int MP4_DEFAULT_SIZE"
    using total by (simp add: w segment_sizes [OF u] segment_bytes_def)
  from mdat.add_box_within [OF w(3) segment_mdat_ok [OF u n] this]
  obtain s4 w4 where s4: "add_box MdatBox_size MdatBox_encode (segment_mdat u frames) s3 = Inr s4"
      "fits w4 (box_layout MdatBox_size mdat_body (segment_mdat u frames))" "holds s4 ((w1 @ w2 @ w3) @ w4)"
    by metis
  have w4: "w4 = box_head (MdatBox_size (segment_mdat u frames)) (box_type ''mdat'') @ concat (frame_data frames)"
    using s4(2) by (simp add: fits_append segment_mdat_def)
  let ?seg = "(update_timestamp (sint (fst (hd frames))) dts s4)\<lparr>seg_seq_no := ucast seq, seg_filename := prefix @ to_string (unat seq) @ ''.m4s''\<rparr>"
  have "write_segment prefix u track seq junk dts frames dur = Inr (?seg, seq + 1)"
    unfolding write_segment_def Let_def numbers of_nat_add [symmetric] of_int_of_nat_eq moof_def [symmetric] sidx_def [symmetric]
      s s4(1) bindR.simps ..
  moreover have "holds ?seg (w1 @ w2 @ w3 @ w4)" using s4(3) by (simp add: holds_def update_timestamp_def Let_def)
  ultimately show thesis using that [of ?seg w1 w2 w3] w unfolding w4 [symmetric] by (simp add: holds_used)
qed

lemma write_segment_overflow:
  fixes dts :: int and frames :: "frame list"
  assumes u: "b_size u \<noteq> 1" and few: "168 + 16 * length frames < MP4_DEFAULT_SIZE"
    and n: "length (concat (frame_data frames)) < 2 ^ 31" and total: "segment_bytes frames > 2 * MP4_DEFAULT_SIZE"
  shows "write_segment prefix u track seq junk dts frames dur = Inl Oob"
proof -
  let ?moof = "segment_moof u track (ucast seq) (fst (hd frames)) (run_entries True dts frames) (of_nat (96 + 16 * length frames)) junk"
  let ?sidx = "segment_sidx u track (fst (hd frames)) dur (of_nat (96 + 16 * length frames + length (concat (frame_data frames))))"
  have few': "168 + 16 * int (length frames) \<le> 2 * int MP4_DEFAULT_SIZE" using few by simp
  note numbers = segment_numbers [OF u n]
  obtain s1 s2 s3 w1 w2 w3 where s: "add_box FtypBox_size FtypBox_encode (segment_styp u) Mp4Segment_new = Inr s1"
      "add_box SidxBox_size SidxBox_encode ?sidx s1 = Inr s2" "add_box MoofBox_size MoofBox_encode ?moof s2 = Inr s3"
    and w: "holds s3 (w1 @ w2 @ w3)" "length w1 = 28" "length w2 = 52" "length w3 = 88 + 16 * length frames" "length (seg_buf s3) = MP4_DEFAULT_SIZE"
    using segment_until_moof [OF u few'] few by metis
  have "int (length (w1 @ w2 @ w3)) + MdatBox_size (segment_mdat u frames) > 2 * int (length (seg_buf s3))"
    using total by (simp add: w segment_sizes [OF u] segment_bytes_def)
  from mdat.add_box_overflow [OF w(1) segment_mdat_ok [OF u n] this]
  show ?thesis
    unfolding write_segment_def Let_def numbers of_nat_add [symmetric] of_int_of_nat_eq s bindR.simps by simp
qed


section \<open>What a reader of the segment finds\<close>

text \<open>The bytes of sample \<open>i\<close> of a run: the run's data offset counts from the start of the fragment \<open>frag\<close>.\<close>
definition sample_at :: "bytes \<Rightarrow> TrunBox \<Rightarrow> nat \<Rightarrow> bytes" where
  "sample_at frag trun i = take (unat (te_sample_size (trun_entries trun ! i)))
     (drop (unat (trun_data_offset trun) + sum_list (map (\<lambda>e. unat (te_sample_size e)) (take i (trun_entries trun)))) frag)"

text \<open>Reading the samples in order gives the frames, and the index entry spans the fragment.\<close>
definition segment_plays :: "TrunEntry \<Rightarrow> TrunBox \<Rightarrow> bytes \<Rightarrow> TrunEntry list \<Rightarrow> bytes list \<Rightarrow> bool" where
  "segment_plays e0 v0 buf entries datas \<longleftrightarrow> (let frag = drop 80 buf in
     case (SegmentIndexEntry_decode (NetBuffer_new (drop 68 buf)), TrunBox_decode e0 v0 (NetBuffer_new (drop 68 frag))) of
       (Inr ((entry, _), _), Inr ((trun, _), _)) \<Rightarrow> unat (sie_referenced_size entry) = length frag \<and> trun_entries trun = entries \<and>
         map (sample_at frag trun) [0..<length entries] = datas
     | _ \<Rightarrow> False)"

lemma fits_drop: "fits w (p @ q) \<Longrightarrow> length p = n \<Longrightarrow> fits (drop n w) q"
  by (auto simp: fits_append dest: fits_length)

lemma concat_slice: "i < length xs \<Longrightarrow> take (length (xs ! i)) (drop (sum_list (map length (take i xs))) (concat xs)) = xs ! i"
proof (induction xs arbitrary: i)
  case (Cons x xs)
  then show ?case by (cases i) simp_all
qed simp

lemma moof_trun_bytes:
  assumes "b_size u \<noteq> 1" and "fits w (box_layout MoofBox_size moof_body (segment_moof u track seq ts es off junk))"
  shows "fits (drop 68 w) (full_layout TrunBox_size trun_body (segment_trun u es off junk))"
  using assms(2) unfolding moof_body_def traf_body_def segment_moof_def segment_traf_def
  by (intro fits_drop [where p = "take 68 (box_layout MoofBox_size moof_body (segment_moof u track seq ts es off junk))"])
     (simp_all add: moof_body_def traf_body_def segment_moof_def segment_traf_def layout_opt_def has_def)

lemma segment_entry_seen: "trun_entry_seen 0xf01 e0 = id"
  by (rule ext) (simp add: trun_entry_seen_def has_def)

lemma segment_trun_seen:
  shows "trun_entries (trun_seen e0 v0 (segment_trun u es off junk)) = es"
    and "trun_data_offset (trun_seen e0 v0 (segment_trun u es off junk)) = off"
  by (simp_all add: trun_seen_def segment_trun_def segment_entry_seen has_def rebase_def sized_def)

lemma sidx_entry_bytes_at:
  assumes "b_size u \<noteq> 1" and "fits w (full_layout SidxBox_size sidx_body (segment_sidx u track ts dur ref))"
  shows "drop 40 w = sidx_entry_bytes \<lparr>sie_reference_type = 0, sie_referenced_size = ref, sie_subsegment_duration = dur,
        sie_starts_with_SAP = 1, sie_SAP_type = 0, sie_SAP_delta_time = 0\<rparr>"
  using assms(2) by (auto simp: segment_sidx_def fits_append)


lemma samples_found:
  fixes frames :: "frame list"
  assumes "length (concat (frame_data frames)) < 2 ^ 32" and "trun_entries trun = run_entries first dts frames"
    and "unat (trun_data_offset trun) = length pre"
  shows "map (sample_at (pre @ concat (frame_data frames)) trun) [0..<length frames] = frame_data frames"
proof (rule nth_equalityI)
  fix i assume "i < length (map (sample_at (pre @ concat (frame_data frames)) trun) [0..<length frames])"
  then have i: "i < length frames" "i < length (frame_data frames)" by simp_all
  note sizes = run_entries_total(2) [OF assms(1), of first dts]
  have "unat (te_sample_size (run_entries first dts frames ! i)) = length (frame_data frames ! i)"
    using arg_cong [OF sizes, of "\<lambda>l. l ! i"] i by simp
  moreover have "map (\<lambda>e. unat (te_sample_size e)) (take i (run_entries first dts frames)) = map length (take i (frame_data frames))"
    unfolding take_map [symmetric] sizes ..
  ultimately have "sample_at (pre @ concat (frame_data frames)) trun i = frame_data frames ! i"
    unfolding sample_at_def assms(2,3) using concat_slice [OF i(2)] by (simp del: map_map)
  then show "map (sample_at (pre @ concat (frame_data frames)) trun) [0..<length frames] ! i = frame_data frames ! i"
    using i by simp
qed simp

lemma write_segment_plays:
  assumes u: "b_size u \<noteq> 1" and total: "segment_bytes frames \<le> 2 * MP4_DEFAULT_SIZE" and v0: "trun_entries v0 = []"
  obtains seg buf where "write_segment prefix u track seq junk dts frames dur = Inr (seg, seq + 1)" and "get_used_buf seg = Inr buf"
    and "seg_filename seg = prefix @ to_string (unat seq) @ ''.m4s''" and "length buf = segment_bytes frames"
    and "segment_plays e0 v0 buf (run_entries True dts frames) (frame_data frames)"
proof -
  let ?n = "length (concat (frame_data frames))" let ?off = "96 + 16 * length frames" let ?es = "run_entries True dts frames"
  let ?head = "box_head (MdatBox_size (segment_mdat u frames)) (box_type ''mdat'')"
  have n: "?n < 2 ^ 32" "?off + ?n < 2 ^ 31" "?off < 2 ^ 32" "length frames < 2 ^ 20"
    using total by (simp_all add: segment_bytes_def)
  obtain seg w1 w2 w3 where seg: "write_segment prefix u track seq junk dts frames dur = Inr (seg, seq + 1)"
      "get_used_buf seg = Inr (w1 @ w2 @ w3 @ ?head @ concat (frame_data frames))"
      "seg_filename seg = prefix @ to_string (unat seq) @ ''.m4s''" "length w1 = 28" "length w2 = 52" "length w3 = 88 + 16 * length frames"
      "fits w2 (full_layout SidxBox_size sidx_body (segment_sidx u track (fst (hd frames)) dur (of_nat (?off + ?n))))"
      "fits w3 (box_layout MoofBox_size moof_body (segment_moof u track (ucast seq) (fst (hd frames)) ?es (of_nat ?off) junk))"
    by (rule write_segment_layout [OF u total])
  let ?frag = "w3 @ ?head @ concat (frame_data frames)"
  let ?entry = "\<lparr>sie_reference_type = 0, sie_referenced_size = of_nat (?off + ?n), sie_subsegment_duration = dur,
        sie_starts_with_SAP = 1, sie_SAP_type = 0, sie_SAP_delta_time = 0\<rparr>"
  have small: "unat (of_nat (?off + ?n) :: u32) = ?off + ?n" "unat (of_nat ?off :: u32) = ?off"
    using n(2,3) by (intro unat_count; simp)+
  have "sidx_entry_ok ?entry" using n(2) small by (simp add: sidx_entry_ok_def)
  note index = reads_new [OF sidx_entry_roundtrip [OF this], folded sidx_entry_bytes_at [OF u seg(7)]]
  note trun = reads_new [OF trun.decode_layout [OF segment_trun_ok [OF u n(4)] v0 moof_trun_bytes [OF u seg(8)]]]
  have "map (sample_at ?frag (trun_seen e0 v0 (segment_trun u ?es (of_nat ?off) junk))) [0..<length frames] = frame_data frames"
    using samples_found [OF n(1), where pre = "w3 @ ?head" and trun = "trun_seen e0 v0 (segment_trun u ?es (of_nat ?off) junk)"] small(2)
    by (simp add: segment_trun_seen seg(6) del: map_map)
  then have "segment_plays e0 v0 (w1 @ w2 @ ?frag) ?es (frame_data frames)"
    using index [of ?frag] trun [of e0 "?head @ concat (frame_data frames)"] small
    by (simp add: segment_plays_def seg(4-6) segment_trun_seen del: of_nat_add)
  moreover have "length (w1 @ w2 @ ?frag) = segment_bytes frames" by (simp add: seg(4-6) segment_bytes_def)
  ultimately show thesis using that seg(1-3) by blast
qed


section \<open>Properties\<close>

text \<open>
  C3. A video segment of at most two mebibytes is cut without a fault, takes the next sequence number for its file name, and plays
  back: the index entry that a reader decodes spans exactly the fragment, the track run it decodes from inside the fragment has
  one entry per queued packet, and following the run's data offset and sample sizes gives the frames of the packets, in order.
\<close>
theorem video_segment_plays:
  assumes "b_size u \<noteq> 1" and "video_pkts \<noteq> []" and "mapR (video_frame j) video_pkts = Inr frames"
    and "segment_bytes frames \<le> 2 * MP4_DEFAULT_SIZE" and "trun_entries v0 = []"
  shows "\<exists>seg buf. reap_video_seg j u junk track seq dts video_pkts = Inr (seg, seq + 1) \<and> get_used_buf seg = Inr buf \<and>
    seg_filename seg = ''video-'' @ to_string (unat seq) @ ''.m4s'' \<and> length buf = segment_bytes frames \<and>
    segment_plays e0 v0 buf (run_entries True dts frames) (map (snd \<circ> snd) frames)"
  unfolding reap_video_seg_def assms(3) bindR.simps if_not_P [OF assms(2)]
  by (rule write_segment_plays [OF assms(1,4,5)]) blast

definition queued_video :: RtmpMessage where
  "queued_video = \<lparr>data_buf = [0x17, 1, 0, 0, 40, 0, 0, 0, 2, 9, 16], using_bytes = 11, message_type_id = 9, timestamp = 1000,
     message_stream_id = 1, chunk_stream_id = 6\<rparr>"

definition sample_trun :: TrunBox where
  "sample_trun = \<lparr>b_size = 0, b_type = 0, b_large_size = 0, b_user_type = [], version = 0, flags = 0, trun_entries = [],
     trun_data_offset = 0, trun_first_sample_flags = 0\<rparr>"

definition sample_box :: Box where
  "sample_box = \<lparr>b_size = 0, b_type = 0, b_large_size = 0, b_user_type = []\<rparr>"

theorem video_segment_plays_witness:
  "\<exists>seg buf. reap_video_seg (0, 0, 0, 0) sample_box 0 1 7 1040 [queued_video] = Inr (seg, 8) \<and> get_used_buf seg = Inr buf \<and>
    seg_filename seg = ''video-7.m4s'' \<and> length buf = 198 \<and>
    segment_plays \<lparr>te_sample_duration = 0, te_sample_size = 0, te_sample_flags = 0, te_sample_composition_time_offset = 0\<rparr> sample_trun buf
      (run_entries True 1040 [(1000, 40, [0, 0, 0, 2, 9, 16])]) [[0, 0, 0, 2, 9, 16]]"
proof -
  have "mapR (video_frame (0, 0, 0, 0)) [queued_video] = Inr [(1000, 40, [0, 0, 0, 2, 9, 16])]" by code_simp
  note frames = this
  have seven: "to_string 7 = ''7''" by code_simp
  from video_segment_plays [of sample_box, OF _ _ frames, of sample_trun 0 1 7 1040
      "\<lparr>te_sample_duration = 0, te_sample_size = 0, te_sample_flags = 0, te_sample_composition_time_offset = 0\<rparr>"]
  show ?thesis by (simp add: seven sample_box_def sample_trun_def segment_bytes_def del: to_string.simps)
qed

text \<open>
  The same for an audio segment.
\<close>
theorem audio_segment_plays:
  assumes "b_size u \<noteq> 1" and "audio_pkts \<noteq> []" and "mapR (audio_frame j) audio_pkts = Inr frames"
    and "segment_bytes frames \<le> 2 * MP4_DEFAULT_SIZE" and "trun_entries v0 = []"
  shows "\<exists>seg buf. reap_audio_seg j u junk track seq dts audio_pkts = Inr (seg, seq + 1) \<and> get_used_buf seg = Inr buf \<and>
    seg_filename seg = ''audio-'' @ to_string (unat seq) @ ''.m4s'' \<and> length buf = segment_bytes frames \<and>
    segment_plays e0 v0 buf (run_entries True dts frames) (map (snd \<circ> snd) frames)"
  unfolding reap_audio_seg_def assms(3) bindR.simps if_not_P [OF assms(2)]
  by (rule write_segment_plays [OF assms(1,4,5)]) blast

definition queued_audio :: RtmpMessage where
  "queued_audio = \<lparr>data_buf = [0xaf, 1, 33, 16, 4], using_bytes = 5, message_type_id = 8, timestamp = 1000,
     message_stream_id = 1, chunk_stream_id = 4\<rparr>"

theorem audio_segment_plays_witness:
  "\<exists>seg buf. reap_audio_seg (0, 0, 0, 0) sample_box 0 2 7 1023 [queued_audio] = Inr (seg, 8) \<and> get_used_buf seg = Inr buf \<and>
    seg_filename seg = ''audio-7.m4s'' \<and> length buf = 195 \<and>
    segment_plays \<lparr>te_sample_duration = 0, te_sample_size = 0, te_sample_flags = 0, te_sample_composition_time_offset = 0\<rparr> sample_trun buf
      (run_entries True 1023 [(1000, 0, [33, 16, 4])]) [[33, 16, 4]]"
proof -
  have "mapR (audio_frame (0, 0, 0, 0)) [queued_audio] = Inr [(1000, 0, [33, 16, 4])]" by code_simp
  note frames = this
  have seven: "to_string 7 = ''7''" by code_simp
  from audio_segment_plays [of sample_box, OF _ _ frames, of sample_trun 0 2 7 1023
      "\<lparr>te_sample_duration = 0, te_sample_size = 0, te_sample_flags = 0, te_sample_composition_time_offset = 0\<rparr>"]
  show ?thesis by (simp add: seven sample_box_def sample_trun_def segment_bytes_def del: to_string.simps)
qed

text \<open>
  C34. \<^verbatim>\<open>alloc_buffer\<close> doubles the one mebibyte of a new segment at most once per call, whatever size is asked for: when the media
  data takes the segment past two mebibytes while the boxes before it fit the first one, the view handed out for \<^verbatim>\<open>mdat\<close> ends
  behind the buffer, and cutting the segment writes out of bounds.
\<close>
theorem large_segment_overflows:
  assumes "b_size u \<noteq> 1" and "video_pkts \<noteq> []" and "mapR (video_frame j) video_pkts = Inr frames"
    and "168 + 16 * length frames < MP4_DEFAULT_SIZE" and "length (concat (map (snd \<circ> snd) frames)) < 2 ^ 31"
    and "segment_bytes frames > 2 * MP4_DEFAULT_SIZE"
  shows "reap_video_seg j u junk track seq dts video_pkts = Inl Oob"
  unfolding reap_video_seg_def assms(3) bindR.simps if_not_P [OF assms(2)]
  by (rule write_segment_overflow [OF assms(1,4-6)])

definition keyframe :: "bytes \<Rightarrow> RtmpMessage" where
  "keyframe d = \<lparr>data_buf = [0x17, 1, 0, 0, 0] @ d, using_bytes = 5 + length d,
     message_type_id = 9, timestamp = 1000, message_stream_id = 1, chunk_stream_id = 6\<rparr>"

lemma keyframe_frame: "video_frame (0, 0, 0, 0) (keyframe d) = Inr (1000, 0, d)"
  by (simp add: video_frame_def keyframe_def get_using_data_def VideoTagHeader_decode_def VideoTagHeader_new_def
      get_be_def be_nat_def)

theorem large_segment_overflows_witness:
  "reap_video_seg (0, 0, 0, 0) sample_box 0 1 7 1040 [keyframe (replicate (2 * MP4_DEFAULT_SIZE) 0)] = Inl Oob"
  by (rule large_segment_overflows [where frames = "[(1000, 0, replicate (2 * MP4_DEFAULT_SIZE) 0)]"])
     (simp_all add: keyframe_frame sample_box_def segment_bytes_def)

end
