(* ===== verification/RtmpMetadata.thy ===== *)
theory RtmpMetadata
  imports Amf0 Packet
begin

text \<open>
  The stream metadata message, \<^verbatim>\<open>libs/protocol/rtmp/rtmp_message/data_message/rtmp_metadata_message.cpp\<close>: read
  from an RTMP data message or from an FLV script tag, its known properties extracted, and
  written back.
\<close>

section \<open>Numbers\<close>

text \<open>
  The integer part of a double, from its IEEE-754 fields; \<open>None\<close> for infinities and NaN.
\<close>
definition trunc_double :: "double \<Rightarrow> int option" where
  "trunc_double d =
     (let neg = bit d 63; e = unat (drop_bit 52 d AND 0x7ff); m = unat (d AND 0xfffffffffffff) in
      if e = 2047 then None
      else let v = (if e < 1023 then 0
                    else if e \<le> 1075 then (2 ^ 52 + m) div 2 ^ (1075 - e)
                    else (2 ^ 52 + m) * 2 ^ (e - 1075))
           in Some (if neg then - int v else int v))"

text \<open>Conversion to an unsigned type; outside its range the value is unspecified (\<open>None\<close>).\<close>
definition to_uint :: "double \<Rightarrow> 'w::len word option" where
  "to_uint d = (case trunc_double d of
     Some v \<Rightarrow> if 0 \<le> v \<and> v < 2 ^ LENGTH('w) then Some (of_int v) else None | None \<Rightarrow> None)"

section \<open>The message\<close>

text \<open>
  The numeric members are not initialised: \<open>None\<close> until a property sets them. Of the cached FLV tag
  the payload is kept. What a failed decode leaves in the object is not represented.
\<close>
record RtmpMetaDataMessage =
  md_cache_msg :: "RtmpMessage option"
  md_cache_flv_tag :: "bytes option"
  md_has_video :: bool
  md_has_audio :: bool
  md_audio_codec_id :: "byte option"
  md_audio_channels :: "u32 option"
  md_audio_datarate :: "u32 option"
  md_audio_sample_rate :: "u32 option"
  md_audio_sample_size :: "u32 option"
  md_duration :: "u32 option"
  md_encoder :: bytes
  md_file_size :: "u32 option"
  md_frame_rate :: "u32 option"
  md_height :: "u32 option"
  md_width :: "u32 option"
  md_stereo :: bool
  md_video_codec_id :: "u32 option"
  md_video_data_rate :: "u32 option"
  md_amf0_metadata :: "Amf0Data option"

definition RtmpMetaDataMessage_new :: "RtmpMetaDataMessage" where
  "RtmpMetaDataMessage_new = \<lparr>md_cache_msg = None, md_cache_flv_tag = None, md_has_video = False, md_has_audio = False, md_audio_codec_id = None,
     md_audio_channels = None, md_audio_datarate = None, md_audio_sample_rate = None, md_audio_sample_size = None,
     md_duration = None, md_encoder = [], md_file_size = None, md_frame_rate = None, md_height = None, md_width = None,
     md_stereo = True, md_video_codec_id = None, md_video_data_rate = None, md_amf0_metadata = None\<rparr>"

abbreviation (input) key :: "string \<Rightarrow> bytes" where "key s \<equiv> map of_char s"

text \<open>The idiom \<^verbatim>\<open>auto t = get_property<Amf0Number>(key); if (t) { field = *t; }\<close>.\<close>
definition from_number :: "properties \<Rightarrow> bytes \<Rightarrow> ('w::len word option \<Rightarrow> 'm \<Rightarrow> 'm) \<Rightarrow> 'm \<Rightarrow> 'm" where
  "from_number props k upd m = (case get_number_property props k of Some v \<Rightarrow> upd (to_uint v) m | None \<Rightarrow> m)"

definition from_string :: "properties \<Rightarrow> bytes \<Rightarrow> (bytes \<Rightarrow> 'm \<Rightarrow> 'm) \<Rightarrow> 'm \<Rightarrow> 'm" where
  "from_string props k upd m = (case get_string_property props k of Some v \<Rightarrow> upd v m | None \<Rightarrow> m)"

definition from_boolean :: "properties \<Rightarrow> bytes \<Rightarrow> (bool \<Rightarrow> 'm \<Rightarrow> 'm) \<Rightarrow> 'm \<Rightarrow> 'm" where
  "from_boolean props k upd m = (case get_boolean_property props k of Some v \<Rightarrow> upd v m | None \<Rightarrow> m)"

text \<open>\<^verbatim>\<open>retrieve_info\<close>, on the properties of an object or of an ECMA array.\<close>
definition retrieve_info :: "properties \<Rightarrow> RtmpMetaDataMessage \<Rightarrow> RtmpMetaDataMessage" where
  "retrieve_info props m0 =
     (let m1 = from_number props (key ''audiocodecid'') (\<lambda>v m. m\<lparr>md_audio_codec_id := v, md_has_audio := True\<rparr>) m0;
          m2 = from_number props (key ''audiochannels'') (\<lambda>v m. m\<lparr>md_audio_channels := v\<rparr>) m1;
          m3 = from_number props (key ''audiodatarate'') (\<lambda>v m. m\<lparr>md_audio_datarate := v\<rparr>) m2;
          m4 = from_number props (key ''audiosamplerate'') (\<lambda>v m. m\<lparr>md_audio_sample_rate := v\<rparr>) m3;
          m5 = from_number props (key ''audiosamplesize'') (\<lambda>v m. m\<lparr>md_audio_sample_size := v\<rparr>) m4;
          m6 = from_number props (key ''duration'') (\<lambda>v m. m\<lparr>md_duration := v\<rparr>) m5;
          m7 = from_string props (key ''encoder'') (\<lambda>v m. m\<lparr>md_encoder := v\<rparr>) m6;
          m8 = from_number props (key ''fileSize'') (\<lambda>v m. m\<lparr>md_file_size := v\<rparr>) m7;
          m9 = from_number props (key ''framerate'') (\<lambda>v m. m\<lparr>md_frame_rate := v\<rparr>) m8;
          m10 = from_number props (key ''height'') (\<lambda>v m. m\<lparr>md_height := v\<rparr>) m9;
          m11 = from_number props (key ''width'') (\<lambda>v m. m\<lparr>md_width := v\<rparr>) m10;
          m12 = from_boolean props (key ''stereo'') (\<lambda>v m. m\<lparr>md_stereo := v\<rparr>) m11;
          m13 = from_number props (key ''videocodecid'') (\<lambda>v m. m\<lparr>md_video_codec_id := v, md_has_video := True\<rparr>) m12
      in from_number props (key ''videodatarate'') (\<lambda>v m. m\<lparr>md_video_data_rate := v\<rparr>) m13)"

definition set_data_frame :: bytes where "set_data_frame = key ''@setDataFrame''"
definition on_metadata :: bytes where "on_metadata = key ''onMetaData''"

lemma name_lengths [simp]: "length set_data_frame = 13" "length on_metadata = 10"
  by (simp_all add: set_data_frame_def on_metadata_def)

text \<open>
  The names before the metadata: \<^verbatim>\<open>@setDataFrame\<close> is followed by a second string. The result is the
  rest of the payload and the position.
\<close>
definition skip_names :: "bytes \<Rightarrow> (bytes \<times> nat) result" where
  "skip_names payload =
     bindR (orfail (-1) (Amf0String_decode payload)) (\<lambda>(name, consumed).
       let payload1 = drop consumed payload in
       bindR (if name = set_data_frame
              then bindR (orfail (-2) (Amf0String_decode payload1)) (\<lambda>(name2, c2). Inr (drop c2 payload1, consumed + c2))
              else Inr (payload1, consumed))
         (\<lambda>(rest, pos). if length rest < 1 then Inl (Rc (-3)) else Inr (rest, pos)))"

definition RtmpMetaDataMessage_decode :: "RtmpMessage \<Rightarrow> RtmpMetaDataMessage \<Rightarrow> (RtmpMetaDataMessage \<times> nat) result" where
  "RtmpMetaDataMessage_decode rtmp_msg m =
     bindR (get_using_data rtmp_msg) (\<lambda>payload.
     bindR (skip_names payload) (\<lambda>(rest, pos).
       if hd rest = OBJECT_MARKER then
         bindR (orfail (-3) (Amf0Object_decode [] rest)) (\<lambda>(props, consumed).
           Inr (retrieve_info props (m\<lparr>md_amf0_metadata := Some (Amf0Object props), md_cache_msg := Some rtmp_msg\<rparr>), pos + consumed))
       else if hd rest = ECMA_ARRAY_MARKER then
         bindR (orfail (-3) (Amf0EcmaArray_decode [] rest)) (\<lambda>(props, consumed).
           Inr (retrieve_info props (m\<lparr>md_amf0_metadata := Some (Amf0EcmaArray props), md_cache_msg := Some rtmp_msg\<rparr>), pos + consumed))
       else Inl (Rc (-5))))"

text \<open>
  The overload for an FLV script tag of payload \<open>payload\<close>. With any other marker the pointer to the
  value stays null and is called through (\<open>Oob\<close>).
\<close>
definition RtmpMetaDataMessage_decode_flv :: "bytes \<Rightarrow> RtmpMetaDataMessage \<Rightarrow> (RtmpMetaDataMessage \<times> nat) result" where
  "RtmpMetaDataMessage_decode_flv payload m =
     bindR (skip_names payload) (\<lambda>(rest, pos).
       bindR (if hd rest = OBJECT_MARKER then orfail (-4) (Amf0Object_decode [] rest)
              else if hd rest = ECMA_ARRAY_MARKER then orfail (-4) (Amf0EcmaArray_decode [] rest)
              else Inl Oob) (\<lambda>(props, consumed).
         Inr (retrieve_info props (m\<lparr>md_cache_flv_tag := Some payload\<rparr>), pos + consumed)))"

text \<open>
  Writing it back: two names and the value. Every failure is the return value 0 (an \<open>Rc\<close> here); without
  a value the null pointer is called through.
\<close>
definition RtmpMetaDataMessage_encode :: "RtmpMetaDataMessage \<Rightarrow> enc" where
  "RtmpMetaDataMessage_encode m buf =
     (case md_amf0_metadata m of None \<Rightarrow> Inl Oob
      | Some v \<Rightarrow> enc_seq (map must_advance [Amf0String_encode set_data_frame,
                    Amf0String_encode on_metadata, Amf0Data_encode v]) buf)"

section \<open>Properties\<close>

lemma from_keeps:
  "(\<And>v m. f (updn v m) = f m) \<Longrightarrow> f (from_number props k updn m) = f m"
  "(\<And>v m. f (upds v m) = f m) \<Longrightarrow> f (from_string props k upds m) = f m"
  "(\<And>v m. f (updb v m) = f m) \<Longrightarrow> f (from_boolean props k updb m) = f m"
  by (simp_all add: from_number_def from_string_def from_boolean_def split: option.split)

lemma from_number_sets:
  "(\<And>v m. f (upd v m)) \<Longrightarrow> f (from_number props k upd m) \<longleftrightarrow> f m \<or> get_number_property props k \<noteq> None"
  by (simp add: from_number_def split: option.split)

lemma retrieve_info_flags:
  "md_has_video (retrieve_info props m) \<longleftrightarrow> md_has_video m \<or> get_number_property props (key ''videocodecid'') \<noteq> None"
  "md_has_audio (retrieve_info props m) \<longleftrightarrow> md_has_audio m \<or> get_number_property props (key ''audiocodecid'') \<noteq> None"
  "md_amf0_metadata (retrieve_info props m) = md_amf0_metadata m"
  unfolding retrieve_info_def Let_def
  by (simp_all add: from_keeps [where f = md_has_video] from_number_sets [where f = md_has_video]
      from_keeps [where f = md_has_audio] from_number_sets [where f = md_has_audio]
      from_keeps [where f = md_amf0_metadata] del: list.map)

abbreviation (input) "metadata_wire props \<equiv> amf0_wire (Amf0String set_data_frame) @
  amf0_wire (Amf0String on_metadata) @ amf0_wire (Amf0Object props)"

lemma skip_names_wire:
  assumes "v \<noteq> []"
  shows "skip_names (amf0_wire (Amf0String set_data_frame) @ amf0_wire (Amf0String on_metadata) @ v) =
    Inr (v, length (amf0_wire (Amf0String set_data_frame)) + length (amf0_wire (Amf0String on_metadata)))"
  using assms amf0_string.decode_wire [of set_data_frame "amf0_wire (Amf0String on_metadata) @ v"]
    amf0_string.decode_wire [of on_metadata v]
  by (simp add: skip_names_def Let_def Suc_le_eq del: amf0_wire.simps)

lemma metadata_decode_wire:
  assumes "amf0_wf (Amf0Object props)" and "get_using_data msg = Inr (metadata_wire props)"
  shows "RtmpMetaDataMessage_decode msg RtmpMetaDataMessage_new =
    Inr (retrieve_info props (RtmpMetaDataMessage_new\<lparr>md_amf0_metadata := Some (Amf0Object props), md_cache_msg := Some msg\<rparr>), length (metadata_wire props))"
  using assms(2) skip_names_wire [of "amf0_wire (Amf0Object props)"] amf0_object.decode_wire [OF assms(1), of "[]"]
  by (simp add: RtmpMetaDataMessage_decode_def amf0_wire_hd del: amf0_wire.simps) (simp add: add.assoc)

text \<open>
  Metadata held as an AMF0 object survives being written into a buffer and read from a message with
  that payload: the same properties are stored, video and audio are reported exactly when their codec
  id is a number property, and every byte written is consumed.
\<close>
theorem metadata_roundtrip:
  assumes "amf0_wf (Amf0Object props)" and "md_amf0_metadata m = Some (Amf0Object props)"
    and "length (metadata_wire props) \<le> length buf"
  shows "\<exists>n out. RtmpMetaDataMessage_encode m buf = Inr (n, out) \<and> n = length (metadata_wire props) \<and>
    (\<forall>msg. get_using_data msg = Inr (take n out) \<longrightarrow>
      (\<exists>m'. RtmpMetaDataMessage_decode msg RtmpMetaDataMessage_new = Inr (m', n) \<and>
        md_amf0_metadata m' = Some (Amf0Object props) \<and>
        (md_has_video m' \<longleftrightarrow> get_number_property props (key ''videocodecid'') \<noteq> None) \<and>
        (md_has_audio m' \<longleftrightarrow> get_number_property props (key ''audiocodecid'') \<noteq> None)))"
proof -
  have "writes (enc_seq (map must_advance [Amf0String_encode set_data_frame, Amf0String_encode on_metadata,
      Amf0Data_encode (Amf0Object props)])) (metadata_wire props @ [])"
    using amf0_string.encode_writes [of set_data_frame] amf0_string.encode_writes [of on_metadata]
      amf0_object.encode_writes [OF assms(1)]
    unfolding append.assoc list.map by (intro writes_seq writes_must_advance) (simp_all del: Amf0Data_encode.simps)
  from writesD [OF this, of buf] assms(3)
  have enc: "RtmpMetaDataMessage_encode m buf = Inr (length (metadata_wire props), metadata_wire props @ drop (length (metadata_wire props)) buf)"
    by (simp add: RtmpMetaDataMessage_encode_def assms(2) del: amf0_wire.simps)
  note dec = metadata_decode_wire [OF assms(1)]
  show ?thesis
    using enc dec retrieve_info_flags [of props]
    by (intro exI [of _ "length (metadata_wire props)"] exI [of _ "metadata_wire props @ drop (length (metadata_wire props)) buf"])
       (simp add: RtmpMetaDataMessage_new_def del: amf0_wire.simps)
qed

definition sample_props :: properties where
  "sample_props = [(key ''width'', Amf0Number 0x4094000000000000), (key ''videocodecid'', Amf0Number 0x401c000000000000)]"

theorem metadata_roundtrip_witness:
  "\<exists>n out m'. RtmpMetaDataMessage_encode (RtmpMetaDataMessage_new\<lparr>md_amf0_metadata := Some (Amf0Object sample_props)\<rparr>)
       (replicate 90 0) = Inr (n, out) \<and>
     RtmpMetaDataMessage_decode (RtmpMessage_new (\<lambda>_. 0) 0\<lparr>data_buf := take n out, using_bytes := length (take n out)\<rparr>) RtmpMetaDataMessage_new = Inr (m', n) \<and>
     md_amf0_metadata m' = Some (Amf0Object sample_props) \<and> md_has_video m' \<and> \<not> md_has_audio m'"
proof -
  let ?m = "RtmpMetaDataMessage_new\<lparr>md_amf0_metadata := Some (Amf0Object sample_props)\<rparr>"
  have wf: "amf0_wf (Amf0Object sample_props)" and len: "length (metadata_wire sample_props) \<le> length (replicate 90 (0 :: byte))"
    by (simp_all add: sample_props_def)
  obtain n out where enc: "RtmpMetaDataMessage_encode ?m (replicate 90 0) = Inr (n, out)"
    and dec: "\<And>msg. get_using_data msg = Inr (take n out) \<Longrightarrow> \<exists>m'. RtmpMetaDataMessage_decode msg RtmpMetaDataMessage_new = Inr (m', n) \<and>
        md_amf0_metadata m' = Some (Amf0Object sample_props) \<and>
        (md_has_video m' \<longleftrightarrow> get_number_property sample_props (key ''videocodecid'') \<noteq> None) \<and>
        (md_has_audio m' \<longleftrightarrow> get_number_property sample_props (key ''audiocodecid'') \<noteq> None)"
    using metadata_roundtrip [OF wf _ len, of ?m] by auto
  have "get_using_data (RtmpMessage_new (\<lambda>_. 0) 0\<lparr>data_buf := take n out, using_bytes := length (take n out)\<rparr>) = Inr (take n out)"
    by (simp add: get_using_data_def min_def)
  from dec [OF this] enc show ?thesis
    by (auto simp: sample_props_def get_number_property_def)
qed

text \<open>
  A value that is neither an object nor an ECMA array after the names is an error in an RTMP
  data message, but in an FLV script tag the reader calls through a null pointer.
\<close>
theorem metadata_flv_null_value:
  assumes "skip_names payload = Inr (rest, pos)" and "hd rest \<noteq> OBJECT_MARKER" and "hd rest \<noteq> ECMA_ARRAY_MARKER"
    and "get_using_data msg = Inr payload"
  shows "RtmpMetaDataMessage_decode msg m = Inl (Rc (-5)) \<and> RtmpMetaDataMessage_decode_flv payload m = Inl Oob"
  using assms by (simp add: RtmpMetaDataMessage_decode_def RtmpMetaDataMessage_decode_flv_def)

theorem metadata_flv_null_value_witness:
  "RtmpMetaDataMessage_decode_flv (amf0_wire (Amf0String set_data_frame) @ amf0_wire (Amf0String on_metadata) @ [5])
     RtmpMetaDataMessage_new = Inl Oob"
  using metadata_flv_null_value [OF skip_names_wire [of "[5]"], of "RtmpMessage_new (\<lambda>_. 0) 0
    \<lparr>data_buf := amf0_wire (Amf0String set_data_frame) @ amf0_wire (Amf0String on_metadata) @ [5],
     using_bytes := length (amf0_wire (Amf0String set_data_frame) @ amf0_wire (Amf0String on_metadata) @ [5])\<rparr>"]
  by (simp add: get_using_data_def del: amf0_wire.simps)

end
