(* ===== verification/CodecConfig.thy ===== *)
theory CodecConfig
  imports Packet
begin

text \<open>
  The decoder configuration records of \<^verbatim>\<open>libs/codec\<close>: the AVC record (\<^verbatim>\<open>h264/h264_avcc.cpp\<close>), the HEVC record
  (\<^verbatim>\<open>hevc/hevc_hvcc.cpp\<close>) and the AAC audio specific config (\<^verbatim>\<open>aac/mpeg4_aac.cpp\<close>) with the bit stream it is read from
  (\<^verbatim>\<open>base/utils/bit_stream.cpp\<close>).
\<close>

section \<open>Parameter sets\<close>

text \<open>
  The loops over parameter sets with a two-byte length; \<open>e1\<close> and \<open>e2\<close> are the codes returned when the length or the set is cut off.
\<close>
fun read_nals :: "int \<Rightarrow> int \<Rightarrow> nat \<Rightarrow> bytes \<Rightarrow> (bytes list \<times> bytes) result" where
  "read_nals e1 e2 0 data = Inr ([], data)"
| "read_nals e1 e2 (Suc n) data =
     (if length data < 2 then Inl (Rc e1)
      else let l = unat (get_be (take 2 data) :: u16); d = drop 2 data in
      if length d < l then Inl (Rc e2)
      else bindR (read_nals e1 e2 n (drop l d)) (\<lambda>(ns, rest). Inr (take l d # ns, rest)))"

text \<open>Storing \<open>bs\<close> behind a check of the room left.\<close>
definition enc_put :: "int \<Rightarrow> bytes \<Rightarrow> enc" where
  "enc_put e bs buf = (if length buf < length bs then Inl (Rc e) else Inr (length bs, bs @ drop (length bs) buf))"

text \<open>The length of a set is truncated to 16 bits, and so is the copy.\<close>
definition enc_nal :: "int \<Rightarrow> int \<Rightarrow> bytes \<Rightarrow> enc" where
  "enc_nal e1 e2 n = (let l = of_nat (length n) :: u16 in enc_seq [enc_put e1 (put_be 2 l), enc_put e2 (take (unat l) n)])"

definition nth_enc :: "('a \<Rightarrow> enc) \<Rightarrow> 'a list \<Rightarrow> nat \<Rightarrow> enc" where
  "nth_enc f xs i = (if i < length xs then f (xs ! i) else (\<lambda>_. Inl Oob))"

section \<open>The AVC record\<close>

record AVCDecoderConfigurationRecord =
  avc_version :: byte
  avc_profile :: byte
  avc_compatibility :: byte
  avc_level :: byte
  nalu_length_size_minus_one :: byte
  num_of_sequence_parameter_sets :: byte
  sps_nalus :: "bytes list"
  num_of_picture_parameter_sets :: byte
  pps_nalus :: "bytes list"

definition avcc_parse :: "AVCDecoderConfigurationRecord \<Rightarrow> bytes \<Rightarrow> (AVCDecoderConfigurationRecord \<times> nat) result" where
  "avcc_parse r data =
     (if length data < 1 then Inl (Rc (-1)) else if length data < 2 then Inl (Rc (-2))
      else if length data < 3 then Inl (Rc (-3)) else if length data < 4 then Inl (Rc (-4))
      else if length data < 5 then Inl (Rc (-5)) else if length data < 6 then Inl (Rc (-6))
      else let n = data ! 5 AND 0x1f in
        bindR (read_nals (-7) (-8) (unat n) (drop 6 data)) (\<lambda>(sps, rest).
          if length rest < 1 then Inl (Rc (-9))
          else bindR (read_nals (-10) (-11) (unat (rest ! 0)) (drop 1 rest)) (\<lambda>(pps, rest').
            Inr (r\<lparr>avc_version := data ! 0, avc_profile := data ! 1, avc_compatibility := data ! 2, avc_level := data ! 3,
                   nalu_length_size_minus_one := data ! 4 AND 0x03, num_of_sequence_parameter_sets := n,
                   sps_nalus := sps_nalus r @ sps, num_of_picture_parameter_sets := rest ! 0, pps_nalus := pps_nalus r @ pps\<rparr>,
                 length data - length rest'))))"

definition avcc_size :: "AVCDecoderConfigurationRecord \<Rightarrow> nat" where
  "avcc_size r = 7 + sum_list (map (\<lambda>n. 2 + length n) (sps_nalus r)) + sum_list (map (\<lambda>n. 2 + length n) (pps_nalus r))"

definition avcc_encode :: "AVCDecoderConfigurationRecord \<Rightarrow> enc" where
  "avcc_encode r = enc_seq
     ([enc_put (-1) [avc_version r], enc_put (-2) [avc_profile r], enc_put (-3) [avc_compatibility r], enc_put (-4) [avc_level r],
       enc_put (-5) [nalu_length_size_minus_one r], enc_put (-6) [num_of_sequence_parameter_sets r]] @
      map (nth_enc (enc_nal (-7) (-8)) (sps_nalus r)) [0..<unat (num_of_sequence_parameter_sets r)] @
      [enc_put (-9) [num_of_picture_parameter_sets r]] @
      map (nth_enc (enc_nal (-10) (-11)) (pps_nalus r)) [0..<unat (num_of_picture_parameter_sets r)])"

definition add_sps :: "bytes \<Rightarrow> AVCDecoderConfigurationRecord \<Rightarrow> AVCDecoderConfigurationRecord" where
  "add_sps n r = (let ns = sps_nalus r @ [n] in r\<lparr>sps_nalus := ns, num_of_sequence_parameter_sets := of_nat (length ns)\<rparr>)"

definition add_pps :: "bytes \<Rightarrow> AVCDecoderConfigurationRecord \<Rightarrow> AVCDecoderConfigurationRecord" where
  "add_pps n r = (let ns = pps_nalus r @ [n] in r\<lparr>pps_nalus := ns, num_of_picture_parameter_sets := of_nat (length ns)\<rparr>)"

text \<open>The first parameter set, empty when the record counts none.\<close>
definition avcc_get_sps :: "AVCDecoderConfigurationRecord \<Rightarrow> bytes result" where
  "avcc_get_sps r = (if num_of_sequence_parameter_sets r = 0 then Inr [] else rd (sps_nalus r) 0)"

definition avcc_get_pps :: "AVCDecoderConfigurationRecord \<Rightarrow> bytes result" where
  "avcc_get_pps r = (if num_of_picture_parameter_sets r = 0 then Inr [] else rd (pps_nalus r) 0)"

section \<open>The HEVC record\<close>

record HVCCNALUnitArray =
  array_completeness :: byte
  na_reserved :: byte
  NAL_unit_type :: byte
  numNalus :: u16
  nalus :: "(u16 \<times> bytes) list"

text \<open>A return value of 0 means failure: \<open>None\<close>.\<close>
definition nal_array_decode :: "bytes \<Rightarrow> (HVCCNALUnitArray \<times> bytes) option" where
  "nal_array_decode data =
     (if length data < 1 then None else if length data < 3 then None
      else let n = get_be (take 2 (drop 1 data)) :: u16 in
        case read_nals 0 0 (unat n) (drop 3 data) of Inl _ \<Rightarrow> None
        | Inr (ns, rest) \<Rightarrow> Some (\<lparr>array_completeness = drop_bit 7 (data ! 0) AND 0x01, na_reserved = drop_bit 6 (data ! 0) AND 0x01,
            NAL_unit_type = data ! 0 AND 0x3F, numNalus = n, nalus = map (\<lambda>d. (of_nat (length d), d)) ns\<rparr>, rest))"

definition nal_array_encode :: "HVCCNALUnitArray \<Rightarrow> enc" where
  "nal_array_encode a = enc_seq
     ([enc_put (-1) [push_bit 7 (array_completeness a) OR push_bit 6 (na_reserved a) OR NAL_unit_type a],
       enc_put (-2) (put_be 2 (numNalus a))] @
      map (nth_enc (\<lambda>(l, d). enc_seq [enc_put (-3) (put_be 2 l),
             if unat l \<le> length d then enc_put (-4) (take (unat l) d) else (\<lambda>_. Inl Oob)]) (nalus a)) [0..<unat (numNalus a)])"

record HEVCDecoderConfigurationRecord =
  hv_version :: byte
  general_profile_space :: byte
  general_tier_flag :: byte
  general_profile_idc :: byte
  general_profile_compatibility_flags :: u32
  general_constraint_indicator_flags :: bytes
  general_level_idc :: byte
  reserved1 :: byte
  min_spatial_segmentation_idc :: byte
  reserved2 :: byte
  parallelismType :: byte
  reserved3 :: byte
  chromaFormat :: byte
  reserved4 :: byte
  bitDepthLumaMinus8 :: byte
  reserved5 :: byte
  bitDepthChromaMinus8 :: byte
  avgFrameRate :: u16
  constantFrameRate :: byte
  numTemporalLayers :: byte
  temporalIdNested :: byte
  lengthSizeMinusOne :: byte
  numOfArrays :: byte
  arrays :: "HVCCNALUnitArray list"
  vps_nalu :: bytes
  sps_nalu :: bytes
  pps_nalu :: bytes

text \<open>\<open>j\<close> are the members without an initialiser: parallelism, chroma format, the two bit depths and the constant frame rate.\<close>
definition hvcc_new :: "(nat \<Rightarrow> byte) \<Rightarrow> HEVCDecoderConfigurationRecord" where
  "hvcc_new j = \<lparr>hv_version = 1, general_profile_space = 0, general_tier_flag = 0, general_profile_idc = 0,
     general_profile_compatibility_flags = 0, general_constraint_indicator_flags = replicate 6 0, general_level_idc = 0,
     reserved1 = 0xf, min_spatial_segmentation_idc = 0, reserved2 = 0x3f, parallelismType = j 0, reserved3 = 0x3f, chromaFormat = j 1,
     reserved4 = 0x1f, bitDepthLumaMinus8 = j 2, reserved5 = 0x1f, bitDepthChromaMinus8 = j 3, avgFrameRate = 30,
     constantFrameRate = j 4, numTemporalLayers = 0, temporalIdNested = 0, lengthSizeMinusOne = 3, numOfArrays = 0, arrays = [],
     vps_nalu = [], sps_nalu = [], pps_nalu = []\<rparr>"

text \<open>The fixed part: fields of a given number of bytes, read while the data lasts; what was read stays in the object.\<close>
fun read_fields :: "(nat \<times> (bytes \<Rightarrow> 'h \<Rightarrow> 'h)) list \<Rightarrow> bytes \<Rightarrow> 'h \<Rightarrow> 'h \<times> bytes option" where
  "read_fields [] data h = (h, Some data)"
| "read_fields ((k, f) # fs) data h = (if length data < k then (h, None) else read_fields fs (drop k data) (f (take k data) h))"

definition hvcc_fields :: "(nat \<times> (bytes \<Rightarrow> HEVCDecoderConfigurationRecord \<Rightarrow> HEVCDecoderConfigurationRecord)) list" where
  "hvcc_fields =
     [(1, \<lambda>d h. h\<lparr>hv_version := d ! 0\<rparr>),
      (1, \<lambda>d h. h\<lparr>general_profile_idc := d ! 0 AND 0x1f, general_tier_flag := drop_bit 5 (d ! 0) AND 0x01,
           general_profile_space := drop_bit 6 (d ! 0) AND 0x03\<rparr>),
      (4, \<lambda>d h. h\<lparr>general_profile_compatibility_flags := get_be d\<rparr>),
      (6, \<lambda>d h. h\<lparr>general_constraint_indicator_flags := d\<rparr>),
      (1, \<lambda>d h. h\<lparr>general_level_idc := d ! 0\<rparr>),
      (2, \<lambda>d h. let tmp = get_be d :: u16 in
           h\<lparr>min_spatial_segmentation_idc := ucast (tmp AND 0xF), reserved1 := ucast (drop_bit 4 tmp AND 0xFFF)\<rparr>),
      (1, \<lambda>d h. h\<lparr>parallelismType := d ! 0 AND 0x3, reserved2 := drop_bit 2 (d ! 0) AND 0x3F\<rparr>),
      (1, \<lambda>d h. h\<lparr>chromaFormat := d ! 0 AND 0x03, reserved3 := drop_bit 2 (d ! 0) AND 0x3f\<rparr>),
      (1, \<lambda>d h. h\<lparr>bitDepthLumaMinus8 := d ! 0 AND 0x07, reserved4 := drop_bit 3 (d ! 0) AND 0x1F\<rparr>),
      (1, \<lambda>d h. h\<lparr>bitDepthChromaMinus8 := d ! 0 AND 0x07, reserved5 := drop_bit 3 (d ! 0) AND 0x1F\<rparr>),
      (2, \<lambda>d h. h\<lparr>avgFrameRate := get_be d\<rparr>),
      (1, \<lambda>d h. h\<lparr>lengthSizeMinusOne := d ! 0 AND 0x03, temporalIdNested := drop_bit 2 (d ! 0) AND 0x01,
           numTemporalLayers := drop_bit 3 (d ! 0) AND 0x07, constantFrameRate := drop_bit 6 (d ! 0) AND 0x03\<rparr>),
      (1, \<lambda>d h. h\<lparr>numOfArrays := d ! 0\<rparr>)]"

text \<open>The type of a unit; the first byte of an empty string reads as 0.\<close>
definition H265_TYPE :: "bytes \<Rightarrow> byte" where
  "H265_TYPE n = drop_bit 1 (if n = [] then 0 else hd n) AND 0x3f"

definition note_nal :: "bytes \<Rightarrow> HEVCDecoderConfigurationRecord \<Rightarrow> HEVCDecoderConfigurationRecord" where
  "note_nal n h = (if H265_TYPE n = 32 then h\<lparr>vps_nalu := n\<rparr> else if H265_TYPE n = 33 then h\<lparr>sps_nalu := n\<rparr>
     else if H265_TYPE n = 34 then h\<lparr>pps_nalu := n\<rparr> else h)"

fun read_arrays :: "nat \<Rightarrow> bytes \<Rightarrow> HEVCDecoderConfigurationRecord \<Rightarrow> HEVCDecoderConfigurationRecord \<times> bytes option" where
  "read_arrays 0 data h = (h, Some data)"
| "read_arrays (Suc k) data h = (case nal_array_decode data of None \<Rightarrow> (h, None)
     | Some (a, rest) \<Rightarrow> read_arrays k rest (fold note_nal (map snd (nalus a)) (h\<lparr>arrays := arrays h @ [a]\<rparr>)))"

text \<open>The object after the call and the return value, 0 for data that is cut off.\<close>
definition hvcc_decode :: "bytes \<Rightarrow> HEVCDecoderConfigurationRecord \<Rightarrow> HEVCDecoderConfigurationRecord \<times> nat" where
  "hvcc_decode data h0 = (case read_fields hvcc_fields data h0 of (h, None) \<Rightarrow> (h, 0)
     | (h, Some rest) \<Rightarrow> (case read_arrays (unat (numOfArrays h)) rest h of (h', None) \<Rightarrow> (h', 0)
         | (h', Some rest') \<Rightarrow> (h', length data - length rest')))"

definition hvcc_size :: "HEVCDecoderConfigurationRecord \<Rightarrow> nat" where
  "hvcc_size h = 23 + sum_list (map (\<lambda>a. 3 + sum_list (map (\<lambda>(l, d). 2 + length d) (nalus a))) (arrays h))"

text \<open>The callers replace the code of an array by their own; an out-of-range read stays one.\<close>
definition enc_or :: "int \<Rightarrow> enc \<Rightarrow> enc" where
  "enc_or k e buf = orfail k (e buf)"

definition hvcc_encode :: "HEVCDecoderConfigurationRecord \<Rightarrow> enc" where
  "hvcc_encode h = enc_seq
     ([enc_put (-1) [hv_version h],
       enc_put (-2) [push_bit 6 (general_profile_space h) OR push_bit 5 (general_tier_flag h) OR general_profile_idc h],
       enc_put (-3) (put_be 4 (general_profile_compatibility_flags h)),
       enc_put (-4) (take 6 (general_constraint_indicator_flags h)),
       enc_put (-5) [general_level_idc h],
       enc_put (-6) (put_be 2 (push_bit 12 (ucast (reserved1 h)) OR ucast (min_spatial_segmentation_idc h) :: u16)),
       enc_put (-7) [push_bit 6 (reserved2 h) OR parallelismType h],
       enc_put (-7) [push_bit 2 (reserved3 h) OR chromaFormat h],
       enc_put (-7) [push_bit 3 (reserved4 h) OR bitDepthLumaMinus8 h],
       enc_put (-7) [push_bit 3 (reserved5 h) OR bitDepthChromaMinus8 h],
       enc_put (-7) (put_be 2 (avgFrameRate h)),
       enc_put (-7) [push_bit 6 (constantFrameRate h) OR push_bit 4 (numTemporalLayers h) OR push_bit 2 (temporalIdNested h) OR
         lengthSizeMinusOne h],
       enc_put (-7) [numOfArrays h]] @
      map (\<lambda>i. enc_or (-8) (nth_enc nal_array_encode (arrays h) i)) [0..<unat (numOfArrays h)])"

definition add_nalu :: "byte \<Rightarrow> bytes \<Rightarrow> HEVCDecoderConfigurationRecord \<Rightarrow> HEVCDecoderConfigurationRecord" where
  "add_nalu t n h = h\<lparr>arrays := arrays h @ [\<lparr>array_completeness = 0, na_reserved = 0, NAL_unit_type = t, numNalus = 1,
     nalus = [(of_nat (length n), n)]\<rparr>], numOfArrays := numOfArrays h + 1\<rparr>"

section \<open>Bit streams\<close>

text \<open>Reading \<open>count\<close> bits into a word of any width; there is no check of the end of the stream.\<close>
fun read_u :: "nat \<Rightarrow> bytes \<Rightarrow> nat \<Rightarrow> 'w::len word \<Rightarrow> ('w word \<times> nat) result" where
  "read_u 0 s pos v = Inr (v, pos)"
| "read_u (Suc n) s pos v = bindR (rd s (pos div 8)) (\<lambda>b.
     read_u n s (Suc pos) (push_bit 1 v + (if bit b (7 - pos mod 8) then 1 else 0)))"

text \<open>Writing a bit: a zero leaves the bit of the buffer as it is.\<close>
definition write_one_bit :: "bool \<Rightarrow> bytes \<Rightarrow> nat \<Rightarrow> (bytes \<times> nat) result" where
  "write_one_bit v s pos = bindR (rd s (pos div 8)) (\<lambda>b.
     Inr (s[pos div 8 := (if v then b OR push_bit (7 - pos mod 8) 1 else b AND NOT (push_bit (7 - pos mod 8) 0))], Suc pos))"

fun write_bits :: "nat \<Rightarrow> u64 \<Rightarrow> bytes \<Rightarrow> nat \<Rightarrow> (bytes \<times> nat) result" where
  "write_bits 0 v s pos = Inr (s, pos)"
| "write_bits (Suc n) v s pos = bindR (write_one_bit (bit v n) s pos) (\<lambda>(s', pos'). write_bits n v s' pos')"

section \<open>The audio specific config\<close>

record AudioSpecificConfig =
  audio_object_type :: u64
  frequency_index :: byte
  sampling_frequency :: u32
  channel_configuration :: byte

definition mpeg4audio_sample_rates :: "u32 list" where
  "mpeg4audio_sample_rates = [96000, 88200, 64000, 48000, 44100, 32000, 24000, 22050, 16000, 12000, 11025, 8000, 7350, 0, 0, 0]"

definition asc_parse :: "bytes \<Rightarrow> (AudioSpecificConfig \<times> nat) result" where
  "asc_parse data =
     (if length data < 1 then Inl (Rc (-1))
      else bindR (read_u 5 data 0 0) (\<lambda>(t, p1). let aot = t AND 0x1f in
        bindR (if aot = 31 then bindR (read_u 6 data p1 (0 :: u64)) (\<lambda>(_, p). Inr p) else Inr p1) (\<lambda>p2.
        bindR (read_u 4 data p2 (0 :: u64)) (\<lambda>(fi, p3). let fi = ucast (fi AND 0xf) :: byte in
        bindR (if fi = 0x0f then bindR (read_u 24 data p3 (0 :: u64)) (\<lambda>(v, p). Inr (ucast (v AND 0xfff), p))
               else bindR (rd mpeg4audio_sample_rates (unat fi)) (\<lambda>r. Inr (r, p3))) (\<lambda>(freq, p4).
        bindR (read_u 4 data p4 (0 :: u64)) (\<lambda>(ch, p5).
          Inr (\<lparr>audio_object_type = aot, frequency_index = fi, sampling_frequency = freq, channel_configuration = ucast (ch AND 0x0f)\<rparr>,
               (p5 + 7) div 8)))))))"

definition asc_encode :: "AudioSpecificConfig \<Rightarrow> bytes \<Rightarrow> (bytes \<times> nat) result" where
  "asc_encode c data =
     (if length data < 1 then Inl (Rc (-1))
      else bindR (write_bits 5 (audio_object_type c) data 0) (\<lambda>(d1, p1).
        bindR (if audio_object_type c = 31 then write_bits 6 0 d1 p1 else Inr (d1, p1)) (\<lambda>(d2, p2).
        bindR (write_bits 4 (ucast (frequency_index c)) d2 p2) (\<lambda>(d3, p3).
        bindR (if frequency_index c = 0x0f then write_bits 24 (ucast (sampling_frequency c)) d3 p3 else Inr (d3, p3)) (\<lambda>(d4, p4).
        bindR (write_bits 4 (ucast (channel_configuration c)) d4 p4) (\<lambda>(d5, p5). Inr (d5, (p5 + 7) div 8)))))))"

definition asc_size :: "AudioSpecificConfig \<Rightarrow> nat" where
  "asc_size c = (5 + (if audio_object_type c = 31 then 6 else 0) + 4 + (if frequency_index c = 0x0f then 24 else 0) + 4 + 7) div 8"


section \<open>Reading back what was written\<close>

lemma writes_put: "writes (enc_put e bs) bs"
  by (rule writesI) (simp add: enc_put_def)

lemma writes_all: "list_all2 writes es ws \<Longrightarrow> writes (enc_seq es) (concat ws)"
  by (induction es ws rule: list_all2_induct) (simp_all add: writes_seq del: enc_seq.simps)

definition nal_wire :: "bytes \<Rightarrow> bytes" where
  "nal_wire n = put_be 2 (of_nat (length n) :: u16) @ n"

lemma length_nal_wire [simp]: "length (nal_wire n) = 2 + length n"
  by (simp add: nal_wire_def)

lemma u16_length: "length n < 65536 \<Longrightarrow> unat (of_nat (length n) :: u16) = length n"
  by (simp add: unat_of_nat)

lemma writes_nal:
  assumes "length n < 65536"
  shows "writes (enc_nal e1 e2 n) (nal_wire n)"
proof -
  have "writes (enc_seq [enc_put e1 (put_be 2 (of_nat (length n) :: u16)), enc_put e2 n]) (concat [put_be 2 (of_nat (length n) :: u16), n])"
    by (rule writes_all) (simp add: writes_put)
  then show ?thesis using assms by (simp add: enc_nal_def Let_def u16_length nal_wire_def)
qed

lemma writes_nals:
  assumes "\<forall>n\<in>set ns. length n < 65536" and "k = length ns"
  shows "list_all2 writes (map (nth_enc (enc_nal e1 e2) ns) [0..<k]) (map nal_wire ns)"
  using assms by (auto simp: list_all2_conv_all_nth nth_enc_def writes_nal)

lemma read_nals_wire:
  assumes "\<forall>n\<in>set ns. length n < 65536"
  shows "read_nals e1 e2 (length ns) (concat (map nal_wire ns) @ rest) = Inr (ns, rest)"
  using assms
proof (induction ns)
  case (Cons n ns)
  have "get_be (put_be 2 (of_nat (length n) :: u16)) = (of_nat (length n) :: u16)" by simp
  with Cons show ?case by (simp add: nal_wire_def Let_def u16_length)
qed simp

section \<open>The AVC record as a wire type\<close>

definition avcc_new :: "byte \<Rightarrow> AVCDecoderConfigurationRecord" where
  "avcc_new j = \<lparr>avc_version = 1, avc_profile = j, avc_compatibility = 0, avc_level = j, nalu_length_size_minus_one = j,
     num_of_sequence_parameter_sets = j, sps_nalus = [], num_of_picture_parameter_sets = j, pps_nalus = []\<rparr>"

definition avcc_ok :: "AVCDecoderConfigurationRecord \<Rightarrow> bool" where
  "avcc_ok r \<longleftrightarrow> unat (nalu_length_size_minus_one r) < 4 \<and> length (sps_nalus r) < 32 \<and> length (pps_nalus r) < 256 \<and>
     num_of_sequence_parameter_sets r = of_nat (length (sps_nalus r)) \<and>
     num_of_picture_parameter_sets r = of_nat (length (pps_nalus r)) \<and>
     (\<forall>n\<in>set (sps_nalus r). length n < 65536) \<and> (\<forall>n\<in>set (pps_nalus r). length n < 65536)"

definition avcc_wire :: "AVCDecoderConfigurationRecord \<Rightarrow> bytes" where
  "avcc_wire r = [avc_version r, avc_profile r, avc_compatibility r, avc_level r, nalu_length_size_minus_one r,
     num_of_sequence_parameter_sets r] @ concat (map nal_wire (sps_nalus r)) @ [num_of_picture_parameter_sets r] @
     concat (map nal_wire (pps_nalus r))"

lemma length_nals: "length (concat (map nal_wire ns)) = sum_list (map (\<lambda>n. 2 + length n) ns)"
  by (induction ns) simp_all

lemma low_bits: "unat (b :: byte) < 2 ^ k \<Longrightarrow> b AND mask k = b"
  by (simp add: word_unat_eq_iff unsigned_take_bit_eq take_bit_nat_eq_self flip: take_bit_eq_mask)

lemma byte_count: "k < 256 \<Longrightarrow> unat (of_nat k :: byte) = k"
  by (simp add: unat_of_nat)

lemma low_masks: "(0x1f :: byte) = mask 5" "(0x03 :: byte) = mask 2"
  by (simp_all add: mask_eq_exp_minus_1)

interpretation avcc: wire_codec avcc_ok avcc_wire avcc_size avcc_encode "avcc_parse (avcc_new j)" for j
proof (unfold_locales, goal_cases)
  case (1 r)
  then show ?case by (simp add: avcc_size_def avcc_wire_def length_nals)
next
  case (2 r)
  then have n: "unat (num_of_sequence_parameter_sets r) = length (sps_nalus r)" "unat (num_of_picture_parameter_sets r) = length (pps_nalus r)"
    by (simp_all add: avcc_ok_def byte_count)
  let ?head = "[[avc_version r], [avc_profile r], [avc_compatibility r], [avc_level r], [nalu_length_size_minus_one r],
     [num_of_sequence_parameter_sets r]]"
  have "writes (avcc_encode r) (concat (?head @ map nal_wire (sps_nalus r) @ [[num_of_picture_parameter_sets r]] @ map nal_wire (pps_nalus r)))"
    unfolding avcc_encode_def n using 2
    by (intro writes_all list_all2_appendI writes_nals) (simp_all add: writes_put avcc_ok_def)
  then show ?case by (simp add: avcc_wire_def)
next
  case (3 r rest)
  then have n: "unat (num_of_sequence_parameter_sets r) = length (sps_nalus r)" "unat (num_of_picture_parameter_sets r) = length (pps_nalus r)"
    by (simp_all add: avcc_ok_def byte_count)
  have m: "num_of_sequence_parameter_sets r AND 0x1f = num_of_sequence_parameter_sets r"
      "nalu_length_size_minus_one r AND 0x03 = nalu_length_size_minus_one r"
    unfolding low_masks using 3 by (auto intro!: low_bits simp: avcc_ok_def byte_count)
  have r: "read_nals e1 e2 (length (sps_nalus r)) (concat (map nal_wire (sps_nalus r)) @ x) = Inr (sps_nalus r, x)"
      "read_nals e1 e2 (length (pps_nalus r)) (concat (map nal_wire (pps_nalus r)) @ x) = Inr (pps_nalus r, x)" for e1 e2 x
    using 3 by (simp_all add: read_nals_wire avcc_ok_def)
  show ?case by (simp add: avcc_parse_def avcc_wire_def m n r avcc_new_def)
qed


section \<open>Bits past the end\<close>

lemma read_u_inside: "pos + n \<le> 8 * length s \<Longrightarrow> \<exists>v'. read_u n s pos v = Inr (v', pos + n)"
proof (induction n arbitrary: pos v)
  case (Suc n)
  then have "pos div 8 < length s" by simp
  with Suc.IH [of "Suc pos"] Suc.prems show ?case by (simp add: rd_def)
qed simp

lemma read_u_outside: "pos \<le> 8 * length s \<Longrightarrow> 8 * length s < pos + n \<Longrightarrow> read_u n s pos v = Inl Oob"
proof (induction n arbitrary: pos v)
  case (Suc n)
  then show ?case by (cases "pos div 8 < length s") (simp_all add: rd_def)
qed simp

section \<open>Properties\<close>

text \<open>
  C19. A decoder configuration record with at most 31 sequence and 255 picture parameter sets of less than 64 KiB each, encoded into
  any buffer of its announced size: the encoder writes exactly that many bytes, and the parser reads the same record back from them,
  whatever bytes follow.
\<close>
theorem avcc_roundtrip:
  assumes "avcc_ok r" and "avcc_size r \<le> length buf"
  shows "\<exists>out. avcc_encode r buf = Inr (avcc_size r, out @ drop (avcc_size r) buf) \<and> length out = avcc_size r \<and>
    avcc_parse (avcc_new j) (out @ rest) = Inr (r, avcc_size r)"
  using avcc.encode_fits [OF assms] avcc.decode_wire [OF assms(1), of j rest] avcc.sz_wire [OF assms(1)] by (intro exI [of _ "avcc_wire r"]) simp

definition baseline_avcc :: AVCDecoderConfigurationRecord where
  "baseline_avcc = add_pps [0x68, 0xce] (add_sps [0x67, 0x42, 0, 0x1e] (avcc_new 3\<lparr>avc_profile := 66, avc_level := 30\<rparr>))"

theorem avcc_roundtrip_witness:
  "\<exists>out. avcc_encode baseline_avcc (replicate 20 0) = Inr (17, out @ [0, 0, 0]) \<and> length out = 17 \<and>
    avcc_parse (avcc_new 0) (out @ [9]) = Inr (baseline_avcc, 17)"
proof -
  have "avcc_size baseline_avcc = 17" by (simp add: avcc_size_def baseline_avcc_def add_sps_def add_pps_def avcc_new_def)
  moreover have "avcc_ok baseline_avcc" by (simp add: avcc_ok_def baseline_avcc_def add_sps_def add_pps_def avcc_new_def)
  moreover have "drop 17 (replicate 20 (0 :: byte)) = [0, 0, 0]" by code_simp
  ultimately show ?thesis using avcc_roundtrip [of baseline_avcc "replicate 20 0" 0 "[9]"] by simp
qed

text \<open>
  The bit stream does not check its end, and the parser of an audio specific config checks only for empty data: a config of
  one byte, as in the sequence header of a two-byte-header AAC packet of three bytes, is always read past its end.
\<close>
theorem one_byte_asc_overreads: "asc_parse [b] = Inl Oob"
proof -
  obtain t where t: "read_u 5 [b] 0 (0 :: u64) = Inr (t, 5)" using read_u_inside [of 0 5 "[b]" 0] by auto
  have "read_u 6 [b] 5 (0 :: u64) = Inl Oob" "read_u 4 [b] 5 (0 :: u64) = Inl Oob" by (intro read_u_outside; simp)+
  with t show ?thesis by (simp add: asc_parse_def Let_def)
qed

text \<open>
  The decoder of the HEVC record reports data that is cut off by returning 0, but keeps what it has read.  With fewer than the
  23 bytes of the fixed part the result is 0 and no parameter set is set.
\<close>
lemma hvcc_short:
  assumes "length data < 23"
  shows "snd (hvcc_decode data h) = 0 \<and> sps_nalu (fst (hvcc_decode data h)) = sps_nalu h"
proof -
  have "snd (read_fields hvcc_fields data h) = None \<and> sps_nalu (fst (read_fields hvcc_fields data h)) = sps_nalu h"
    using assms by (simp add: hvcc_fields_def Let_def)
  then show ?thesis by (cases "read_fields hvcc_fields data h") (simp add: hvcc_decode_def)
qed

end
