(* ===== verification/H264Sps.thy ===== *)
theory H264Sps
  imports CodecConfig
begin

text \<open>
  The H.264 sequence parameter set: \<^verbatim>\<open>libs/codec/h264/h264_sps.cpp\<close>, the Exp-Golomb readers of \<^verbatim>\<open>libs/base/utils/bit_stream.cpp\<close>, and
  the codec objects that hold parameter sets, \<^verbatim>\<open>libs/codec/h264/h264_codec.cpp\<close> and \<^verbatim>\<open>libs/codec/hevc/hevc_codec.cpp\<close>. As in the
  other theories \<open>Oob\<close> stands for undefined behaviour.
\<close>

section \<open>Exp-Golomb codes\<close>

text \<open>
  The loop that counts leading zero bits, \<open>left\<close> more bits at most: it has read the first one bit, or 65 bits without one.
\<close>
fun leading_zeros :: "nat \<Rightarrow> bytes \<Rightarrow> nat \<Rightarrow> nat \<Rightarrow> (nat \<times> nat) result" where
  "leading_zeros 0 s pos n = Inr (n, pos)"
| "leading_zeros (Suc left) s pos n = bindR (read_u 1 s pos (0 :: byte)) (\<lambda>(b, p).
     if b \<noteq> 0 then Inr (n, p) else if left = 0 then Inr (n, p) else leading_zeros left s p (Suc n))"

text \<open>The power is an \<^verbatim>\<open>int\<close>: one less than it is undefined from 31 zeros on.\<close>
definition read_exp_golomb_ue :: "bytes \<Rightarrow> nat \<Rightarrow> (u64 \<times> nat) result" where
  "read_exp_golomb_ue s pos = bindR (leading_zeros 65 s pos 0) (\<lambda>(n, p).
     bindR (read_u n s p (0 :: u64)) (\<lambda>(l, p'). if n < 31 then Inr (2 ^ n - 1 + l, p') else Inl Oob))"

definition read_exp_golomb_se :: "bytes \<Rightarrow> nat \<Rightarrow> (64 word \<times> nat) result" where
  "read_exp_golomb_se s pos = bindR (read_exp_golomb_ue s pos) (\<lambda>(ue, p).
     let v = drop_bit 1 (ue + 1) in Inr (if bit ue 0 then v else - v, p))"

section \<open>Parsers over a bit stream\<close>

text \<open>
  A parser member reads from the stream at a bit position into an object and goes on, or returns a code. Only \<^verbatim>\<open>read_one_bit\<close> checks
  the end of the stream; the other readers always return true, so their return codes do not occur. No more bits are read than the
  member read into has.
\<close>
type_synonym 's step = "bytes \<Rightarrow> nat \<times> 's \<Rightarrow> (int option \<times> nat \<times> 's) result"

definition flag_step :: "int \<Rightarrow> (byte \<Rightarrow> 's \<Rightarrow> 's) \<Rightarrow> 's step" where
  "flag_step e upd s st = (case st of (pos, x) \<Rightarrow>
     if pos div 8 < length s then Inr (None, Suc pos, upd (if bit (s ! (pos div 8)) (7 - pos mod 8) then 1 else 0) x)
     else Inr (Some e, pos, x))"

definition bits_step :: "nat \<Rightarrow> (u64 \<Rightarrow> 's \<Rightarrow> 's) \<Rightarrow> 's step" where
  "bits_step n upd s st = (case st of (pos, x) \<Rightarrow> bindR (read_u n s pos 0) (\<lambda>(v, p). Inr (None, p, upd v x)))"

definition ue_step :: "(u64 \<Rightarrow> 's \<Rightarrow> 's) \<Rightarrow> 's step" where
  "ue_step upd s st = (case st of (pos, x) \<Rightarrow> bindR (read_exp_golomb_ue s pos) (\<lambda>(v, p). Inr (None, p, upd v x)))"

definition se_step :: "(u64 \<Rightarrow> 's \<Rightarrow> 's) \<Rightarrow> 's step" where
  "se_step upd s st = (case st of (pos, x) \<Rightarrow> bindR (read_exp_golomb_se s pos) (\<lambda>(v, p). Inr (None, p, upd v x)))"

fun steps :: "'s step list \<Rightarrow> 's step" where
  "steps [] s st = Inr (None, st)"
| "steps (p # ps) s st = bindR (p s st) (\<lambda>(r, st'). if r = None then steps ps s st' else Inr (r, st'))"

definition when_step :: "('s \<Rightarrow> bool) \<Rightarrow> 's step list \<Rightarrow> 's step" where
  "when_step c ps s st = (if c (snd st) then steps ps s st else Inr (None, st))"

fun times :: "nat \<Rightarrow> 's step list \<Rightarrow> 's step" where
  "times 0 ps s st = Inr (None, st)"
| "times (Suc n) ps s st = bindR (steps ps s st) (\<lambda>(r, st'). if r = None then times n ps s st' else Inr (r, st'))"

definition loop_step :: "('s \<Rightarrow> nat) \<Rightarrow> 's step list \<Rightarrow> 's step" where
  "loop_step n ps s st = times (n (snd st)) ps s st"

text \<open>A parser of a part; any failure of it is the code \<open>e\<close>.\<close>
definition sub_step :: "int \<Rightarrow> ('s \<Rightarrow> 'p) \<Rightarrow> ('p \<Rightarrow> 's \<Rightarrow> 's) \<Rightarrow> 'p step list \<Rightarrow> 's step" where
  "sub_step e get put ps s st = (case st of (pos, x) \<Rightarrow>
     bindR (steps ps s (pos, get x)) (\<lambda>(r, pos', y). Inr (if r = None \<or> r = Some 0 then None else Some e, pos', put y x)))"

section \<open>The parameter set\<close>

record hrd_parameters_t =
  cpb_cnt_minus1 :: u64
  bit_rate_scale :: byte
  cpb_size_scale :: byte
  bit_rate_value_minus1 :: "u64 list"
  cpb_size_value_minus1 :: "u64 list"
  cbr_flag :: "byte list"
  initial_cpb_removal_delay_length_minus1 :: byte
  cpb_removal_delay_length_minus1 :: byte
  dpb_output_delay_length_minus1 :: byte
  time_offset_length :: byte

definition hrd_parse :: "hrd_parameters_t step list" where
  "hrd_parse =
    [ue_step (\<lambda>v h. h\<lparr>cpb_cnt_minus1 := v\<rparr>),
     bits_step 4 (\<lambda>v h. h\<lparr>bit_rate_scale := ucast v\<rparr>),
     bits_step 4 (\<lambda>v h. h\<lparr>cpb_size_scale := ucast v\<rparr>),
     loop_step (\<lambda>h. unat (cpb_cnt_minus1 h) + 1)
       [ue_step (\<lambda>v h. h\<lparr>bit_rate_value_minus1 := bit_rate_value_minus1 h @ [v]\<rparr>),
        ue_step (\<lambda>v h. h\<lparr>cpb_size_value_minus1 := cpb_size_value_minus1 h @ [v]\<rparr>),
        flag_step (-6) (\<lambda>v h. h\<lparr>cbr_flag := cbr_flag h @ [v]\<rparr>)],
     bits_step 5 (\<lambda>v h. h\<lparr>initial_cpb_removal_delay_length_minus1 := ucast v\<rparr>),
     bits_step 5 (\<lambda>v h. h\<lparr>cpb_removal_delay_length_minus1 := ucast v\<rparr>),
     bits_step 5 (\<lambda>v h. h\<lparr>dpb_output_delay_length_minus1 := ucast v\<rparr>),
     bits_step 5 (\<lambda>v h. h\<lparr>time_offset_length := ucast v\<rparr>)]"

record vui_parameters_t =
  aspect_ratio_info_present_flag :: byte
  aspect_ratio_idc :: byte
  sar_width :: u16
  sar_height :: u16
  overscan_info_present_flag :: byte
  overscan_appropriate_flag :: byte
  video_signal_type_present_flag :: byte
  video_format :: byte
  video_full_range_flag :: byte
  colour_description_present_flag :: byte
  colour_primaries :: byte
  transfer_characteristics :: byte
  matrix_coefficients :: byte
  chroma_loc_info_present_flag :: byte
  chroma_sample_loc_type_top_field :: u64
  chroma_sample_loc_type_bottom_field :: u64
  timing_info_present_flag :: byte
  num_units_in_tick :: u64
  time_scale :: u64
  fixed_frame_rate_flag :: byte
  nal_hrd_parameters_present_flag :: byte
  hrd_parameters1 :: hrd_parameters_t
  vcl_hrd_parameters_present_flag :: byte
  hrd_parameters2 :: hrd_parameters_t
  low_delay_hrd_flag :: byte
  pic_struct_present_flag :: byte
  bitstream_restriction_flag :: byte
  motion_vectors_over_pic_boundaries_flag :: byte
  max_bytes_per_pic_denom :: u64
  max_bits_per_mb_denom :: u64
  log2_max_mv_length_horizontal :: u64
  log2_max_mv_length_vertical :: u64
  max_num_reorder_frames :: u64
  max_dec_frame_buffering :: u64

definition vui_parse :: "vui_parameters_t step list" where
  "vui_parse =
    [flag_step (-1) (\<lambda>v s. s\<lparr>aspect_ratio_info_present_flag := v\<rparr>),
     when_step (\<lambda>s. aspect_ratio_info_present_flag s \<noteq> 0)
       [bits_step 8 (\<lambda>v s. s\<lparr>aspect_ratio_idc := ucast v\<rparr>),
        when_step (\<lambda>s. aspect_ratio_idc s = 0xff)
          [bits_step 16 (\<lambda>v s. s\<lparr>sar_width := ucast v\<rparr>),
           bits_step 16 (\<lambda>v s. s\<lparr>sar_height := ucast v\<rparr>)]],
     flag_step (-5) (\<lambda>v s. s\<lparr>overscan_info_present_flag := v\<rparr>),
     when_step (\<lambda>s. overscan_info_present_flag s \<noteq> 0) [flag_step (-6) (\<lambda>v s. s\<lparr>overscan_appropriate_flag := v\<rparr>)],
     flag_step (-7) (\<lambda>v s. s\<lparr>video_signal_type_present_flag := v\<rparr>),
     when_step (\<lambda>s. video_signal_type_present_flag s \<noteq> 0)
       [bits_step 3 (\<lambda>v s. s\<lparr>video_format := ucast v\<rparr>),
        flag_step (-9) (\<lambda>v s. s\<lparr>video_full_range_flag := v\<rparr>),
        flag_step (-10) (\<lambda>v s. s\<lparr>colour_description_present_flag := v\<rparr>),
        when_step (\<lambda>s. colour_description_present_flag s \<noteq> 0)
          [bits_step 8 (\<lambda>v s. s\<lparr>colour_primaries := ucast v\<rparr>),
           bits_step 8 (\<lambda>v s. s\<lparr>transfer_characteristics := ucast v\<rparr>),
           bits_step 8 (\<lambda>v s. s\<lparr>matrix_coefficients := ucast v\<rparr>)]],
     flag_step (-14) (\<lambda>v s. s\<lparr>chroma_loc_info_present_flag := v\<rparr>),
     when_step (\<lambda>s. chroma_loc_info_present_flag s \<noteq> 0)
       [ue_step (\<lambda>v s. s\<lparr>chroma_sample_loc_type_top_field := v\<rparr>),
        ue_step (\<lambda>v s. s\<lparr>chroma_sample_loc_type_bottom_field := v\<rparr>)],
     flag_step (-17) (\<lambda>v s. s\<lparr>timing_info_present_flag := v\<rparr>),
     when_step (\<lambda>s. timing_info_present_flag s \<noteq> 0)
       [bits_step 32 (\<lambda>v s. s\<lparr>num_units_in_tick := v\<rparr>),
        bits_step 32 (\<lambda>v s. s\<lparr>time_scale := v\<rparr>),
        flag_step (-20) (\<lambda>v s. s\<lparr>fixed_frame_rate_flag := v\<rparr>)],
     flag_step (-21) (\<lambda>v s. s\<lparr>nal_hrd_parameters_present_flag := v\<rparr>),
     when_step (\<lambda>s. nal_hrd_parameters_present_flag s \<noteq> 0) [sub_step (-22) hrd_parameters1 (\<lambda>h s. s\<lparr>hrd_parameters1 := h\<rparr>) hrd_parse],
     flag_step (-23) (\<lambda>v s. s\<lparr>vcl_hrd_parameters_present_flag := v\<rparr>),
     when_step (\<lambda>s. vcl_hrd_parameters_present_flag s \<noteq> 0) [sub_step (-24) hrd_parameters2 (\<lambda>h s. s\<lparr>hrd_parameters2 := h\<rparr>) hrd_parse],
     when_step (\<lambda>s. nal_hrd_parameters_present_flag s \<noteq> 0 \<or> vcl_hrd_parameters_present_flag s \<noteq> 0)
       [flag_step (-25) (\<lambda>v s. s\<lparr>low_delay_hrd_flag := v\<rparr>)],
     flag_step (-26) (\<lambda>v s. s\<lparr>pic_struct_present_flag := v\<rparr>),
     flag_step (-27) (\<lambda>v s. s\<lparr>bitstream_restriction_flag := v\<rparr>),
     when_step (\<lambda>s. bitstream_restriction_flag s \<noteq> 0)
       [flag_step (-28) (\<lambda>v s. s\<lparr>motion_vectors_over_pic_boundaries_flag := v\<rparr>),
        ue_step (\<lambda>v s. s\<lparr>max_bytes_per_pic_denom := v\<rparr>),
        ue_step (\<lambda>v s. s\<lparr>max_bits_per_mb_denom := v\<rparr>),
        ue_step (\<lambda>v s. s\<lparr>log2_max_mv_length_horizontal := v\<rparr>),
        ue_step (\<lambda>v s. s\<lparr>log2_max_mv_length_vertical := v\<rparr>),
        ue_step (\<lambda>v s. s\<lparr>max_num_reorder_frames := v\<rparr>),
        ue_step (\<lambda>v s. s\<lparr>max_dec_frame_buffering := v\<rparr>)]]"


record h264_sps_t =
  profile_idc :: byte
  constraint_set0_flag :: byte
  constraint_set1_flag :: byte
  constraint_set2_flag :: byte
  constraint_set3_flag :: byte
  constraint_set4_flag :: byte
  constraint_set5_flag :: byte
  reserved_zero_2bits :: byte
  level_idc :: byte
  seq_parameter_set_id :: u64
  chroma_format_idc :: u64
  separate_colour_plane_flag :: byte
  bit_depth_luma_minus8 :: u64
  bit_depth_chroma_minus8 :: u64
  qpprime_y_zero_transform_bypass_flag :: byte
  seq_scaling_matrix_present_flag :: byte
  seq_scaling_list_present_flag :: bytes
  log2_max_frame_num_minus4 :: u64
  pic_order_cnt_type :: u64
  log2_max_pic_order_cnt_lsb_minus4 :: u64
  delta_pic_order_always_zero_flag :: byte
  offset_for_non_ref_pic :: u64
  offset_for_top_to_bottom_field :: u64
  num_ref_frames_in_pic_order_cnt_cycle :: u64
  offset_for_ref_frame :: "u64 list"
  max_num_ref_frames :: u64
  gaps_in_frame_num_value_allowed_flag :: byte
  pic_width_in_mbs_minus1 :: u64
  pic_height_in_map_units_minus1 :: u64
  frame_mbs_only_flag :: byte
  mb_adaptive_frame_field_flag :: byte
  direct_8x8_inference_flag :: byte
  frame_cropping_flag :: byte
  frame_crop_left_offset :: u64
  frame_crop_right_offset :: u64
  frame_crop_top_offset :: u64
  frame_crop_bottom_offset :: u64
  vui_parameters_present_flag :: byte
  vui_parameters :: vui_parameters_t

definition high_profile :: "byte \<Rightarrow> bool" where
  "high_profile p \<longleftrightarrow> p \<in> set [100, 110, 122, 244, 44, 83, 86, 118, 128, 138, 139, 134, 135]"

text \<open>The parts of the parameter set, in the order of the source. The end of the stream in the scaling list flags returns false, which is 0.\<close>

definition sps_head :: "h264_sps_t step list" where
  "sps_head =
    [bits_step 8 (\<lambda>v s. s\<lparr>profile_idc := ucast v\<rparr>),
     flag_step (-2) (\<lambda>v s. s\<lparr>constraint_set0_flag := v\<rparr>),
     flag_step (-3) (\<lambda>v s. s\<lparr>constraint_set1_flag := v\<rparr>),
     flag_step (-4) (\<lambda>v s. s\<lparr>constraint_set2_flag := v\<rparr>),
     flag_step (-5) (\<lambda>v s. s\<lparr>constraint_set3_flag := v\<rparr>),
     flag_step (-6) (\<lambda>v s. s\<lparr>constraint_set4_flag := v\<rparr>),
     flag_step (-7) (\<lambda>v s. s\<lparr>constraint_set5_flag := v\<rparr>),
     bits_step 2 (\<lambda>v s. s\<lparr>reserved_zero_2bits := ucast v\<rparr>),
     bits_step 8 (\<lambda>v s. s\<lparr>level_idc := ucast v\<rparr>),
     ue_step (\<lambda>v s. s\<lparr>seq_parameter_set_id := v\<rparr>)]"

definition sps_chroma :: "h264_sps_t step list" where
  "sps_chroma =
    [ue_step (\<lambda>v s. s\<lparr>chroma_format_idc := v\<rparr>),
     when_step (\<lambda>s. chroma_format_idc s = 3) [flag_step (-12) (\<lambda>v s. s\<lparr>separate_colour_plane_flag := v\<rparr>)],
     ue_step (\<lambda>v s. s\<lparr>bit_depth_luma_minus8 := v\<rparr>),
     ue_step (\<lambda>v s. s\<lparr>bit_depth_chroma_minus8 := v\<rparr>),
     flag_step (-15) (\<lambda>v s. s\<lparr>qpprime_y_zero_transform_bypass_flag := v\<rparr>),
     flag_step (-16) (\<lambda>v s. s\<lparr>seq_scaling_matrix_present_flag := v\<rparr>),
     when_step (\<lambda>s. seq_scaling_matrix_present_flag s \<noteq> 0)
       [loop_step (\<lambda>s. if chroma_format_idc s \<noteq> 3 then 8 else 12)
         [flag_step 0 (\<lambda>v s. s\<lparr>seq_scaling_list_present_flag := seq_scaling_list_present_flag s @ [v]\<rparr>)]]]"

definition sps_order :: "h264_sps_t step list" where
  "sps_order =
    [ue_step (\<lambda>v s. s\<lparr>log2_max_frame_num_minus4 := v\<rparr>),
     ue_step (\<lambda>v s. s\<lparr>pic_order_cnt_type := v\<rparr>),
     when_step (\<lambda>s. pic_order_cnt_type s = 0) [ue_step (\<lambda>v s. s\<lparr>log2_max_pic_order_cnt_lsb_minus4 := v\<rparr>)],
     when_step (\<lambda>s. pic_order_cnt_type s = 1)
       [flag_step (-20) (\<lambda>v s. s\<lparr>delta_pic_order_always_zero_flag := v\<rparr>),
        se_step (\<lambda>v s. s\<lparr>offset_for_non_ref_pic := v\<rparr>),
        se_step (\<lambda>v s. s\<lparr>offset_for_top_to_bottom_field := v\<rparr>),
        ue_step (\<lambda>v s. s\<lparr>num_ref_frames_in_pic_order_cnt_cycle := v\<rparr>),
        loop_step (\<lambda>s. unat (num_ref_frames_in_pic_order_cnt_cycle s))
          [se_step (\<lambda>v s. s\<lparr>offset_for_ref_frame := offset_for_ref_frame s @ [v]\<rparr>)]],
     ue_step (\<lambda>v s. s\<lparr>max_num_ref_frames := v\<rparr>),
     flag_step (-26) (\<lambda>v s. s\<lparr>gaps_in_frame_num_value_allowed_flag := v\<rparr>)]"

definition sps_size :: "h264_sps_t step list" where
  "sps_size =
    [ue_step (\<lambda>v s. s\<lparr>pic_width_in_mbs_minus1 := v\<rparr>),
     ue_step (\<lambda>v s. s\<lparr>pic_height_in_map_units_minus1 := v\<rparr>),
     flag_step (-29) (\<lambda>v s. s\<lparr>frame_mbs_only_flag := v\<rparr>),
     when_step (\<lambda>s. frame_mbs_only_flag s = 0) [flag_step (-30) (\<lambda>v s. s\<lparr>mb_adaptive_frame_field_flag := v\<rparr>)],
     flag_step (-31) (\<lambda>v s. s\<lparr>direct_8x8_inference_flag := v\<rparr>),
     flag_step (-32) (\<lambda>v s. s\<lparr>frame_cropping_flag := v\<rparr>),
     when_step (\<lambda>s. frame_cropping_flag s \<noteq> 0)
       [ue_step (\<lambda>v s. s\<lparr>frame_crop_left_offset := v\<rparr>),
        ue_step (\<lambda>v s. s\<lparr>frame_crop_right_offset := v\<rparr>),
        ue_step (\<lambda>v s. s\<lparr>frame_crop_top_offset := v\<rparr>),
        ue_step (\<lambda>v s. s\<lparr>frame_crop_bottom_offset := v\<rparr>)],
     flag_step (-37) (\<lambda>v s. s\<lparr>vui_parameters_present_flag := v\<rparr>),
     when_step (\<lambda>s. vui_parameters_present_flag s = 1) [sub_step (-38) vui_parameters (\<lambda>u s. s\<lparr>vui_parameters := u\<rparr>) vui_parse]]"

definition sps_parse :: "bytes \<Rightarrow> h264_sps_t \<Rightarrow> (int \<times> h264_sps_t) result" where
  "sps_parse s x = bindR (steps (sps_head @ [when_step (\<lambda>s. high_profile (profile_idc s)) sps_chroma] @ sps_order @ sps_size) s (0, x))
     (\<lambda>(r, _, x'). Inr (case r of None \<Rightarrow> 0 | Some e \<Rightarrow> e, x'))"

section \<open>Emulation prevention\<close>

fun deemulation_prevention :: "bytes \<Rightarrow> bytes" where
  "deemulation_prevention (a # b # c # xs) =
     (if a = 0 \<and> b = 0 \<and> c = 3 then 0 # 0 # deemulation_prevention xs else a # deemulation_prevention (b # c # xs))"
| "deemulation_prevention xs = xs"

text \<open>What the standard prescribes to a writer: \<open>z\<close> zero bytes precede, and after two of them a byte below 4 is escaped.\<close>
fun emulate :: "nat \<Rightarrow> bytes \<Rightarrow> bytes" where
  "emulate z [] = []"
| "emulate z (b # bs) = (if z = 2 \<and> b \<le> 3 then 3 # b # emulate (if b = 0 then 1 else 0) bs
     else b # emulate (if b = 0 then Suc z else 0) bs)"

lemma deemulate_skip: "a \<noteq> 0 \<Longrightarrow> deemulation_prevention (a # xs) = a # deemulation_prevention xs"
  by (cases xs rule: deemulation_prevention.cases) auto

lemma deemulate_emulate:
  "deemulation_prevention (emulate 0 bs) = bs \<and> deemulation_prevention (0 # emulate 1 bs) = 0 # bs \<and>
   deemulation_prevention (0 # 0 # emulate 2 bs) = 0 # 0 # bs"
proof (induction bs)
  case (Cons b bs)
  have "deemulation_prevention (emulate 0 (b # bs)) = b # bs" using Cons by (auto simp: deemulate_skip)
  moreover have "deemulation_prevention (0 # emulate 1 (b # bs)) = 0 # b # bs"
  proof (cases "b = 0")
    case True
    with Cons show ?thesis by (simp add: numeral_2_eq_2)
  next
    case False
    then have "deemulation_prevention (0 # b # emulate 0 bs) = 0 # deemulation_prevention (b # emulate 0 bs)"
      by (cases "emulate 0 bs") auto
    with False Cons show ?thesis by (simp add: deemulate_skip)
  qed
  moreover have "deemulation_prevention (0 # 0 # emulate 2 (b # bs)) = 0 # 0 # b # bs"
  proof (cases "b \<le> 3")
    case True
    then show ?thesis using Cons by (auto simp: deemulate_skip)
  next
    case False
    then have "b \<noteq> 0" "b \<noteq> 3" by auto
    then have "deemulation_prevention (0 # b # emulate 0 bs) = 0 # deemulation_prevention (b # emulate 0 bs)"
      by (cases "emulate 0 bs") auto
    with False \<open>b \<noteq> 0\<close> \<open>b \<noteq> 3\<close> Cons show ?thesis by (simp add: deemulate_skip)
  qed
  ultimately show ?case by blast
qed simp

end
