(* ===== verification/SpsSyntax.thy ===== *)
theory SpsSyntax
  imports H264Sps
begin

text \<open>
  What the H.264 standard (clauses 7.3.2.1.1, 9.1 and annex E) prescribes to the writer of a sequence parameter set, and that the
  parser of \<open>H264Sps\<close> reads it.
\<close>

section \<open>The bits of a stream\<close>

definition byte_bits :: "byte \<Rightarrow> bool list" where
  "byte_bits b = map (bit b) (rev [0..<8])"

definition stream_bits :: "bytes \<Rightarrow> bool list" where
  "stream_bits s = concat (map byte_bits s)"

lemma length_byte_bits [simp]: "length (byte_bits b) = 8"
  by (simp add: byte_bits_def)

lemma length_stream_bits [simp]: "length (stream_bits s) = 8 * length s"
  by (induction s) (simp_all add: stream_bits_def)

lemma stream_bits_nth: "i < 8 * length s \<Longrightarrow> stream_bits s ! i = bit (s ! (i div 8)) (7 - i mod 8)"
proof (induction s arbitrary: i)
  case (Cons b s)
  show ?case
  proof (cases "i < 8")
    case True
    then show ?thesis by (simp add: stream_bits_def nth_append) (simp add: byte_bits_def rev_nth)
  next
    case False
    then have "stream_bits (b # s) ! i = stream_bits s ! (i - 8)" by (simp add: stream_bits_def nth_append)
    moreover have "stream_bits s ! (i - 8) = bit (s ! ((i - 8) div 8)) (7 - (i - 8) mod 8)" using Cons False by simp
    moreover have "i div 8 = Suc ((i - 8) div 8)" "i mod 8 = (i - 8) mod 8" using False by (simp_all add: le_div_geq le_mod_geq)
    ultimately show ?thesis by simp
  qed
qed simp

definition shift_in :: "bool \<Rightarrow> 'w::len word \<Rightarrow> 'w word" where
  "shift_in b v = push_bit 1 v + (if b then 1 else 0)"

lemma read_u_bits:
  "pos + n \<le> 8 * length s \<Longrightarrow> read_u n s pos v = Inr (fold shift_in (take n (drop pos (stream_bits s))) v, pos + n)"
proof (induction n arbitrary: pos v)
  case (Suc n)
  then have p: "pos < 8 * length s" "pos div 8 < length s" by auto
  then have "take (Suc n) (drop pos (stream_bits s)) = bit (s ! (pos div 8)) (7 - pos mod 8) # take n (drop (Suc pos) (stream_bits s))"
    by (simp add: Cons_nth_drop_Suc [symmetric] stream_bits_nth)
  with Suc p show ?case by (simp add: rd_def shift_in_def)
qed simp

section \<open>Codes\<close>

definition u_bits :: "nat \<Rightarrow> 'w::len word \<Rightarrow> bool list" where
  "u_bits n v = map (bit v) (rev [0..<n])"

lemma length_u_bits [simp]: "length (u_bits n v) = n"
  by (simp add: u_bits_def)

lemma shift_in_u_bits: "n \<le> LENGTH('w) \<Longrightarrow> fold shift_in (u_bits n v) w = push_bit n w + take_bit n (v :: 'w::len word)"
proof (induction n arbitrary: w)
  case (Suc n)
  have "fold shift_in (u_bits (Suc n) v) w = fold shift_in (u_bits n v) (shift_in (bit v n) w)" by (simp add: u_bits_def)
  also have "\<dots> = push_bit n (shift_in (bit v n) w) + take_bit n v" using Suc by simp
  also have "\<dots> = push_bit (Suc n) w + (push_bit n (of_bool (bit v n)) + take_bit n v)"
    by (simp add: shift_in_def push_bit_add push_bit_push_bit)
  also have "push_bit n (of_bool (bit v n)) + take_bit n v = take_bit (Suc n) v"
    by (rule bit_word_eqI) (auto simp: bit_simps disjunctive_add less_Suc_eq)
  finally show ?case .
qed (simp add: u_bits_def)

fun ue_zeros :: "nat \<Rightarrow> nat" where
  "ue_zeros k = (if k = 0 then 0 else Suc (ue_zeros ((k - 1) div 2)))"

declare ue_zeros.simps [simp del]

lemma ue_zeros_bounds: "2 ^ ue_zeros k \<le> k + 1 \<and> k + 1 < 2 ^ Suc (ue_zeros k)"
proof (induction k rule: ue_zeros.induct)
  case (1 k)
  show ?case
  proof (cases "k = 0")
    case False
    define z where "z = ue_zeros ((k - 1) div 2)"
    have "2 ^ z \<le> (k - 1) div 2 + 1" "(k - 1) div 2 + 1 < 2 * 2 ^ z" using 1 False by (simp_all add: z_def)
    moreover have "k = 2 * ((k - 1) div 2) + (k - 1) mod 2 + 1" "(k - 1) mod 2 < 2" using False by simp_all
    ultimately have "2 * 2 ^ z \<le> k + 1" "k + 1 < 2 * (2 * 2 ^ z)" by linarith+
    moreover have "ue_zeros k = Suc z" unfolding z_def using False by (subst ue_zeros.simps) simp
    ultimately show ?thesis by simp
  qed (simp add: ue_zeros.simps)
qed

definition ue_bits :: "u64 \<Rightarrow> bool list" where
  "ue_bits v = (let n = ue_zeros (unat v) in replicate n False @ True # u_bits n (v + 1 - 2 ^ n))"

definition se_bits :: "int \<Rightarrow> bool list" where
  "se_bits k = ue_bits (of_int (if 0 < k then 2 * k - 1 else - 2 * k))"


section \<open>Reading codes\<close>

text \<open>The bits \<open>bs\<close> stand in the stream at the position.\<close>
definition spells :: "bytes \<Rightarrow> nat \<Rightarrow> bool list \<Rightarrow> bool" where
  "spells s pos bs \<longleftrightarrow> pos + length bs \<le> 8 * length s \<and> take (length bs) (drop pos (stream_bits s)) = bs"

lemma spells_Nil [simp]: "spells s pos [] \<longleftrightarrow> pos \<le> 8 * length s"
  by (simp add: spells_def)

lemma spells_append: "spells s pos (bs @ cs) \<longleftrightarrow> spells s pos bs \<and> spells s (pos + length bs) cs"
proof -
  have "take (length bs + length cs) (drop pos (stream_bits s)) =
      take (length bs) (drop pos (stream_bits s)) @ take (length cs) (drop (pos + length bs) (stream_bits s))"
    by (simp add: take_add add.commute)
  then show ?thesis by (auto simp: spells_def append_eq_append_conv)
qed

lemma spells_Cons: "spells s pos (b # bs) \<longleftrightarrow> pos < 8 * length s \<and> bit (s ! (pos div 8)) (7 - pos mod 8) = b \<and> spells s (Suc pos) bs"
proof -
  have "spells s pos [b] \<longleftrightarrow> pos < 8 * length s \<and> bit (s ! (pos div 8)) (7 - pos mod 8) = b"
    by (auto simp: spells_def stream_bits_nth Cons_nth_drop_Suc [symmetric])
  then show ?thesis using spells_append [of s pos "[b]" bs] by simp
qed

lemma read_u_spelt: "spells s pos bs \<Longrightarrow> n = length bs \<Longrightarrow> read_u n s pos v = Inr (fold shift_in bs v, pos + n)"
  by (simp add: spells_def read_u_bits)

lemma read_u_code:
  assumes "spells s pos (u_bits n v)" and "n \<le> LENGTH('w)" and "unat v < 2 ^ n"
  shows "read_u n s pos 0 = Inr (v :: 'w::len word, pos + n)"
proof -
  have "take_bit n v = v" using assms(2,3) by (metis take_bit_nat_eq_self unsigned_take_bit_eq word_unat_eq_iff)
  then show ?thesis using read_u_spelt [OF assms(1), of n "0 :: 'w word"] shift_in_u_bits [OF assms(2), of v 0] by simp
qed

lemma leading_zeros_spelt:
  "spells s pos (replicate n False @ [True]) \<Longrightarrow> n < left \<Longrightarrow> leading_zeros left s pos m = Inr (m + n, pos + n + 1)"
proof (induction n arbitrary: left pos m)
  case 0
  then obtain l where "left = Suc l" by (cases left) auto
  with 0 read_u_spelt [of s pos "[True]" 1 "0 :: byte"] show ?case by (simp add: shift_in_def)
next
  case (Suc n)
  then obtain l where l: "left = Suc l" "n < l" by (cases left) auto
  have "spells s pos [False]" "spells s (Suc pos) (replicate n False @ [True])" using Suc.prems(1) by (auto simp: spells_Cons)
  with l Suc.IH [of "Suc pos" l "Suc m"] read_u_spelt [of s pos "[False]" 1 "0 :: byte"] show ?case by (simp add: shift_in_def)
qed

lemma read_ue_code:
  assumes "spells s pos (ue_bits v)" and "unat v + 1 < 2 ^ 31"
  shows "read_exp_golomb_ue s pos = Inr (v, pos + length (ue_bits v))"
proof -
  define n where "n = ue_zeros (unat v)"
  have n: "2 ^ n \<le> unat v + 1" "unat v + 1 < 2 ^ Suc n" using ue_zeros_bounds [of "unat v"] by (simp_all add: n_def)
  have n31: "n < 31"
  proof (rule ccontr)
    assume "\<not> n < 31"
    then have "(2 :: nat) ^ 31 \<le> 2 ^ n" by (intro power_increasing) auto
    with n(1) assms(2) show False by linarith
  qed
  have b: "ue_bits v = (replicate n False @ [True]) @ u_bits n (v + 1 - 2 ^ n)" by (simp add: ue_bits_def n_def Let_def)
  have s: "spells s pos (replicate n False @ [True])" "spells s (pos + n + 1) (u_bits n (v + 1 - 2 ^ n))"
    using assms(1) unfolding b spells_append by (simp_all add: spells_append)
  have "(2 :: nat) ^ n < 2 ^ 64" using n31 by (intro power_strict_increasing) auto
  then have p: "unat (2 ^ n :: u64) = 2 ^ n" using unat_of_nat [of "2 ^ n", where 'a = 64] by (simp del: unsigned_of_nat)
  have v1: "unat (v + 1) = unat v + 1" using assms(2) by (simp add: unat_word_ariths)
  have "unat (v + 1 - 2 ^ n) = unat v + 1 - 2 ^ n" using n(1) p v1 by (simp add: unat_sub word_le_nat_alt)
  then have "unat (v + 1 - 2 ^ n) < 2 ^ n" using n by simp
  then have "read_u n s (pos + n + 1) 0 = Inr (v + 1 - 2 ^ n, pos + n + 1 + n)" using n31 by (intro read_u_code [OF s(2)]) simp_all
  with leading_zeros_spelt [OF s(1), of 65 0] n31 show ?thesis
    by (simp add: read_exp_golomb_ue_def b)
qed

lemma se_decode:
  assumes "c < 2 ^ 32"
  shows "drop_bit 1 (of_nat c + 1 :: u64) = of_nat ((c + 1) div 2)" and "bit (of_nat c :: u64) 0 \<longleftrightarrow> odd c" and "unat (of_nat c :: u64) = c"
proof -
  show u: "unat (of_nat c :: u64) = c" using assms by (simp add: unat_of_nat del: unsigned_of_nat)
  have "unat (of_nat (c + 1) :: u64) = c + 1" using assms unat_of_nat [of "c + 1", where 'a = 64] by (simp only: mod_less) simp
  moreover have "take_bit 64 (Suc c) = Suc c" using assms by (intro take_bit_nat_eq_self) simp
  ultimately have "unat (drop_bit 1 (of_nat (c + 1) :: u64)) = (c + 1) div 2"
    by (simp only: unsigned_drop_bit_eq [where 'b = 64]) (simp add: drop_bit_eq_div del: unsigned_drop_bit_eq)
  moreover have "unat (of_nat ((c + 1) div 2) :: u64) = (c + 1) div 2" using assms by (simp add: unat_of_nat del: unsigned_of_nat)
  ultimately show "drop_bit 1 (of_nat c + 1 :: u64) = of_nat ((c + 1) div 2)" by (metis of_nat_Suc add.commute Suc_eq_plus1 word_unat_eq_iff)
  show "bit (of_nat c :: u64) 0 \<longleftrightarrow> odd c" by (simp add: bit_0)
qed

lemma read_se_code:
  assumes "spells s pos (se_bits k)" and "\<bar>k\<bar> < 2 ^ 29"
  shows "read_exp_golomb_se s pos = Inr (of_int k, pos + length (se_bits k))"
proof -
  define c where "c = nat (if 0 < k then 2 * k - 1 else - 2 * k)"
  have c: "c < 2 ^ 31 - 1" "(of_int (if 0 < k then 2 * k - 1 else - 2 * k) :: u64) = of_nat c" using assms(2) by (auto simp: c_def)
  have se: "se_bits k = ue_bits (of_nat c)" by (simp only: se_bits_def c(2))
  have d: "drop_bit 1 (of_nat c + 1 :: u64) = of_nat ((c + 1) div 2)" "bit (of_nat c :: u64) 0 \<longleftrightarrow> odd c" "unat (of_nat c :: u64) = c"
    using c(1) by (intro se_decode; simp)+
  have "read_exp_golomb_ue s pos = Inr (of_nat c, pos + length (ue_bits (of_nat c)))"
    using assms(1) c(1) d(3) by (intro read_ue_code) (simp_all add: se)
  moreover have "(if odd c then of_nat ((c + 1) div 2) else - of_nat ((c + 1) div 2)) = (of_int k :: u64)"
  proof (cases "0 < k")
    case True
    then have "c = 2 * nat (k - 1) + 1" unfolding c_def by simp
    then have "odd c" "int ((c + 1) div 2) = k" using True by simp_all
    then show ?thesis by (metis of_int_of_nat_eq)
  next
    case False
    then have "c = 2 * nat (- k)" unfolding c_def by simp
    then have "even c" "int ((c + 1) div 2) = - k" using False by simp_all
    then show ?thesis by (metis of_int_of_nat_eq of_int_minus minus_minus)
  qed
  ultimately show ?thesis unfolding read_exp_golomb_se_def se Let_def by (simp only: bindR.simps prod.case d(1,2))
qed


section \<open>Reading a syntax structure\<close>

text \<open>Where the bits \<open>bs\<close> stand in the stream, the step consumes them and turns the object \<open>x\<close> into \<open>y\<close>.\<close>
definition reads :: "'s step \<Rightarrow> bool list \<Rightarrow> 's \<Rightarrow> 's \<Rightarrow> bool" where
  "reads p bs x y \<longleftrightarrow> (\<forall>s pos. spells s pos bs \<longrightarrow> p s (pos, x) = Inr (None, pos + length bs, y))"

definition fl :: "byte \<Rightarrow> bool list" where "fl b = [b \<noteq> 0]"

definition is_flag :: "byte \<Rightarrow> bool" where "is_flag b \<longleftrightarrow> b = 0 \<or> b = 1"

definition small :: "u64 \<Rightarrow> bool" where "small v \<longleftrightarrow> unat v + 1 < 2 ^ 31"

lemma reads_flag: "is_flag v \<Longrightarrow> reads (flag_step e upd) (fl v) x (upd v x)"
  by (auto simp: reads_def flag_step_def fl_def is_flag_def spells_Cons)

lemma reads_bits: "unat v < 2 ^ n \<Longrightarrow> n \<le> 64 \<Longrightarrow> reads (bits_step n upd) (u_bits n v) x (upd v x)"
  by (simp add: reads_def bits_step_def read_u_code)

lemma reads_ue: "small v \<Longrightarrow> reads (ue_step upd) (ue_bits v) x (upd v x)"
  by (simp add: reads_def ue_step_def read_ue_code small_def)

lemma reads_se: "\<bar>sint v\<bar> < 2 ^ 29 \<Longrightarrow> reads (se_step upd) (se_bits (sint v)) x (upd v x)"
  by (simp add: reads_def se_step_def read_se_code)

lemma reads_Nil: "reads (steps []) [] x x"
  by (simp add: reads_def)

lemma reads_Cons: "reads p bs x y \<Longrightarrow> reads (steps ps) cs y z \<Longrightarrow> reads (steps (p # ps)) (bs @ cs) x z"
  by (simp add: reads_def spells_append add.assoc)

lemma reads_append: "reads (steps ps) bs x y \<Longrightarrow> reads (steps qs) cs y z \<Longrightarrow> reads (steps (ps @ qs)) (bs @ cs) x z"
proof -
  have "steps (ps @ qs) s st = bindR (steps ps s st) (\<lambda>(r, st'). if r = None then steps qs s st' else Inr (r, st'))" for s st
    by (induction ps arbitrary: st) (auto simp: bindR_assoc split_beta intro!: bindR_cong)
  then show "reads (steps ps) bs x y \<Longrightarrow> reads (steps qs) cs y z \<Longrightarrow> reads (steps (ps @ qs)) (bs @ cs) x z"
    by (simp add: reads_def spells_append add.assoc)
qed

definition opt :: "bool \<Rightarrow> ('s \<Rightarrow> 's) \<Rightarrow> 's \<Rightarrow> 's" where
  "opt d g x = (if d then g x else x)"

lemma reads_when: "c x = d \<Longrightarrow> (\<And>x. d \<Longrightarrow> reads (steps ps) bs x (g x)) \<Longrightarrow> reads (when_step c ps) (if d then bs else []) x (opt d g x)"
  by (auto simp: reads_def when_step_def opt_def)

lemma opt_field: "f (opt d g x) = (if d then f (g x) else f x)"
  by (simp add: opt_def)

lemma reads_repeat:
  "(\<And>v x. v \<in> set vs \<Longrightarrow> reads (steps ps) (code v) x (f v x)) \<Longrightarrow> reads (times (length vs) ps) (concat (map code vs)) x (fold f vs x)"
proof (induction vs arbitrary: x)
  case (Cons v vs)
  have "reads (steps ps) (code v) x (f v x)" "reads (times (length vs) ps) (concat (map code vs)) (f v x) (fold f vs (f v x))"
    using Cons by auto
  then show ?case by (simp add: reads_def spells_append add.assoc)
qed (simp add: reads_def)

lemma reads_loop:
  "n x = length vs \<Longrightarrow> (\<And>v x. v \<in> set vs \<Longrightarrow> reads (steps ps) (code v) x (f v x)) \<Longrightarrow>
   reads (loop_step n ps) (concat (map code vs)) x (fold f vs x)"
  using reads_repeat [of vs ps code f x] by (simp add: reads_def loop_step_def)

lemma reads_sub: "reads (steps ps) bs (get x) y \<Longrightarrow> reads (sub_step e get put ps) bs x (put y x)"
  by (simp add: reads_def sub_step_def)

lemma reads_last: "reads p bs x y \<Longrightarrow> reads (steps [p]) bs x y"
  using reads_Cons [OF _ reads_Nil, of p bs x y] by simp

lemma unat_wide: "unat (ucast (b :: byte) :: u64) = unat b" "(ucast (ucast b :: u64) :: byte) = b"
proof -
  have "unat b < 2 ^ 64" using unsigned_less [of b, where 'a = nat] by simp
  then show "unat (ucast b :: u64) = unat b" by (simp only: unsigned_ucast_eq) (simp add: take_bit_nat_eq_self)
  show "(ucast (ucast b :: u64) :: byte) = b" by (rule bit_word_eqI) (simp add: bit_simps)
qed

text \<open>A field of at most eight bits.\<close>
lemma reads_byte: "unat b < 2 ^ n \<Longrightarrow> n \<le> 64 \<Longrightarrow> reads (bits_step n (\<lambda>v. upd (ucast v :: byte))) (u_bits n (ucast b :: u64)) x (upd b x)"
  using reads_bits [of "ucast b :: u64" n "\<lambda>v. upd (ucast v :: byte)" x] unat_wide [of b] by (simp del: unsigned_ucast_eq)

lemma reads_eq: "reads p bs x y \<Longrightarrow> y = y' \<Longrightarrow> reads p bs x y'"
  by simp

lemmas reads_rules = reads_Cons reads_last reads_flag reads_byte reads_bits reads_ue reads_se reads_when reads_sub


section \<open>The syntax\<close>

definition hrd_syntax :: "hrd_parameters_t \<Rightarrow> bool list" where
  "hrd_syntax h = ue_bits (cpb_cnt_minus1 h) @ u_bits 4 (ucast (bit_rate_scale h) :: u64) @ u_bits 4 (ucast (cpb_size_scale h) :: u64) @
     concat (map (\<lambda>(r, c, f). ue_bits r @ ue_bits c @ fl f)
       (zip (bit_rate_value_minus1 h) (zip (cpb_size_value_minus1 h) (cbr_flag h)))) @
     u_bits 5 (ucast (initial_cpb_removal_delay_length_minus1 h) :: u64) @ u_bits 5 (ucast (cpb_removal_delay_length_minus1 h) :: u64) @
     u_bits 5 (ucast (dpb_output_delay_length_minus1 h) :: u64) @ u_bits 5 (ucast (time_offset_length h) :: u64)"

definition hrd_ok :: "hrd_parameters_t \<Rightarrow> bool" where
  "hrd_ok h \<longleftrightarrow> small (cpb_cnt_minus1 h) \<and> unat (bit_rate_scale h) < 16 \<and> unat (cpb_size_scale h) < 16 \<and>
     length (bit_rate_value_minus1 h) = unat (cpb_cnt_minus1 h) + 1 \<and> length (cpb_size_value_minus1 h) = unat (cpb_cnt_minus1 h) + 1 \<and>
     length (cbr_flag h) = unat (cpb_cnt_minus1 h) + 1 \<and> list_all small (bit_rate_value_minus1 h) \<and> list_all small (cpb_size_value_minus1 h) \<and>
     list_all is_flag (cbr_flag h) \<and> unat (initial_cpb_removal_delay_length_minus1 h) < 32 \<and> unat (cpb_removal_delay_length_minus1 h) < 32 \<and>
     unat (dpb_output_delay_length_minus1 h) < 32 \<and> unat (time_offset_length h) < 32"

lemma hrd_reads:
  assumes "hrd_ok t"
  shows "\<exists>y. reads (steps hrd_parse) (hrd_syntax t) x y"
proof -
  let ?vs = "zip (bit_rate_value_minus1 t) (zip (cpb_size_value_minus1 t) (cbr_flag t))"
  have len: "length ?vs = unat (cpb_cnt_minus1 t) + 1" using assms by (simp add: hrd_ok_def)
  let ?f = "\<lambda>(r, c, f) h. h\<lparr>bit_rate_value_minus1 := bit_rate_value_minus1 h @ [r], cpb_size_value_minus1 := cpb_size_value_minus1 h @ [c],
      cbr_flag := cbr_flag h @ [f]\<rparr>"
  have loop: "reads (steps [ue_step (\<lambda>v h. h\<lparr>bit_rate_value_minus1 := bit_rate_value_minus1 h @ [v]\<rparr>),
        ue_step (\<lambda>v h. h\<lparr>cpb_size_value_minus1 := cpb_size_value_minus1 h @ [v]\<rparr>),
        flag_step (-6) (\<lambda>v h. h\<lparr>cbr_flag := cbr_flag h @ [v]\<rparr>)]) ((\<lambda>(r, c, f). ue_bits r @ ue_bits c @ fl f) v) z (?f v z)"
    if v: "v \<in> set ?vs" for v z
  proof -
    obtain r c f where v': "v = (r, c, f)" by (cases v)
    have "r \<in> set (bit_rate_value_minus1 t)" "(c, f) \<in> set (zip (cpb_size_value_minus1 t) (cbr_flag t))"
      using v unfolding v' by (auto dest: set_zip_leftD set_zip_rightD)
    then have "small r" "small c" "is_flag f"
      using assms by (auto simp: hrd_ok_def list_all_iff dest: set_zip_leftD set_zip_rightD)
    then show ?thesis unfolding v' prod.case by - (rule reads_eq, (rule reads_rules | assumption)+, simp)
  qed
  show ?thesis
    unfolding hrd_parse_def hrd_syntax_def using assms len
    by (intro exI) ((rule reads_rules reads_loop [where vs = ?vs and f = ?f, OF _ loop] | simp add: hrd_ok_def)+)
qed


definition vui_syntax :: "vui_parameters_t \<Rightarrow> bool list" where
  "vui_syntax t = fl (aspect_ratio_info_present_flag t) @
     (if aspect_ratio_info_present_flag t \<noteq> 0 then u_bits 8 (ucast (aspect_ratio_idc t) :: u64) @
        (if aspect_ratio_idc t = 0xff then u_bits 16 (ucast (sar_width t) :: u64) @ u_bits 16 (ucast (sar_height t) :: u64) else []) else []) @
     fl (overscan_info_present_flag t) @
     (if overscan_info_present_flag t \<noteq> 0 then fl (overscan_appropriate_flag t) else []) @
     fl (video_signal_type_present_flag t) @
     (if video_signal_type_present_flag t \<noteq> 0 then u_bits 3 (ucast (video_format t) :: u64) @ fl (video_full_range_flag t) @
        fl (colour_description_present_flag t) @
        (if colour_description_present_flag t \<noteq> 0 then u_bits 8 (ucast (colour_primaries t) :: u64) @
           u_bits 8 (ucast (transfer_characteristics t) :: u64) @ u_bits 8 (ucast (matrix_coefficients t) :: u64) else []) else []) @
     fl (chroma_loc_info_present_flag t) @
     (if chroma_loc_info_present_flag t \<noteq> 0 then ue_bits (chroma_sample_loc_type_top_field t) @
        ue_bits (chroma_sample_loc_type_bottom_field t) else []) @
     fl (timing_info_present_flag t) @
     (if timing_info_present_flag t \<noteq> 0 then u_bits 32 (num_units_in_tick t) @ u_bits 32 (time_scale t) @ fl (fixed_frame_rate_flag t) else []) @
     fl (nal_hrd_parameters_present_flag t) @
     (if nal_hrd_parameters_present_flag t \<noteq> 0 then hrd_syntax (hrd_parameters1 t) else []) @
     fl (vcl_hrd_parameters_present_flag t) @
     (if vcl_hrd_parameters_present_flag t \<noteq> 0 then hrd_syntax (hrd_parameters2 t) else []) @
     (if nal_hrd_parameters_present_flag t \<noteq> 0 \<or> vcl_hrd_parameters_present_flag t \<noteq> 0 then fl (low_delay_hrd_flag t) else []) @
     fl (pic_struct_present_flag t) @
     fl (bitstream_restriction_flag t) @
     (if bitstream_restriction_flag t \<noteq> 0 then fl (motion_vectors_over_pic_boundaries_flag t) @ ue_bits (max_bytes_per_pic_denom t) @
        ue_bits (max_bits_per_mb_denom t) @ ue_bits (log2_max_mv_length_horizontal t) @ ue_bits (log2_max_mv_length_vertical t) @
        ue_bits (max_num_reorder_frames t) @ ue_bits (max_dec_frame_buffering t) else [])"

definition vui_ok :: "vui_parameters_t \<Rightarrow> bool" where
  "vui_ok t \<longleftrightarrow> list_all is_flag [aspect_ratio_info_present_flag t, overscan_info_present_flag t, overscan_appropriate_flag t,
       video_signal_type_present_flag t, video_full_range_flag t, colour_description_present_flag t, chroma_loc_info_present_flag t,
       timing_info_present_flag t, fixed_frame_rate_flag t, nal_hrd_parameters_present_flag t, vcl_hrd_parameters_present_flag t,
       low_delay_hrd_flag t, pic_struct_present_flag t, bitstream_restriction_flag t, motion_vectors_over_pic_boundaries_flag t] \<and>
     list_all small [chroma_sample_loc_type_top_field t, chroma_sample_loc_type_bottom_field t, max_bytes_per_pic_denom t,
       max_bits_per_mb_denom t, log2_max_mv_length_horizontal t, log2_max_mv_length_vertical t, max_num_reorder_frames t,
       max_dec_frame_buffering t] \<and>
     unat (video_format t) < 8 \<and> unat (num_units_in_tick t) < 2 ^ 32 \<and> unat (time_scale t) < 2 ^ 32 \<and>
     hrd_ok (hrd_parameters1 t) \<and> hrd_ok (hrd_parameters2 t)"

lemma unat_fits: "unat (b :: byte) < 2 ^ 8" "unat (ucast (w :: u16) :: u64) < 2 ^ 16"
proof -
  show "unat b < 2 ^ 8" using unsigned_less [of b, where 'a = nat] by simp
  have w: "unat w < 2 ^ 16" using unsigned_less [of w, where 'a = nat] by simp
  have "unat (ucast w :: u64) = take_bit 64 (unat w)" by (simp only: unsigned_ucast_eq) simp
  also have "\<dots> = unat w" using w by (intro take_bit_nat_eq_self) simp
  finally show "unat (ucast w :: u64) < 2 ^ 16" using w by simp
qed

lemma vui_reads:
  assumes "vui_ok t"
  shows "\<exists>y. reads (steps vui_parse) (vui_syntax t) x y \<and> timing_info_present_flag y = timing_info_present_flag t \<and>
    (timing_info_present_flag t \<noteq> 0 \<longrightarrow> num_units_in_tick y = num_units_in_tick t \<and> time_scale y = time_scale t)"
proof -
  obtain y1 where y1: "\<And>x. reads (steps hrd_parse) (hrd_syntax (hrd_parameters1 t)) x (y1 x)"
    using hrd_reads [of "hrd_parameters1 t"] assms unfolding vui_ok_def by metis
  obtain y2 where y2: "\<And>x. reads (steps hrd_parse) (hrd_syntax (hrd_parameters2 t)) x (y2 x)"
    using hrd_reads [of "hrd_parameters2 t"] assms unfolding vui_ok_def by metis
  show ?thesis
    unfolding vui_parse_def vui_syntax_def using assms unat_fits
    by (intro exI conjI)
      ((rule reads_rules y1 y2 | (simp add: vui_ok_def opt_field [where f = nal_hrd_parameters_present_flag]
          opt_field [where f = vcl_hrd_parameters_present_flag]; fail))+,
       simp_all add: opt_field [where f = timing_info_present_flag] opt_field [where f = num_units_in_tick] opt_field [where f = time_scale])
qed

text \<open>
  The scaling lists that may follow a set flag of a scaling matrix are left out: \<open>sps_ok\<close> asks for cleared flags, as the parser does
  not read the lists.
\<close>

definition head_syntax :: "h264_sps_t \<Rightarrow> bool list" where
  "head_syntax t = u_bits 8 (ucast (profile_idc t) :: u64) @ fl (constraint_set0_flag t) @ fl (constraint_set1_flag t) @
     fl (constraint_set2_flag t) @ fl (constraint_set3_flag t) @ fl (constraint_set4_flag t) @ fl (constraint_set5_flag t) @
     u_bits 2 (ucast (reserved_zero_2bits t) :: u64) @ u_bits 8 (ucast (level_idc t) :: u64) @ ue_bits (seq_parameter_set_id t)"

definition chroma_syntax :: "h264_sps_t \<Rightarrow> bool list" where
  "chroma_syntax t = ue_bits (chroma_format_idc t) @ (if chroma_format_idc t = 3 then fl (separate_colour_plane_flag t) else []) @
     ue_bits (bit_depth_luma_minus8 t) @ ue_bits (bit_depth_chroma_minus8 t) @ fl (qpprime_y_zero_transform_bypass_flag t) @
     fl (seq_scaling_matrix_present_flag t) @
     (if seq_scaling_matrix_present_flag t \<noteq> 0 then concat (map fl (seq_scaling_list_present_flag t)) else [])"

definition order_syntax :: "h264_sps_t \<Rightarrow> bool list" where
  "order_syntax t = ue_bits (log2_max_frame_num_minus4 t) @ ue_bits (pic_order_cnt_type t) @
     (if pic_order_cnt_type t = 0 then ue_bits (log2_max_pic_order_cnt_lsb_minus4 t) else []) @
     (if pic_order_cnt_type t = 1 then fl (delta_pic_order_always_zero_flag t) @ se_bits (sint (offset_for_non_ref_pic t)) @
        se_bits (sint (offset_for_top_to_bottom_field t)) @ ue_bits (num_ref_frames_in_pic_order_cnt_cycle t) @
        concat (map (\<lambda>v. se_bits (sint v)) (offset_for_ref_frame t)) else []) @
     ue_bits (max_num_ref_frames t) @ fl (gaps_in_frame_num_value_allowed_flag t)"

definition size_syntax :: "h264_sps_t \<Rightarrow> bool list" where
  "size_syntax t = ue_bits (pic_width_in_mbs_minus1 t) @ ue_bits (pic_height_in_map_units_minus1 t) @ fl (frame_mbs_only_flag t) @
     (if frame_mbs_only_flag t = 0 then fl (mb_adaptive_frame_field_flag t) else []) @
     fl (direct_8x8_inference_flag t) @ fl (frame_cropping_flag t) @
     (if frame_cropping_flag t \<noteq> 0 then ue_bits (frame_crop_left_offset t) @ ue_bits (frame_crop_right_offset t) @
        ue_bits (frame_crop_top_offset t) @ ue_bits (frame_crop_bottom_offset t) else []) @
     fl (vui_parameters_present_flag t) @ (if vui_parameters_present_flag t = 1 then vui_syntax (vui_parameters t) else [])"

definition sps_syntax :: "h264_sps_t \<Rightarrow> bool list" where
  "sps_syntax t = head_syntax t @ (if high_profile (profile_idc t) then chroma_syntax t else []) @ order_syntax t @ size_syntax t"

definition sps_ok :: "h264_sps_t \<Rightarrow> bool" where
  "sps_ok t \<longleftrightarrow> list_all is_flag [constraint_set0_flag t, constraint_set1_flag t, constraint_set2_flag t, constraint_set3_flag t,
       constraint_set4_flag t, constraint_set5_flag t, separate_colour_plane_flag t, qpprime_y_zero_transform_bypass_flag t,
       seq_scaling_matrix_present_flag t, delta_pic_order_always_zero_flag t, gaps_in_frame_num_value_allowed_flag t, frame_mbs_only_flag t,
       mb_adaptive_frame_field_flag t, direct_8x8_inference_flag t, frame_cropping_flag t, vui_parameters_present_flag t] \<and>
     list_all small [seq_parameter_set_id t, chroma_format_idc t, bit_depth_luma_minus8 t, bit_depth_chroma_minus8 t,
       log2_max_frame_num_minus4 t, pic_order_cnt_type t, log2_max_pic_order_cnt_lsb_minus4 t, num_ref_frames_in_pic_order_cnt_cycle t,
       max_num_ref_frames t, pic_width_in_mbs_minus1 t, pic_height_in_map_units_minus1 t, frame_crop_left_offset t, frame_crop_right_offset t,
       frame_crop_top_offset t, frame_crop_bottom_offset t] \<and>
     list_all (\<lambda>v. \<bar>sint v\<bar> < 2 ^ 29) ([offset_for_non_ref_pic t, offset_for_top_to_bottom_field t] @ offset_for_ref_frame t) \<and>
     length (offset_for_ref_frame t) = unat (num_ref_frames_in_pic_order_cnt_cycle t) \<and> unat (reserved_zero_2bits t) < 4 \<and>
     seq_scaling_list_present_flag t = replicate (if chroma_format_idc t \<noteq> 3 then 8 else 12) 0 \<and> vui_ok (vui_parameters t)"

lemma head_reads:
  assumes "sps_ok t"
  shows "\<exists>y. reads (steps sps_head) (head_syntax t) x y \<and> profile_idc y = profile_idc t \<and> level_idc y = level_idc t"
  unfolding sps_head_def head_syntax_def using assms unat_fits
  by (intro exI conjI) (rule reads_rules | (simp add: sps_ok_def; fail))+

text \<open>The fields the picture size depends on, and the profile, are set by one part only.\<close>
definition same_head :: "h264_sps_t \<Rightarrow> h264_sps_t \<Rightarrow> bool" where
  "same_head x y \<longleftrightarrow> profile_idc y = profile_idc x \<and> level_idc y = level_idc x"

lemma fold_same: "(\<And>v x. f (g v x) = f x) \<Longrightarrow> f (fold g vs x) = f x"
  by (induction vs arbitrary: x) auto

lemma chroma_reads:
  assumes "sps_ok t"
  shows "\<exists>y. reads (steps sps_chroma) (chroma_syntax t) x y \<and> same_head x y"
proof -
  let ?f = "\<lambda>v s. s\<lparr>seq_scaling_list_present_flag := seq_scaling_list_present_flag s @ [v]\<rparr>"
  have loop: "reads (steps [flag_step 0 ?f]) (fl v) z (?f v z)" if "v \<in> set (seq_scaling_list_present_flag t)" for v z
    using assms that by (intro reads_last reads_flag) (auto simp: sps_ok_def is_flag_def)
  let ?m = "seq_scaling_matrix_present_flag t \<noteq> 0"
  let ?list = "when_step (\<lambda>s. seq_scaling_matrix_present_flag s \<noteq> 0) [loop_step (\<lambda>s. if chroma_format_idc s \<noteq> 3 then 8 else 12) [flag_step 0 ?f]]"
  obtain y where y: "reads (steps (butlast sps_chroma)) (ue_bits (chroma_format_idc t) @ (if chroma_format_idc t = 3 then fl (separate_colour_plane_flag t) else []) @
      ue_bits (bit_depth_luma_minus8 t) @ ue_bits (bit_depth_chroma_minus8 t) @ fl (qpprime_y_zero_transform_bypass_flag t) @
      fl (seq_scaling_matrix_present_flag t)) x y" "chroma_format_idc y = chroma_format_idc t"
      "seq_scaling_matrix_present_flag y = seq_scaling_matrix_present_flag t" "same_head x y"
    unfolding sps_chroma_def same_head_def using assms
    by (atomize_elim, simp only: butlast.simps list.simps if_False if_True simp_thms, intro exI conjI)
       (rule reads_rules | (simp add: sps_ok_def opt_field [where f = chroma_format_idc] opt_field [where f = profile_idc]
          opt_field [where f = level_idc]; fail))+
  have "reads ?list (if ?m then concat (map fl (seq_scaling_list_present_flag t)) else []) y (if ?m then fold ?f (seq_scaling_list_present_flag t) y else y)"
  proof (cases ?m)
    case True
    have "reads (steps [loop_step (\<lambda>s. if chroma_format_idc s \<noteq> 3 then 8 else 12) [flag_step 0 ?f]]) (concat (map fl (seq_scaling_list_present_flag t))) y
        (fold ?f (seq_scaling_list_present_flag t) y)"
      using assms y(2) by (intro reads_last reads_loop loop) (simp_all add: sps_ok_def)
    with True y(3) show ?thesis by (simp add: reads_def when_step_def)
  qed (use y(3) in \<open>simp add: reads_def when_step_def\<close>)
  from reads_append [OF y(1) reads_last [OF this]]
  have "reads (steps sps_chroma) (chroma_syntax t) x (if ?m then fold ?f (seq_scaling_list_present_flag t) y else y)"
    by (simp add: sps_chroma_def chroma_syntax_def)
  then show ?thesis using y(4) by (auto simp: same_head_def fold_same intro!: exI)
qed

lemma order_reads:
  assumes "sps_ok t"
  shows "\<exists>y. reads (steps sps_order) (order_syntax t) x y \<and> same_head x y"
proof -
  let ?f = "\<lambda>v s. s\<lparr>offset_for_ref_frame := offset_for_ref_frame s @ [v]\<rparr>"
  have loop: "reads (steps [se_step ?f]) (se_bits (sint v)) z (?f v z)" if "v \<in> set (offset_for_ref_frame t)" for v z
    using assms that by (intro reads_last reads_se) (simp add: sps_ok_def list_all_iff)
  show ?thesis
    unfolding sps_order_def order_syntax_def same_head_def using assms
    by (intro exI conjI)
       ((rule reads_rules reads_loop [where vs = "offset_for_ref_frame t" and f = ?f, OF _ loop]
         | (simp add: sps_ok_def opt_field [where f = pic_order_cnt_type]; fail))+,
        simp_all add: opt_field [where f = profile_idc] opt_field [where f = level_idc] fold_same)
qed


definition same_size :: "h264_sps_t \<Rightarrow> h264_sps_t \<Rightarrow> bool" where
  "same_size t y \<longleftrightarrow> pic_width_in_mbs_minus1 y = pic_width_in_mbs_minus1 t \<and> pic_height_in_map_units_minus1 y = pic_height_in_map_units_minus1 t \<and>
     frame_mbs_only_flag y = frame_mbs_only_flag t \<and> frame_cropping_flag y = frame_cropping_flag t \<and>
     (frame_cropping_flag t \<noteq> 0 \<longrightarrow> frame_crop_left_offset y = frame_crop_left_offset t \<and> frame_crop_right_offset y = frame_crop_right_offset t \<and>
        frame_crop_top_offset y = frame_crop_top_offset t \<and> frame_crop_bottom_offset y = frame_crop_bottom_offset t)"

definition same_timing :: "h264_sps_t \<Rightarrow> h264_sps_t \<Rightarrow> bool" where
  "same_timing t y \<longleftrightarrow> vui_parameters_present_flag y = vui_parameters_present_flag t \<and>
     (vui_parameters_present_flag t = 1 \<longrightarrow>
        timing_info_present_flag (vui_parameters y) = timing_info_present_flag (vui_parameters t) \<and>
        (timing_info_present_flag (vui_parameters t) \<noteq> 0 \<longrightarrow> num_units_in_tick (vui_parameters y) = num_units_in_tick (vui_parameters t) \<and>
           time_scale (vui_parameters y) = time_scale (vui_parameters t)))"

lemma size_reads:
  assumes "sps_ok t"
  shows "\<exists>y. reads (steps sps_size) (size_syntax t) x y \<and> same_head x y \<and> same_size t y \<and> same_timing t y"
proof -
  obtain u where u: "\<And>x. reads (steps vui_parse) (vui_syntax (vui_parameters t)) x (u x)"
      "\<And>x. timing_info_present_flag (u x) = timing_info_present_flag (vui_parameters t)"
      "\<And>x. timing_info_present_flag (vui_parameters t) \<noteq> 0 \<Longrightarrow> num_units_in_tick (u x) = num_units_in_tick (vui_parameters t) \<and>
        time_scale (u x) = time_scale (vui_parameters t)"
    using vui_reads [of "vui_parameters t"] assms unfolding sps_ok_def by metis
  note fields = opt_field [where f = profile_idc] opt_field [where f = level_idc] opt_field [where f = pic_width_in_mbs_minus1]
    opt_field [where f = pic_height_in_map_units_minus1] opt_field [where f = frame_mbs_only_flag] opt_field [where f = frame_cropping_flag]
    opt_field [where f = frame_crop_left_offset] opt_field [where f = frame_crop_right_offset] opt_field [where f = frame_crop_top_offset]
    opt_field [where f = frame_crop_bottom_offset] opt_field [where f = vui_parameters_present_flag] opt_field [where f = vui_parameters]
  show ?thesis
    unfolding sps_size_def size_syntax_def same_head_def same_size_def same_timing_def using assms
    by (intro exI conjI) (rule reads_rules u(1) | (simp add: sps_ok_def; fail) | (simp add: fields u(2,3); fail))+
qed

lemma sps_reads:
  assumes "sps_ok t" and "spells s 0 (sps_syntax t)"
  shows "\<exists>y. sps_parse s x = Inr (0, y) \<and> same_head t y \<and> same_size t y \<and> same_timing t y"
proof -
  obtain y1 where y1: "reads (steps sps_head) (head_syntax t) x y1" "profile_idc y1 = profile_idc t" "level_idc y1 = level_idc t"
    using head_reads [OF assms(1)] by blast
  obtain g where g: "\<And>x. reads (steps sps_chroma) (chroma_syntax t) x (g x)" "\<And>x. same_head x (g x)"
    using chroma_reads [OF assms(1)] by metis
  let ?hi = "high_profile (profile_idc t)"
  have y2: "reads (steps [when_step (\<lambda>s. high_profile (profile_idc s)) sps_chroma]) (if ?hi then chroma_syntax t else []) y1 (opt ?hi g y1)"
    using y1(2) g(1) by (intro reads_last reads_when) auto
  obtain y3 where y3: "reads (steps sps_order) (order_syntax t) (opt ?hi g y1) y3" "same_head (opt ?hi g y1) y3"
    using order_reads [OF assms(1)] by blast
  obtain y where y: "reads (steps sps_size) (size_syntax t) y3 y" "same_head y3 y" "same_size t y" "same_timing t y"
    using size_reads [OF assms(1)] by blast
  have "same_head t y" using y1 g(2) [of y1] y3(2) y(2) by (auto simp: same_head_def opt_def split: if_splits)
  moreover have "reads (steps (sps_head @ [when_step (\<lambda>s. high_profile (profile_idc s)) sps_chroma] @ sps_order @ sps_size)) (sps_syntax t) x y"
    unfolding sps_syntax_def by (rule reads_append [OF y1(1) reads_append [OF y2 reads_append [OF y3(1) y(1)]]])
  then have "sps_parse s x = Inr (0, y)" using assms(2) by (simp add: reads_def sps_parse_def)
  ultimately show ?thesis using y(3,4) by blast
qed

end
