(* ===== verification/VideoCodecs.thy ===== *)
theory VideoCodecs
  imports SpsSyntax
begin

text \<open>
  The codec objects of a video track, \<^verbatim>\<open>libs/codec/h264/h264_codec.cpp\<close> and \<^verbatim>\<open>libs/codec/hevc/hevc_codec.cpp\<close>: the parameter sets of a
  stream and what is derived from them. Both parse the sequence parameter set with the H.264 parser. A frame rate is kept as the
  pair of numbers whose quotient the code stores.
\<close>

section \<open>State\<close>

record VideoCodec =
  ready :: bool
  sps_pps_parsed :: bool
  vc_sps_nalu :: bytes
  vc_pps_nalu :: bytes
  vc_sps_rbsp :: bytes
  vc_sps :: h264_sps_t
  vc_width :: u32
  vc_height :: u32
  vc_fps :: "u64 \<times> u64"

record H264Codec = VideoCodec +
  avc_configuration_valid :: bool
  avc_configuration :: AVCDecoderConfigurationRecord

record HevcCodec = VideoCodec +
  vc_vps_nalu :: bytes
  sei_prefix_nalu :: bytes
  hevc_configuration_valid :: bool
  hevc_configuration_changed :: bool
  hvcc_configuration :: HEVCDecoderConfigurationRecord

text \<open>The members of the parameter set are not initialised.\<close>
definition H264Codec_new :: "(nat \<Rightarrow> byte) \<Rightarrow> h264_sps_t \<Rightarrow> H264Codec" where
  "H264Codec_new j junk = \<lparr>ready = False, sps_pps_parsed = False, vc_sps_nalu = [], vc_pps_nalu = [], vc_sps_rbsp = [], vc_sps = junk,
     vc_width = 0, vc_height = 0, vc_fps = (0, 1), avc_configuration_valid = False, avc_configuration = avcc_new (j 0)\<rparr>"

definition HevcCodec_new :: "(nat \<Rightarrow> byte) \<Rightarrow> h264_sps_t \<Rightarrow> HevcCodec" where
  "HevcCodec_new j junk = \<lparr>ready = False, sps_pps_parsed = False, vc_sps_nalu = [], vc_pps_nalu = [], vc_sps_rbsp = [], vc_sps = junk,
     vc_width = 0, vc_height = 0, vc_fps = (0, 1), vc_vps_nalu = [], sei_prefix_nalu = [], hevc_configuration_valid = False,
     hevc_configuration_changed = False, hvcc_configuration = hvcc_new j\<rparr>"

section \<open>The parameter set\<close>

text \<open>
  The parameter set is parsed once. A unit shorter than the \<open>k\<close> bytes of its header makes the length of the view wrap around, and
  the loop over it leaves the unit.
\<close>
definition parse_sps :: "nat \<Rightarrow> 'a VideoCodec_scheme \<Rightarrow> (int \<times> 'a VideoCodec_scheme) result" where
  "parse_sps k c =
     (if sps_pps_parsed c then Inr (0, c)
      else if length (vc_sps_nalu c) < k then Inl Oob
      else let rbsp = deemulation_prevention (drop k (vc_sps_nalu c)) in
        bindR (sps_parse rbsp (vc_sps c)) (\<lambda>(r, sps). Inr (r, c\<lparr>vc_sps_rbsp := rbsp, vc_sps := sps, sps_pps_parsed := (r = 0)\<rparr>)))"

text \<open>The size, in 32-bit arithmetic, which wraps around.\<close>
definition picture_size :: "h264_sps_t \<Rightarrow> u32 \<times> u32" where
  "picture_size s =
     (let w = ucast (pic_width_in_mbs_minus1 s + 1) * 16; h = ucast (pic_height_in_map_units_minus1 s + 1) * 16;
          h = (if frame_mbs_only_flag s = 0 then h * 2 else h) in
      if frame_cropping_flag s \<noteq> 0
      then (w - ucast (2 * (frame_crop_left_offset s + frame_crop_right_offset s)), h - ucast (2 * (frame_crop_top_offset s + frame_crop_bottom_offset s)))
      else (w, h))"

definition set_size :: "'a VideoCodec_scheme \<Rightarrow> 'a VideoCodec_scheme" where
  "set_size c = c\<lparr>vc_width := fst (picture_size (vc_sps c)), vc_height := snd (picture_size (vc_sps c))\<rparr>"

definition has_fps :: "h264_sps_t \<Rightarrow> bool" where
  "has_fps s \<longleftrightarrow> vui_parameters_present_flag s \<noteq> 0 \<and> timing_info_present_flag (vui_parameters s) \<noteq> 0 \<and> 0 < num_units_in_tick (vui_parameters s)"

definition set_fps :: "'a VideoCodec_scheme \<Rightarrow> 'a VideoCodec_scheme" where
  "set_fps c = (if has_fps (vc_sps c) then c\<lparr>vc_fps := (time_scale (vui_parameters (vc_sps c)), 2 * num_units_in_tick (vui_parameters (vc_sps c)))\<rparr> else c)"

section \<open>H.264\<close>

definition H264Codec_get_wh :: "H264Codec \<Rightarrow> (bool \<times> H264Codec) result" where
  "H264Codec_get_wh c =
     (if vc_sps_nalu c = [] \<or> vc_pps_nalu c = [] then Inr (False, c)
      else bindR (parse_sps 1 c) (\<lambda>(r, c). if r \<noteq> 0 then Inr (False, c) else Inr (True, set_fps (set_size c))))"

definition H264Codec_get_fps :: "H264Codec \<Rightarrow> (bool \<times> H264Codec) result" where
  "H264Codec_get_fps c =
     (if vc_sps_nalu c = [] \<or> vc_pps_nalu c = [] then Inr (False, c)
      else bindR (parse_sps 1 c) (\<lambda>(r, c). if r \<noteq> 0 then Inr (False, c) else Inr (has_fps (vc_sps c), set_fps (set_size c))))"

definition H264Codec_set_sps_pps :: "bytes \<Rightarrow> bytes \<Rightarrow> H264Codec \<Rightarrow> (bool \<times> H264Codec) result" where
  "H264Codec_set_sps_pps sps pps c =
     bindR (H264Codec_get_wh (c\<lparr>vc_sps_nalu := sps, vc_pps_nalu := pps\<rparr>)) (\<lambda>(ok, c). if \<not> ok then Inr (False, c)
       else bindR (H264Codec_get_fps c) (\<lambda>(ok, c). if \<not> ok then Inr (False, c) else Inr (True, c\<lparr>ready := True\<rparr>)))"

definition H264Codec_set_sps :: "bytes \<Rightarrow> H264Codec \<Rightarrow> H264Codec" where
  "H264Codec_set_sps sps c = (let c = c\<lparr>vc_sps_nalu := sps\<rparr> in if sps \<noteq> [] \<and> vc_pps_nalu c \<noteq> [] then c\<lparr>ready := True\<rparr> else c)"

definition H264Codec_set_pps :: "bytes \<Rightarrow> H264Codec \<Rightarrow> H264Codec" where
  "H264Codec_set_pps pps c = (let c = c\<lparr>vc_pps_nalu := pps\<rparr> in if vc_sps_nalu c \<noteq> [] \<and> pps \<noteq> [] then c\<lparr>ready := True\<rparr> else c)"

definition H264Codec_create_from_avcc :: "(nat \<Rightarrow> byte) \<Rightarrow> h264_sps_t \<Rightarrow> AVCDecoderConfigurationRecord \<Rightarrow> H264Codec result" where
  "H264Codec_create_from_avcc j junk r = bindR (avcc_get_sps r) (\<lambda>sps. bindR (avcc_get_pps r) (\<lambda>pps.
     Inr ((H264Codec_new j junk)\<lparr>vc_sps_nalu := sps, vc_pps_nalu := pps\<rparr>)))"

definition H264Codec_set_avc_configuration :: "AVCDecoderConfigurationRecord \<Rightarrow> H264Codec \<Rightarrow> H264Codec" where
  "H264Codec_set_avc_configuration r c = c\<lparr>avc_configuration := r, avc_configuration_valid := True\<rparr>"

definition gen_avc_decoder_configuration_record :: "H264Codec \<Rightarrow> (bool \<times> H264Codec) result" where
  "gen_avc_decoder_configuration_record c =
     (if vc_sps_nalu c = [] \<or> vc_pps_nalu c = [] then Inr (False, c)
      else bindR (parse_sps 1 c) (\<lambda>(r, c). if r \<noteq> 0 then Inr (False, c)
        else Inr (True, c\<lparr>avc_configuration := add_pps (vc_pps_nalu c) (add_sps (vc_sps_nalu c) ((avc_configuration c)
          \<lparr>avc_profile := profile_idc (vc_sps c), avc_level := level_idc (vc_sps c), nalu_length_size_minus_one := 3\<rparr>))\<rparr>)))"

definition H264Codec_get_avc_configuration :: "H264Codec \<Rightarrow> (AVCDecoderConfigurationRecord \<times> H264Codec) result" where
  "H264Codec_get_avc_configuration c =
     (if avc_configuration_valid c then Inr (avc_configuration c, c)
      else bindR (gen_avc_decoder_configuration_record c) (\<lambda>(ok, c). let c = (if ok then c\<lparr>avc_configuration_valid := True\<rparr> else c) in
        Inr (avc_configuration c, c)))"

section \<open>HEVC\<close>

definition HevcCodec_is_ready :: "HevcCodec \<Rightarrow> bool" where
  "HevcCodec_is_ready c \<longleftrightarrow> vc_sps_nalu c \<noteq> [] \<and> vc_pps_nalu c \<noteq> [] \<and> vc_vps_nalu c \<noteq> []"

definition HevcCodec_get_wh :: "HevcCodec \<Rightarrow> (bool \<times> HevcCodec) result" where
  "HevcCodec_get_wh c = bindR (parse_sps 2 c) (\<lambda>(r, c). if r \<noteq> 0 then Inr (False, c) else Inr (True, set_size c))"

definition HevcCodec_get_fps :: "HevcCodec \<Rightarrow> (bool \<times> HevcCodec) result" where
  "HevcCodec_get_fps c = bindR (parse_sps 2 c) (\<lambda>(r, c). if r \<noteq> 0 then Inr (False, c)
     else if vui_parameters_present_flag (vc_sps c) \<noteq> 1 \<or> timing_info_present_flag (vui_parameters (vc_sps c)) \<noteq> 1 \<or>
       num_units_in_tick (vui_parameters (vc_sps c)) = 0 then Inr (False, c)
     else Inr (True, set_fps c))"

definition HevcCodec_set_sps_pps_vps :: "bytes \<Rightarrow> bytes \<Rightarrow> bytes \<Rightarrow> HevcCodec \<Rightarrow> (bool \<times> HevcCodec) result" where
  "HevcCodec_set_sps_pps_vps sps pps vps c =
     bindR (HevcCodec_get_wh (c\<lparr>vc_sps_nalu := sps, vc_pps_nalu := pps, vc_vps_nalu := vps\<rparr>)) (\<lambda>(ok, c). if \<not> ok then Inr (False, c)
       else bindR (HevcCodec_get_fps c) (\<lambda>(ok, c). if \<not> ok then Inr (False, c) else Inr (True, c\<lparr>ready := True\<rparr>)))"

definition HevcCodec_set_sps :: "bytes \<Rightarrow> HevcCodec \<Rightarrow> HevcCodec" where
  "HevcCodec_set_sps sps c = c\<lparr>vc_sps_nalu := sps, hevc_configuration_changed := True\<rparr>"

definition HevcCodec_set_pps :: "bytes \<Rightarrow> HevcCodec \<Rightarrow> HevcCodec" where
  "HevcCodec_set_pps pps c = c\<lparr>vc_pps_nalu := pps, hevc_configuration_changed := True\<rparr>"

definition HevcCodec_set_vps :: "bytes \<Rightarrow> HevcCodec \<Rightarrow> HevcCodec" where
  "HevcCodec_set_vps vps c = c\<lparr>vc_vps_nalu := vps, hevc_configuration_changed := True\<rparr>"

definition HevcCodec_set_sei_prefix :: "bytes \<Rightarrow> HevcCodec \<Rightarrow> HevcCodec" where
  "HevcCodec_set_sei_prefix sei c = c\<lparr>sei_prefix_nalu := sei\<rparr>"

definition HevcCodec_set_hevc_configuration :: "HEVCDecoderConfigurationRecord \<Rightarrow> HevcCodec \<Rightarrow> HevcCodec" where
  "HevcCodec_set_hevc_configuration r c = c\<lparr>hvcc_configuration := r, hevc_configuration_valid := True,
     vc_vps_nalu := (if vps_nalu r \<noteq> [] then vps_nalu r else vc_vps_nalu c),
     vc_sps_nalu := (if sps_nalu r \<noteq> [] then sps_nalu r else vc_sps_nalu c),
     vc_pps_nalu := (if pps_nalu r \<noteq> [] then pps_nalu r else vc_pps_nalu c)\<rparr>"

text \<open>The largest value of the segmentation field plus one, cut to a byte, is 1.\<close>
definition gen_hevc_decoder_configuration_record :: "HevcCodec \<Rightarrow> (bool \<times> HevcCodec) result" where
  "gen_hevc_decoder_configuration_record c =
     (if vc_sps_nalu c = [] \<or> vc_pps_nalu c = [] \<or> vc_vps_nalu c = [] then Inr (False, c)
      else bindR (parse_sps 1 c) (\<lambda>(r, c). if r \<noteq> 0 then Inr (False, c)
        else let conf = (hvcc_configuration c)\<lparr>hv_version := 1, general_profile_idc := profile_idc (vc_sps c), general_level_idc := 93,
                 general_profile_compatibility_flags := 0xffffffff, general_constraint_indicator_flags := replicate 6 0xff,
                 min_spatial_segmentation_idc := 1, lengthSizeMinusOne := 3\<rparr>;
               add = (\<lambda>n. add_nalu (H265_TYPE n) n);
               conf = add (vc_pps_nalu c) (add (vc_sps_nalu c) (add (vc_vps_nalu c) conf)) in
          Inr (True, c\<lparr>hvcc_configuration := (if sei_prefix_nalu c \<noteq> [] then add (sei_prefix_nalu c) conf else conf)\<rparr>)))"

definition HevcCodec_get_hevc_configuration :: "HevcCodec \<Rightarrow> (HEVCDecoderConfigurationRecord \<times> HevcCodec) result" where
  "HevcCodec_get_hevc_configuration c =
     (if hevc_configuration_valid c \<and> \<not> hevc_configuration_changed c then Inr (hvcc_configuration c, c)
      else bindR (gen_hevc_decoder_configuration_record c) (\<lambda>(ok, c).
        let c = c\<lparr>hevc_configuration_valid := hevc_configuration_valid c \<or> ok, hevc_configuration_changed := False\<rparr> in Inr (hvcc_configuration c, c)))"


section \<open>Properties\<close>

text \<open>
  The size of the cropped picture in the standard (equations 7-13 to 7-22), for 4:2:0 sampling: a macroblock has 16 lines, a map unit of
  a field-coded stream 32, and cropping is in units of two luma samples, vertically of two or four.
\<close>
definition spec_size :: "h264_sps_t \<Rightarrow> nat \<times> nat" where
  "spec_size t = (let f = 2 - unat (frame_mbs_only_flag t); crop = (if frame_cropping_flag t \<noteq> 0 then 1 else 0) in
     (16 * (unat (pic_width_in_mbs_minus1 t) + 1) - crop * 2 * (unat (frame_crop_left_offset t) + unat (frame_crop_right_offset t)),
      16 * f * (unat (pic_height_in_map_units_minus1 t) + 1) - crop * 2 * f * (unat (frame_crop_top_offset t) + unat (frame_crop_bottom_offset t))))"

text \<open>Sizes that fit 32 bits, and a picture that is not cropped away.\<close>
definition size_ok :: "h264_sps_t \<Rightarrow> bool" where
  "size_ok t \<longleftrightarrow> unat (pic_width_in_mbs_minus1 t) < 2 ^ 20 \<and> unat (pic_height_in_map_units_minus1 t) < 2 ^ 20 \<and>
     2 * (unat (frame_crop_left_offset t) + unat (frame_crop_right_offset t)) \<le> 16 * (unat (pic_width_in_mbs_minus1 t) + 1) \<and>
     2 * (unat (frame_crop_top_offset t) + unat (frame_crop_bottom_offset t)) \<le> 16 * (unat (pic_height_in_map_units_minus1 t) + 1)"

lemma unat_narrow: "unat (x :: u64) < 2 ^ 32 \<Longrightarrow> unat (ucast x :: u32) = unat x"
  by (simp only: unsigned_ucast_eq) (simp add: take_bit_nat_eq_self)

lemma unat_side:
  assumes "unat (a :: u64) < 2 ^ 20" and "2 * (unat (l :: u64) + unat r) \<le> 16 * (unat a + 1)"
  shows "unat (ucast (a + 1) * 16 :: u32) = 16 * (unat a + 1)"
    and "unat (ucast (a + 1) * 16 - ucast (2 * (l + r)) :: u32) = 16 * (unat a + 1) - 2 * (unat l + unat r)"
proof -
  have "unat (a + 1) = unat a + 1" using assms(1) by (simp add: unat_word_ariths)
  then have "unat (ucast (a + 1) :: u32) = unat a + 1" using assms(1) unat_narrow [of "a + 1"] by simp
  then show a: "unat (ucast (a + 1) * 16 :: u32) = 16 * (unat a + 1)" using assms(1) by (simp add: unat_word_ariths)
  have "unat (2 * (l + r)) = 2 * (unat l + unat r)" using assms by (simp add: unat_word_ariths)
  then have c: "unat (ucast (2 * (l + r)) :: u32) = 2 * (unat l + unat r)" using assms unat_narrow [of "2 * (l + r)"] by simp
  show "unat (ucast (a + 1) * 16 - ucast (2 * (l + r)) :: u32) = 16 * (unat a + 1) - 2 * (unat l + unat r)"
    using a c assms(2) by (subst unat_sub) (simp_all add: word_le_nat_alt)
qed

lemma picture_size_spec:
  assumes "same_size t y" and "size_ok t" and "frame_mbs_only_flag t = 1"
  shows "map_prod unat unat (picture_size y) = spec_size t"
proof (cases "frame_cropping_flag t = 0")
  case True
  then show ?thesis
    using assms unat_side(1) [of "pic_width_in_mbs_minus1 t" "frame_crop_left_offset t" "frame_crop_right_offset t"]
      unat_side(1) [of "pic_height_in_map_units_minus1 t" "frame_crop_top_offset t" "frame_crop_bottom_offset t"]
    by (simp add: picture_size_def spec_size_def same_size_def size_ok_def Let_def)
next
  case False
  then show ?thesis
    using assms unat_side(2) [of "pic_width_in_mbs_minus1 t" "frame_crop_left_offset t" "frame_crop_right_offset t"]
      unat_side(2) [of "pic_height_in_map_units_minus1 t" "frame_crop_top_offset t" "frame_crop_bottom_offset t"]
    by (simp add: picture_size_def spec_size_def same_size_def size_ok_def Let_def)
qed

lemma parse_sps_written:
  assumes "sps_ok t" and "spells rbsp 0 (sps_syntax t)" and "\<not> sps_pps_parsed c" and "vc_sps_nalu c = nal_header @ emulate 0 rbsp"
    and "length nal_header = k"
  shows "\<exists>y. parse_sps k c = Inr (0, c\<lparr>vc_sps_rbsp := rbsp, vc_sps := y, sps_pps_parsed := True\<rparr>) \<and> same_head t y \<and> same_size t y \<and> same_timing t y"
proof -
  have "deemulation_prevention (drop k (vc_sps_nalu c)) = rbsp" using deemulate_emulate [of rbsp] by (simp add: assms(4) flip: assms(5))
  moreover obtain y where "sps_parse rbsp (vc_sps c) = Inr (0, y)" "same_head t y" "same_size t y" "same_timing t y"
    using sps_reads [OF assms(1,2)] by blast
  ultimately show ?thesis using assms(3,5) by (auto simp: parse_sps_def assms(4))
qed


definition no_hrd :: hrd_parameters_t where
  "no_hrd = \<lparr>cpb_cnt_minus1 = 0, bit_rate_scale = 0, cpb_size_scale = 0, bit_rate_value_minus1 = [0], cpb_size_value_minus1 = [0], cbr_flag = [0],
     initial_cpb_removal_delay_length_minus1 = 0, cpb_removal_delay_length_minus1 = 0, dpb_output_delay_length_minus1 = 0, time_offset_length = 0\<rparr>"

definition no_vui :: vui_parameters_t where
  "no_vui = \<lparr>aspect_ratio_info_present_flag = 0, aspect_ratio_idc = 0, sar_width = 0, sar_height = 0, overscan_info_present_flag = 0,
     overscan_appropriate_flag = 0, video_signal_type_present_flag = 0, video_format = 0, video_full_range_flag = 0,
     colour_description_present_flag = 0, colour_primaries = 0, transfer_characteristics = 0, matrix_coefficients = 0,
     chroma_loc_info_present_flag = 0, chroma_sample_loc_type_top_field = 0, chroma_sample_loc_type_bottom_field = 0,
     timing_info_present_flag = 0, num_units_in_tick = 0, time_scale = 0, fixed_frame_rate_flag = 0, nal_hrd_parameters_present_flag = 0,
     hrd_parameters1 = no_hrd, vcl_hrd_parameters_present_flag = 0, hrd_parameters2 = no_hrd, low_delay_hrd_flag = 0,
     pic_struct_present_flag = 0, bitstream_restriction_flag = 0, motion_vectors_over_pic_boundaries_flag = 0, max_bytes_per_pic_denom = 0,
     max_bits_per_mb_denom = 0, log2_max_mv_length_horizontal = 0, log2_max_mv_length_vertical = 0, max_num_reorder_frames = 0,
     max_dec_frame_buffering = 0\<rparr>"

text \<open>A baseline stream of 640 by 480.\<close>
definition vga_sps :: h264_sps_t where
  "vga_sps = \<lparr>profile_idc = 66, constraint_set0_flag = 0, constraint_set1_flag = 0, constraint_set2_flag = 0, constraint_set3_flag = 0,
     constraint_set4_flag = 0, constraint_set5_flag = 0, reserved_zero_2bits = 0, level_idc = 30, seq_parameter_set_id = 0,
     chroma_format_idc = 1, separate_colour_plane_flag = 0, bit_depth_luma_minus8 = 0, bit_depth_chroma_minus8 = 0,
     qpprime_y_zero_transform_bypass_flag = 0, seq_scaling_matrix_present_flag = 0, seq_scaling_list_present_flag = replicate 8 0,
     log2_max_frame_num_minus4 = 0, pic_order_cnt_type = 2, log2_max_pic_order_cnt_lsb_minus4 = 0, delta_pic_order_always_zero_flag = 0,
     offset_for_non_ref_pic = 0, offset_for_top_to_bottom_field = 0, num_ref_frames_in_pic_order_cnt_cycle = 0, offset_for_ref_frame = [],
     max_num_ref_frames = 1, gaps_in_frame_num_value_allowed_flag = 0, pic_width_in_mbs_minus1 = 39, pic_height_in_map_units_minus1 = 29,
     frame_mbs_only_flag = 1, mb_adaptive_frame_field_flag = 0, direct_8x8_inference_flag = 1, frame_cropping_flag = 0,
     frame_crop_left_offset = 0, frame_crop_right_offset = 0, frame_crop_top_offset = 0, frame_crop_bottom_offset = 0,
     vui_parameters_present_flag = 0, vui_parameters = no_vui\<rparr>"

definition vga_rbsp :: bytes where
  "vga_rbsp = [0x42, 0, 0x1e, 0xda, 0x02, 0x80, 0xf6, 0x40]"

lemma vga_ok: "sps_ok vga_sps" "size_ok vga_sps"
  by (simp_all add: sps_ok_def vga_sps_def is_flag_def small_def vui_ok_def no_vui_def hrd_ok_def no_hrd_def size_ok_def)

lemma vga_bits: "spells vga_rbsp 0 (sps_syntax vga_sps)"
  by code_simp

lemma vga_size: "spec_size vga_sps = (640, 480)"
  by (simp add: spec_size_def vga_sps_def)

lemma vga_plain: "emulate 0 vga_rbsp = vga_rbsp"
  by code_simp


text \<open>
  A codec parses the first parameter set it gets and no other: a later sequence header with another one changes the stored unit but
  neither the parsed set nor the picture size, so a stream that changes its resolution keeps the old one.
\<close>
theorem h264_later_sps_ignored:
  assumes "sps_pps_parsed c" and "sps \<noteq> []" and "pps \<noteq> []"
  shows "\<exists>ok c'. H264Codec_set_sps_pps sps pps c = Inr (ok, c') \<and> vc_sps_nalu c' = sps \<and> vc_sps c' = vc_sps c \<and>
    (vc_width c', vc_height c') = picture_size (vc_sps c)"
  using assms by (cases "has_fps (vc_sps c)")
    (simp_all add: H264Codec_set_sps_pps_def H264Codec_get_wh_def H264Codec_get_fps_def parse_sps_def set_fps_def set_size_def, blast+)

theorem h264_later_sps_ignored_witness:
  "\<exists>ok c'. H264Codec_set_sps_pps [0x67] [0x68] ((H264Codec_new (\<lambda>_. 0) vga_sps)\<lparr>sps_pps_parsed := True\<rparr>) = Inr (ok, c') \<and> vc_width c' = 640"
proof -
  have "picture_size vga_sps = (640, 480)" by (simp add: picture_size_def vga_sps_def)
  with h264_later_sps_ignored [of "(H264Codec_new (\<lambda>_. 0) vga_sps)\<lparr>sps_pps_parsed := True\<rparr>" "[0x67]" "[0x68]"] show ?thesis
    by (auto simp: H264Codec_new_def)
qed

text \<open>A parameter set of fewer than two bytes makes the HEVC codec read outside it.\<close>
lemma hevc_short_sps:
  "\<not> sps_pps_parsed c \<Longrightarrow> length sps < 2 \<Longrightarrow> HevcCodec_set_sps_pps_vps sps pps vps c = Inl Oob"
  by (simp add: HevcCodec_set_sps_pps_vps_def HevcCodec_get_wh_def parse_sps_def)


end
