(* ===== verification/PacketLog.thy ===== *)
theory PacketLog
  imports Prelude
begin

text \<open>
  The ring of recent packets that a media source shares with its sinks (\<^verbatim>\<open>libs/base/sequence_pkt_buf.hpp\<close>), what it refines, and the
  loops by which the sources hand its packets out.
\<close>

section \<open>The ring\<close>

text \<open>
  The counter is 64 bits wide in the code; as it counts packets it does not wrap. Each slot keeps the number of the packet stored
  in it. The size of the ring is not zero.
\<close>
record 'p SequencePktBuf =
  pkt_buf :: "(nat \<times> 'p option) list"
  indexes :: nat

definition SequencePktBuf_new :: "nat \<Rightarrow> 'p SequencePktBuf" where
  "SequencePktBuf_new max_size = \<lparr>pkt_buf = replicate max_size (0, None), indexes = 0\<rparr>"

abbreviation max_size :: "'p SequencePktBuf \<Rightarrow> nat" where "max_size b \<equiv> length (pkt_buf b)"

definition add_pkt :: "'p \<Rightarrow> 'p SequencePktBuf \<Rightarrow> nat \<times> 'p SequencePktBuf" where
  "add_pkt pkt b = (let i = indexes b + 1 in (i, b\<lparr>indexes := i, pkt_buf := (pkt_buf b)[i mod max_size b := (i, Some pkt)]\<rparr>))"

text \<open>The number stored with the packet is not looked at.\<close>
definition get_pkt :: "'p SequencePktBuf \<Rightarrow> nat \<Rightarrow> 'p option" where
  "get_pkt b index = snd (pkt_buf b ! (index mod max_size b))"

definition latest_index :: "'p SequencePktBuf \<Rightarrow> nat" where
  "latest_index b = indexes b"

text \<open>The loop of \<^verbatim>\<open>clear\<close>: it goes back from the newest slot until it meets an empty one.\<close>

definition live_slots :: "(nat \<times> 'p option) list \<Rightarrow> nat" where
  "live_slots slots = length (filter (\<lambda>s. snd s \<noteq> None) slots)"

lemma live_slots_update:
  assumes "i < length slots" and "snd (slots ! i) \<noteq> None"
  shows "live_slots (slots[i := (k, None)]) < live_slots slots"
  using assms
proof (induction slots arbitrary: i)
  case (Cons s slots)
  then show ?case by (cases i) (auto simp: live_slots_def)
qed simp

function clear_from :: "nat \<Rightarrow> (nat \<times> 'p option) list \<Rightarrow> (nat \<times> 'p option) list" where
  "clear_from current_index slots =
     (let idx = current_index mod length slots in
      if idx < length slots \<and> snd (slots ! idx) \<noteq> None
      then clear_from (current_index - 1) (slots[idx := (fst (slots ! idx), None)])
      else slots)"
  by pat_completeness auto
termination
  by (relation "measure (\<lambda>(_, slots). live_slots slots)") (auto intro: live_slots_update)

declare clear_from.simps [simp del]

definition clear :: "'p SequencePktBuf \<Rightarrow> 'p SequencePktBuf" where
  "clear b = b\<lparr>pkt_buf := clear_from (indexes b) (pkt_buf b)\<rparr>"

text \<open>The packets from the newest back to the first empty slot, at most once around.\<close>
fun dump_from :: "nat \<Rightarrow> nat \<Rightarrow> (nat \<times> 'p option) list \<Rightarrow> 'p list" where
  "dump_from 0 buf_index slots = []"
| "dump_from (Suc left) buf_index slots = (case snd (slots ! (buf_index mod length slots)) of None \<Rightarrow> []
     | Some p \<Rightarrow> p # (if buf_index - 1 = 0 then [] else dump_from left (buf_index - 1) slots))"

definition dump_pkts :: "'p SequencePktBuf \<Rightarrow> 'p list" where
  "dump_pkts b = dump_from (max_size b) (indexes b) (pkt_buf b)"

section \<open>What the ring refines\<close>

text \<open>
  The abstract log: how many packets were ever added, and the retained ones, the newest first. Only the last \<open>n\<close> are kept.
\<close>
record 'p log =
  count :: nat
  recent :: "'p list"

definition log_add :: "nat \<Rightarrow> 'p \<Rightarrow> 'p log \<Rightarrow> 'p log" where
  "log_add n p l = \<lparr>count = count l + 1, recent = take n (p # recent l)\<rparr>"

definition log_clear :: "'p log \<Rightarrow> 'p log" where
  "log_clear l = l\<lparr>recent := []\<rparr>"

definition log_get :: "'p log \<Rightarrow> nat \<Rightarrow> 'p option" where
  "log_get l i = (if i \<le> count l \<and> count l - i < length (recent l) then Some (recent l ! (count l - i)) else None)"

text \<open>The slot \<open>d\<close> packets back holds the packet \<open>d\<close> places back in the log, if it is retained, and nothing otherwise.\<close>
definition ring_log :: "'p SequencePktBuf \<Rightarrow> 'p log \<Rightarrow> bool" where
  "ring_log b l \<longleftrightarrow> 0 < max_size b \<and> indexes b = count l \<and> length (recent l) \<le> max_size b \<and> length (recent l) \<le> count l \<and>
     (\<forall>d<max_size b. snd (pkt_buf b ! ((count l + max_size b - d) mod max_size b)) =
       (if d < length (recent l) then Some (recent l ! d) else None))"

lemma ring_log_new: "0 < n \<Longrightarrow> ring_log (SequencePktBuf_new n) \<lparr>count = 0, recent = []\<rparr>"
  by (simp add: ring_log_def SequencePktBuf_new_def)

lemma mod_wrap [simp]: "Suc (c + n) mod n = Suc c mod (n :: nat)"
  by (metis add_Suc mod_add_self2)

lemma mod_back: "d \<le> c \<Longrightarrow> (c + n - d) mod n = (c - d) mod (n :: nat)"
  by (metis Nat.add_diff_assoc2 mod_add_self2)

lemma slot_le:
  assumes "d \<le> d'" and "d' < n" and "(c + n - d) mod n = (c + n - d') mod (n :: nat)"
  shows "d = d'"
proof -
  have "n dvd (c + n - d) - (c + n - d')" using assms by (simp add: mod_eq_dvd_iff_nat)
  moreover have "(c + n - d) - (c + n - d') = d' - d" using assms(1,2) by simp
  ultimately have "n dvd d' - d" by simp
  then show ?thesis using assms(1,2) nat_dvd_not_less [of "d' - d" n] by linarith
qed

lemma slot_inj:
  assumes "d < n" and "d' < n"
  shows "(c + n - d) mod n = (c + n - d') mod n \<longleftrightarrow> d = (d' :: nat)"
  using assms slot_le [of d d' n c] slot_le [of d' d n c] by (metis nat_le_linear)

text \<open>Adding a packet.\<close>

lemma ring_log_add:
  assumes "ring_log b l"
  shows "fst (add_pkt p b) = count l + 1 \<and> ring_log (snd (add_pkt p b)) (log_add (max_size b) p l)"
proof -
  let ?n = "max_size b" let ?c = "count l"
  have n: "0 < ?n" and slot: "\<And>d. d < ?n \<Longrightarrow> snd (pkt_buf b ! ((?c + ?n - d) mod ?n)) = (if d < length (recent l) then Some (recent l ! d) else None)"
    using assms by (simp_all add: ring_log_def)
  let ?buf = "(pkt_buf b)[(?c + 1) mod ?n := (?c + 1, Some p)]"
  have "snd (?buf ! ((?c + 1 + ?n - d) mod ?n)) = (if d < length (take ?n (p # recent l)) then Some (take ?n (p # recent l) ! d) else None)"
    if d: "d < ?n" for d
  proof (cases d)
    case 0
    with n show ?thesis by simp
  next
    case (Suc e)
    have "(?c + 1 + ?n - d) mod ?n \<noteq> (?c + 1 + ?n - 0) mod ?n" using slot_inj [of d ?n 0 "?c + 1"] d Suc n by simp
    then have "?buf ! ((?c + 1 + ?n - d) mod ?n) = pkt_buf b ! ((?c + ?n - e) mod ?n)"
      using Suc by simp
    moreover have "snd (pkt_buf b ! ((?c + ?n - e) mod ?n)) = (if e < length (recent l) then Some (recent l ! e) else None)"
      using slot [of e] d Suc by simp
    ultimately show ?thesis using d Suc by simp
  qed
  with assms show ?thesis by (auto simp: ring_log_def add_pkt_def log_add_def Let_def)
qed

text \<open>Reading: inside the window the packet of that number, outside it the slot's occupant.\<close>

lemma ring_log_get:
  assumes "ring_log b l" and "i \<le> count l" and "count l - i < max_size b"
  shows "get_pkt b i = log_get l i"
proof -
  have "(count l + max_size b - (count l - i)) mod max_size b = i mod max_size b" using assms(2) by simp
  with assms show ?thesis by (auto simp: get_pkt_def log_get_def ring_log_def dest!: spec [of _ "count l - i"])
qed

lemma ring_get_periodic: "get_pkt b (i + k * max_size b) = get_pkt b i"
  by (simp add: get_pkt_def)


text \<open>Clearing: the loop ends, and leaves no packet behind.\<close>

lemma slot_surj:
  assumes "s < (n :: nat)"
  obtains d where "d < n" and "(c + n - d) mod n = s"
proof -
  have "(\<lambda>d. (c + n - d) mod n) ` {..<n} = {..<n}"
    using assms by (intro endo_inj_surj) (auto simp: inj_on_def slot_inj)
  with assms that show thesis by (metis (no_types, lifting) imageE lessThan_iff)
qed

definition retains :: "(nat \<times> 'p option) list \<Rightarrow> nat \<Rightarrow> 'p list \<Rightarrow> bool" where
  "retains slots c r \<longleftrightarrow> slots \<noteq> [] \<and> length r \<le> length slots \<and> length r \<le> c \<and>
     (\<forall>d<length slots. snd (slots ! ((c + length slots - d) mod length slots)) = (if d < length r then Some (r ! d) else None))"

lemma ring_log_retains: "ring_log b l \<longleftrightarrow> indexes b = count l \<and> retains (pkt_buf b) (count l) (recent l)"
  by (auto simp: ring_log_def retains_def)

lemma retains_slot: "retains slots c r \<Longrightarrow> snd (slots ! (c mod length slots)) = (case r of [] \<Rightarrow> None | p # _ \<Rightarrow> Some p)"
  by (auto simp: retains_def dest!: spec [of _ 0] split: list.split)

lemma retains_Nil: "retains slots c [] \<longleftrightarrow> slots \<noteq> [] \<and> (\<forall>s\<in>set slots. snd s = None)"
proof -
  have "snd (slots ! s) = None" if r: "retains slots c []" and s: "s < length slots" for s
  proof -
    obtain d where "d < length slots" "(c + length slots - d) mod length slots = s" by (rule slot_surj [OF s])
    with r show ?thesis by (auto simp: retains_def)
  qed
  then have "retains slots c [] \<Longrightarrow> \<forall>s\<in>set slots. snd s = None" by (metis in_set_conv_nth)
  moreover have "\<forall>s\<in>set slots. snd s = None \<Longrightarrow> slots \<noteq> [] \<Longrightarrow> retains slots c []" by (simp add: retains_def)
  moreover have "retains slots c [] \<Longrightarrow> slots \<noteq> []" by (simp add: retains_def)
  ultimately show ?thesis by blast
qed

lemma retains_step:
  assumes "retains slots c (p # r)"
  shows "retains (slots[c mod length slots := (k, None)]) (c - 1) r"
proof -
  let ?n = "length slots" let ?slots = "slots[c mod ?n := (k, None)]"
  have n: "0 < ?n" "length r < ?n" "length r < c" using assms by (simp_all add: retains_def)
  have "snd (?slots ! ((c - 1 + ?n - d) mod ?n)) = (if d < length r then Some (r ! d) else None)" if d: "d < ?n" for d
  proof (cases "Suc d = ?n")
    case True
    then have "(c - 1 + ?n - d) mod ?n = c mod ?n" using n by simp
    then show ?thesis using True n by simp
  next
    case False
    have e: "(c - 1 + ?n - d) mod ?n = (c + ?n - Suc d) mod ?n" using n by simp
    have "(c + ?n - Suc d) mod ?n \<noteq> (c + ?n - 0) mod ?n" using slot_inj [of "Suc d" ?n 0 c] d False n by simp
    then have "?slots ! ((c - 1 + ?n - d) mod ?n) = slots ! ((c + ?n - Suc d) mod ?n)" unfolding e by simp
    moreover have "snd (slots ! ((c + ?n - Suc d) mod ?n)) = (if d < length r then Some (r ! d) else None)"
      using assms d False by (simp add: retains_def)
    ultimately show ?thesis by simp
  qed
  with n show ?thesis by (auto simp: retains_def)
qed

lemma clear_from_empties:
  assumes "retains slots c r"
  shows "length (clear_from c slots) = length slots \<and> (\<forall>s\<in>set (clear_from c slots). snd s = None)"
  using assms
proof (induction r arbitrary: slots c)
  case Nil
  then have "clear_from c slots = slots" using retains_slot [OF Nil] by (subst clear_from.simps) simp
  with Nil show ?case by (simp add: retains_Nil)
next
  case (Cons p r)
  let ?slots = "slots[c mod length slots := (fst (slots ! (c mod length slots)), None)]"
  have "clear_from c slots = clear_from (c - 1) ?slots"
    using retains_slot [OF Cons.prems] Cons.prems by (subst clear_from.simps) (simp add: Let_def retains_def)
  with Cons.IH [OF retains_step [OF Cons.prems]] show ?case by simp
qed

lemma ring_log_clear:
  assumes "ring_log b l"
  shows "ring_log (clear b) (log_clear l)"
proof -
  have r: "retains (pkt_buf b) (count l) (recent l)" "indexes b = count l" using assms by (simp_all add: ring_log_retains)
  then have "retains (clear_from (count l) (pkt_buf b)) (count l) []"
    using clear_from_empties [OF r(1)] unfolding retains_Nil by (metis length_0_conv r(1) retains_def)
  with r show ?thesis by (simp add: ring_log_retains clear_def log_clear_def)
qed

text \<open>Dumping: the retained packets, the newest first.\<close>

lemma dump_from_retained:
  assumes "retains slots c r" and "d + left = length slots" and "d \<le> length r"
  shows "dump_from left (c - d) slots = drop d r"
  using assms(2,3)
proof (induction left arbitrary: d)
  case 0
  with assms(1) show ?case by (simp add: retains_def)
next
  case (Suc left)
  have e: "(c + length slots - d) mod length slots = (c - d) mod length slots"
    using assms(1) Suc.prems by (intro mod_back) (simp add: retains_def)
  have slot: "snd (slots ! ((c - d) mod length slots)) = (if d < length r then Some (r ! d) else None)"
    unfolding e [symmetric] using assms(1) Suc.prems by (simp add: retains_def)
  show ?case
  proof (cases "d < length r")
    case True
    have "c - d - 1 = 0 \<Longrightarrow> drop (Suc d) r = []" using assms(1) True by (simp add: retains_def)
    with True slot Suc.IH [of "Suc d"] Suc.prems show ?thesis by (simp add: Cons_nth_drop_Suc [symmetric])
  qed (use slot Suc.prems in simp)
qed

lemma ring_log_dump: "ring_log b l \<Longrightarrow> dump_pkts b = recent l"
  using dump_from_retained [of "pkt_buf b" "count l" "recent l" 0 "max_size b"] by (simp add: ring_log_retains dump_pkts_def)


section \<open>Handing packets out\<close>

text \<open>
  The loop \<^verbatim>\<open>while (start_idx <= latest_frame_index_ && pkt_count < max_count)\<close> of the sources: the packets found and the index after
  the loop. An empty slot is passed over (\<open>collect\<close>) or ends the loop (\<open>collect_until\<close>); \<open>room\<close> is \<^verbatim>\<open>max_count - pkt_count\<close>.
\<close>
function collect :: "(nat \<Rightarrow> 'p option) \<Rightarrow> nat \<Rightarrow> nat \<Rightarrow> nat \<Rightarrow> 'p list \<times> nat" where
  "collect get latest start room =
     (if start \<le> latest \<and> 0 < room then
        (case get start of Some p \<Rightarrow> (case collect get latest (start + 1) (room - 1) of (ps, e) \<Rightarrow> (p # ps, e))
         | None \<Rightarrow> collect get latest (start + 1) room)
      else ([], start))"
  by pat_completeness auto
termination by (relation "measure (\<lambda>(_, latest, start, _). latest + 1 - start)") auto

function collect_until :: "(nat \<Rightarrow> 'p option) \<Rightarrow> nat \<Rightarrow> nat \<Rightarrow> nat \<Rightarrow> 'p list \<times> nat" where
  "collect_until get latest start room =
     (if start \<le> latest \<and> 0 < room then
        (case get start of Some p \<Rightarrow> (case collect_until get latest (start + 1) (room - 1) of (ps, e) \<Rightarrow> (p # ps, e))
         | None \<Rightarrow> ([], start))
      else ([], start))"
  by pat_completeness auto
termination by (relation "measure (\<lambda>(_, latest, start, _). latest + 1 - start)") auto

declare collect.simps [simp del] collect_until.simps [simp del]

text \<open>The packets of a log from number \<open>i\<close> on, in the order they were added.\<close>
definition pending :: "'p log \<Rightarrow> nat \<Rightarrow> 'p list" where
  "pending l i = rev (take (count l + 1 - i) (recent l))"

lemma pending_end: "count l < i \<Longrightarrow> pending l i = []"
  by (simp add: pending_def)

lemma pending_next:
  assumes "i \<le> count l"
  shows "pending l i = (case log_get l i of Some p \<Rightarrow> [p] | None \<Rightarrow> []) @ pending l (i + 1)"
proof -
  have "take (Suc k) r = take k r @ (if k < length r then [r ! k] else [])" for k and r :: "'p list"
    by (simp add: take_Suc_conv_app_nth)
  from this [of "count l - i" "recent l"] assms show ?thesis
    by (simp add: pending_def log_get_def Suc_diff_le)
qed

lemma pending_add: "i \<le> count l + 1 \<Longrightarrow> count l + 1 - i < n \<Longrightarrow> pending (log_add n p l) i = pending l i @ [p]"
  by (cases "count l + 2 - i") (simp_all add: pending_def log_add_def Suc_diff_le min_def)

text \<open>
  What the sources rely on: the provider keeps a log of the last \<open>cap\<close> packets and answers for every number in that window.
\<close>
locale packet_log =
  fixes cap :: nat and add :: "'p \<Rightarrow> 's \<Rightarrow> nat \<times> 's" and get :: "'s \<Rightarrow> nat \<Rightarrow> 'p option" and clear :: "'s \<Rightarrow> 's"
    and repr :: "'s \<Rightarrow> 'p log \<Rightarrow> bool"
  assumes add_law: "repr b l \<Longrightarrow> fst (add p b) = count l + 1 \<and> repr (snd (add p b)) (log_add cap p l)"
    and get_law: "repr b l \<Longrightarrow> i \<le> count l \<Longrightarrow> count l - i < cap \<Longrightarrow> get b i = log_get l i"
    and clear_law: "repr b l \<Longrightarrow> repr (clear b) (log_clear l)"
    and recent_law: "repr b l \<Longrightarrow> length (recent l) \<le> count l"
begin

lemma collect_pending:
  assumes "repr b l" and "count l < i + cap"
  shows "fst (collect (get b) (count l) i room) = take room (pending l i) \<and>
    pending l (snd (collect (get b) (count l) i room)) = drop room (pending l i) \<and>
    i \<le> snd (collect (get b) (count l) i room) \<and> (i \<le> count l + 1 \<longrightarrow> snd (collect (get b) (count l) i room) \<le> count l + 1)"
  using assms(2)
proof (induction "get b" "count l" i room rule: collect.induct)
  case (1 i room)
  show ?case
  proof (cases "i \<le> count l \<and> 0 < room")
    case True
    then have g: "get b i = log_get l i" using 1(3) by (intro get_law [OF assms(1)]) auto
    show ?thesis
    proof (cases "log_get l i")
      case None
      with True g 1 pending_next [of i l] show ?thesis by (subst (1 2 3 4) collect.simps) simp
    next
      case (Some p)
      obtain k where "room = Suc k" using True by (cases room) auto
      with True g Some 1 pending_next [of i l] show ?thesis
        by (subst (1 2 3 4) collect.simps) (auto split: prod.split)
    qed
  qed (auto simp: collect.simps pending_end)
qed

end

interpretation ring: packet_log n add_pkt get_pkt clear "\<lambda>b l. ring_log b l \<and> max_size b = n" for n
proof
  fix b :: "'a SequencePktBuf" and l p i
  assume b: "ring_log b l \<and> max_size b = n"
  show "fst (add_pkt p b) = count l + 1 \<and> ring_log (snd (add_pkt p b)) (log_add n p l) \<and> max_size (snd (add_pkt p b)) = n"
    using ring_log_add [of b l p] b by (auto simp: add_pkt_def Let_def)
  show "i \<le> count l \<Longrightarrow> count l - i < n \<Longrightarrow> get_pkt b i = log_get l i" using ring_log_get [of b l i] b by simp
  show "ring_log (clear b) (log_clear l) \<and> max_size (clear b) = n"
    using ring_log_clear [of b l] clear_from_empties b by (auto simp: clear_def ring_log_retains)
  show "length (recent l) \<le> count l" using b by (simp add: ring_log_def)
qed


section \<open>A source feeding a sink\<close>

text \<open>
  The interleavings of a source that adds packets and a sink that pulls them, as steps on the ring, the next index of the sink, the
  packets it got and all packets added. The guard of \<open>produce\<close> describes the runs in which the sink keeps up: it is never as many
  packets behind as the ring has slots.
\<close>
inductive feed :: "'p SequencePktBuf \<times> nat \<times> 'p list \<times> 'p list \<Rightarrow> 'p SequencePktBuf \<times> nat \<times> 'p list \<times> 'p list \<Rightarrow> bool" where
  produce: "add_pkt p b = (k, b') \<Longrightarrow> k < i + max_size b \<Longrightarrow> feed (b, i, out, all) (b', i, out, all @ [p])"
| pull: "collect (get_pkt b) (indexes b) i room = (ps, e) \<Longrightarrow> feed (b, i, out, all) (b, e, out @ ps, all)"

text \<open>The invariant: what was delivered, followed by what the ring still holds for the sink, is everything that was added.\<close>
definition fed :: "nat \<Rightarrow> 'p SequencePktBuf \<times> nat \<times> 'p list \<times> 'p list \<Rightarrow> bool" where
  "fed n s \<longleftrightarrow> (case s of (b, i, out, all) \<Rightarrow> \<exists>l. (ring_log b l \<and> max_size b = n) \<and> i \<le> count l + 1 \<and> count l < i + length (recent l) \<and>
     count l = length all \<and> out @ pending l i = all)"

lemma fed_new: "0 < n \<Longrightarrow> fed n (SequencePktBuf_new n, 1, [], [])"
  using ring_log_new [of n] by (auto simp: fed_def SequencePktBuf_new_def pending_def intro!: exI [of _ "\<lparr>count = 0, recent = []\<rparr>"])

lemma fedE:
  assumes "fed n (b, i, out, all)"
  obtains l where "ring_log b l \<and> max_size b = n" and "i \<le> count l + 1" and "count l < i + length (recent l)" and "count l < i + n"
    and "count l = length all" and "out @ pending l i = all" and "indexes b = count l"
  using assms by (force simp: fed_def ring_log_def)

lemma feed_fed: "feed s t \<Longrightarrow> fed n s \<Longrightarrow> fed n t"
proof (induction rule: feed.induct)
  case (produce p b k b' i out all)
  from produce(3) obtain l where l: "ring_log b l \<and> max_size b = n" "i \<le> count l + 1" "count l < i + length (recent l)"
      "count l = length all" "out @ pending l i = all" by (rule fedE)
  have b': "k = count l + 1" "ring_log b' (log_add n p l) \<and> max_size b' = n" using ring.add_law [OF l(1), of p] produce(1) by auto
  moreover have "pending (log_add n p l) i = pending l i @ [p]" using b'(1) produce(2) l(1,2) by (intro pending_add) auto
  moreover have "count l + 1 < i + length (recent (log_add n p l))" using l b'(1) produce(2) by (simp add: log_add_def)
  ultimately show ?case unfolding fed_def prod.case
    using l by (intro exI [of _ "log_add n p l"]) (simp add: log_add_def)
next
  case (pull b i room ps e out all)
  from pull(2) obtain l where l: "ring_log b l \<and> max_size b = n" "i \<le> count l + 1" "count l < i + length (recent l)" "count l < i + n"
      "count l = length all" "out @ pending l i = all" "indexes b = count l" by (rule fedE)
  from ring.collect_pending [OF l(1,4), of room] pull(1) l(7)
  have "ps = take room (pending l i)" "pending l e = drop room (pending l i)" "i \<le> e" "e \<le> count l + 1" using l(2) by simp_all
  then show ?case unfolding fed_def prod.case using l by (intro exI [of _ l]) auto
qed

lemma feeds_fed: "feed\<^sup>*\<^sup>* s t \<Longrightarrow> fed n s \<Longrightarrow> fed n t"
  by (induction rule: rtranclp_induct) (auto intro: feed_fed)

lemma fed_pull:
  assumes "fed n (b, i, out, all)"
  shows "i = length out + 1 \<and> out @ fst (collect (get_pkt b) (indexes b) i room) = take (length out + room) all"
proof -
  from assms obtain l where l: "ring_log b l \<and> max_size b = n" "i \<le> count l + 1" "count l < i + length (recent l)" "count l < i + n"
      "count l = length all" "out @ pending l i = all" "indexes b = count l" by (rule fedE)
  have "length out + (count l + 1 - i) = count l"
    using arg_cong [OF l(6), of length] l(2,3,5) by (simp add: pending_def)
  then have "i = length out + 1" using l(2) by linarith
  moreover have "fst (collect (get_pkt b) (indexes b) i room) = take room (pending l i)"
    using ring.collect_pending [OF l(1,4), of room] l(7) by simp
  ultimately show ?thesis using l(6) by auto
qed

section \<open>Properties\<close>

datatype 'p ring_op = Add 'p | Clear

primrec ring_step :: "'p ring_op \<Rightarrow> 'p SequencePktBuf \<Rightarrow> 'p SequencePktBuf" where
  "ring_step (Add p) b = snd (add_pkt p b)"
| "ring_step Clear b = clear b"

primrec log_step :: "nat \<Rightarrow> 'p ring_op \<Rightarrow> 'p log \<Rightarrow> 'p log" where
  "log_step n (Add p) l = log_add n p l"
| "log_step n Clear l = log_clear l"

lemma ring_steps:
  "ring_log b l \<and> max_size b = n \<Longrightarrow>
   ring_log (fold ring_step ops b) (fold (log_step n) ops l) \<and> max_size (fold ring_step ops b) = n"
proof (induction ops arbitrary: b l)
  case (Cons x ops)
  then show ?case using ring.add_law [OF Cons.prems] ring.clear_law [OF Cons.prems] by (cases x) auto
qed simp

lemma ring_from_new:
  assumes "0 < n"
  shows "ring_log (fold ring_step ops (SequencePktBuf_new n)) (fold (log_step n) ops \<lparr>count = 0, recent = []\<rparr>) \<and>
    max_size (fold ring_step ops (SequencePktBuf_new n)) = n"
proof (rule ring_steps)
  have "max_size (SequencePktBuf_new n) = n" by (simp add: SequencePktBuf_new_def)
  with ring_log_new [OF assms] show "ring_log (SequencePktBuf_new n) \<lparr>count = 0, recent = []\<rparr> \<and> max_size (SequencePktBuf_new n) = n" by blast
qed

text \<open>
  C7. The ring refines the log of the last \<open>n\<close> packets: after any sequence of additions and clears (both loops end), the newest
  index is the number of packets ever added, a dump gives the retained packets with the newest first, and a read in the window of
  the last \<open>n\<close> numbers gives the packet of that number, or nothing when it was cleared.
\<close>
theorem ring_refines_log:
  assumes "0 < n" and "b = fold ring_step ops (SequencePktBuf_new n)" and "l = fold (log_step n) ops \<lparr>count = 0, recent = []\<rparr>"
  shows "latest_index b = count l \<and> dump_pkts b = recent l \<and> (\<forall>i. i \<le> count l \<and> count l < i + n \<longrightarrow> get_pkt b i = log_get l i)"
proof -
  have r: "ring_log b l \<and> max_size b = n"
    unfolding assms(2,3) by (rule ring_from_new [OF assms(1)])
  moreover from r have "latest_index b = count l" by (simp add: latest_index_def ring_log_def)
  moreover from r have "dump_pkts b = recent l" by (simp add: ring_log_dump)
  ultimately show ?thesis using ring.get_law [OF r] by auto
qed

theorem ring_refines_log_witness:
  "dump_pkts (fold ring_step [Add 1, Clear, Add 2, Add 3, Add (4 :: nat)] (SequencePktBuf_new 2)) = [4, 3] \<and>
   get_pkt (fold ring_step [Add 1, Clear, Add 2, Add 3, Add (4 :: nat)] (SequencePktBuf_new 2)) 3 = Some 3"
proof -
  let ?ops = "[Add 1, Clear, Add 2, Add 3, Add (4 :: nat)]"
  have l: "fold (log_step 2) ?ops \<lparr>count = 0, recent = []\<rparr> = \<lparr>count = 4, recent = [4, 3]\<rparr>" by code_simp
  from ring_refines_log [OF _ refl refl, of 2 ?ops] show ?thesis unfolding l by (auto simp: log_get_def dest!: spec [of _ 3])
qed

text \<open>
  C8. Every interleaving of a source that adds packets and a sink that pulls them delivers the packets exactly once and in order, as
  long as the sink stays less than the size of the ring behind: what the sink has got is a prefix of what was added, its next index is
  the number of the next packet, and a further pull of \<open>room\<close> packets makes it \<open>room\<close> packets longer, up to all that were added.
\<close>
theorem sink_gets_every_packet:
  assumes "0 < n" and "feed\<^sup>*\<^sup>* (SequencePktBuf_new n, 1, [], []) (b, i, out, all)"
  shows "i = length out + 1 \<and> out = take (length out) all \<and>
    out @ fst (collect (get_pkt b) (indexes b) i room) = take (length out + room) all"
proof -
  have f: "fed n (b, i, out, all)" by (rule feeds_fed [OF assms(2) fed_new [OF assms(1)]])
  from fed_pull [OF f, of 0] fed_pull [OF f, of room] show ?thesis by (auto simp: collect.simps)
qed

lemma two_packets_fed:
  "feed\<^sup>*\<^sup>* (SequencePktBuf_new 2, 1, [], []) (\<lparr>pkt_buf = [(2, Some CHR ''b''), (1, Some CHR ''a'')], indexes = 2\<rparr>, 2, ''a'', ''ab'')"
proof -
  let ?b0 = "SequencePktBuf_new 2" let ?b1 = "\<lparr>pkt_buf = [(0, None), (1, Some CHR ''a'')], indexes = 1\<rparr>"
  let ?b2 = "\<lparr>pkt_buf = [(2, Some CHR ''b''), (1, Some CHR ''a'')], indexes = 2\<rparr>"
  have "feed (?b0, 1, [], []) (?b1, 1, [], [] @ ''a'')" by (rule feed.produce [where k = 1]) code_simp+
  moreover have "feed (?b1, 1, [], ''a'') (?b1, 2, [] @ ''a'', ''a'')" by (rule feed.pull [where room = 1]) code_simp
  moreover have "feed (?b1, 2, ''a'', ''a'') (?b2, 2, ''a'', ''a'' @ ''b'')" by (rule feed.produce [where k = 2]) code_simp+
  ultimately show ?thesis by (auto intro: converse_rtranclp_into_rtranclp)
qed

theorem sink_gets_every_packet_witness:
  "''a'' @ fst (collect (get_pkt \<lparr>pkt_buf = [(2, Some CHR ''b''), (1, Some CHR ''a'')], indexes = 2\<rparr>) 2 2 20) = ''ab''"
  using sink_gets_every_packet [OF _ two_packets_fed, of 20] by simp

lemma log_adds:
  "fold (log_step n) (map Add qs) \<lparr>count = c, recent = take n r\<rparr> = \<lparr>count = c + length qs, recent = take n (rev qs @ r)\<rparr>"
proof (induction qs arbitrary: c r)
  case (Cons q qs)
  have "log_step n (Add q) \<lparr>count = c, recent = take n r\<rparr> = \<lparr>count = c + 1, recent = take n (q # r)\<rparr>"
    by (cases n) (simp_all add: log_add_def)
  with Cons.IH [of "c + 1" "q # r"] show ?case by simp
qed simp

text \<open>
  A sink that has fallen behind is not told: the ring does not compare the number it stored with the number asked for, so a read
  of a packet that is one turn too old gives the packet one turn later in its place.
\<close>
theorem slow_sink_reads_newer_packet:
  assumes "0 < n" and "0 < i" and "i + n \<le> length ps" and "length ps < i + 2 * n"
  shows "get_pkt (fold (\<lambda>p b. snd (add_pkt p b)) ps (SequencePktBuf_new n)) i = Some (ps ! (i + n - 1))"
proof -
  let ?b = "fold (\<lambda>p b. snd (add_pkt p b)) ps (SequencePktBuf_new n)"
  let ?l = "fold (log_step n) (map Add ps) \<lparr>count = 0, recent = []\<rparr>"
  have "fold ring_step (map Add ps) b = fold (\<lambda>p b. snd (add_pkt p b)) ps b" for b by (induction ps arbitrary: b) simp_all
  then have r: "ring_log ?b ?l \<and> max_size ?b = n"
    using ring_from_new [OF assms(1), of "map Add ps"] by simp
  have logged: "?l = \<lparr>count = length ps, recent = take n (rev ps)\<rparr>" using log_adds [of n ps 0 "[]"] by simp
  have "get_pkt ?b i = get_pkt ?b (i + 1 * max_size ?b)" by (simp only: ring_get_periodic)
  also have "\<dots> = log_get ?l (i + n)" using ring.get_law [OF r, of "i + n"] r assms logged by simp
  also have "\<dots> = Some (ps ! (i + n - 1))" using assms by (simp add: logged log_get_def rev_nth)
  finally show ?thesis .
qed

theorem slow_sink_reads_newer_packet_witness:
  "get_pkt (fold (\<lambda>p b. snd (add_pkt p b)) ''abc'' (SequencePktBuf_new 2)) 1 = Some CHR ''c''"
  using slow_sink_reads_newer_packet [of 2 1 "''abc''"] by simp

end
