(* ===== verification/MediaSources.thy ===== *)
theory MediaSources
  imports RtmpMetadata FlvTag VideoCodecs PacketLog
begin

text \<open>
  The live sources of \<^verbatim>\<open>live-server/core\<close> and their sinks: \<^verbatim>\<open>rtmp_media_source.cpp\<close>, \<^verbatim>\<open>flv_media_source.cpp\<close>,
  \<^verbatim>\<open>rtmp_media_sink.cpp\<close>, \<^verbatim>\<open>flv_media_sink.cpp\<close>. A source keeps the recent packets of a stream, its headers and codecs, and decides
  where a new player starts.
\<close>

section \<open>State\<close>

text \<open>The codec object of a track; of an AAC codec the config is kept.\<close>
datatype codec = VideoH264 H264Codec | VideoHevc HevcCodec | AACCodec "AudioSpecificConfig option" | MP3Codec | G711ACodec | G711UCodec

text \<open>What the uninitialised members of new configuration records and parameter sets hold.\<close>
type_synonym fresh = "(nat \<Rightarrow> byte) \<times> h264_sps_t"

abbreviation (input) new_h264 :: "fresh \<Rightarrow> codec" where "new_h264 mem \<equiv> VideoH264 (H264Codec_new (fst mem) (snd mem))"
abbreviation (input) new_hevc :: "fresh \<Rightarrow> codec" where "new_hevc mem \<equiv> VideoHevc (HevcCodec_new (fst mem) (snd mem))"

text \<open>What a source asks of other objects: to start the push streams of the session, and to wake its sinks.\<close>
datatype notice = StreamReady | WakeSinks

record 'p MediaSource =
  pkts :: "'p SequencePktBuf"
  metadata :: "RtmpMetaDataMessage option"
  metadata_pkt :: "'p option"
  video_header :: "'p option"
  audio_header :: "'p option"
  keyframe_indexes :: "nat list"
  latest_frame_index :: nat
  has_video :: bool
  has_audio :: bool
  video_ready :: bool
  audio_ready :: bool
  stream_ready :: bool
  latest_video_timestamp :: u32
  latest_audio_timestamp :: u32
  video_codec :: "codec option"
  audio_codec :: "codec option"
  notices :: "notice list"

definition MediaSource_new :: "nat \<Rightarrow> 'p MediaSource" where
  "MediaSource_new ring_size = \<lparr>pkts = SequencePktBuf_new ring_size, metadata = None, metadata_pkt = None, video_header = None,
     audio_header = None, keyframe_indexes = [], latest_frame_index = 0, has_video = False, has_audio = False, video_ready = False,
     audio_ready = False, stream_ready = False, latest_video_timestamp = 0, latest_audio_timestamp = 0, video_codec = None,
     audio_codec = None, notices = []\<rparr>"

section \<open>Steps both sources share\<close>

definition push_pkt :: "'p \<Rightarrow> 'p MediaSource \<Rightarrow> 'p MediaSource" where
  "push_pkt p s = (case add_pkt p (pkts s) of (i, b) \<Rightarrow> s\<lparr>pkts := b, latest_frame_index := i\<rparr>)"

text \<open>The ring of key frame indexes holds 200; a new one replaces the oldest.\<close>
definition push_keyframe :: "'p MediaSource \<Rightarrow> 'p MediaSource" where
  "push_keyframe s = (let ks = keyframe_indexes s @ [latest_frame_index s] in s\<lparr>keyframe_indexes := drop (length ks - 200) ks\<rparr>)"

definition check_ready :: "'p MediaSource \<Rightarrow> 'p MediaSource" where
  "check_ready s =
     (if stream_ready s then s
      else let r = metadata s \<noteq> None \<and> (has_audio s \<longrightarrow> audio_ready s) \<and> (has_video s \<longrightarrow> video_ready s) in
        s\<lparr>stream_ready := r, notices := notices s @ (if r then [StreamReady] else [])\<rparr>)"

definition wake_sinks :: "'p MediaSource \<Rightarrow> 'p MediaSource" where
  "wake_sinks s = (if latest_frame_index s \<le> 300 \<or> latest_frame_index s mod 20 = 0 then s\<lparr>notices := notices s @ [WakeSinks]\<rparr> else s)"

text \<open>The static cast to an AAC codec is not checked: on another codec it writes outside the object.\<close>
definition set_aac_config :: "AudioSpecificConfig \<Rightarrow> 'p MediaSource \<Rightarrow> 'p MediaSource result" where
  "set_aac_config cfg s = (case audio_codec s of None \<Rightarrow> Inr s
     | Some (AACCodec _) \<Rightarrow> Inr (s\<lparr>audio_codec := Some (AACCodec (Some cfg)), audio_ready := True\<rparr>) | Some _ \<Rightarrow> Inl Oob)"

text \<open>An AAC sequence header: the flag is False when the handler returns early.\<close>
definition aac_header :: "bytes \<Rightarrow> 'p MediaSource \<Rightarrow> (bool \<times> 'p MediaSource) result" where
  "aac_header data s = (case asc_parse data of Inl (Rc _) \<Rightarrow> Inr (False, s) | Inl f \<Rightarrow> Inl f
     | Inr (cfg, _) \<Rightarrow> bindR (set_aac_config cfg s) (\<lambda>s. Inr (True, s\<lparr>pkts := clear (pkts s)\<rparr>)))"

text \<open>The codecs the metadata announces. A number that does not fit the type of the codec id is undefined behaviour.\<close>

definition video_codec_of :: "fresh \<Rightarrow> u32 option \<Rightarrow> codec option result" where
  "video_codec_of mem c = (case c of None \<Rightarrow> Inl Oob
     | Some i \<Rightarrow> Inr (if i = AVC then Some (new_h264 mem) else if i = HEVC \<or> i = HEVC_FOURCC then Some (new_hevc mem) else None))"

definition audio_codec_of :: "byte option \<Rightarrow> codec option result" where
  "audio_codec_of c = (case c of None \<Rightarrow> Inl Oob
     | Some i \<Rightarrow> Inr (if i = AAC then Some (AACCodec None) else if i = 2 then Some MP3Codec else if i = 7 then Some G711ACodec
         else if i = 8 then Some G711UCodec else None))"

definition needs_no_header :: "codec \<Rightarrow> bool" where
  "needs_no_header c \<longleftrightarrow> c = MP3Codec \<or> c = G711ACodec \<or> c = G711UCodec"

section \<open>The RTMP source\<close>

definition rtmp_on_audio_packet :: "junk \<Rightarrow> RtmpMessage \<Rightarrow> RtmpMessage MediaSource \<Rightarrow> (bool \<times> RtmpMessage MediaSource) result" where
  "rtmp_on_audio_packet j audio_pkt s0 =
     (case j of (sf, _) \<Rightarrow> bindR (get_using_data audio_pkt) (\<lambda>payload.
        case AudioTagHeader_decode payload (AudioTagHeader_new sf) of (h, consumed) \<Rightarrow>
        if consumed < 0 then Inr (False, s0)
        else let sequence_header = (\<not> (\<not> audio_ready s0 \<and> sound_format h \<noteq> AAC) \<and> sound_format h = AAC \<and> AudioTagHeader_is_seq_header h) in
          bindR (if \<not> audio_ready s0 \<and> sound_format h \<noteq> AAC then Inr (True, s0\<lparr>audio_ready := True\<rparr>)
                 else if sequence_header then aac_header (drop (nat consumed) payload) (s0\<lparr>audio_header := Some audio_pkt\<rparr>)
                 else Inr (True, s0)) (\<lambda>(go_on, s).
            if \<not> go_on then Inr (False, s)
            else let s = check_ready (push_pkt audio_pkt s) in
              if sequence_header then Inr (True, s)
              else Inr (True, wake_sinks (s\<lparr>latest_audio_timestamp := timestamp audio_pkt\<rparr>)))))"

text \<open>
  The configuration of a video sequence header. A failing AVC parser ends the handler; the HEVC decoder reports failure by 0, which
  the handler does not test.
\<close>
definition rtmp_video_config :: "fresh \<Rightarrow> VideoTagHeader \<Rightarrow> bytes \<Rightarrow> RtmpMessage MediaSource \<Rightarrow> (bool \<times> RtmpMessage MediaSource) result" where
  "rtmp_video_config mem h data s0 =
     (let s = (case video_codec s0 of None \<Rightarrow> s0\<lparr>video_codec := (if codec_id h = AVC then Some (new_h264 mem)
                else if codec_id h = HEVC \<or> codec_id h = HEVC_FOURCC then Some (new_hevc mem) else None)\<rparr> | Some _ \<Rightarrow> s0) in
      case video_codec s of None \<Rightarrow> Inr (False, s)
      | Some (VideoH264 c) \<Rightarrow>
          (if codec_id h = AVC then
             (case avcc_parse (avcc_new (fst mem 0)) data of Inl (Rc _) \<Rightarrow> Inr (False, s) | Inl f \<Rightarrow> Inl f
              | Inr (r, _) \<Rightarrow> bindR (avcc_get_sps r) (\<lambda>sps. bindR (avcc_get_pps r) (\<lambda>pps.
                  bindR (H264Codec_set_sps_pps sps pps c) (\<lambda>(_, c'). Inr (True, s\<lparr>video_codec := Some (VideoH264 c')\<rparr>)))))
           else Inr (True, s))
      | Some (VideoHevc c) \<Rightarrow>
          (if codec_id h = HEVC \<or> codec_id h = HEVC_FOURCC then
             (let r = fst (hvcc_decode data (hvcc_new (fst mem))) in
              bindR (HevcCodec_set_sps_pps_vps (sps_nalu r) (pps_nalu r) (vps_nalu r) c) (\<lambda>(_, c').
                Inr (True, s\<lparr>video_codec := Some (VideoHevc c')\<rparr>)))
           else Inr (True, s))
      | Some _ \<Rightarrow> Inr (True, s))"

definition rtmp_on_video_packet :: "junk \<Rightarrow> fresh \<Rightarrow> RtmpMessage \<Rightarrow> RtmpMessage MediaSource \<Rightarrow> (bool \<times> RtmpMessage MediaSource) result" where
  "rtmp_on_video_packet j mem video_pkt s0 =
     (case j of (_, ft, et, fc) \<Rightarrow> bindR (get_using_data video_pkt) (\<lambda>payload.
        case VideoTagHeader_decode payload (VideoTagHeader_new ft et fc) of (h, consumed) \<Rightarrow>
        if consumed \<le> 0 then Inr (False, s0)
        else let sequence_header = VideoTagHeader_is_seq_header h in
          bindR (if sequence_header
                 then bindR (rtmp_video_config mem h (drop (nat consumed) payload) (s0\<lparr>video_ready := True, video_header := Some video_pkt\<rparr>))
                        (\<lambda>(go_on, s). Inr (go_on, if go_on then s\<lparr>pkts := clear (pkts s)\<rparr> else s))
                 else Inr (True, s0)) (\<lambda>(go_on, s).
            if \<not> go_on then Inr (False, s)
            else let s = push_pkt video_pkt s;
                     s = (if is_key_frame h \<and> \<not> sequence_header then push_keyframe s else s);
                     s = check_ready s in
              if sequence_header then Inr (True, s)
              else Inr (True, wake_sinks (s\<lparr>latest_video_timestamp := timestamp video_pkt\<rparr>)))))"

text \<open>
  A message that does not decode leaves an object without a cached message behind; what it holds of a half-read value is never read.
\<close>
definition rtmp_on_metadata :: "fresh \<Rightarrow> RtmpMessage \<Rightarrow> RtmpMessage MediaSource \<Rightarrow> (bool \<times> RtmpMessage MediaSource) result" where
  "rtmp_on_metadata mem msg s0 =
     (case RtmpMetaDataMessage_decode msg RtmpMetaDataMessage_new of
        Inl (Rc _) \<Rightarrow> Inr (False, s0\<lparr>metadata := Some RtmpMetaDataMessage_new, metadata_pkt := None\<rparr>)
      | Inl f \<Rightarrow> Inl f
      | Inr (m, n) \<Rightarrow>
          let s1 = s0\<lparr>metadata := Some m, metadata_pkt := md_cache_msg m\<rparr> in
          if n = 0 then Inr (False, s1)
          else let s = s1\<lparr>has_video := md_has_video m, has_audio := md_has_audio m\<rparr> in
            bindR (if md_has_video m then bindR (video_codec_of mem (md_video_codec_id m)) (\<lambda>c. Inr (case c of None \<Rightarrow> (False, s)
                     | Some c \<Rightarrow> (True, s\<lparr>video_codec := Some c\<rparr>))) else Inr (True, s)) (\<lambda>(go_on, s).
              if \<not> go_on then Inr (False, s)
              else if md_has_audio m then bindR (audio_codec_of (md_audio_codec_id m)) (\<lambda>c. Inr (case c of None \<Rightarrow> (False, s)
                     | Some c \<Rightarrow> (True, s\<lparr>audio_codec := Some c, audio_ready := audio_ready s \<or> needs_no_header c\<rparr>))) else Inr (True, s)))"

section \<open>Where a player starts\<close>

text \<open>
  The search from the newest key frame back for one that \<open>old\<close> accepts; an index whose packet is gone is taken too. \<open>old\<close> may fault.
\<close>
fun find_keyframe :: "(nat \<Rightarrow> 'p option) \<Rightarrow> ('p \<Rightarrow> bool result) \<Rightarrow> nat list \<Rightarrow> int result" where
  "find_keyframe get old [] = Inr (-1)"
| "find_keyframe get old (k # ks) = (case get k of None \<Rightarrow> Inr (int k)
     | Some p \<Rightarrow> bindR (old p) (\<lambda>hit. if hit then Inr (int k) else find_keyframe get old ks))"

fun find_back :: "(nat \<Rightarrow> 'p option) \<Rightarrow> ('p \<Rightarrow> bool result) \<Rightarrow> nat \<Rightarrow> int result" where
  "find_back get old index = (case get index of None \<Rightarrow> Inr (int index)
     | Some p \<Rightarrow> bindR (old p) (\<lambda>hit. if hit then Inr (int index) else if index = 0 then Inr (-1) else find_back get old (index - 1)))"

declare find_back.simps [simp del]

text \<open>
  A pull of at most \<open>max_count\<close> packets from index \<open>last_idx\<close>, -1 for a new player, which first gets the headers. \<open>vold\<close> and \<open>aold\<close>
  are the tests of the two searches, \<open>go\<close> the loop that continues a player.
\<close>
definition pull_pkts :: "('p \<Rightarrow> bool result) \<Rightarrow> ('p \<Rightarrow> bool result) \<Rightarrow> ((nat \<Rightarrow> 'p option) \<Rightarrow> nat \<Rightarrow> nat \<Rightarrow> nat \<Rightarrow> 'p list \<times> nat) \<Rightarrow>
    'p MediaSource \<Rightarrow> int \<Rightarrow> nat \<Rightarrow> ('p option list \<times> int) result" where
  "pull_pkts vold aold go s last_idx max_count =
     (if last_idx = -1 then
        (if \<not> stream_ready s then Inr ([], last_idx)
         else if metadata s = None then Inl Oob
         else let heads = metadata_pkt s # (if has_video s \<and> video_header s \<noteq> None then [video_header s] else []) @
                          (if has_audio s \<and> audio_header s \<noteq> None then [audio_header s] else []) in
           bindR (if has_video s then find_keyframe (get_pkt (pkts s)) vold (rev (keyframe_indexes s))
                  else find_back (get_pkt (pkts s)) aold (latest_index (pkts s))) (\<lambda>start_idx.
             if start_idx < 0 then Inr ([], last_idx)
             else case collect (get_pkt (pkts s)) (latest_frame_index s) (nat start_idx) max_count of (ps, e) \<Rightarrow>
               Inr (heads @ map Some ps, int e)))
      else case go (get_pkt (pkts s)) (latest_frame_index s) (nat last_idx) max_count of (ps, e) \<Rightarrow> Inr (map Some ps, int e))"

definition rtmp_get_pkts :: "RtmpMessage MediaSource \<Rightarrow> int \<Rightarrow> nat \<Rightarrow> (RtmpMessage option list \<times> int) result" where
  "rtmp_get_pkts s = pull_pkts (\<lambda>p. Inr (2000 \<le> sint (latest_video_timestamp s - timestamp p)))
     (\<lambda>p. Inr (1 \<le> sint (latest_audio_timestamp s - timestamp p))) collect s"

section \<open>The RTMP sink\<close>

text \<open>
  \<^verbatim>\<open>do_work\<close> of a sink with its callback set, on a source that does not change meanwhile: pull up to twenty packets and hand them
  to the callback, until there are none or the callback refuses (the sink then closes).
\<close>
record 'c MediaSink =
  last_send_pkt_index :: int
  closing :: bool
  client :: 'c

lemma collect_bounds: "i \<le> snd (collect get latest i room) \<and> (fst (collect get latest i room) \<noteq> [] \<longrightarrow> i \<le> latest \<and> i < snd (collect get latest i room))"
proof (induction get latest i room rule: collect.induct)
  case (1 get latest i room)
  show ?case
  proof (cases "i \<le> latest \<and> 0 < room")
    case True
    show ?thesis
    proof (cases "get i")
      case None
      with True 1 show ?thesis by (subst (1 2 3) collect.simps) auto
    next
      case (Some p)
      with True 1 show ?thesis by (subst (1 2 3) collect.simps) (auto split: prod.split)
    qed
  qed (auto simp: collect.simps)
qed

definition work_left :: "'p MediaSource \<Rightarrow> int \<Rightarrow> nat" where
  "work_left s i = (if i = -1 then latest_frame_index s + 2 else latest_frame_index s + 1 - nat i)"

lemma rtmp_pull_advances:
  assumes "rtmp_get_pkts s i m = Inr (ps, e)" and "ps \<noteq> []"
  shows "work_left s e < work_left s i"
proof (cases "i = -1")
  case True
  then have "0 \<le> e"
    using assms by (auto simp: rtmp_get_pkts_def pull_pkts_def bindR_eq_Inr_iff Let_def split: if_splits prod.splits)
  then show ?thesis using True by (simp add: work_left_def)
next
  case False
  then have "collect (get_pkt (pkts s)) (latest_frame_index s) (nat i) m = (map the ps, nat e)" "0 \<le> e"
    using assms(1) by (auto simp: rtmp_get_pkts_def pull_pkts_def comp_def split: prod.splits)
  with collect_bounds [of "nat i" "get_pkt (pkts s)" "latest_frame_index s" m] assms(2)
  have "nat i \<le> latest_frame_index s" "nat i < nat e" by simp_all
  moreover have "e \<noteq> -1" using \<open>0 \<le> e\<close> by simp
  ultimately show ?thesis using False unfolding work_left_def by (simp only: if_False)
qed

function rtmp_do_work :: "(RtmpMessage option list \<Rightarrow> 'c \<Rightarrow> bool \<times> 'c) \<Rightarrow> RtmpMessage MediaSource \<Rightarrow> 'c MediaSink \<Rightarrow> 'c MediaSink result" where
  "rtmp_do_work cb s k =
     (if \<not> stream_ready s then Inr k
      else case rtmp_get_pkts s (last_send_pkt_index k) 20 of Inl f \<Rightarrow> Inl f
      | Inr (ps, i) \<Rightarrow> let k1 = k\<lparr>last_send_pkt_index := i\<rparr> in
          if ps = [] then Inr k1
          else (case cb ps (client k1) of (ok, c) \<Rightarrow> let k2 = k1\<lparr>client := c\<rparr> in
            if ok then rtmp_do_work cb s k2 else Inr (k2\<lparr>closing := True\<rparr>)))"
  by pat_completeness auto
termination
proof (relation "measure (\<lambda>(_, s, k). work_left s (last_send_pkt_index k))")
  fix cb :: "RtmpMessage option list \<Rightarrow> 'c \<Rightarrow> bool \<times> 'c" and s k r ps i k1 b c k2
  assume "rtmp_get_pkts s (last_send_pkt_index k) 20 = Inr r" "(ps, i) = r" "k1 = k\<lparr>last_send_pkt_index := i\<rparr>" "ps \<noteq> []"
    "(b, c) = cb ps (client k1)" "k2 = k1\<lparr>client := c\<rparr>" "b"
  with rtmp_pull_advances [of s "last_send_pkt_index k" 20 ps i]
  show "((cb, s, k2), cb, s, k) \<in> measure (\<lambda>(_, s, k). work_left s (last_send_pkt_index k))" by auto
qed simp

declare rtmp_do_work.simps [simp del]


section \<open>The FLV source\<close>

text \<open>The static casts of the tag data to its audio or video class are not checked.\<close>

definition flv_on_metadata :: "fresh \<Rightarrow> FlvTag \<Rightarrow> FlvTag MediaSource \<Rightarrow> (bool \<times> FlvTag MediaSource) result" where
  "flv_on_metadata mem tag s0 =
     (case (case tag_data tag of None \<Rightarrow> Inl Oob | Some (SCRIPTDATA p) \<Rightarrow> Inr p | Some (AUDIODATA _ p) \<Rightarrow> Inr p | Some (VIDEODATA _ p _ _) \<Rightarrow> Inr p) of
        Inl f \<Rightarrow> Inl f
      | Inr payload \<Rightarrow> (case RtmpMetaDataMessage_decode_flv payload RtmpMetaDataMessage_new of
          Inl (Rc _) \<Rightarrow> Inr (False, s0\<lparr>metadata := None, metadata_pkt := None\<rparr>)
        | Inl f \<Rightarrow> Inl f
        | Inr (m, n) \<Rightarrow>
            if n = 0 then Inr (False, s0\<lparr>metadata := None, metadata_pkt := None\<rparr>)
            else let s = s0\<lparr>metadata := Some m, metadata_pkt := Some tag, has_video := md_has_video m, has_audio := md_has_audio m\<rparr> in
              bindR (if md_has_video m then bindR (video_codec_of mem (md_video_codec_id m)) (\<lambda>c. Inr (case c of None \<Rightarrow> s
                       | Some c \<Rightarrow> s\<lparr>video_codec := Some c\<rparr>)) else Inr s) (\<lambda>s.
              bindR (if md_has_audio m then bindR (audio_codec_of (md_audio_codec_id m)) (\<lambda>c. Inr (case c of None \<Rightarrow> s
                       | Some c \<Rightarrow> s\<lparr>audio_codec := Some c, audio_ready := audio_ready s \<or> needs_no_header c\<rparr>)) else Inr s) (\<lambda>s. Inr (True, s)))))"

definition flv_on_audio_packet :: "FlvTag \<Rightarrow> FlvTag MediaSource \<Rightarrow> (bool \<times> FlvTag MediaSource) result" where
  "flv_on_audio_packet tag s0 = (case tag_data tag of
       Some (AUDIODATA h payload) \<Rightarrow>
         (let sequence_header = (sound_format h = AAC \<and> AudioTagHeader_is_seq_header h) in
          bindR (if sequence_header then aac_header payload (s0\<lparr>audio_header := Some tag\<rparr>) else Inr (True, s0)) (\<lambda>(go_on, s).
            if \<not> go_on then Inr (False, s)
            else let s = check_ready (push_pkt tag s) in
              if sequence_header then Inr (True, s)
              else Inr (True, wake_sinks (s\<lparr>latest_audio_timestamp := th_timestamp (tag_header tag)\<rparr>))))
     | _ \<Rightarrow> Inl Oob)"

text \<open>The size and the frame rate are asked for to be logged. The parameter sets of an HEVC header are decoded and dropped.\<close>
definition flv_video_config :: "fresh \<Rightarrow> bytes \<Rightarrow> FlvTag MediaSource \<Rightarrow> (bool \<times> FlvTag MediaSource) result" where
  "flv_video_config mem payload s = (case video_codec s of
       Some (VideoH264 c) \<Rightarrow>
         (case avcc_parse (avcc_new (fst mem 0)) payload of Inl (Rc _) \<Rightarrow> Inr (False, s) | Inl f \<Rightarrow> Inl f
          | Inr (r, _) \<Rightarrow> bindR (avcc_get_sps r) (\<lambda>sps. bindR (avcc_get_pps r) (\<lambda>pps.
              bindR (H264Codec_set_sps_pps sps pps c) (\<lambda>(_, c). bindR (H264Codec_get_wh c) (\<lambda>(_, c). bindR (H264Codec_get_fps c) (\<lambda>(_, c).
                Inr (True, s\<lparr>video_codec := Some (VideoH264 c)\<rparr>)))))))
     | _ \<Rightarrow> Inr (True, s))"

definition flv_on_video_packet :: "fresh \<Rightarrow> FlvTag \<Rightarrow> FlvTag MediaSource \<Rightarrow> (bool \<times> FlvTag MediaSource) result" where
  "flv_on_video_packet mem tag s0 = (case tag_data tag of
       Some (VIDEODATA h payload pts dts) \<Rightarrow>
         (let sequence_header = VideoTagHeader_is_seq_header h in
          bindR (if sequence_header
                 then bindR (flv_video_config mem payload (s0\<lparr>video_header := Some tag\<rparr>))
                        (\<lambda>(go_on, s). Inr (go_on, if go_on then s\<lparr>video_ready := True, pkts := clear (pkts s)\<rparr> else s))
                 else Inr (True, s0)) (\<lambda>(go_on, s).
            if \<not> go_on then Inr (False, s)
            else let s = check_ready (push_pkt tag s) in
              if sequence_header then Inr (True, s)
              else let s = (if is_key_frame h then push_keyframe s else s) in
                Inr (True, wake_sinks (s\<lparr>latest_video_timestamp := th_timestamp (tag_header tag) + composition_time h\<rparr>))))
     | _ \<Rightarrow> Inl Oob)"

text \<open>
  The decoding time of a tag, read through a cast to its video class: past the end of an audio tag, uninitialised where the tag
  decoder did not set it. Its difference from a signed time is unsigned.
\<close>
definition flv_older :: "u32 \<Rightarrow> u32 \<Rightarrow> FlvTag \<Rightarrow> bool result" where
  "flv_older latest age tag = (case tag_data tag of Some (VIDEODATA _ _ _ (Some dts)) \<Rightarrow> Inr (age \<le> latest - dts) | _ \<Rightarrow> Inl Oob)"

definition flv_get_pkts :: "FlvTag MediaSource \<Rightarrow> int \<Rightarrow> nat \<Rightarrow> (FlvTag option list \<times> int) result" where
  "flv_get_pkts s = pull_pkts (flv_older (latest_video_timestamp s) 2000) (flv_older (latest_audio_timestamp s) 1) collect_until s"

section \<open>The invariant of a source\<close>

definition source_inv :: "nat \<Rightarrow> ('p \<Rightarrow> bool) \<Rightarrow> 'p MediaSource \<Rightarrow> 'p log \<Rightarrow> bool" where
  "source_inv n keyp s l \<longleftrightarrow> (ring_log (pkts s) l \<and> max_size (pkts s) = n) \<and> latest_frame_index s = count l \<and>
     sorted_wrt (<) (keyframe_indexes s) \<and> length (keyframe_indexes s) \<le> 200 \<and>
     (\<forall>k\<in>set (keyframe_indexes s). 0 < k \<and> k \<le> count l \<and> (\<forall>p. log_get l k = Some p \<longrightarrow> keyp p))"

definition source_ok :: "nat \<Rightarrow> ('p \<Rightarrow> bool) \<Rightarrow> 'p MediaSource \<Rightarrow> bool" where
  "source_ok n keyp s \<longleftrightarrow> (\<exists>l. source_inv n keyp s l)"

lemma log_get_add: "k \<le> count l \<Longrightarrow> log_get (log_add n p l) k = Some q \<Longrightarrow> log_get l k = Some q"
  by (auto simp: log_get_def log_add_def Suc_diff_le split: if_splits)

lemma log_get_new: "0 < n \<Longrightarrow> log_get (log_add n p l) (count l + 1) = Some p"
  by (cases n) (simp_all add: log_get_def log_add_def)

lemma source_push:
  assumes "source_inv n keyp s l"
  shows "source_inv n keyp (push_pkt p s) (log_add n p l)"
proof -
  have r: "ring_log (pkts s) l \<and> max_size (pkts s) = n" using assms by (simp add: source_inv_def)
  from ring.add_law [OF this, of p] show ?thesis
    using assms log_get_add [of _ l n p] by (auto simp: source_inv_def push_pkt_def log_add_def split: prod.split)
qed

lemma source_push_key:
  assumes "source_inv n keyp s l" and "keyp p"
  shows "source_inv n keyp (push_keyframe (push_pkt p s)) (log_add n p l)"
proof -
  let ?s = "push_pkt p s" let ?l = "log_add n p l"
  have i: "source_inv n keyp ?s ?l" by (rule source_push [OF assms(1)])
  have n: "0 < n" using assms(1) by (auto simp: source_inv_def ring_log_def)
  have c: "latest_frame_index ?s = count l + 1" "count ?l = count l + 1" using i by (simp_all add: source_inv_def log_add_def)
  have old: "keyframe_indexes ?s = keyframe_indexes s" by (simp add: push_pkt_def split: prod.split)
  let ?ks = "keyframe_indexes s @ [count l + 1]"
  have "sorted_wrt (<) ?ks" using assms(1) by (auto simp: source_inv_def sorted_wrt_append less_Suc_eq_le)
  moreover have "\<forall>k\<in>set ?ks. 0 < k \<and> k \<le> count ?l \<and> (\<forall>q. log_get ?l k = Some q \<longrightarrow> keyp q)"
    using i log_get_new [OF n, of p l] assms(2) c by (auto simp: source_inv_def old)
  moreover define ks' where "ks' = drop (length ?ks - 200) ?ks"
  ultimately have "sorted_wrt (<) ks'" "length ks' \<le> 200" "\<forall>k\<in>set ks'. 0 < k \<and> k \<le> count ?l \<and> (\<forall>q. log_get ?l k = Some q \<longrightarrow> keyp q)"
    by (simp_all only: sorted_wrt_drop length_drop) (use in_set_dropD [of _ "length ?ks - 200" ?ks] in auto)
  moreover have "push_keyframe ?s = ?s\<lparr>keyframe_indexes := ks'\<rparr>" by (simp only: push_keyframe_def Let_def c(1) old ks'_def)
  ultimately show ?thesis using i by (simp add: source_inv_def)
qed

lemma source_clear:
  assumes "source_inv n keyp s l"
  shows "source_inv n keyp (s\<lparr>pkts := clear (pkts s)\<rparr>) (log_clear l)"
proof -
  have r: "ring_log (pkts s) l \<and> max_size (pkts s) = n" using assms by (simp add: source_inv_def)
  from ring.clear_law [OF this] show ?thesis using assms by (auto simp: source_inv_def log_clear_def log_get_def)
qed

lemma source_same:
  "pkts s' = pkts s \<Longrightarrow> keyframe_indexes s' = keyframe_indexes s \<Longrightarrow> latest_frame_index s' = latest_frame_index s \<Longrightarrow>
   source_inv n keyp s' l \<longleftrightarrow> source_inv n keyp s l"
  by (simp add: source_inv_def)


text \<open>Most members do not matter to it.\<close>

lemma source_ok_updates [simp]:
  "source_ok n keyp (s\<lparr>metadata := m\<rparr>) = source_ok n keyp s" "source_ok n keyp (s\<lparr>metadata_pkt := mp\<rparr>) = source_ok n keyp s"
  "source_ok n keyp (s\<lparr>video_header := p\<rparr>) = source_ok n keyp s" "source_ok n keyp (s\<lparr>audio_header := p\<rparr>) = source_ok n keyp s"
  "source_ok n keyp (s\<lparr>has_video := b\<rparr>) = source_ok n keyp s" "source_ok n keyp (s\<lparr>has_audio := b\<rparr>) = source_ok n keyp s"
  "source_ok n keyp (s\<lparr>video_ready := b\<rparr>) = source_ok n keyp s" "source_ok n keyp (s\<lparr>audio_ready := b\<rparr>) = source_ok n keyp s"
  "source_ok n keyp (s\<lparr>stream_ready := b\<rparr>) = source_ok n keyp s" "source_ok n keyp (s\<lparr>notices := ns\<rparr>) = source_ok n keyp s"
  "source_ok n keyp (s\<lparr>latest_video_timestamp := t\<rparr>) = source_ok n keyp s"
  "source_ok n keyp (s\<lparr>latest_audio_timestamp := t\<rparr>) = source_ok n keyp s"
  "source_ok n keyp (s\<lparr>video_codec := c\<rparr>) = source_ok n keyp s" "source_ok n keyp (s\<lparr>audio_codec := c\<rparr>) = source_ok n keyp s"
  by (simp_all add: source_ok_def source_inv_def)

lemma source_ok_steps [simp]:
  "source_ok n keyp (check_ready s) = source_ok n keyp s" "source_ok n keyp (wake_sinks s) = source_ok n keyp s"
  by (simp_all add: check_ready_def wake_sinks_def Let_def)

lemma source_okI [intro]:
  "source_ok n keyp s \<Longrightarrow> source_ok n keyp (push_pkt p s)"
  "source_ok n keyp s \<Longrightarrow> keyp p \<Longrightarrow> source_ok n keyp (push_keyframe (push_pkt p s))"
  "source_ok n keyp s \<Longrightarrow> b = pkts s \<Longrightarrow> source_ok n keyp (s\<lparr>pkts := clear b\<rparr>)"
proof -
  show "source_ok n keyp s \<Longrightarrow> source_ok n keyp (push_pkt p s)" unfolding source_ok_def by (elim exE) (rule exI, erule source_push)
  show "source_ok n keyp s \<Longrightarrow> keyp p \<Longrightarrow> source_ok n keyp (push_keyframe (push_pkt p s))"
    unfolding source_ok_def by (elim exE) (rule exI, erule source_push_key)
  show "source_ok n keyp s \<Longrightarrow> b = pkts s \<Longrightarrow> source_ok n keyp (s\<lparr>pkts := clear b\<rparr>)"
    unfolding source_ok_def by (elim exE) (simp, rule exI, erule source_clear)
qed

lemma source_ok_new: "0 < n \<Longrightarrow> source_ok n keyp (MediaSource_new n)"
  using ring_log_new [of n] unfolding source_ok_def source_inv_def MediaSource_new_def
  by (intro exI [of _ "\<lparr>count = 0, recent = []\<rparr>"]) (simp add: SequencePktBuf_new_def)

lemma aac_header_ok: "aac_header data s = Inr (b, s') \<Longrightarrow> source_ok n keyp s \<Longrightarrow> source_ok n keyp s'"
  by (auto simp: aac_header_def set_aac_config_def bindR_eq_Inr_iff intro!: source_okI(3) split: sum.splits fault.splits option.splits codec.splits prod.splits)

section \<open>Reachable sources\<close>

text \<open>A key frame that is not a sequence header, as the RTMP source reads it.\<close>
definition rtmp_key :: "junk \<Rightarrow> RtmpMessage \<Rightarrow> bool" where
  "rtmp_key j p = (case j of (_, ft, et, fc) \<Rightarrow> case get_using_data p of Inl _ \<Rightarrow> False
     | Inr payload \<Rightarrow> (case VideoTagHeader_decode payload (VideoTagHeader_new ft et fc) of (h, consumed) \<Rightarrow>
         0 < consumed \<and> is_key_frame h \<and> \<not> VideoTagHeader_is_seq_header h))"

text \<open>
  A decoded header does not depend on what the members held before, so neither does being a key frame.
\<close>
lemma rtmp_key_junk: "rtmp_key j p \<longleftrightarrow> rtmp_key j' p"
proof -
  define key where "key d h0 \<longleftrightarrow> (case VideoTagHeader_decode d h0 of (h, consumed) \<Rightarrow>
    0 < consumed \<and> is_key_frame h \<and> \<not> VideoTagHeader_is_seq_header h)" for d h0
  have "key d (VideoTagHeader_new ft et fc) \<longleftrightarrow> key d (VideoTagHeader_new ft' et' fc')" for d ft et fc ft' et' fc'
    by (simp add: key_def VideoTagHeader_decode_def decode_ext_def VideoTagHeader_new_def Let_def is_key_frame_def
        VideoTagHeader_is_seq_header_def)
  then show ?thesis
    unfolding rtmp_key_def key_def [symmetric] by (cases j; cases j') (auto split: sum.split)
qed

text \<open>
  The sources that a publisher's messages can lead to. The uninitialised members of a header (\<open>j\<close>) and the memory of a new codec
  (\<open>mem\<close>) are other ones at every message.
\<close>
inductive rtmp_source :: "RtmpMessage MediaSource \<Rightarrow> bool" where
  new: "rtmp_source (MediaSource_new 1024)"
| audio: "rtmp_source s \<Longrightarrow> rtmp_on_audio_packet j p s = Inr (r, s') \<Longrightarrow> rtmp_source s'"
| video: "rtmp_source s \<Longrightarrow> rtmp_on_video_packet j mem p s = Inr (r, s') \<Longrightarrow> rtmp_source s'"
| meta: "rtmp_source s \<Longrightarrow> rtmp_on_metadata mem p s = Inr (r, s') \<Longrightarrow> rtmp_source s'"

lemma rtmp_audio_ok:
  assumes "rtmp_on_audio_packet j p s = Inr (r, s')" and "source_ok n keyp s"
  shows "source_ok n keyp s'"
proof -
  obtain sf j' where j: "j = (sf, j')" by (cases j)
  obtain d where d: "get_using_data p = Inr d" using assms(1) by (cases "get_using_data p") (simp_all add: rtmp_on_audio_packet_def j)
  obtain h c where h: "AudioTagHeader_decode d (AudioTagHeader_new sf) = (h, c)" by fastforce
  from assms show ?thesis
    by (auto simp: rtmp_on_audio_packet_def j d h bindR_eq_Inr_iff Let_def intro!: source_okI(1) dest: aac_header_ok split: if_splits)
qed

lemma rtmp_video_config_ok: "rtmp_video_config mem h d s = Inr (b, s') \<Longrightarrow> source_ok n keyp s \<Longrightarrow> source_ok n keyp s'"
  by (auto simp: rtmp_video_config_def bindR_eq_Inr_iff Let_def split: sum.splits fault.splits option.splits codec.splits prod.splits if_splits)

lemma rtmp_video_ok:
  assumes "rtmp_on_video_packet j mem p s = Inr (r, s')" and "source_ok n (rtmp_key j) s"
  shows "source_ok n (rtmp_key j) s'"
proof -
  obtain sf ft et fc where j: "j = (sf, ft, et, fc)" by (cases j)
  obtain d where d: "get_using_data p = Inr d" using assms(1) by (cases "get_using_data p") (simp_all add: rtmp_on_video_packet_def j)
  obtain h c where h: "VideoTagHeader_decode d (VideoTagHeader_new ft et fc) = (h, c)" by fastforce
  have key: "0 < c \<Longrightarrow> is_key_frame h \<Longrightarrow> \<not> VideoTagHeader_is_seq_header h \<Longrightarrow> rtmp_key j p" by (simp add: rtmp_key_def j d h)
  from assms show ?thesis
    by (auto simp: rtmp_on_video_packet_def j d h bindR_eq_Inr_iff Let_def not_le intro!: source_okI key [unfolded j]
        dest!: rtmp_video_config_ok split: if_splits)
qed

lemma rtmp_metadata_ok: "rtmp_on_metadata mem p s = Inr (r, s') \<Longrightarrow> source_ok n keyp s \<Longrightarrow> source_ok n keyp s'"
  by (auto simp: rtmp_on_metadata_def bindR_eq_Inr_iff Let_def split: sum.splits fault.splits option.splits prod.splits if_splits)

lemma rtmp_source_ok: "rtmp_source s \<Longrightarrow> source_ok 1024 (rtmp_key j) s"
proof (induction rule: rtmp_source.induct)
  case (video s j' mem p r s')
  have "rtmp_key j = rtmp_key j'" using rtmp_key_junk by blast
  with video rtmp_video_ok [of j' mem p s r s'] show ?case by simp
qed (auto intro: source_ok_new rtmp_audio_ok rtmp_metadata_ok)


lemma flv_audio_ok: "flv_on_audio_packet t s = Inr (r, s') \<Longrightarrow> source_ok n keyp s \<Longrightarrow> source_ok n keyp s'"
  by (auto simp: flv_on_audio_packet_def bindR_eq_Inr_iff Let_def intro!: source_okI(1) dest: aac_header_ok
      split: option.splits TAGDATA.splits if_splits)

section \<open>Pulling\<close>

abbreviation (input) held :: "(nat \<Rightarrow> 'p option) \<Rightarrow> nat \<Rightarrow> nat \<Rightarrow> 'p list" where
  "held get latest i \<equiv> List.map_filter get [i..<latest + 1]"

lemma held_next: "i \<le> latest \<Longrightarrow> held get latest i = (case get i of Some p \<Rightarrow> [p] | None \<Rightarrow> []) @ held get latest (i + 1)"
  by (simp add: upt_conv_Cons map_filter_simps split: option.split del: upt_Suc)

lemma held_end: "latest < i \<Longrightarrow> held get latest i = []"
  by (simp add: map_filter_simps)

lemma collect_held:
  "fst (collect get latest i room) = take room (held get latest i) \<and>
   held get latest (snd (collect get latest i room)) = drop room (held get latest i) \<and>
   (length (held get latest i) < room \<and> i \<le> latest + 1 \<longrightarrow> snd (collect get latest i room) = latest + 1) \<and>
   (i \<le> latest + 1 \<longrightarrow> snd (collect get latest i room) \<le> latest + 1)"
proof (induction get latest i room rule: collect.induct)
  case (1 get latest i room)
  show ?case
  proof (cases "i \<le> latest \<and> 0 < room")
    case True
    then obtain k where k: "room = Suc k" by (cases room) auto
    show ?thesis
    proof (cases "get i")
      case None
      then have "collect get latest i room = collect get latest (i + 1) room" using True by (subst collect.simps) simp
      with 1(1) True None show ?thesis by (simp only: held_next [of i latest get]) (simp del: upt_Suc)
    next
      case (Some p)
      then have "collect get latest i room = (p # fst (collect get latest (i + 1) k), snd (collect get latest (i + 1) k))"
        using True k by (subst collect.simps) (simp split: prod.split)
      with 1(2) True Some k show ?thesis by (simp only: held_next [of i latest get]) (simp del: upt_Suc)
    qed
  next
    case False
    then have "collect get latest i room = ([], i)" by (subst collect.simps) auto
    with False show ?thesis by (auto simp: held_end not_le simp del: upt_Suc)
  qed
qed

lemma rtmp_continue:
  "0 \<le> i \<Longrightarrow> rtmp_get_pkts s i m =
    (case collect (get_pkt (pkts s)) (latest_frame_index s) (nat i) m of (ps, e) \<Rightarrow> Inr (map Some ps, int e))"
  by (simp add: rtmp_get_pkts_def pull_pkts_def)

lemma find_keyframe_in: "find_keyframe get old ks = Inr i \<Longrightarrow> i = -1 \<or> (\<exists>k\<in>set ks. i = int k)"
  by (induction ks) (auto simp: bindR_eq_Inr_iff split: option.splits if_splits)


text \<open>The search finds a key frame when one that is old enough and all newer ones are held.\<close>
lemma find_keyframe_hit:
  assumes "sorted_wrt (>) ks" and "k \<in> set ks" and "get k = Some q" and "old q" and "\<forall>k'\<in>set ks. k < k' \<longrightarrow> get k' \<noteq> None"
  shows "\<exists>k' p. k \<le> k' \<and> k' \<in> set ks \<and> get k' = Some p \<and> old p \<and> find_keyframe get (\<lambda>p. Inr (old p)) ks = Inr (int k')"
  using assms
proof (induction ks)
  case (Cons x ks)
  show ?case
  proof (cases "x = k")
    case True
    with Cons.prems show ?thesis by auto
  next
    case False
    then have "k < x" "k \<in> set ks" using Cons.prems by auto
    then obtain p where "get x = Some p" using Cons.prems(5) by auto
    moreover have "\<exists>k' p. k \<le> k' \<and> k' \<in> set ks \<and> get k' = Some p \<and> old p \<and> find_keyframe get (\<lambda>p. Inr (old p)) ks = Inr (int k')"
      using Cons \<open>k \<in> set ks\<close> by simp
    ultimately show ?thesis
    proof (cases "old p")
      case True
      with \<open>k < x\<close> \<open>get x = Some p\<close> show ?thesis by (intro exI [of _ x] exI [of _ p]) simp
    qed auto
  qed
qed simp

lemma map_filter_cong: "(\<And>x. x \<in> set xs \<Longrightarrow> f x = g x) \<Longrightarrow> List.map_filter f xs = List.map_filter g xs"
  by (induction xs) (auto simp: map_filter_simps split: option.split)

lemma do_work_from:
  assumes "stream_ready s" and "i \<le> latest_frame_index s + 1"
  shows "rtmp_do_work (\<lambda>ps c. (True, c @ ps)) s \<lparr>last_send_pkt_index = int i, closing = False, client = c\<rparr> =
    Inr \<lparr>last_send_pkt_index = int (latest_frame_index s) + 1, closing = False,
         client = c @ map Some (held (get_pkt (pkts s)) (latest_frame_index s) i)\<rparr>"
  using assms(2)
proof (induction "length (held (get_pkt (pkts s)) (latest_frame_index s) i)" arbitrary: i c rule: less_induct)
  case less
  let ?get = "get_pkt (pkts s)" let ?n = "latest_frame_index s"
  obtain ps e where c: "collect ?get ?n i 20 = (ps, e)" by fastforce
  have h: "ps = take 20 (held ?get ?n i)" "held ?get ?n e = drop 20 (held ?get ?n i)"
      "length (held ?get ?n i) < 20 \<Longrightarrow> e = ?n + 1" "e \<le> ?n + 1"
    using collect_held [of ?get ?n i 20] less.prems unfolding c by auto
  have step: "rtmp_do_work (\<lambda>ps c. (True, c @ ps)) s \<lparr>last_send_pkt_index = int i, closing = False, client = c\<rparr> =
    (if ps = [] then Inr \<lparr>last_send_pkt_index = int e, closing = False, client = c\<rparr>
     else rtmp_do_work (\<lambda>ps c. (True, c @ ps)) s \<lparr>last_send_pkt_index = int e, closing = False, client = c @ map Some ps\<rparr>)"
    using assms(1) by (subst rtmp_do_work.simps) (simp add: rtmp_continue c Let_def)
  show ?case
  proof (cases "held ?get ?n i = []")
    case True
    with h have "ps = []" "e = ?n + 1" by simp_all
    with step True show ?thesis by simp
  next
    case False
    then have "ps \<noteq> []" using h(1) by simp
    moreover have "length (held ?get ?n e) < length (held ?get ?n i)" using False h(2) by simp
    moreover have "held ?get ?n i = ps @ held ?get ?n e" using h(1,2) by simp
    ultimately show ?thesis using step less.hyps [of e "c @ map Some ps"] h(4) by (simp del: upt_Suc)
  qed
qed

section \<open>Properties\<close>

text \<open>
  C9. Whatever audio, video and metadata messages a publisher sends, the RTMP source keeps its invariant: its ring refines a log of
  the last 1024 packets, its newest index is the number of packets received, and its key frame indexes are increasing, at most 200,
  and each refers to a key frame or to a packet that is no longer kept.
\<close>
theorem rtmp_source_invariant:
  assumes "rtmp_source s"
  shows "\<exists>l. ring_log (pkts s) l \<and> max_size (pkts s) = 1024 \<and> latest_frame_index s = count l \<and>
    sorted_wrt (<) (keyframe_indexes s) \<and> length (keyframe_indexes s) \<le> 200 \<and>
    (\<forall>k\<in>set (keyframe_indexes s). 0 < k \<and> k \<le> count l \<and> (\<forall>p. log_get l k = Some p \<longrightarrow> rtmp_key j p))"
  using rtmp_source_ok [OF assms] unfolding source_ok_def source_inv_def by auto

definition media_msg :: "bytes \<Rightarrow> u32 \<Rightarrow> RtmpMessage" where
  "media_msg payload t = \<lparr>data_buf = payload, using_bytes = length payload, message_type_id = 9, timestamp = t,
     message_stream_id = 1, chunk_stream_id = 6\<rparr>"

lemma media_msg_data [simp]: "get_using_data (media_msg payload t) = Inr payload" "timestamp (media_msg payload t) = t"
  by (simp_all add: media_msg_def get_using_data_def)

definition no_mem :: fresh where
  "no_mem = (\<lambda>_. 0, vga_sps)"

definition key_msg :: "u32 \<Rightarrow> RtmpMessage" where
  "key_msg t = media_msg [0x17, 1, 0, 0, 0, 9, 9] t"

definition after_key :: "u32 \<Rightarrow> RtmpMessage MediaSource \<Rightarrow> RtmpMessage MediaSource" where
  "after_key t s = wake_sinks ((check_ready (push_keyframe (push_pkt (key_msg t) s)))\<lparr>latest_video_timestamp := t\<rparr>)"

lemma key_msg_header:
  "VideoTagHeader_decode [0x17, 1, 0, 0, 0, 9, 9] (VideoTagHeader_new 0 0 0) =
    (\<lparr>frame_type = 1, codec_id = AVC, avc_packet_type = 1, composition_time = 0, is_extheader = False, ext_packet_type = 0, fourcc = 0, vh_size = 5\<rparr>, 5)"
  by code_simp

lemma key_step: "rtmp_on_video_packet (0, 0, 0, 0) mem (key_msg t) s = Inr (True, after_key t s)"
  by (simp add: rtmp_on_video_packet_def key_msg_def key_msg_header VideoTagHeader_is_seq_header_def is_key_frame_def after_key_def)

theorem rtmp_source_invariant_witness:
  "\<exists>l. ring_log (pkts (after_key 40 (MediaSource_new 1024))) l \<and> max_size (pkts (after_key 40 (MediaSource_new 1024))) = 1024 \<and> latest_frame_index (after_key 40 (MediaSource_new 1024)) = count l \<and>
    sorted_wrt (<) (keyframe_indexes (after_key 40 (MediaSource_new 1024))) \<and> length (keyframe_indexes (after_key 40 (MediaSource_new 1024))) \<le> 200 \<and>
    (\<forall>k\<in>set (keyframe_indexes (after_key 40 (MediaSource_new 1024))). 0 < k \<and> k \<le> count l \<and> (\<forall>p. log_get l k = Some p \<longrightarrow> rtmp_key (0, 0, 0, 0) p))"
  by (rule rtmp_source_invariant [OF rtmp_source.video [OF rtmp_source.new key_step]])



definition meta_props :: properties where
  "meta_props = [(key ''videocodecid'', Amf0Number 0x401c000000000000)]"

definition meta_msg :: RtmpMessage where
  "meta_msg = media_msg (metadata_wire meta_props) 0"

definition avcc_sample :: bytes where
  "avcc_sample = [1, 66, 0, 30, 0xff, 0xe1, 0, 2, 0x67, 1, 0]"

definition cfg_msg :: RtmpMessage where
  "cfg_msg = media_msg ([0x17, 0, 0, 0, 0] @ avcc_sample) 0"

definition meta_source :: "RtmpMessage MediaSource" where
  "meta_source = (MediaSource_new 1024)\<lparr>metadata := Some (fst (projr (RtmpMetaDataMessage_decode meta_msg RtmpMetaDataMessage_new))),
     metadata_pkt := Some meta_msg, has_video := True, video_codec := Some (new_h264 no_mem)\<rparr>"

definition cfg_source :: "RtmpMessage MediaSource" where
  "cfg_source = check_ready (push_pkt cfg_msg (meta_source\<lparr>video_ready := True, video_header := Some cfg_msg,
     video_codec := Some (VideoH264 ((H264Codec_new (fst no_mem) (snd no_mem))\<lparr>vc_sps_nalu := [0x67, 1], vc_pps_nalu := []\<rparr>)), pkts := clear (pkts meta_source)\<rparr>))"

lemma meta_decoded:
  "\<exists>m n. RtmpMetaDataMessage_decode meta_msg RtmpMetaDataMessage_new = Inr (m, n) \<and> 0 < n \<and> md_has_video m \<and> \<not> md_has_audio m \<and>
    md_video_codec_id m = Some 7 \<and> md_cache_msg m = Some meta_msg"
proof -
  let ?m = "retrieve_info meta_props (RtmpMetaDataMessage_new\<lparr>md_amf0_metadata := Some (Amf0Object meta_props), md_cache_msg := Some meta_msg\<rparr>)"
  have seven: "to_uint 0x401c000000000000 = Some (7 :: 32 word)" by (simp add: to_uint_def trunc_double_def Let_def)
  have "RtmpMetaDataMessage_decode meta_msg RtmpMetaDataMessage_new = Inr (?m, length (metadata_wire meta_props))"
    by (rule metadata_decode_wire) (simp_all add: meta_props_def meta_msg_def)
  moreover have "0 < length (metadata_wire meta_props)" by simp
  moreover have "md_has_video ?m" "\<not> md_has_audio ?m"
    by (simp_all add: retrieve_info_flags RtmpMetaDataMessage_new_def get_number_property_def meta_props_def)
  moreover have "md_video_codec_id ?m = Some 7" "md_cache_msg ?m = Some meta_msg"
    by (simp_all add: meta_props_def RtmpMetaDataMessage_new_def retrieve_info_def from_number_def from_string_def from_boolean_def
        get_number_property_def get_string_property_def get_boolean_property_def seven)
  ultimately show ?thesis by blast
qed

lemma meta_step: "rtmp_on_metadata no_mem meta_msg (MediaSource_new 1024) = Inr (True, meta_source)"
  using meta_decoded by (auto simp: rtmp_on_metadata_def meta_source_def video_codec_of_def MediaSource_new_def)

lemma cfg_facts:
  "VideoTagHeader_decode ([0x17, 0, 0, 0, 0] @ avcc_sample) (VideoTagHeader_new 0 0 0) =
    (\<lparr>frame_type = 1, codec_id = AVC, avc_packet_type = 0, composition_time = 0, is_extheader = False, ext_packet_type = 0, fourcc = 0, vh_size = 5\<rparr>, 5)"
  "bindR (avcc_parse (avcc_new 0) avcc_sample) (\<lambda>(r, n). bindR (avcc_get_sps r) (\<lambda>sps. bindR (avcc_get_pps r) (\<lambda>pps. Inr (sps, pps)))) =
    Inr ([0x67, 1], [])"
  by (code_simp, code_simp)

lemma cfg_config:
  assumes "video_codec s = Some (VideoH264 c)" and "codec_id h = AVC"
  shows "rtmp_video_config no_mem h avcc_sample s = Inr (True, s\<lparr>video_codec := Some (VideoH264 (c\<lparr>vc_sps_nalu := [0x67, 1], vc_pps_nalu := []\<rparr>))\<rparr>)"
proof -
  obtain r n where "avcc_parse (avcc_new 0) avcc_sample = Inr (r, n)" "avcc_get_sps r = Inr [0x67, 1]" "avcc_get_pps r = Inr []"
    using cfg_facts(2) by (auto simp: bindR_eq_Inr_iff)
  with assms show ?thesis by (simp add: rtmp_video_config_def no_mem_def H264Codec_set_sps_pps_def H264Codec_get_wh_def)
qed

lemma cfg_step: "rtmp_on_video_packet (0, 0, 0, 0) no_mem cfg_msg meta_source = Inr (True, cfg_source)"
proof -
  let ?s = "meta_source\<lparr>video_ready := True, video_header := Some cfg_msg\<rparr>"
  have "video_codec ?s = Some (new_h264 no_mem)" by (simp add: meta_source_def)
  from cfg_config [OF this] show ?thesis
    unfolding rtmp_on_video_packet_def cfg_msg_def [symmetric]
    by (simp add: cfg_facts(1) [simplified] cfg_msg_def VideoTagHeader_is_seq_header_def is_key_frame_def cfg_source_def)
qed

definition played_source :: "RtmpMessage MediaSource" where
  "played_source = after_key 2000 (after_key 0 cfg_source)"

lemma played_source_reachable: "rtmp_source played_source"
  unfolding played_source_def
  by (rule rtmp_source.video [OF rtmp_source.video [OF rtmp_source.video [OF rtmp_source.meta [OF rtmp_source.new meta_step] cfg_step] key_step] key_step])

lemma after_key_fields:
  "pkts (after_key t s) = snd (add_pkt (key_msg t) (pkts s))" "latest_frame_index (after_key t s) = indexes (pkts s) + 1"
  "length (keyframe_indexes s) < 200 \<Longrightarrow> keyframe_indexes (after_key t s) = keyframe_indexes s @ [indexes (pkts s) + 1]"
  "has_video (after_key t s) = has_video s" "metadata (after_key t s) = metadata s" "latest_video_timestamp (after_key t s) = t"
  "stream_ready s \<Longrightarrow> stream_ready (after_key t s)"
  by (simp_all add: after_key_def wake_sinks_def check_ready_def push_keyframe_def push_pkt_def add_pkt_def Let_def)

lemma added_pkt:
  "max_size (snd (add_pkt p b)) = max_size b" "indexes (snd (add_pkt p b)) = indexes b + 1"
  "0 < max_size b \<Longrightarrow> get_pkt (snd (add_pkt p b)) i = (if i mod max_size b = (indexes b + 1) mod max_size b then Some p else get_pkt b i)"
  by (auto simp: add_pkt_def get_pkt_def Let_def)

lemma cfg_source_facts:
  "max_size (pkts cfg_source) = 1024" "indexes (pkts cfg_source) = 1" "has_video cfg_source" "metadata cfg_source \<noteq> None"
  "keyframe_indexes cfg_source = []" "stream_ready cfg_source"
proof -
  obtain l where "ring_log (SequencePktBuf_new 1024 :: RtmpMessage SequencePktBuf) l" "max_size (SequencePktBuf_new 1024 :: RtmpMessage SequencePktBuf) = 1024"
    using ring_log_new [of 1024] by (auto simp: SequencePktBuf_new_def)
  with ring.clear_law [of _ _ 1024] have "max_size (clear (SequencePktBuf_new 1024 :: RtmpMessage SequencePktBuf)) = 1024" by blast
  moreover have "indexes (clear (SequencePktBuf_new 1024 :: RtmpMessage SequencePktBuf)) = 0" by (simp add: clear_def SequencePktBuf_new_def)
  ultimately show "max_size (pkts cfg_source) = 1024" "indexes (pkts cfg_source) = 1" "has_video cfg_source" "metadata cfg_source \<noteq> None"
    "keyframe_indexes cfg_source = []" "stream_ready cfg_source"
    by (simp_all add: cfg_source_def meta_source_def MediaSource_new_def check_ready_def push_pkt_def split_beta added_pkt add_pkt_def Let_def)
qed

lemma played_source_facts:
  "has_video played_source" "stream_ready played_source" "keyframe_indexes played_source = [2, 3]" "latest_frame_index played_source = 3"
  "get_pkt (pkts played_source) 2 = Some (key_msg 0)" "get_pkt (pkts played_source) 3 = Some (key_msg 2000)"
  "metadata played_source \<noteq> None" "latest_video_timestamp played_source = 2000"
  using cfg_source_facts by (simp_all add: played_source_def after_key_fields added_pkt)




text \<open>
  C40. An FLV player that is behind when the publisher sends a new video sequence header stalls: the source drops the packets the
  player has not got yet, and the loop that continues a player stops at the first dropped one, so the player gets nothing and its
  index does not move, however much is asked for. (The RTMP source passes over dropped packets, see the previous property.)
\<close>
theorem flv_sequence_header_stalls_player:
  assumes "source_ok 2048 keyp s" and "tag_data tag = Some (VIDEODATA h payload pts dts)" and "VideoTagHeader_is_seq_header h"
    and "flv_on_video_packet mem tag s = Inr (True, s')" and "0 < i" and "i \<le> latest_frame_index s" and "latest_frame_index s + 1 < i + 2048"
  shows "flv_get_pkts s' (int i) m = Inr ([], int i)"
proof -
  obtain l where l: "source_inv 2048 keyp s l" using assms(1) by (auto simp: source_ok_def)
  obtain s1 where s1: "flv_video_config mem payload (s\<lparr>video_header := Some tag\<rparr>) = Inr (True, s1)"
      "s' = check_ready (push_pkt tag (s1\<lparr>video_ready := True, pkts := clear (pkts s1)\<rparr>))"
    using assms(2-4) by (auto simp: flv_on_video_packet_def bindR_eq_Inr_iff split: if_splits)
  have same: "pkts s1 = pkts s" "keyframe_indexes s1 = keyframe_indexes s" "latest_frame_index s1 = latest_frame_index s"
    using s1(1) by (auto simp: flv_video_config_def bindR_eq_Inr_iff split: option.splits codec.splits sum.splits fault.splits)
  then have "source_inv 2048 keyp (s1\<lparr>video_ready := True\<rparr>) l" using l by (simp add: source_inv_def)
  from source_push [OF source_clear [OF this], of tag]
  have "source_inv 2048 keyp s' (log_add 2048 tag (log_clear l))"
    unfolding s1(2) check_ready_def Let_def by (subst source_same [where s = "push_pkt tag (s1\<lparr>video_ready := True, pkts := clear (pkts s1)\<rparr>)"]) auto
  moreover have "count l = latest_frame_index s" using l by (simp add: source_inv_def)
  ultimately have r: "ring_log (pkts s') (log_add 2048 tag (log_clear l)) \<and> max_size (pkts s') = 2048"
      "latest_frame_index s' = latest_frame_index s + 1" "count (log_add 2048 tag (log_clear l)) = latest_frame_index s + 1"
    by (simp_all add: source_inv_def log_add_def log_clear_def)
  have "get_pkt (pkts s') i = None"
    using ring.get_law [OF r(1), of i] r(3) assms(6,7) by (simp add: log_get_def log_add_def log_clear_def)
  then have "collect_until (get_pkt (pkts s')) (latest_frame_index s') i m = ([], i)" by (simp add: collect_until.simps)
  then show ?thesis using assms(5) by (simp add: flv_get_pkts_def pull_pkts_def)
qed


definition flv_tag :: "byte \<Rightarrow> FlvTag" where
  "flv_tag packet_type = \<lparr>data_buf = [], using_bytes = 0,
     tag_header = \<lparr>th_tag_type = 9, th_data_size = 5, th_timestamp = 0, th_stream_id = 0\<rparr>,
     tag_data = Some (VIDEODATA \<lparr>frame_type = 1, codec_id = AVC, avc_packet_type = packet_type, composition_time = 0, is_extheader = False,
       ext_packet_type = 0, fourcc = 0, vh_size = 5\<rparr> [] None None)\<rparr>"

theorem flv_sequence_header_stalls_player_witness:
  "\<exists>s'. flv_on_video_packet no_mem (flv_tag 0) (push_pkt (flv_tag 1) (MediaSource_new 2048)) = Inr (True, s') \<and>
    flv_get_pkts s' 1 20 = Inr ([], 1)"
proof -
  let ?s = "push_pkt (flv_tag 1) (MediaSource_new 2048) :: FlvTag MediaSource"
  have s: "latest_frame_index ?s = 1" "video_codec ?s = None"
    by (simp_all add: push_pkt_def add_pkt_def MediaSource_new_def SequencePktBuf_new_def Let_def)
  then obtain s' where s': "flv_on_video_packet no_mem (flv_tag 0) ?s = Inr (True, s')"
    by (simp add: flv_on_video_packet_def flv_tag_def flv_video_config_def VideoTagHeader_is_seq_header_def)
  have "source_ok 2048 (\<lambda>_. True) ?s" by (intro source_okI source_ok_new) simp
  from flv_sequence_header_stalls_player [OF this _ _ s', of _ _ _ _ 1 20] s s' show ?thesis
    by (simp add: flv_tag_def VideoTagHeader_is_seq_header_def)
qed


text \<open>
  An HEVC sequence header whose configuration record is cut off before its parameter sets takes the RTMP source down: the decoder
  reports the failure by 0, the handler tests for a negative number and hands the empty parameter set to the codec, which drops two
  bytes of it and reads outside.
\<close>
theorem short_hevc_header_faults:
  assumes "get_using_data p = Inr payload" and "VideoTagHeader_decode payload (VideoTagHeader_new ft et fc) = (h, consumed)"
    and "0 < consumed" and "VideoTagHeader_is_seq_header h" and "codec_id h = HEVC_FOURCC \<or> codec_id h = HEVC"
    and "video_codec s = None" and "length payload < nat consumed + 23"
  shows "rtmp_on_video_packet (sf, ft, et, fc) mem p s = Inl Oob"
proof -
  let ?data = "drop (nat consumed) payload"
  have "sps_nalu (fst (hvcc_decode ?data (hvcc_new (fst mem)))) = []"
    using hvcc_short [of ?data "hvcc_new (fst mem)"] assms(7) by (simp add: hvcc_new_def)
  moreover have "\<not> sps_pps_parsed (HevcCodec_new (fst mem) (snd mem))" by (simp add: HevcCodec_new_def)
  moreover have "codec_id h \<noteq> AVC" using assms(5) by auto
  ultimately have "rtmp_video_config mem h ?data (s\<lparr>video_ready := True, video_header := Some p\<rparr>) = Inl Oob"
    using assms(5,6) by (auto simp: rtmp_video_config_def Let_def hevc_short_sps)
  then show ?thesis using assms(1-4) by (simp add: rtmp_on_video_packet_def)
qed

theorem short_hevc_header_faults_witness:
  "rtmp_on_video_packet (0, 0, 0, 0) no_mem (media_msg [0x1c, 0, 0, 0, 0, 1] 0) (MediaSource_new 1024) = Inl Oob"
proof (rule short_hevc_header_faults)
  show "VideoTagHeader_decode [0x1c, 0, 0, 0, 0, 1] (VideoTagHeader_new 0 0 0) =
    (\<lparr>frame_type = 1, codec_id = HEVC, avc_packet_type = 0, composition_time = 0, is_extheader = False, ext_packet_type = 0, fourcc = 0, vh_size = 5\<rparr>, 5)"
    by code_simp
qed (simp_all add: VideoTagHeader_is_seq_header_def MediaSource_new_def)

end
