(* ===== verification/Crc.thy ===== *)
theory Crc
  imports Prelude
begin

text \<open>
  The two checksums of \<^verbatim>\<open>libs/base/utils/utils.cpp\<close>: both are computed byte by byte with a table of 256 entries, and both are shown
  to be the bit-serial division by the polynomial 0x04c11db7 that the standards define.
\<close>

section \<open>The tables and the loops over them\<close>

definition mpegts_crc_table :: "u32 list" where
  "mpegts_crc_table = [
     0x00000000, 0x04c11db7, 0x09823b6e, 0x0d4326d9, 0x130476dc, 0x17c56b6b, 0x1a864db2, 0x1e475005, 0x2608edb8, 0x22c9f00f, 0x2f8ad6d6, 0x2b4bcb61,
     0x350c9b64, 0x31cd86d3, 0x3c8ea00a, 0x384fbdbd, 0x4c11db70, 0x48d0c6c7, 0x4593e01e, 0x4152fda9, 0x5f15adac, 0x5bd4b01b, 0x569796c2, 0x52568b75,
     0x6a1936c8, 0x6ed82b7f, 0x639b0da6, 0x675a1011, 0x791d4014, 0x7ddc5da3, 0x709f7b7a, 0x745e66cd, 0x9823b6e0, 0x9ce2ab57, 0x91a18d8e, 0x95609039,
     0x8b27c03c, 0x8fe6dd8b, 0x82a5fb52, 0x8664e6e5, 0xbe2b5b58, 0xbaea46ef, 0xb7a96036, 0xb3687d81, 0xad2f2d84, 0xa9ee3033, 0xa4ad16ea, 0xa06c0b5d,
     0xd4326d90, 0xd0f37027, 0xddb056fe, 0xd9714b49, 0xc7361b4c, 0xc3f706fb, 0xceb42022, 0xca753d95, 0xf23a8028, 0xf6fb9d9f, 0xfbb8bb46, 0xff79a6f1,
     0xe13ef6f4, 0xe5ffeb43, 0xe8bccd9a, 0xec7dd02d, 0x34867077, 0x30476dc0, 0x3d044b19, 0x39c556ae, 0x278206ab, 0x23431b1c, 0x2e003dc5, 0x2ac12072,
     0x128e9dcf, 0x164f8078, 0x1b0ca6a1, 0x1fcdbb16, 0x018aeb13, 0x054bf6a4, 0x0808d07d, 0x0cc9cdca, 0x7897ab07, 0x7c56b6b0, 0x71159069, 0x75d48dde,
     0x6b93dddb, 0x6f52c06c, 0x6211e6b5, 0x66d0fb02, 0x5e9f46bf, 0x5a5e5b08, 0x571d7dd1, 0x53dc6066, 0x4d9b3063, 0x495a2dd4, 0x44190b0d, 0x40d816ba,
     0xaca5c697, 0xa864db20, 0xa527fdf9, 0xa1e6e04e, 0xbfa1b04b, 0xbb60adfc, 0xb6238b25, 0xb2e29692, 0x8aad2b2f, 0x8e6c3698, 0x832f1041, 0x87ee0df6,
     0x99a95df3, 0x9d684044, 0x902b669d, 0x94ea7b2a, 0xe0b41de7, 0xe4750050, 0xe9362689, 0xedf73b3e, 0xf3b06b3b, 0xf771768c, 0xfa325055, 0xfef34de2,
     0xc6bcf05f, 0xc27dede8, 0xcf3ecb31, 0xcbffd686, 0xd5b88683, 0xd1799b34, 0xdc3abded, 0xd8fba05a, 0x690ce0ee, 0x6dcdfd59, 0x608edb80, 0x644fc637,
     0x7a089632, 0x7ec98b85, 0x738aad5c, 0x774bb0eb, 0x4f040d56, 0x4bc510e1, 0x46863638, 0x42472b8f, 0x5c007b8a, 0x58c1663d, 0x558240e4, 0x51435d53,
     0x251d3b9e, 0x21dc2629, 0x2c9f00f0, 0x285e1d47, 0x36194d42, 0x32d850f5, 0x3f9b762c, 0x3b5a6b9b, 0x0315d626, 0x07d4cb91, 0x0a97ed48, 0x0e56f0ff,
     0x1011a0fa, 0x14d0bd4d, 0x19939b94, 0x1d528623, 0xf12f560e, 0xf5ee4bb9, 0xf8ad6d60, 0xfc6c70d7, 0xe22b20d2, 0xe6ea3d65, 0xeba91bbc, 0xef68060b,
     0xd727bbb6, 0xd3e6a601, 0xdea580d8, 0xda649d6f, 0xc423cd6a, 0xc0e2d0dd, 0xcda1f604, 0xc960ebb3, 0xbd3e8d7e, 0xb9ff90c9, 0xb4bcb610, 0xb07daba7,
     0xae3afba2, 0xaafbe615, 0xa7b8c0cc, 0xa379dd7b, 0x9b3660c6, 0x9ff77d71, 0x92b45ba8, 0x9675461f, 0x8832161a, 0x8cf30bad, 0x81b02d74, 0x857130c3,
     0x5d8a9099, 0x594b8d2e, 0x5408abf7, 0x50c9b640, 0x4e8ee645, 0x4a4ffbf2, 0x470cdd2b, 0x43cdc09c, 0x7b827d21, 0x7f436096, 0x7200464f, 0x76c15bf8,
     0x68860bfd, 0x6c47164a, 0x61043093, 0x65c52d24, 0x119b4be9, 0x155a565e, 0x18197087, 0x1cd86d30, 0x029f3d35, 0x065e2082, 0x0b1d065b, 0x0fdc1bec,
     0x3793a651, 0x3352bbe6, 0x3e119d3f, 0x3ad08088, 0x2497d08d, 0x2056cd3a, 0x2d15ebe3, 0x29d4f654, 0xc5a92679, 0xc1683bce, 0xcc2b1d17, 0xc8ea00a0,
     0xd6ad50a5, 0xd26c4d12, 0xdf2f6bcb, 0xdbee767c, 0xe3a1cbc1, 0xe760d676, 0xea23f0af, 0xeee2ed18, 0xf0a5bd1d, 0xf464a0aa, 0xf9278673, 0xfde69bc4,
     0x89b8fd09, 0x8d79e0be, 0x803ac667, 0x84fbdbd0, 0x9abc8bd5, 0x9e7d9662, 0x933eb0bb, 0x97ffad0c, 0xafb010b1, 0xab710d06, 0xa6322bdf, 0xa2f33668,
     0xbcb4666d, 0xb8757bda, 0xb5365d03, 0xb1f740b4]"

definition crc_table :: "u32 list" where
  "crc_table = [
     0x00000000, 0x77073096, 0xee0e612c, 0x990951ba, 0x076dc419, 0x706af48f, 0xe963a535, 0x9e6495a3, 0x0edb8832, 0x79dcb8a4, 0xe0d5e91e, 0x97d2d988,
     0x09b64c2b, 0x7eb17cbd, 0xe7b82d07, 0x90bf1d91, 0x1db71064, 0x6ab020f2, 0xf3b97148, 0x84be41de, 0x1adad47d, 0x6ddde4eb, 0xf4d4b551, 0x83d385c7,
     0x136c9856, 0x646ba8c0, 0xfd62f97a, 0x8a65c9ec, 0x14015c4f, 0x63066cd9, 0xfa0f3d63, 0x8d080df5, 0x3b6e20c8, 0x4c69105e, 0xd56041e4, 0xa2677172,
     0x3c03e4d1, 0x4b04d447, 0xd20d85fd, 0xa50ab56b, 0x35b5a8fa, 0x42b2986c, 0xdbbbc9d6, 0xacbcf940, 0x32d86ce3, 0x45df5c75, 0xdcd60dcf, 0xabd13d59,
     0x26d930ac, 0x51de003a, 0xc8d75180, 0xbfd06116, 0x21b4f4b5, 0x56b3c423, 0xcfba9599, 0xb8bda50f, 0x2802b89e, 0x5f058808, 0xc60cd9b2, 0xb10be924,
     0x2f6f7c87, 0x58684c11, 0xc1611dab, 0xb6662d3d, 0x76dc4190, 0x01db7106, 0x98d220bc, 0xefd5102a, 0x71b18589, 0x06b6b51f, 0x9fbfe4a5, 0xe8b8d433,
     0x7807c9a2, 0x0f00f934, 0x9609a88e, 0xe10e9818, 0x7f6a0dbb, 0x086d3d2d, 0x91646c97, 0xe6635c01, 0x6b6b51f4, 0x1c6c6162, 0x856530d8, 0xf262004e,
     0x6c0695ed, 0x1b01a57b, 0x8208f4c1, 0xf50fc457, 0x65b0d9c6, 0x12b7e950, 0x8bbeb8ea, 0xfcb9887c, 0x62dd1ddf, 0x15da2d49, 0x8cd37cf3, 0xfbd44c65,
     0x4db26158, 0x3ab551ce, 0xa3bc0074, 0xd4bb30e2, 0x4adfa541, 0x3dd895d7, 0xa4d1c46d, 0xd3d6f4fb, 0x4369e96a, 0x346ed9fc, 0xad678846, 0xda60b8d0,
     0x44042d73, 0x33031de5, 0xaa0a4c5f, 0xdd0d7cc9, 0x5005713c, 0x270241aa, 0xbe0b1010, 0xc90c2086, 0x5768b525, 0x206f85b3, 0xb966d409, 0xce61e49f,
     0x5edef90e, 0x29d9c998, 0xb0d09822, 0xc7d7a8b4, 0x59b33d17, 0x2eb40d81, 0xb7bd5c3b, 0xc0ba6cad, 0xedb88320, 0x9abfb3b6, 0x03b6e20c, 0x74b1d29a,
     0xead54739, 0x9dd277af, 0x04db2615, 0x73dc1683, 0xe3630b12, 0x94643b84, 0x0d6d6a3e, 0x7a6a5aa8, 0xe40ecf0b, 0x9309ff9d, 0x0a00ae27, 0x7d079eb1,
     0xf00f9344, 0x8708a3d2, 0x1e01f268, 0x6906c2fe, 0xf762575d, 0x806567cb, 0x196c3671, 0x6e6b06e7, 0xfed41b76, 0x89d32be0, 0x10da7a5a, 0x67dd4acc,
     0xf9b9df6f, 0x8ebeeff9, 0x17b7be43, 0x60b08ed5, 0xd6d6a3e8, 0xa1d1937e, 0x38d8c2c4, 0x4fdff252, 0xd1bb67f1, 0xa6bc5767, 0x3fb506dd, 0x48b2364b,
     0xd80d2bda, 0xaf0a1b4c, 0x36034af6, 0x41047a60, 0xdf60efc3, 0xa867df55, 0x316e8eef, 0x4669be79, 0xcb61b38c, 0xbc66831a, 0x256fd2a0, 0x5268e236,
     0xcc0c7795, 0xbb0b4703, 0x220216b9, 0x5505262f, 0xc5ba3bbe, 0xb2bd0b28, 0x2bb45a92, 0x5cb36a04, 0xc2d7ffa7, 0xb5d0cf31, 0x2cd99e8b, 0x5bdeae1d,
     0x9b64c2b0, 0xec63f226, 0x756aa39c, 0x026d930a, 0x9c0906a9, 0xeb0e363f, 0x72076785, 0x05005713, 0x95bf4a82, 0xe2b87a14, 0x7bb12bae, 0x0cb61b38,
     0x92d28e9b, 0xe5d5be0d, 0x7cdcefb7, 0x0bdbdf21, 0x86d3d2d4, 0xf1d4e242, 0x68ddb3f8, 0x1fda836e, 0x81be16cd, 0xf6b9265b, 0x6fb077e1, 0x18b74777,
     0x88085ae6, 0xff0f6a70, 0x66063bca, 0x11010b5c, 0x8f659eff, 0xf862ae69, 0x616bffd3, 0x166ccf45, 0xa00ae278, 0xd70dd2ee, 0x4e048354, 0x3903b3c2,
     0xa7672661, 0xd06016f7, 0x4969474d, 0x3e6e77db, 0xaed16a4a, 0xd9d65adc, 0x40df0b66, 0x37d83bf0, 0xa9bcae53, 0xdebb9ec5, 0x47b2cf7f, 0x30b5ffe9,
     0xbdbdf21c, 0xcabac28a, 0x53b39330, 0x24b4a3a6, 0xbad03605, 0xcdd70693, 0x54de5729, 0x23d967bf, 0xb3667a2e, 0xc4614ab8, 0x5d681b02, 0x2a6f2b94,
     0xb40bbe37, 0xc30c8ea1, 0x5a05df1b, 0x2d02ef8d]"

definition mpegts_step :: "u32 \<Rightarrow> byte \<Rightarrow> u32" where
  "mpegts_step crc b = push_bit 8 crc XOR mpegts_crc_table ! unat ((drop_bit 24 crc XOR ucast b) AND 0xff)"

definition calc_mpeg_ts_crc32 :: "bytes \<Rightarrow> u32" where
  "calc_mpeg_ts_crc32 buf = foldl mpegts_step 0xffffffff buf"

definition crc32_step :: "u32 \<Rightarrow> byte \<Rightarrow> u32" where
  "crc32_step crc b = crc_table ! unat ((crc XOR ucast b) AND 0xff) XOR drop_bit 8 crc"

definition get_crc32 :: "bytes \<Rightarrow> u32" where
  "get_crc32 buf = (if length buf < 1 then 0xffffffff else foldl crc32_step 0xffffffff buf XOR 0xffffffff)"

section \<open>One bit at a time\<close>

text \<open>
  The standards' definitions: a shift register that takes the bits of the message one by one. The checksum of the transport stream
  (ISO/IEC 13818-1, annex A) takes the most significant bit of a byte first, the one of ISO 3309 the least significant one.
\<close>
definition feed_m :: "u32 \<Rightarrow> bool \<Rightarrow> u32" where
  "feed_m c b = push_bit 1 c XOR (if bit c 31 \<noteq> b then 0x04c11db7 else 0)"

definition feed_r :: "u32 \<Rightarrow> bool \<Rightarrow> u32" where
  "feed_r c b = drop_bit 1 c XOR (if bit c 0 \<noteq> b then 0xedb88320 else 0)"

definition msb_bits :: "byte \<Rightarrow> bool list" where "msb_bits b = map (bit b) [7, 6, 5, 4, 3, 2, 1, 0]"
definition lsb_bits :: "byte \<Rightarrow> bool list" where "lsb_bits b = map (bit b) [0, 1, 2, 3, 4, 5, 6, 7]"

definition mpeg_crc_ref :: "bytes \<Rightarrow> u32" where
  "mpeg_crc_ref buf = foldl feed_m 0xffffffff (concat (map msb_bits buf))"

definition crc32_ref :: "bytes \<Rightarrow> u32" where
  "crc32_ref buf = NOT (foldl feed_r 0xffffffff (concat (map lsb_bits buf)))"

text \<open>The registers with no message bit.\<close>
definition step_m :: "u32 \<Rightarrow> u32" where "step_m c = feed_m c False"
definition step_r :: "u32 \<Rightarrow> u32" where "step_r c = feed_r c False"

section \<open>Linear maps and their tables\<close>

text \<open>
  A table of a linear map is built by doubling: the entries for \<open>2 ^ k + i\<close> are those for \<open>i\<close> plus the one for \<open>2 ^ k\<close>.
\<close>
fun grow :: "u32 list \<Rightarrow> u32 list \<Rightarrow> u32 list" where
  "grow [] t = t"
| "grow (v # vs) t = grow vs (t @ map ((XOR) v) t)"

lemma of_nat_high_bit:
  assumes "i < 2 ^ k" and "k < 32"
  shows "(of_nat (2 ^ k + i) :: u32) = 2 ^ k XOR of_nat i"
proof -
  have "\<not> bit i k" using assms(1) by (simp add: bit_iff_odd)
  then have "(2 ^ k :: u32) AND of_nat i = 0" by (intro bit_word_eqI) (auto simp: bit_simps)
  then show ?thesis by (simp add: disjunctive_add_eq_xor)
qed

locale xor_linear =
  fixes f :: "u32 \<Rightarrow> u32"
  assumes linear: "f (x XOR y) = f x XOR f y"
begin

lemma zero: "f 0 = 0"
  using linear [of 0 0] by simp

lemma double:
  "k < 32 \<Longrightarrow> map (\<lambda>i. f (of_nat i)) [0..<2 ^ k] @ map ((XOR) (f (2 ^ k))) (map (\<lambda>i. f (of_nat i)) [0..<2 ^ k]) =
    map (\<lambda>i. f (of_nat i)) [0..<2 ^ Suc k]"
proof -
  assume k: "k < 32"
  have "[0..<2 ^ Suc k] = [0..<2 ^ k] @ map (\<lambda>i. i + 2 ^ k) [0..<2 ^ k]"
    using upt_add_eq_append [of 0 "2 ^ k" "2 ^ k"] map_add_upt [of "2 ^ k" "2 ^ k"] by (simp add: mult_2)
  then show ?thesis using k by (auto simp: add.commute [of _ "2 ^ k"] of_nat_high_bit linear simp del: of_nat_add)
qed

lemma grow_table:
  "k + length vs \<le> 32 \<Longrightarrow> vs = map (\<lambda>j. f (2 ^ j)) [k..<k + length vs] \<Longrightarrow>
    grow vs (map (\<lambda>i. f (of_nat i)) [0..<2 ^ k]) = map (\<lambda>i. f (of_nat i)) [0..<2 ^ (k + length vs)]"
proof (induction vs arbitrary: k)
  case (Cons v vs)
  have v: "v = f (2 ^ k)" "vs = map (\<lambda>j. f (2 ^ j)) [Suc k..<Suc k + length vs]"
    using Cons.prems(2) by (simp_all add: upt_conv_Cons del: upt_Suc)
  have "grow (v # vs) (map (\<lambda>i. f (of_nat i)) [0..<2 ^ k]) = grow vs (map (\<lambda>i. f (of_nat i)) [0..<2 ^ Suc k])"
    unfolding v(1) grow.simps using Cons.prems(1) by (subst double) simp_all
  also have "\<dots> = map (\<lambda>i. f (of_nat i)) [0..<2 ^ (Suc k + length vs)]" using Cons.IH [of "Suc k"] v(2) Cons.prems(1) by simp
  finally show ?case by simp
qed simp

text \<open>Eight values determine the table of a byte.\<close>
lemma byte_table:
  assumes "map (\<lambda>j. f (2 ^ j)) [0, 1, 2, 3, 4, 5, 6, 7] = vs" and "i < 256"
  shows "grow vs [0] ! i = f (of_nat i)"
proof -
  have u: "[0..<8] = [0, 1, 2, 3, 4, 5, 6, 7 :: nat]" by (simp add: upt_rec)
  have "grow vs (map (\<lambda>i. f (of_nat i)) [0..<2 ^ 0]) = map (\<lambda>i. f (of_nat i)) [0..<2 ^ (0 + length vs)]"
    by (rule grow_table) (use assms(1) u in auto)
  moreover have "length vs = 8" using assms(1) by auto
  ultimately show ?thesis using assms(2) zero by simp
qed

end

lemma step_m_linear: "step_m (x XOR y) = step_m x XOR step_m y"
  by (rule bit_word_eqI) (auto simp: step_m_def feed_m_def bit_simps)

lemma step_r_linear: "step_r (x XOR y) = step_r x XOR step_r y"
  by (rule bit_word_eqI) (auto simp: step_r_def feed_r_def bit_simps)

lemma funpow_linear: "(\<And>x y. g (x XOR y) = g x XOR g y) \<Longrightarrow> (g ^^ n) (x XOR y) = (g ^^ n) x XOR (g ^^ n) y"
  for g :: "u32 \<Rightarrow> u32"
  by (induction n) auto

interpretation mbyte: xor_linear "\<lambda>x. (step_m ^^ 8) (push_bit 24 x)"
  by unfold_locales (simp add: funpow_linear step_m_linear)

interpretation rbyte: xor_linear "step_r ^^ 8"
  by unfold_locales (simp add: funpow_linear step_r_linear)

lemma funpow_8: "(g ^^ 8) x = g (g (g (g (g (g (g (g x)))))))"
  by (simp add: numeral_eq_Suc)

lemma grow_m: "grow [0x04c11db7, 0x09823b6e, 0x130476dc, 0x2608edb8, 0x4c11db70, 0x9823b6e0, 0x34867077, 0x690ce0ee] [0] = mpegts_crc_table"
  by (simp add: mpegts_crc_table_def)

lemma grow_r: "grow [0x77073096, 0xee0e612c, 0x076dc419, 0x0edb8832, 0x1db71064, 0x3b6e20c8, 0x76dc4190, 0xedb88320] [0] = crc_table"
  by (simp add: crc_table_def)

lemma mpegts_table_entry: "i < 256 \<Longrightarrow> mpegts_crc_table ! i = (step_m ^^ 8) (push_bit 24 (of_nat i))"
  unfolding grow_m [symmetric] by (rule mbyte.byte_table) (simp_all add: funpow_8 step_m_def feed_m_def)

lemma crc_table_entry: "i < 256 \<Longrightarrow> crc_table ! i = (step_r ^^ 8) (of_nat i)"
  unfolding grow_r [symmetric] by (rule rbyte.byte_table) (simp_all add: funpow_8 step_r_def feed_r_def)

section \<open>A byte of the table is eight bits of the register\<close>

fun topbits :: "bool list \<Rightarrow> u32" where
  "topbits [] = 0"
| "topbits (b # bs) = (if b then 0x80000000 else 0) XOR drop_bit 1 (topbits bs)"

fun botbits :: "bool list \<Rightarrow> u32" where
  "botbits [] = 0"
| "botbits (b # bs) = of_bool b XOR push_bit 1 (botbits bs)"

lemma bit_0x80000000: "bit (0x80000000 :: int) n \<longleftrightarrow> n = 31"
proof -
  have "(0x80000000 :: int) = 2 ^ 31" by simp
  then show ?thesis by (simp only: bit_exp_iff) auto
qed

lemma bit_times_2: "bit (x * 2 :: u32) n \<longleftrightarrow> n \<noteq> 0 \<and> n < 32 \<and> bit x (n - 1)"
  by (subst mult.commute) (auto simp: bit_double_iff)

lemma bit_topbits: "bit (topbits bs) n \<longleftrightarrow> n < 32 \<and> 31 - n < length bs \<and> bs ! (31 - n)"
proof (induction bs arbitrary: n)
  case (Cons b bs)
  have "n < 31 \<or> n = 31 \<or> 32 \<le> n" by auto
  then show ?case
  proof (elim disjE)
    assume "n < 31"
    then have "31 - n = Suc (31 - Suc n)" by simp
    then show ?thesis using \<open>n < 31\<close> Cons by (simp add: bit_simps bit_0x80000000)
  qed (auto simp: bit_simps bit_0x80000000 dest: bit_imp_le_length)
qed simp

lemma bit_botbits: "bit (botbits bs) n \<longleftrightarrow> n < 32 \<and> n < length bs \<and> bs ! n"
proof (induction bs arbitrary: n)
  case (Cons b bs)
  show ?case by (cases n) (auto simp: Cons.IH bit_simps bit_times_2)
qed simp

lemma feed_step: "feed_m c b = step_m c XOR (if b then 0x04c11db7 else 0)" "feed_r c b = step_r c XOR (if b then 0xedb88320 else 0)"
  by (simp_all add: feed_m_def step_m_def feed_r_def step_r_def xor.assoc)

lemma step_shift: "\<not> bit t 0 \<Longrightarrow> step_m (drop_bit 1 t) = t" "\<not> bit u 31 \<Longrightarrow> step_r (push_bit 1 u) = u"
proof -
  show "step_m (drop_bit 1 t) = t" if "\<not> bit t 0"
  proof (rule bit_word_eqI)
    fix n
    assume "n < LENGTH(32)"
    then show "bit (step_m (drop_bit 1 t)) n = bit t n"
      using that by (cases n) (auto simp: step_m_def feed_m_def bit_simps bit_times_2 dest: bit_imp_le_length)
  qed
  show "step_r (push_bit 1 u) = u" if "\<not> bit u 31"
  proof (rule bit_word_eqI)
    fix n
    assume "n < LENGTH(32)"
    then have "n < 31 \<or> n = 31" by auto
    then show "bit (step_r (push_bit 1 u)) n = bit u n" using that by (auto simp: step_r_def feed_r_def bit_simps bit_times_2)
  qed
qed

lemma step_end: "step_m 0x80000000 = 0x04c11db7" "step_r 1 = 0xedb88320"
  by (simp_all add: step_m_def feed_m_def step_r_def feed_r_def)

lemma step_zero: "step_m 0 = 0" "step_r 0 = 0"
  by (simp_all add: step_m_def feed_m_def step_r_def feed_r_def)

lemma step_m_feed: "length bs < 32 \<Longrightarrow> step_m (c XOR topbits (b # bs)) = feed_m c b XOR topbits bs"
  using step_shift(1) [of "topbits bs"] by (cases b) (simp_all add: bit_topbits step_m_linear feed_step(1) step_end xor.assoc)

lemma step_r_feed: "length bs < 32 \<Longrightarrow> step_r (c XOR botbits (b # bs)) = feed_r c b XOR botbits bs"
  using step_shift(2) [of "botbits bs"] by (cases b) (simp_all add: bit_botbits step_r_linear feed_step(2) step_end xor.assoc)

lemma feed_m_steps: "length bs \<le> 32 \<Longrightarrow> foldl feed_m c bs = (step_m ^^ length bs) (c XOR topbits bs)"
  by (induction bs arbitrary: c) (auto simp: funpow_swap1 step_m_feed simp del: topbits.simps(2))

lemma feed_r_steps: "length bs \<le> 32 \<Longrightarrow> foldl feed_r c bs = (step_r ^^ length bs) (c XOR botbits bs)"
  by (induction bs arbitrary: c) (auto simp: funpow_swap1 step_r_feed simp del: botbits.simps(2))

text \<open>What a byte adds at the top and at the bottom of the register.\<close>

lemma byte_bits: "msb_bits b = map (\<lambda>k. bit b (7 - k)) [0..<8]" "lsb_bits b = map (bit b) [0..<8]"
  by (simp_all add: msb_bits_def lsb_bits_def upt_rec numeral_eq_Suc)

lemma length_bits: "length (msb_bits b) = 8" "length (lsb_bits b) = 8"
  by (simp_all add: byte_bits)

lemma topbits_byte: "topbits (msb_bits b) = push_bit 24 (ucast b)"
proof (rule bit_word_eqI)
  fix n
  assume "n < LENGTH(32)"
  then show "bit (topbits (msb_bits b)) n = bit (push_bit 24 (ucast b :: u32)) n"
    by (cases "n < 24") (auto simp: bit_topbits byte_bits bit_simps)
qed

lemma botbits_byte: "botbits (lsb_bits b) = ucast b"
proof (rule bit_word_eqI)
  fix n
  assume "n < LENGTH(32)"
  then show "bit (botbits (lsb_bits b)) n = bit (ucast b :: u32) n"
    by (cases "n < 8") (auto simp: bit_botbits byte_bits bit_simps dest: bit_imp_le_length)
qed

text \<open>Bytes that are only shifted.\<close>

lemma step_m_low: "n \<le> 8 \<Longrightarrow> (step_m ^^ n) (take_bit 24 c) = push_bit n (take_bit 24 c)"
proof (induction n)
  case (Suc n)
  have "\<not> bit (push_bit n (take_bit 24 c)) 31" using Suc.prems by (auto simp: bit_simps)
  with Suc show ?case by (simp add: step_m_def feed_m_def del: push_bit_of_1) (simp add: push_bit_eq_mult)
qed simp

lemma step_r_high: "n \<le> 8 \<Longrightarrow> (step_r ^^ n) (push_bit 8 c) = drop_bit n (push_bit 8 c)"
proof (induction n)
  case (Suc n)
  have "\<not> bit (drop_bit n (push_bit 8 c)) 0" using Suc.prems by (auto simp: bit_simps)
  with Suc show ?case by (simp add: step_r_def feed_r_def)
qed simp

lemma and_0xff: "w AND 0xff = take_bit 8 w" for w :: u32
  by (simp add: take_bit_eq_mask mask_eq_exp_minus_1)

lemma split_m: "c XOR push_bit 24 (ucast b) = take_bit 24 c XOR push_bit 24 ((drop_bit 24 c XOR ucast b) AND 0xff)" for c :: u32 and b :: byte
proof (rule bit_word_eqI)
  fix n
  assume "n < LENGTH(32)"
  then show "bit (c XOR push_bit 24 (ucast b)) n = bit (take_bit 24 c XOR push_bit 24 ((drop_bit 24 c XOR ucast b) AND 0xff)) n"
    unfolding and_0xff by (cases "n < 24") (auto simp: bit_simps)
qed

lemma split_r: "c XOR ucast b = push_bit 8 (drop_bit 8 c) XOR ((c XOR ucast b) AND 0xff)" for c :: u32 and b :: byte
proof (rule bit_word_eqI)
  fix n
  assume "n < LENGTH(32)"
  then show "bit (c XOR ucast b) n = bit (push_bit 8 (drop_bit 8 c) XOR ((c XOR ucast b) AND 0xff)) n"
    unfolding and_0xff by (cases "n < 8") (auto simp: bit_simps dest: bit_imp_le_length)
qed

lemma index_bound: "unat (w AND 0xff :: u32) < 256"
proof -
  have "w AND 0xff \<le> (0xff :: u32)" by (rule word_and_le1)
  then have "unat (w AND 0xff) \<le> unat (0xff :: u32)" by (simp add: word_le_nat_alt)
  then show ?thesis by simp
qed

lemma push_take: "push_bit 8 (take_bit 24 c) = push_bit 8 (c :: u32)"
  by (rule bit_word_eqI) (auto simp: bit_simps)

lemma drop_push: "drop_bit 8 (push_bit 8 (drop_bit 8 c)) = drop_bit 8 (c :: u32)"
  by (rule bit_word_eqI) (auto simp: bit_simps dest: bit_imp_le_length)

lemma mpegts_step_bits: "mpegts_step c b = foldl feed_m c (msb_bits b)"
proof -
  let ?i = "(drop_bit 24 c XOR ucast b) AND 0xff :: u32"
  have "foldl feed_m c (msb_bits b) = (step_m ^^ 8) (c XOR push_bit 24 (ucast b))"
    using feed_m_steps [of "msb_bits b" c] by (simp add: topbits_byte length_bits)
  also have "\<dots> = (step_m ^^ 8) (take_bit 24 c) XOR (step_m ^^ 8) (push_bit 24 ?i)"
    by (subst split_m) (simp add: funpow_linear step_m_linear)
  also have "\<dots> = push_bit 8 c XOR mpegts_crc_table ! unat ?i"
    using step_m_low [of 8 c] mpegts_table_entry [OF index_bound, of "drop_bit 24 c XOR ucast b"] by (simp add: push_take)
  finally show ?thesis by (simp add: mpegts_step_def)
qed

lemma crc32_step_bits: "crc32_step c b = foldl feed_r c (lsb_bits b)"
proof -
  let ?i = "(c XOR ucast b) AND 0xff :: u32"
  have "foldl feed_r c (lsb_bits b) = (step_r ^^ 8) (c XOR ucast b)"
    using feed_r_steps [of "lsb_bits b" c] by (simp add: botbits_byte length_bits)
  also have "\<dots> = (step_r ^^ 8) (push_bit 8 (drop_bit 8 c)) XOR (step_r ^^ 8) ?i"
    by (subst split_r) (simp add: funpow_linear step_r_linear)
  also have "\<dots> = drop_bit 8 c XOR crc_table ! unat ?i"
    using step_r_high [of 8 "drop_bit 8 c"] crc_table_entry [OF index_bound, of "c XOR ucast b"] by (simp add: drop_push)
  finally show ?thesis by (simp add: crc32_step_def xor.commute)
qed

lemma foldl_concat_map: "foldl g c (concat (map h bs)) = foldl (\<lambda>c b. foldl g c (h b)) c bs"
  by (induction bs arbitrary: c) auto

text \<open>
  C18. The table-driven checksums are the bit-serial ones: \<open>calc_mpeg_ts_crc32\<close> is the checksum of the transport stream standard, and
  \<open>get_crc32\<close> is the one of ISO 3309, except that an empty buffer gives \<^verbatim>\<open>0xffffffff\<close> instead of 0.
\<close>
theorem checksums_are_standard:
  "calc_mpeg_ts_crc32 buf = mpeg_crc_ref buf \<and> get_crc32 buf = (if buf = [] then 0xffffffff else crc32_ref buf)"
proof
  show "calc_mpeg_ts_crc32 buf = mpeg_crc_ref buf"
    by (simp add: calc_mpeg_ts_crc32_def mpeg_crc_ref_def foldl_concat_map flip: mpegts_step_bits)
  have m: "(0xffffffff :: u32) = NOT 0" by simp
  have "x XOR 0xffffffff = NOT x" for x :: u32 unfolding m by (rule bit_word_eqI) (simp add: bit_simps)
  then show "get_crc32 buf = (if buf = [] then 0xffffffff else crc32_ref buf)"
    by (simp add: get_crc32_def crc32_ref_def foldl_concat_map Suc_le_eq flip: crc32_step_bits)
qed

text \<open>A receiver that runs the checksum over a section and its checksum gets 0.\<close>

lemma mpegts_step_own: "mpegts_step c (ucast (drop_bit 24 c)) = push_bit 8 c"
proof -
  have "drop_bit 24 c XOR ucast (ucast (drop_bit 24 c) :: byte) = 0"
    by (rule bit_word_eqI) (auto simp: bit_simps dest: bit_imp_le_length)
  then show ?thesis by (simp add: mpegts_step_def mpegts_crc_table_def)
qed

lemma put_be_u32: "put_be 4 c = [ucast (drop_bit 24 c), ucast (drop_bit 16 c), ucast (drop_bit 8 c), ucast c]" for c :: u32
proof -
  have u: "(of_nat (unat w) :: byte) = ucast w" for w :: u32 by simp
  have d: "unat w div 256 = unat (drop_bit 8 w)" for w :: u32 by (simp add: drop_bit_eq_div unat_div)
  show ?thesis
    unfolding put_be_def by (simp add: nat_be_numeral d u)
qed

lemma crc_residue: "calc_mpeg_ts_crc32 (bs @ put_be 4 (calc_mpeg_ts_crc32 bs)) = 0"
proof -
  define c where "c = calc_mpeg_ts_crc32 bs"
  have e: "ucast (drop_bit 16 c) = (ucast (drop_bit 24 (push_bit 8 c)) :: byte)"
      "ucast (drop_bit 8 c) = (ucast (drop_bit 24 (push_bit 8 (push_bit 8 c))) :: byte)"
      "ucast c = (ucast (drop_bit 24 (push_bit 8 (push_bit 8 (push_bit 8 c)))) :: byte)"
    by (rule bit_word_eqI; auto simp: bit_simps)+
  have "calc_mpeg_ts_crc32 (bs @ put_be 4 c) = foldl mpegts_step c (put_be 4 c)" by (simp add: calc_mpeg_ts_crc32_def c_def)
  also have "\<dots> = push_bit 8 (push_bit 8 (push_bit 8 (push_bit 8 c)))"
    unfolding put_be_u32 e foldl.simps mpegts_step_own ..
  also have "\<dots> = 0" by (rule bit_word_eqI) (auto simp: bit_simps)
  finally show ?thesis by (simp add: c_def)
qed

end
