(* ===== verification/TsTables.thy ===== *)
theory TsTables
  imports Crc
begin

text \<open>
  The program tables at the head of every transport stream segment: \<^verbatim>\<open>create_pat\<close> and \<^verbatim>\<open>create_pmt\<close> of
  \<^verbatim>\<open>live-server/bridge/rtmp/rtmp_to_ts.cpp\<close>, and what a receiver that follows the standard reads in them.
\<close>

section \<open>Writing the tables\<close>

definition TS_PMT_NUMBER :: u16 where "TS_PMT_NUMBER = 1"
definition TS_PMT_PID :: u16 where "TS_PMT_PID = 0x1001"

text \<open>A section is followed by its checksum and by stuffing up to the end of the packet.\<close>
definition psi_packet :: "bytes \<Rightarrow> bytes \<Rightarrow> bytes" where
  "psi_packet head section =
     (let b = head @ section @ put_be 4 (calc_mpeg_ts_crc32 section) in b @ replicate (188 - length b) 0xff)"

definition section_length_field :: "u16 \<Rightarrow> u16" where
  "section_length_field n = (n AND 0x0fff) OR 0x8000 OR 0x3000"

definition create_pat :: bytes where
  "create_pat = psi_packet (0x47 # put_be 2 (0x4000 :: u16) @ [0x10, 0])
     (0 # put_be 2 (section_length_field 13) @ put_be 2 (1 :: u16) @ [0xc1, 0, 0] @
      put_be 4 ((ucast TS_PMT_PID AND 0x1fff) OR 0xe000 OR (push_bit 16 (ucast TS_PMT_NUMBER) AND 0xffff0000) :: u32))"

text \<open>The part of the bridge's state that the tables show.\<close>
record ts_streams =
  st_has_video :: bool
  st_has_audio :: bool
  st_video_type :: byte
  st_audio_type :: byte
  st_video_pid :: u16
  st_audio_pid :: u16
  st_PCR_PID :: u16

definition stream_entry :: "byte \<Rightarrow> u16 \<Rightarrow> bytes" where
  "stream_entry type pid = type # put_be 2 ((pid AND 0x1fff) OR 0xe000) @ put_be 2 (0xf000 :: u16)"

definition create_pmt :: "ts_streams \<Rightarrow> bytes" where
  "create_pmt st = psi_packet (0x47 # put_be 2 (0x4000 OR TS_PMT_PID) @ [0x10, 0])
     (2 # put_be 2 (section_length_field (13 + (if st_has_video st then 5 else 0) + (if st_has_audio st then 5 else 0))) @
      put_be 2 TS_PMT_NUMBER @ [0xc1, 0, 0] @ put_be 2 ((st_PCR_PID st AND 0x1fff) OR 0xe000) @ put_be 2 (0xf000 :: u16) @
      (if st_has_audio st then stream_entry (st_audio_type st) (st_audio_pid st) else []) @
      (if st_has_video st then stream_entry (st_video_type st) (st_video_pid st) else []))"

section \<open>Reading the tables\<close>

text \<open>
  A receiver after ISO/IEC 13818-1, section 2.4.4: the section that starts in a packet, accepted when its checksum is right, and the
  entries of the two kinds of table.
\<close>
definition psi_pid :: "bytes \<Rightarrow> nat" where
  "psi_pid p = be_nat (take 2 (drop 1 p)) mod 0x2000"

definition psi_section :: "bytes \<Rightarrow> bytes option" where
  "psi_section p =
     (let n = be_nat (take 2 (drop 6 p)) mod 0x1000; s = take (3 + n) (drop 5 p)
      in if length p = 188 \<and> p ! 0 = 0x47 \<and> p ! 4 = 0 \<and> length s = 3 + n \<and> calc_mpeg_ts_crc32 s = 0 then Some (take (n - 1) s) else None)"

fun pat_entries :: "bytes \<Rightarrow> (nat \<times> nat) list" where
  "pat_entries (a # b # c # d # r) = (be_nat [a, b], be_nat [c, d] mod 0x2000) # pat_entries r"
| "pat_entries _ = []"

function pmt_entries :: "bytes \<Rightarrow> (byte \<times> nat) list" where
  "pmt_entries bs = (case bs of t # a # b # c # d # r \<Rightarrow> (t, be_nat [a, b] mod 0x2000) # pmt_entries (drop (be_nat [c, d] mod 0x1000) r) | _ \<Rightarrow> [])"
  by pat_completeness auto
termination by (relation "measure length") auto

declare pmt_entries.simps [simp del]

definition read_pat :: "bytes \<Rightarrow> (nat \<times> nat) list option" where
  "read_pat p = (if psi_pid p \<noteq> 0 then None else case psi_section p of Some s \<Rightarrow> (if s ! 0 = 0 then Some (pat_entries (drop 8 s)) else None) | None \<Rightarrow> None)"

definition read_pmt :: "nat \<Rightarrow> nat \<Rightarrow> bytes \<Rightarrow> (nat \<times> (byte \<times> nat) list) option" where
  "read_pmt pid number p = (if psi_pid p \<noteq> pid then None else case psi_section p of
       Some s \<Rightarrow> (if s ! 0 = 2 \<and> be_nat (take 2 (drop 3 s)) = number
         then Some (be_nat (take 2 (drop 8 s)) mod 0x2000, pmt_entries (drop (12 + be_nat (take 2 (drop 10 s)) mod 0x1000) s)) else None)
     | None \<Rightarrow> None)"

lemma put_be_u16: "put_be 2 w = [ucast (drop_bit 8 w), ucast w]" for w :: u16
proof -
  have u: "(of_nat (unat v) :: byte) = ucast v" for v :: u16 by simp
  have d: "unat w div 256 = unat (drop_bit 8 w)" by (simp add: drop_bit_eq_div unat_div)
  show ?thesis unfolding put_be_def numeral_eq_Suc by (simp add: d u)
qed

lemma be_nat_u16: "be_nat (put_be 2 w) = unat w" for w :: u16
  by (simp add: put_be_def be_nat_nat_be take_bit_nat_eq_self unsigned_less [of w, simplified])

text \<open>The section of a packet that fits.\<close>
lemma psi_section_packet:
  fixes w :: u16
  assumes "length head = 5" "head ! 0 = 0x47" "head ! 4 = 0" "section = t # put_be 2 w @ rest" "unat w mod 0x1000 = length rest + 4"
    and "length rest \<le> 176"
  shows "psi_section (psi_packet head section) = Some section" and "psi_pid (psi_packet head section) = be_nat (take 2 (drop 1 head)) mod 0x2000"
proof -
  let ?p = "psi_packet head section"
  obtain pad where p: "?p = head @ section @ put_be 4 (calc_mpeg_ts_crc32 section) @ pad" "length ?p = 188"
    using assms(1,4,6) by (auto simp: psi_packet_def Let_def)
  have ls: "length section = 3 + length rest" using assms(4) by simp
  have n: "be_nat (take 2 (drop 6 ?p)) mod 0x1000 = length rest + 4"
    unfolding p(1) using assms(1,4,5) by (simp add: be_nat_u16)
  have s: "take (3 + (length rest + 4)) (drop 5 ?p) = section @ put_be 4 (calc_mpeg_ts_crc32 section)"
  proof -
    have "3 + (length rest + 4) = length (section @ put_be 4 (calc_mpeg_ts_crc32 section))" using assms(4) by simp
    then show ?thesis unfolding p(1) using assms(1) by (simp only: append_assoc [symmetric] append_eq_conv_conj) simp
  qed
  have "?p ! 0 = 0x47" "?p ! 4 = 0" using assms(1-3) by (simp_all add: p(1) nth_append)
  then show "psi_section ?p = Some section"
    unfolding psi_section_def Let_def n s using p(2) ls by (simp add: crc_residue)
  show "psi_pid ?p = be_nat (take 2 (drop 1 head)) mod 0x2000"
    using assms(1) by (simp add: psi_pid_def p(1))
qed

lemma and_mask_0x1fff: "n AND 0x1fff = n mod 0x2000" for n :: nat
proof -
  have "n AND 0x1fff = n AND mask 13" by (simp add: mask_eq_exp_minus_1)
  also have "\<dots> = n mod 0x2000" by (simp add: take_bit_eq_mod flip: take_bit_eq_mask)
  finally show ?thesis .
qed

lemma pid_field: "be_nat (put_be 2 ((pid AND 0x1fff) OR 0xe000 :: u16)) mod 0x2000 = unat (pid AND 0x1fff)"
proof -
  have "be_nat (put_be 2 ((pid AND 0x1fff) OR 0xe000 :: u16)) mod 0x2000 = unat (((pid AND 0x1fff) OR 0xe000) AND 0x1fff)"
    unfolding be_nat_u16 by (simp add: unsigned_and_eq and_mask_0x1fff)
  also have "((pid AND 0x1fff) OR 0xe000) AND 0x1fff = pid AND 0x1fff" by (simp add: bit.conj_disj_distrib2 and.assoc)
  finally show ?thesis .
qed

lemma pmt_entries_stream: "pmt_entries (stream_entry t pid @ r) = (t, unat (pid AND 0x1fff)) # pmt_entries r"
proof -
  have f: "be_nat (put_be 2 (0xf000 :: u16)) mod 0x1000 = 0" by (simp add: be_nat_u16)
  show ?thesis
    using pid_field [of pid] f unfolding stream_entry_def put_be_u16 by (subst pmt_entries.simps) simp
qed

text \<open>
  C17. The tables at the head of a segment: a receiver that checks them finds program 1 in the association table, at the pid of the
  map table, and there the clock's pid and exactly the streams that the publisher announced, with their types and pids.
\<close>
theorem tables_announce_streams:
  "read_pat create_pat = Some [(1, 0x1001)] \<and>
   read_pmt 0x1001 1 (create_pmt st) = Some (unat (st_PCR_PID st AND 0x1fff),
     (if st_has_audio st then [(st_audio_type st, unat (st_audio_pid st AND 0x1fff))] else []) @
     (if st_has_video st then [(st_video_type st, unat (st_video_pid st AND 0x1fff))] else []))"
proof
  let ?h = "0x47 # put_be 2 (0x4000 :: u16) @ [0x10, 0]"
  let ?r = "put_be 2 (1 :: u16) @ [0xc1, 0, 0] @ put_be 4 (0x0001f001 :: u32)"
  have "create_pat = psi_packet ?h (0 # put_be 2 (section_length_field 13) @ ?r)"
    by (simp add: create_pat_def TS_PMT_PID_def TS_PMT_NUMBER_def)
  moreover note psi_section_packet [where head = ?h and t = 0 and w = "section_length_field 13" and rest = ?r, OF _ _ _ refl]
  ultimately show "read_pat create_pat = Some [(1, 0x1001)]"
    by (simp add: read_pat_def section_length_field_def be_nat_u16 put_be_u16 put_be_u32 be_nat_def)
next
  let ?h = "0x47 # put_be 2 (0x4000 OR TS_PMT_PID) @ [0x10, 0]"
  let ?n = "13 + (if st_has_video st then 5 else 0) + (if st_has_audio st then 5 else 0) :: u16"
  let ?e = "(if st_has_audio st then stream_entry (st_audio_type st) (st_audio_pid st) else []) @
      (if st_has_video st then stream_entry (st_video_type st) (st_video_pid st) else [])"
  let ?r = "put_be 2 TS_PMT_NUMBER @ [0xc1, 0, 0] @ put_be 2 ((st_PCR_PID st AND 0x1fff) OR 0xe000) @ put_be 2 (0xf000 :: u16) @ ?e"
  have c: "create_pmt st = psi_packet ?h (2 # put_be 2 (section_length_field ?n) @ ?r)" by (simp add: create_pmt_def)
  have n: "unat (section_length_field ?n) mod 0x1000 = length ?r + 4" by (simp add: section_length_field_def stream_entry_def)
  have l: "length ?r \<le> 176" by (simp add: stream_entry_def)
  have h: "length ?h = 5" "?h ! 0 = 0x47" "?h ! 4 = 0" "be_nat (take 2 (drop 1 ?h)) mod 0x2000 = 0x1001"
    by (simp_all add: be_nat_u16 TS_PMT_PID_def nth_append nth_Cons')
  have s: "psi_section (create_pmt st) = Some (2 # put_be 2 (section_length_field ?n) @ ?r)" "psi_pid (create_pmt st) = 0x1001"
    using psi_section_packet [OF h(1-3) refl n l] h(4) unfolding c by auto
  have e: "pmt_entries ?e = (if st_has_audio st then [(st_audio_type st, unat (st_audio_pid st AND 0x1fff))] else []) @
     (if st_has_video st then [(st_video_type st, unat (st_video_pid st AND 0x1fff))] else [])"
    using pmt_entries_stream [of _ _ "[]"] by (simp add: pmt_entries_stream pmt_entries.simps [of "[]"])
  show "read_pmt 0x1001 1 (create_pmt st) = Some (unat (st_PCR_PID st AND 0x1fff),
     (if st_has_audio st then [(st_audio_type st, unat (st_audio_pid st AND 0x1fff))] else []) @
     (if st_has_video st then [(st_video_type st, unat (st_video_pid st AND 0x1fff))] else []))"
    unfolding e [symmetric] using s by (simp add: read_pmt_def be_nat_u16 pid_field [unfolded be_nat_u16] TS_PMT_NUMBER_def)
qed

end
