(* ===== verification/TsMux.thy ===== *)
theory TsMux
  imports TsTables
begin

text \<open>
  Transport stream segments: \<^verbatim>\<open>libs/protocol/ts/ts_segment.cpp\<close>, the cutting of a PES packet into transport packets by
  \<^verbatim>\<open>create_video_ts\<close> and \<^verbatim>\<open>create_audio_ts\<close> of \<^verbatim>\<open>live-server/bridge/rtmp/rtmp_to_ts.cpp\<close>, and its program tables with their checksum.
\<close>

section \<open>Segments\<close>

text \<open>
  A chunk is kept as the bytes allocated in it so far. Creation time, file name and sequence number belong to the playlist and are
  left out.
\<close>
record TsSegment =
  start_dts_video :: int
  end_dts_video :: int
  start_pts_audio :: int
  end_pts_audio :: int
  duration_video_ms :: int
  duration_audio_ms :: int
  ts_chunks :: "bytes list"
  ts_chunk_index :: nat
  ts_chunk_off :: nat
  total_ts_bytes :: nat
  is_reaped :: bool

definition SINGLE_TS_BYTES :: nat where "SINGLE_TS_BYTES = 188 * 4096"

definition TsSegment_new :: TsSegment where
  "TsSegment_new = \<lparr>start_dts_video = -1, end_dts_video = 0, start_pts_audio = -1, end_pts_audio = 0, duration_video_ms = 0,
     duration_audio_ms = 0, ts_chunks = [[]], ts_chunk_index = 0, ts_chunk_off = 0, total_ts_bytes = 0, is_reaped = False\<rparr>"

definition max_ms :: int where "max_ms = 0x20c49ba5e353f7"

definition update_audio_pts :: "int \<Rightarrow> TsSegment \<Rightarrow> TsSegment" where
  "update_audio_pts pts0 s =
     (let pts = (if pts0 < 0 \<or> max_ms \<le> pts0 then 0 else pts0);
          start = min pts (if start_pts_audio s = -1 then pts else start_pts_audio s);
          stop = (if end_pts_audio s < pts then pts else end_pts_audio s)
      in s\<lparr>start_pts_audio := start, end_pts_audio := stop, duration_audio_ms := stop - start\<rparr>)"

definition update_video_dts :: "int \<Rightarrow> TsSegment \<Rightarrow> TsSegment" where
  "update_video_dts dts0 s =
     (let dts = (if dts0 < 0 \<or> max_ms \<le> dts0 then 0 else dts0);
          start = min dts (if start_dts_video s = -1 then dts else start_dts_video s);
          stop = (if end_dts_video s < dts then dts else end_dts_video s)
      in s\<lparr>start_dts_video := start, end_dts_video := stop, duration_video_ms := stop - start\<rparr>)"

definition seg_has_video :: "TsSegment \<Rightarrow> bool" where "seg_has_video s \<longleftrightarrow> start_dts_video s \<noteq> -1"
definition seg_has_audio :: "TsSegment \<Rightarrow> bool" where "seg_has_audio s \<longleftrightarrow> start_pts_audio s \<noteq> -1"

definition get_start_pts :: "TsSegment \<Rightarrow> int" where
  "get_start_pts s = min (start_dts_video s) (start_pts_audio s)"

definition get_duration :: "TsSegment \<Rightarrow> int" where
  "get_duration s = (if seg_has_video s \<and> seg_has_audio s then min (duration_video_ms s) (duration_audio_ms s)
     else if seg_has_video s then duration_video_ms s else if seg_has_audio s then duration_audio_ms s else 0)"

definition set_reaped :: "TsSegment \<Rightarrow> TsSegment" where "set_reaped s = s\<lparr>is_reaped := True\<rparr>"

text \<open>Allocating a packet and filling it; to write more than its 188 bytes is to leave it.\<close>
definition alloc_ts_packet :: "bytes \<Rightarrow> TsSegment \<Rightarrow> TsSegment result" where
  "alloc_ts_packet p s =
     (if 188 < length p then Inl Oob
      else let s = (if SINGLE_TS_BYTES \<le> ts_chunk_off s
                    then s\<lparr>ts_chunks := ts_chunks s @ [[]], ts_chunk_index := ts_chunk_index s + 1, ts_chunk_off := 0\<rparr> else s)
        in Inr (s\<lparr>ts_chunks := (ts_chunks s)[ts_chunk_index s := ts_chunks s ! ts_chunk_index s @ p @ replicate (188 - length p) 0],
                 ts_chunk_off := ts_chunk_off s + 188, total_ts_bytes := total_ts_bytes s + 188\<rparr>))"

text \<open>The bytes of the buffers that \<^verbatim>\<open>get_ts_seg\<close> gathers.\<close>
function get_ts_seg :: "bytes list \<Rightarrow> nat \<Rightarrow> nat \<Rightarrow> nat \<Rightarrow> bytes result" where
  "get_ts_seg chunks chunk_index chunk_off n =
     (if n = 0 then Inr []
      else if length chunks \<le> chunk_index then Inl Oob
      else let ts_seg_left = SINGLE_TS_BYTES - chunk_off in
        if n < ts_seg_left then Inr (take n (drop chunk_off (chunks ! chunk_index)))
        else bindR (get_ts_seg chunks (chunk_index + 1) 0 (n - ts_seg_left)) (\<lambda>rest.
          Inr (take ts_seg_left (drop chunk_off (chunks ! chunk_index)) @ rest)))"
  by pat_completeness auto
termination by (relation "measure (\<lambda>(chunks, i, _, _). length chunks - i)") auto

declare get_ts_seg.simps [simp del]

definition get_ts_data :: "TsSegment \<Rightarrow> bytes list" where
  "get_ts_data s = map (take SINGLE_TS_BYTES) (butlast (ts_chunks s)) @ [take (ts_chunk_off s) (last (ts_chunks s))]"

section \<open>Transport packets\<close>

definition ts_header :: "bool \<Rightarrow> u16 \<Rightarrow> byte \<Rightarrow> byte \<Rightarrow> bytes" where
  "ts_header payload_unit_start pid adaptation_control counter =
     0x47 # put_be 2 ((if payload_unit_start then 0x4000 else 0) OR pid) @ [push_bit 4 adaptation_control OR (counter AND 0x0f)]"

text \<open>The clock reference: 33 bits of time, six reserved bits and nine bits of extension.\<close>
definition pcr_bytes :: "u64 \<Rightarrow> bytes" where
  "pcr_bytes dts = put_be 6 (0x7e00 OR (push_bit 15 dts AND 0xffffffff8000))"

text \<open>An adaptation field of \<open>fixed\<close> bytes of which \<open>head\<close> follow the length byte, stuffed when fewer bytes are left than fit.\<close>
definition stuffing :: "nat \<Rightarrow> nat \<Rightarrow> nat" where
  "stuffing fixed left_count = (if 4 + fixed + left_count \<le> 188 then 188 - (4 + fixed + left_count) else 0)"

definition adaptation_field :: "nat \<Rightarrow> bytes \<Rightarrow> nat \<Rightarrow> bytes" where
  "adaptation_field fixed head left_count =
     of_nat (fixed + stuffing fixed left_count - 1) # head @ replicate (stuffing fixed left_count) 0xff"

text \<open>The copying loop over the pieces of a PES packet.\<close>
fun copy_segs :: "nat \<Rightarrow> bytes list \<Rightarrow> (bytes \<times> bytes list) result" where
  "copy_segs left_consume [] = (if left_consume = 0 then Inr ([], []) else Inl Oob)"
| "copy_segs left_consume (s # ss) =
     (if left_consume = 0 then Inr ([], s # ss)
      else if length s < left_consume then bindR (copy_segs (left_consume - length s) ss) (\<lambda>(bs, rest). Inr (s @ bs, rest))
      else if length s = left_consume then Inr (s, ss)
      else Inr (take left_consume s, drop left_consume s # ss))"

text \<open>
  The loop over the packets of a PES packet: \<open>pcr\<close> is the clock reference to be written into the first packet, if any. A packet
  with a clock reference and padding gets both adaptation fields, but the bytes to copy are counted for the second one only.
\<close>
function ts_loop :: "u16 \<Rightarrow> bytes option \<Rightarrow> nat \<Rightarrow> nat \<Rightarrow> bytes list \<Rightarrow> byte \<Rightarrow> TsSegment \<Rightarrow> (byte \<times> TsSegment) result" where
  "ts_loop pid pcr pes_len left_count segs counter seg =
     (if left_count = 0 then Inr (counter, seg)
      else let first = (left_count = pes_len);
               write_pcr = (first \<and> pcr \<noteq> None);
               write_padding = (left_count < 184);
               control = (if write_pcr \<or> write_padding then 3 else 1);
               f1 = (if write_pcr then adaptation_field 8 (0x10 # the pcr) left_count else []);
               f2 = (if write_padding then adaptation_field 2 [0] left_count else []);
               total = (if write_padding then 2 + stuffing 2 left_count else if write_pcr then 8 + stuffing 8 left_count else 0);
               consumed = 184 - total
        in bindR (copy_segs consumed segs) (\<lambda>(payload, rest).
             bindR (alloc_ts_packet (ts_header first pid control counter @ f1 @ f2 @ payload) seg) (\<lambda>seg'.
               ts_loop pid pcr pes_len (left_count - consumed) rest (counter + 1) seg')))"
  by pat_completeness auto
termination
  by (relation "measure (\<lambda>(_, _, _, n, _). n)") (auto simp: stuffing_def Let_def split: if_splits)

declare ts_loop.simps [simp del]

text \<open>
  What a PES packet keeps of its transport packets: the chunk and offset where they start, and their number of bytes (188 are counted
  for every packet allocated). The continuity counters are a map from pids, 0 where none is set.
\<close>
record ts_place =
  ts_index :: nat
  ts_off :: nat
  ts_bytes :: nat

type_synonym counters = "u16 \<Rightarrow> byte"

definition create_ts :: "u16 \<Rightarrow> bytes option \<Rightarrow> nat \<Rightarrow> bytes list \<Rightarrow> counters \<Rightarrow> TsSegment \<Rightarrow> (ts_place \<times> counters \<times> TsSegment) result" where
  "create_ts pid pcr pes_len segs cc seg = bindR (ts_loop pid pcr pes_len pes_len segs (cc pid) seg) (\<lambda>(c, seg').
     Inr (\<lparr>ts_index = ts_chunk_index seg, ts_off = ts_chunk_off seg, ts_bytes = total_ts_bytes seg' - total_ts_bytes seg\<rparr>, cc(pid := c), seg'))"

definition create_video_ts :: "u16 \<Rightarrow> u16 \<Rightarrow> u64 \<Rightarrow> bool \<Rightarrow> nat \<Rightarrow> bytes list \<Rightarrow> counters \<Rightarrow> TsSegment \<Rightarrow> (ts_place \<times> counters \<times> TsSegment) result" where
  "create_video_ts PCR_PID video_pid dts is_key pes_len segs cc seg =
     create_ts video_pid (if PCR_PID = video_pid \<and> is_key then Some (pcr_bytes dts) else None) pes_len segs cc seg"

definition create_audio_ts :: "u16 \<Rightarrow> nat \<Rightarrow> bytes list \<Rightarrow> counters \<Rightarrow> TsSegment \<Rightarrow> (ts_place \<times> counters \<times> TsSegment) result" where
  "create_audio_ts audio_pid pes_len segs cc seg = create_ts audio_pid None pes_len segs cc seg"

section \<open>Segments hold their packets\<close>

definition seg_ok :: "TsSegment \<Rightarrow> bool" where
  "seg_ok s \<longleftrightarrow> (\<exists>full l. ts_chunks s = full @ [l] \<and> ts_chunk_index s = length full \<and> ts_chunk_off s = length l \<and>
     length l \<le> SINGLE_TS_BYTES \<and> 188 dvd length l \<and> (full = [] \<or> l \<noteq> []) \<and> (\<forall>c\<in>set full. length c = SINGLE_TS_BYTES) \<and>
     total_ts_bytes s = length full * SINGLE_TS_BYTES + length l)"

definition seg_bytes :: "TsSegment \<Rightarrow> bytes" where
  "seg_bytes s = concat (ts_chunks s)"

lemma seg_ok_new: "seg_ok TsSegment_new" "seg_bytes TsSegment_new = []"
  by (simp_all add: seg_ok_def TsSegment_new_def seg_bytes_def)

lemma length_full: "\<forall>c\<in>set full. length c = n \<Longrightarrow> length (concat full) = length full * n"
  by (induction full) auto

lemma seg_ok_total: "seg_ok s \<Longrightarrow> total_ts_bytes s = length (seg_bytes s)"
  by (auto simp: seg_ok_def seg_bytes_def dest: length_full)

lemma seg_ok_data: "seg_ok s \<Longrightarrow> concat (get_ts_data s) = seg_bytes s"
proof -
  assume "seg_ok s"
  then obtain full l where f: "ts_chunks s = full @ [l]" "ts_chunk_off s = length l" "\<forall>c\<in>set full. length c = SINGLE_TS_BYTES"
    by (auto simp: seg_ok_def)
  have "map (take SINGLE_TS_BYTES) full = full" using f(3) by (intro map_idI) simp
  then show ?thesis using f by (simp add: get_ts_data_def seg_bytes_def)
qed

lemma alloc_ok:
  assumes "seg_ok s" and "length p = 188"
  shows "\<exists>s'. alloc_ts_packet p s = Inr s' \<and> seg_ok s' \<and> seg_bytes s' = seg_bytes s @ p"
proof -
  obtain full l where f: "ts_chunks s = full @ [l]" "ts_chunk_index s = length full" "ts_chunk_off s = length l"
      "length l \<le> SINGLE_TS_BYTES" "188 dvd length l" "\<forall>c\<in>set full. length c = SINGLE_TS_BYTES"
      "total_ts_bytes s = length full * SINGLE_TS_BYTES + length l"
    using assms(1) by (auto simp: seg_ok_def)
  show ?thesis
  proof (cases "SINGLE_TS_BYTES \<le> length l")
    case True
    then have "length l = SINGLE_TS_BYTES" using f(4) by simp
    with True f assms(2) show ?thesis
      by (auto simp: alloc_ts_packet_def seg_bytes_def seg_ok_def Let_def nth_append list_update_append SINGLE_TS_BYTES_def
          intro!: exI [of _ "full @ [l]"] exI [of _ p])
  next
    case False
    moreover obtain k where "length l = 188 * k" using f(5) by auto
    ultimately have "length l + 188 \<le> SINGLE_TS_BYTES" by (simp add: SINGLE_TS_BYTES_def)
    with False f assms(2) show ?thesis
      by (auto simp: alloc_ts_packet_def seg_bytes_def seg_ok_def Let_def nth_append list_update_append intro!: exI [of _ full] exI [of _ "l @ p"])
  qed
qed

text \<open>What a place in the chunks and a number of bytes stand for.\<close>

lemma drop_chunks:
  assumes "\<forall>c\<in>set (butlast chunks). length c = S" and "i < length chunks"
  shows "drop (i * S) (concat chunks) = concat (drop i chunks)"
proof -
  have "take i chunks = take i (butlast chunks)" using assms(2) by (simp add: take_butlast)
  then have "\<forall>c\<in>set (take i chunks). length c = S" using assms(1) by (metis in_set_takeD)
  then have l: "length (concat (take i chunks)) = i * S" using length_full [of "take i chunks" S] assms(2) by simp
  have "concat chunks = concat (take i chunks) @ concat (drop i chunks)" by (metis append_take_drop_id concat_append)
  then show ?thesis using l by simp
qed

lemma get_ts_seg_bytes:
  assumes full: "\<forall>c\<in>set (butlast chunks). length c = SINGLE_TS_BYTES" and last: "length (last chunks) \<le> SINGLE_TS_BYTES"
    and "off \<le> SINGLE_TS_BYTES" and "i < length chunks" and "off + n \<le> length (concat (drop i chunks))"
  shows "get_ts_seg chunks i off n = Inr (take n (drop off (concat (drop i chunks))))"
  using assms(3-5)
proof (induction "length chunks - i" arbitrary: i off n)
  case (Suc k)
  let ?S = SINGLE_TS_BYTES let ?c = "chunks ! i"
  have d: "concat (drop i chunks) = ?c @ concat (drop (Suc i) chunks)" using Suc.prems by (simp add: Cons_nth_drop_Suc [symmetric])
  have c: "if Suc i < length chunks then length ?c = ?S else length ?c \<le> ?S \<and> drop (Suc i) chunks = []"
  proof (cases "Suc i < length chunks")
    case True
    then have "?c \<in> set (butlast chunks)" by (metis nth_butlast in_set_conv_nth length_butlast less_diff_conv add.commute plus_1_eq_Suc)
    with full True show ?thesis by simp
  next
    case False
    then have "i = length chunks - 1" using Suc.prems(2) by simp
    then have "?c = last chunks" using Suc.prems(2) by (subst last_conv_nth) auto
    with last False show ?thesis by simp
  qed
  show ?case
  proof (cases "n = 0 \<or> n < ?S - off")
    case True
    then have "n = 0 \<or> off + n \<le> length ?c" using c Suc.prems d by (auto split: if_splits)
    then show ?thesis using True Suc.prems d by (subst get_ts_seg.simps) (auto simp: not_le)
  next
    case False
    let ?m = "n - (?S - off)"
    have S: "length ?c = ?S" using False c Suc.prems d by (auto split: if_splits)
    have rest: "get_ts_seg chunks (i + 1) 0 ?m = Inr (take ?m (concat (drop (i + 1) chunks)))"
    proof (cases "?m = 0")
      case True
      then show ?thesis by (simp add: get_ts_seg.simps)
    next
      case m: False
      then have "Suc i < length chunks" using c Suc.prems d S by (auto split: if_splits)
      then show ?thesis using Suc.hyps(1) [of "i + 1" 0 ?m] Suc.hyps(2) Suc.prems d S by (simp add: SINGLE_TS_BYTES_def)
    qed
    have "get_ts_seg chunks i off n = Inr (drop off ?c @ take ?m (concat (drop (Suc i) chunks)))"
      using False Suc.prems(1,2) S rest by (subst get_ts_seg.simps) (simp add: Let_def)
    then show ?thesis using d S Suc.prems(1) False by simp
  qed
qed simp

text \<open>A place noted before packets were added finds them afterwards.\<close>
lemma seg_place:
  assumes "seg_ok s" and "seg_ok s'" and "seg_bytes s' = seg_bytes s @ bs"
  shows "get_ts_seg (ts_chunks s') (ts_chunk_index s) (ts_chunk_off s) (length bs) = Inr bs"
proof -
  obtain full l where f: "ts_chunk_index s = length full" "ts_chunk_off s = length l" "length l \<le> SINGLE_TS_BYTES"
      "ts_chunks s = full @ [l]" "\<forall>c\<in>set full. length c = SINGLE_TS_BYTES" "full = [] \<or> l \<noteq> []"
    using assms(1) by (auto simp: seg_ok_def)
  obtain full' l' where f': "ts_chunks s' = full' @ [l']" "\<forall>c\<in>set full'. length c = SINGLE_TS_BYTES" "length l' \<le> SINGLE_TS_BYTES"
    using assms(2) by (auto simp: seg_ok_def)
  have len: "length (seg_bytes s) = length full * SINGLE_TS_BYTES + length l" "length (seg_bytes s') = length full' * SINGLE_TS_BYTES + length l'"
    using f f' length_full [of full] length_full [of full'] by (simp_all add: seg_bytes_def)
  have i: "length full < length (ts_chunks s')"
  proof (rule ccontr)
    assume "\<not> ?thesis"
    then have "Suc (length full') \<le> length full" using f'(1) by simp
    then have "Suc (length full') * SINGLE_TS_BYTES \<le> length full * SINGLE_TS_BYTES" by (rule mult_le_mono1)
    then have "length full' * SINGLE_TS_BYTES + SINGLE_TS_BYTES \<le> length full * SINGLE_TS_BYTES" by simp
    moreover have "length (seg_bytes s) \<le> length (seg_bytes s')" using assms(3) by simp
    ultimately have "length l = 0" "full \<noteq> []" using len f'(3) by (linarith, auto simp: SINGLE_TS_BYTES_def)
    then show False using f(6) by simp
  qed
  have d: "drop (length full * SINGLE_TS_BYTES) (seg_bytes s') = concat (drop (length full) (ts_chunks s'))"
    using f' i unfolding seg_bytes_def by (intro drop_chunks) auto
  have e: "concat (drop (length full) (ts_chunks s')) = l @ bs"
    using d assms(3) f(4,5) length_full [of full SINGLE_TS_BYTES] by (simp add: seg_bytes_def)
  have "get_ts_seg (ts_chunks s') (length full) (length l) (length bs) = Inr (take (length bs) (drop (length l) (l @ bs)))"
    unfolding e [symmetric] using f(3) f'(2,3) i e by (intro get_ts_seg_bytes) (simp_all add: f'(1))
  then show ?thesis by (simp add: f(1,2))
qed

section \<open>What a receiver reads\<close>

text \<open>A demultiplexer, after ISO/IEC 13818-1.\<close>

definition ts_pid :: "bytes \<Rightarrow> u16" where "ts_pid p = get_be (take 2 (drop 1 p)) AND 0x1fff"
definition ts_start :: "bytes \<Rightarrow> bool" where "ts_start p \<longleftrightarrow> bit (get_be (take 2 (drop 1 p)) :: u16) 14"
definition ts_counter :: "bytes \<Rightarrow> byte" where "ts_counter p = p ! 3 AND 0x0f"

definition ts_payload :: "bytes \<Rightarrow> bytes" where
  "ts_payload p = (if bit (p ! 3) 5 then drop (5 + unat (p ! 4)) p else drop 4 p)"

text \<open>The packets of one PES packet: the first starts it, and the counters are consecutive.\<close>
fun ts_stream :: "u16 \<Rightarrow> bool \<Rightarrow> byte \<Rightarrow> bytes list \<Rightarrow> bool" where
  "ts_stream pid start counter [] \<longleftrightarrow> True"
| "ts_stream pid start counter (p # ps) \<longleftrightarrow> length p = 188 \<and> p ! 0 = 0x47 \<and> ts_pid p = pid \<and> ts_start p = start \<and>
     ts_counter p = counter AND 0x0f \<and> ts_stream pid False (counter + 1) ps"

lemma ts_header_read:
  assumes "pid AND 0x1fff = pid" and "control = 1 \<or> control = 3"
  shows "length (ts_header b pid control c) = 4" and "(ts_header b pid control c @ r) ! 0 = 0x47" and "ts_pid (ts_header b pid control c @ r) = pid"
    and "ts_start (ts_header b pid control c @ r) = b" and "ts_counter (ts_header b pid control c @ r) = c AND 0x0f"
    and "bit ((ts_header b pid control c @ r) ! 3) 5 \<longleftrightarrow> control = 3"
proof -
  show "length (ts_header b pid control c) = 4" "(ts_header b pid control c @ r) ! 0 = 0x47" by (simp_all add: ts_header_def)
  have g: "get_be (take 2 (drop 1 (ts_header b pid control c @ r))) = (if b then 0x4000 else 0) OR pid"
    by (simp add: ts_header_def)
  have n: "(ts_header b pid control c @ r) ! 3 = push_bit 4 control OR (c AND 0x0f)" by (simp add: ts_header_def nth_append)
  have p14: "\<not> bit pid 14" by (subst assms(1) [symmetric]) (simp add: bit_and_iff)
  show "ts_pid (ts_header b pid control c @ r) = pid"
    using assms(1) unfolding ts_pid_def g by (simp add: bit.conj_disj_distrib2)
  show "ts_start (ts_header b pid control c @ r) = b" using p14 unfolding ts_start_def g by (simp add: bit_or_iff)
  show "ts_counter (ts_header b pid control c @ r) = c AND 0x0f"
    using assms(2) by (auto simp: ts_counter_def n bit.conj_disj_distrib2 and.assoc)
  show "bit ((ts_header b pid control c @ r) ! 3) 5 \<longleftrightarrow> control = 3"
    using assms(2) by (auto simp: n bit_or_iff bit_and_iff)
qed

lemma copy_segs_concat:
  "n \<le> length (concat segs) \<Longrightarrow> \<exists>rest. copy_segs n segs = Inr (take n (concat segs), rest) \<and> concat rest = drop n (concat segs)"
proof (induction segs arbitrary: n)
  case (Cons s segs)
  show ?case
  proof (cases "length s < n")
    case True
    then obtain rest where "copy_segs (n - length s) segs = Inr (take (n - length s) (concat segs), rest)"
        "concat rest = drop (n - length s) (concat segs)"
      using Cons.IH [of "n - length s"] Cons.prems by (auto simp: le_diff_conv add.commute)
    with True show ?thesis by simp
  qed (use Cons.prems in auto)
qed simp

lemma unat_small: "n < 256 \<Longrightarrow> unat (of_nat n :: byte) = n"
  by (simp add: unat_of_nat del: unsigned_of_nat)

text \<open>One packet: what is copied is what is read, and the bytes before it are an adaptation field or nothing.\<close>
lemma packet_payload:
  assumes "pid AND 0x1fff = pid" and "length f = 0 \<and> control = 1 \<or> control = 3 \<and> f \<noteq> [] \<and> length f = 1 + unat (hd f)"
  shows "ts_payload (ts_header b pid control c @ f @ bs) = bs"
proof -
  have h: "length (ts_header b pid control c) = 4" "bit ((ts_header b pid control c @ f @ bs) ! 3) 5 \<longleftrightarrow> control = 3"
    using ts_header_read(1,6) [OF assms(1)] assms(2) by auto
  show ?thesis
  proof (cases "control = 3")
    case True
    then have "(ts_header b pid control c @ f @ bs) ! 4 = hd f" using assms(2) h(1) by (simp add: nth_append hd_conv_nth)
    then show ?thesis using True assms(2) h by (simp add: ts_payload_def)
  qed (use assms(2) h in \<open>simp add: ts_payload_def\<close>)
qed

lemma field_length:
  assumes "1 \<le> fixed" "fixed \<le> 8" "length head = fixed - 1"
  shows "length (adaptation_field fixed head left_count) = fixed + stuffing fixed left_count"
    and "length (adaptation_field fixed head left_count) = 1 + unat (hd (adaptation_field fixed head left_count))"
proof -
  show l: "length (adaptation_field fixed head left_count) = fixed + stuffing fixed left_count"
    using assms by (simp add: adaptation_field_def)
  have "fixed + stuffing fixed left_count - 1 < 256" using assms(1,2) by (auto simp: stuffing_def)
  then have "unat (hd (adaptation_field fixed head left_count)) = fixed + stuffing fixed left_count - 1"
    unfolding adaptation_field_def list.sel by (rule unat_small)
  then show "length (adaptation_field fixed head left_count) = 1 + unat (hd (adaptation_field fixed head left_count))"
    using l assms(1) by simp
qed

lemma field_nonempty: "adaptation_field fixed head left_count \<noteq> []"
  by (simp add: adaptation_field_def)

text \<open>
  The first packet of the loop, when it does not have to carry both a clock reference and padding: its payload is the next
  \<open>consumed\<close> bytes.
\<close>
lemma ts_loop_step:
  assumes pid: "pid AND 0x1fff = pid" and len: "length (concat segs) = left_count" and ok: "seg_ok seg"
    and pcr: "pcr = None \<or> length (the pcr) = 6" and big: "pcr = None \<or> left_count \<noteq> pes_len \<or> 184 \<le> left_count"
    and pos: "0 < left_count"
  shows "\<exists>n p rest seg'. 0 < n \<and> n \<le> left_count \<and> ts_loop pid pcr pes_len left_count segs counter seg =
       ts_loop pid pcr pes_len (left_count - n) rest (counter + 1) seg' \<and> seg_ok seg' \<and> seg_bytes seg' = seg_bytes seg @ p \<and>
     ts_payload p = take n (concat segs) \<and> concat rest = drop n (concat segs) \<and> ts_stream pid (left_count = pes_len) counter [p]"
proof -
  define first where "first = (left_count = pes_len)"
  define wp where "wp = (first \<and> pcr \<noteq> None)"
  define f where "f = (if wp then adaptation_field 8 (0x10 # the pcr) left_count
     else if left_count < 184 then adaptation_field 2 [0] left_count else [])"
  define control :: byte where "control = (if wp \<or> left_count < 184 then 3 else 1)"
  define n where "n = 184 - length f"
  have excl: "wp \<Longrightarrow> 184 \<le> left_count" using big by (auto simp: wp_def first_def)
  have f: "length f = 0 \<and> control = 1 \<or> control = 3 \<and> f \<noteq> [] \<and> length f = 1 + unat (hd f)"
    using pcr field_length(2) [of 8 "0x10 # the pcr" left_count] field_length(2) [of 2 "[0]" left_count]
    by (auto simp: f_def control_def wp_def field_nonempty)
  have lf: "length f = (if wp then 8 else if left_count < 184 then 2 + stuffing 2 left_count else 0)"
    using pcr excl by (auto simp: f_def wp_def adaptation_field_def stuffing_def)
  have n: "0 < n" "n \<le> left_count" "length f \<le> 184" using lf excl pos by (auto simp: n_def stuffing_def split: if_splits)
  obtain rest where c: "copy_segs n segs = Inr (take n (concat segs), rest)" "concat rest = drop n (concat segs)"
    using copy_segs_concat [of n segs] n len by auto
  define p where "p = ts_header first pid control counter @ f @ take n (concat segs)"
  have ctl: "control = 1 \<or> control = 3" by (simp add: control_def)
  have lp: "length p = 188" using ts_header_read(1) [OF pid ctl] n len by (simp add: p_def n_def)
  obtain seg' where a: "alloc_ts_packet p seg = Inr seg'" "seg_ok seg'" "seg_bytes seg' = seg_bytes seg @ p"
    using alloc_ok [OF ok lp] by auto
  have "ts_loop pid pcr pes_len left_count segs counter seg = ts_loop pid pcr pes_len (left_count - n) rest (counter + 1) seg'"
    using pos c(1) a(1) excl pcr
    by (subst ts_loop.simps)
      (auto simp: Let_def p_def f_def n_def control_def wp_def first_def adaptation_field_def stuffing_def split: if_splits)
  moreover have "ts_payload p = take n (concat segs)" unfolding p_def by (rule packet_payload [OF pid f])
  moreover have "ts_stream pid first counter [p]" using ts_header_read [OF pid ctl] lp by (simp add: p_def)
  ultimately show ?thesis using n(1,2) a(2,3) c(2) unfolding first_def by blast
qed

lemma ts_stream_Cons: "ts_stream pid b c [p] \<Longrightarrow> ts_stream pid False (c + 1) ps \<Longrightarrow> ts_stream pid b c (p # ps)"
  by simp

lemma ts_loop_packets:
  assumes "pid AND 0x1fff = pid" and "length (concat segs) = left_count" and "seg_ok seg"
    and "pcr = None \<or> length (the pcr) = 6" and "pcr = None \<or> left_count \<noteq> pes_len \<or> 184 \<le> left_count" and "left_count \<le> pes_len"
  shows "\<exists>pkts seg'. ts_loop pid pcr pes_len left_count segs counter seg = Inr (counter + of_nat (length pkts), seg') \<and>
     seg_ok seg' \<and> seg_bytes seg' = seg_bytes seg @ concat pkts \<and> concat (map ts_payload pkts) = concat segs \<and>
     ts_stream pid (left_count = pes_len) counter pkts"
  using assms(2-6)
proof (induction left_count arbitrary: segs counter seg rule: less_induct)
  case (less left_count)
  show ?case
  proof (cases "left_count = 0")
    case True
    with less.prems show ?thesis by (intro exI [of _ "[]"]) (simp add: ts_loop.simps [of _ _ _ 0])
  next
    case False
    then obtain n p rest seg' where s: "0 < n" "n \<le> left_count" "ts_loop pid pcr pes_len left_count segs counter seg =
        ts_loop pid pcr pes_len (left_count - n) rest (counter + 1) seg'" "seg_ok seg'" "seg_bytes seg' = seg_bytes seg @ p"
        "ts_payload p = take n (concat segs)" "concat rest = drop n (concat segs)" "ts_stream pid (left_count = pes_len) counter [p]"
      using ts_loop_step [OF assms(1) less.prems(1-4), of counter] by auto
    have d: "\<not> left_count - n = pes_len" "length (concat rest) = left_count - n" using s(1,2,7) less.prems(1,5) by simp_all
    have e: "left_count - n < left_count" "left_count - n \<le> pes_len" using s(1,2) less.prems(5) by simp_all
    obtain pkts seg'' where r: "ts_loop pid pcr pes_len (left_count - n) rest (counter + 1) seg' =
        Inr (counter + 1 + of_nat (length pkts), seg'')" "seg_ok seg''" "seg_bytes seg'' = seg_bytes seg' @ concat pkts"
        "concat (map ts_payload pkts) = concat rest" "ts_stream pid (left_count - n = pes_len) (counter + 1) pkts"
      using less.IH [OF e(1) d(2) s(4) less.prems(3) _ e(2), of "counter + 1"] d(1) by blast
    then have "ts_stream pid (left_count = pes_len) counter (p # pkts)" using ts_stream_Cons [OF s(8)] r(5) d(1) by simp
    moreover have "ts_loop pid pcr pes_len left_count segs counter seg = Inr (counter + of_nat (length (p # pkts)), seg'')"
      using s(3) r(1) by (simp add: algebra_simps)
    moreover have "seg_bytes seg'' = seg_bytes seg @ concat (p # pkts)" "concat (map ts_payload (p # pkts)) = concat segs"
      using s(5,6,7) r(3,4) by simp_all
    ultimately show ?thesis using r(2) by blast
  qed
qed

lemma ts_stream_lengths: "ts_stream pid b c pkts \<Longrightarrow> length (concat pkts) = 188 * length pkts"
  by (induction pkts arbitrary: b c) auto

text \<open>
  What the cutting of a PES packet leaves behind: packets that carry it whole under consecutive counters, appended to the segment, and
  found again at the recorded place.
\<close>
definition muxed :: "u16 \<Rightarrow> bytes \<Rightarrow> counters \<Rightarrow> TsSegment \<Rightarrow> ts_place \<times> counters \<times> TsSegment \<Rightarrow> bytes list \<Rightarrow> bool" where
  "muxed pid pes cc seg r pkts \<longleftrightarrow> (case r of (place, cc', seg') \<Rightarrow>
     ts_stream pid True (cc pid) pkts \<and> concat (map ts_payload pkts) = pes \<and> cc' = cc(pid := cc pid + of_nat (length pkts)) \<and>
     seg_ok seg' \<and> seg_bytes seg' = seg_bytes seg @ concat pkts \<and>
     get_ts_seg (ts_chunks seg') (ts_index place) (ts_off place) (ts_bytes place) = Inr (concat pkts))"

lemma create_ts_muxed:
  assumes "pid AND 0x1fff = pid" and "length (concat segs) = pes_len" and "seg_ok seg"
    and "pcr = None \<or> length (the pcr) = 6" and "pcr = None \<or> 184 \<le> pes_len"
  shows "\<exists>r pkts. create_ts pid pcr pes_len segs cc seg = Inr r \<and> muxed pid (concat segs) cc seg r pkts"
proof -
  obtain pkts seg' where l: "ts_loop pid pcr pes_len pes_len segs (cc pid) seg = Inr (cc pid + of_nat (length pkts), seg')" "seg_ok seg'"
      "seg_bytes seg' = seg_bytes seg @ concat pkts" "concat (map ts_payload pkts) = concat segs" "ts_stream pid True (cc pid) pkts"
    using ts_loop_packets [OF assms(1-4), of pes_len "cc pid"] assms(5) by auto
  have "total_ts_bytes seg' - total_ts_bytes seg = length (concat pkts)"
    using seg_ok_total [OF assms(3)] seg_ok_total [OF l(2)] l(3) by (simp del: length_concat)
  then have "create_ts pid pcr pes_len segs cc seg = Inr (\<lparr>ts_index = ts_chunk_index seg, ts_off = ts_chunk_off seg,
      ts_bytes = length (concat pkts)\<rparr>, cc(pid := cc pid + of_nat (length pkts)), seg')"
    using l(1) by (simp add: create_ts_def del: length_concat)
  moreover have "muxed pid (concat segs) cc seg (\<lparr>ts_index = ts_chunk_index seg, ts_off = ts_chunk_off seg,
      ts_bytes = length (concat pkts)\<rparr>, cc(pid := cc pid + of_nat (length pkts)), seg') pkts"
    using l seg_place [OF assms(3) l(2,3)] by (simp add: muxed_def del: length_concat)
  ultimately show ?thesis by blast
qed

lemma length_pcr_bytes: "length (pcr_bytes dts) = 6"
  by (simp add: pcr_bytes_def)

text \<open>
  A video frame survives the transport stream: cutting its PES packet succeeds, the packets have 188 bytes, the frame's pid and
  consecutive continuity counters, the first one alone is marked as the start, their payloads are exactly the PES packet, and the
  place recorded for the frame finds them in the segment. A key frame that carries the clock must have at least 184 bytes.
\<close>
theorem video_frame_demuxes:
  assumes "pid AND 0x1fff = pid" and "length (concat segs) = pes_len" and "seg_ok seg"
    and "PCR_PID = pid \<and> is_key \<Longrightarrow> 184 \<le> pes_len"
  shows "\<exists>r pkts. create_video_ts PCR_PID pid dts is_key pes_len segs cc seg = Inr r \<and> muxed pid (concat segs) cc seg r pkts"
  unfolding create_video_ts_def using assms length_pcr_bytes by (intro create_ts_muxed) auto

text \<open>The same for audio, of any length.\<close>
lemma audio_frames_demux:
  assumes "pid AND 0x1fff = pid" and "length (concat segs) = pes_len" and "seg_ok seg"
  shows "\<exists>r pkts. create_audio_ts pid pes_len segs cc seg = Inr r \<and> muxed pid (concat segs) cc seg r pkts"
  unfolding create_audio_ts_def using assms by (intro create_ts_muxed) auto

text \<open>
  C35. A key frame of fewer than 184 bytes on the clock's pid does not fit: its only packet gets the adaptation field with the clock
  and a second one with padding, and the bytes written pass the end of the packet.
\<close>
theorem small_key_frame_overflows:
  assumes "length (concat segs) = pes_len" and "0 < pes_len" and "pes_len < 184"
  shows "create_video_ts pid pid dts True pes_len segs cc seg = Inl Oob"
proof -
  let ?n = "184 - (2 + stuffing 2 pes_len)"
  have n: "?n \<le> pes_len" "stuffing 2 pes_len = 182 - pes_len" using assms(2,3) by (auto simp: stuffing_def)
  obtain rest where c: "copy_segs ?n segs = Inr (take ?n (concat segs), rest)" using copy_segs_concat [of ?n segs] n(1) assms(1) by auto
  have l: "length (take ?n (concat segs)) = ?n" using n(1) assms(1) by (simp del: length_concat)
  have "188 < 4 + (8 + stuffing 8 pes_len) + (2 + stuffing 2 pes_len) + ?n" using assms(2,3) by (auto simp: stuffing_def)
  then have "alloc_ts_packet (ts_header True pid 3 (cc pid) @ adaptation_field 8 (0x10 # pcr_bytes dts) pes_len @
      adaptation_field 2 [0] pes_len @ take ?n (concat segs)) seg = Inl Oob"
    using l field_length(1) [of 8 "0x10 # pcr_bytes dts" pes_len] field_length(1) [of 2 "[0]" pes_len] length_pcr_bytes [of dts]
    by (simp add: alloc_ts_packet_def ts_header_def)
  then have "ts_loop pid (Some (pcr_bytes dts)) pes_len pes_len segs (cc pid) seg = Inl Oob"
    using assms(2,3) c by (subst ts_loop.simps) (simp add: Let_def)
  then show ?thesis by (simp add: create_video_ts_def create_ts_def)
qed

lemma small_key_frame_overflows_witness: "create_video_ts 0x100 0x100 0 True 100 [replicate 100 7] (\<lambda>_. 0) TsSegment_new = Inl Oob"
  by (rule small_key_frame_overflows) simp_all

end
