(* ===== verification/TsBridge.thy ===== *)
theory TsBridge
  imports MediaSources TsMux
begin

text \<open>
  The bridge from RTMP messages to a transport stream, \<^verbatim>\<open>live-server/bridge/rtmp/rtmp_to_ts.cpp\<close>: metadata, the video frames of
  H.264 and HEVC and the audio frames of AAC and MP3 become PES packets, which are cut into the packets of the current segment; and
  \<^verbatim>\<open>PublishApp::can_reap_ts\<close>, which says when a segment is complete.
\<close>

section \<open>State\<close>

record PESPacket =
  pes_stream_id :: byte
  pes_is_key :: bool
  pes_pts :: u64
  pes_dts :: u64
  pes_place :: ts_place
  pes_data :: bytes

text \<open>What the bridge hands to its transport stream source.\<close>
datatype ts_event = Segment TsSegment | Pes PESPacket

text \<open>
  The pieces of audio that wait to be cut; the piece at the front that is kept for the PES header is left out. Of the ADTS headers the
  index of the next one is kept: their 200 places are reserved when AAC is announced.
\<close>
record RtmpToTs = ts_streams +
  b_video_codec :: "codec option"
  b_audio_codec :: "codec option"
  b_audio_ready :: bool
  nalu_length_size_less_one :: nat
  curr_seg :: "TsSegment option"
  continuity_counter :: counters
  audio_pes_segs :: "bytes list"
  audio_pes_len :: nat
  audio_buf_timestamp :: int
  adts_header_index :: nat
  sent :: "ts_event list"

text \<open>The stream types are not initialised.\<close>
definition RtmpToTs_new :: "byte \<Rightarrow> byte \<Rightarrow> RtmpToTs" where
  "RtmpToTs_new vt at = \<lparr>st_has_video = False, st_has_audio = False, st_video_type = vt, st_audio_type = at, st_video_pid = 0xffff,
     st_audio_pid = 0xffff, st_PCR_PID = 0xffff, b_video_codec = None, b_audio_codec = None, b_audio_ready = False,
     nalu_length_size_less_one = 3, curr_seg = None, continuity_counter = (\<lambda>_. 0), audio_pes_segs = [], audio_pes_len = 0,
     audio_buf_timestamp = 0, adts_header_index = 0, sent = []\<rparr>"

text \<open>The limits of a segment in the configuration of the application.\<close>
record hls_config =
  ts_min_seg_dur :: int
  ts_max_seg_dur :: int
  ts_max_size :: int

section \<open>Segments\<close>

definition can_reap_ts :: "hls_config \<Rightarrow> bool \<Rightarrow> TsSegment \<Rightarrow> bool" where
  "can_reap_ts conf is_key seg =
     (if \<not> seg_has_video seg then ts_min_seg_dur conf \<le> get_duration seg
      else ts_min_seg_dur conf \<le> get_duration seg \<and> is_key \<or> ts_max_seg_dur conf \<le> get_duration seg \<or>
        ts_max_size conf \<le> int (total_ts_bytes seg))"

text \<open>A complete segment is handed over; only video marks it as reaped.\<close>
definition reap :: "hls_config \<Rightarrow> bool \<Rightarrow> (TsSegment \<Rightarrow> TsSegment) \<Rightarrow> RtmpToTs \<Rightarrow> RtmpToTs" where
  "reap conf is_key mark st = (case curr_seg st of None \<Rightarrow> st
     | Some seg \<Rightarrow> if can_reap_ts conf is_key seg then st\<lparr>sent := sent st @ [Segment (mark seg)], curr_seg := None\<rparr> else st)"

text \<open>A new segment starts with the two tables.\<close>
definition open_segment :: "RtmpToTs \<Rightarrow> (TsSegment \<times> RtmpToTs) result" where
  "open_segment st = (case curr_seg st of Some seg \<Rightarrow> Inr (seg, st)
     | None \<Rightarrow> bindR (alloc_ts_packet create_pat TsSegment_new) (\<lambda>seg. bindR (alloc_ts_packet (create_pmt (ts_streams.truncate st)) seg) (\<lambda>seg.
         Inr (seg, st\<lparr>curr_seg := Some seg\<rparr>))))"

section \<open>PES packets\<close>

text \<open>A time stamp of 33 bits in five bytes, with marker bits.\<close>
definition pes_time :: "byte \<Rightarrow> u64 \<Rightarrow> bytes" where
  "pes_time prefix t = (push_bit 4 prefix OR ucast (push_bit 1 (drop_bit 30 t AND 7)) OR 1) #
     put_be 2 (ucast (push_bit 1 (drop_bit 15 t AND 0x7fff)) OR 1 :: u16) @ put_be 2 (ucast (push_bit 1 (t AND 0x7fff)) OR 1 :: u16)"

definition pes_header :: "byte \<Rightarrow> byte \<Rightarrow> bytes \<Rightarrow> nat \<Rightarrow> bytes" where
  "pes_header stream_id PTS_DTS_flags stamps payload_size =
     (let n = 3 + length stamps + payload_size in
      [0, 0, 1, stream_id] @ put_be 2 (if 0xffff < n then 0 else of_nat n :: u16) @ [0x80, push_bit 6 PTS_DTS_flags, of_nat (length stamps)] @ stamps)"

definition annexb :: "bytes list \<Rightarrow> bytes list" where
  "annexb nus = (case nus of [] \<Rightarrow> [] | n # ns \<Rightarrow> [0, 0, 0, 1] # n # concat (map (\<lambda>n. [[0, 0, 1], n]) ns))"

text \<open>
  The end of both video handlers. The times are computed in 32 bits: the decoding time is a signed product, whose overflow is taken
  to wrap around, the presentation time an unsigned one.
\<close>
definition video_pts :: "u32 \<Rightarrow> u32 \<Rightarrow> u64" where "video_pts time ct = ucast ((time + ct) * 90)"
definition video_dts :: "u32 \<Rightarrow> u64" where "video_dts time = scast (time * 90)"

definition video_pes_segs :: "u32 \<Rightarrow> u32 \<Rightarrow> bytes list \<Rightarrow> bytes list" where
  "video_pes_segs time ct nus =
     pes_header 0xe0 (if ct = 0 then 2 else 3) (pes_time 2 (video_pts time ct) @ (if ct = 0 then [] else pes_time 3 (video_dts time)))
       (length nus * 3 + 1 + sum_list (map length nus)) # annexb nus"

definition send_video_pes :: "u32 \<Rightarrow> u32 \<Rightarrow> bool \<Rightarrow> bytes list \<Rightarrow> TsSegment \<Rightarrow> RtmpToTs \<Rightarrow> RtmpToTs result" where
  "send_video_pes time ct is_key nus seg st =
     (let segs = video_pes_segs time ct nus
      in bindR (create_video_ts (st_PCR_PID st) (st_video_pid st) (video_dts time) is_key (length (concat segs)) segs (continuity_counter st) seg)
           (\<lambda>(place, cc, seg). Inr (st\<lparr>continuity_counter := cc, curr_seg := Some (update_video_dts (uint (time + ct)) seg),
              sent := sent st @ [Pes \<lparr>pes_stream_id = 0xe0, pes_is_key = is_key, pes_pts = video_pts time ct, pes_dts = video_dts time,
                pes_place = place, pes_data = concat segs\<rparr>]\<rparr>)))"

text \<open>The end of both audio handlers: the waiting pieces become one PES packet. It is announced as one with a presentation time.\<close>
definition send_audio_pes :: "u64 \<Rightarrow> int \<Rightarrow> TsSegment \<Rightarrow> RtmpToTs \<Rightarrow> RtmpToTs result" where
  "send_audio_pes dts time seg st =
     (let segs = pes_header 0xc0 2 (pes_time 3 dts) (audio_pes_len st) # audio_pes_segs st
      in bindR (create_audio_ts (st_audio_pid st) (audio_pes_len st + 14) segs (continuity_counter st) seg)
           (\<lambda>(place, cc, seg). Inr (st\<lparr>continuity_counter := cc, curr_seg := Some (update_audio_pts time seg),
              sent := sent st @ [Pes \<lparr>pes_stream_id = 0xc0, pes_is_key = False, pes_pts = 0, pes_dts = dts, pes_place = place,
                pes_data = concat segs\<rparr>], audio_pes_segs := [], audio_pes_len := 0, audio_buf_timestamp := 0\<rparr>)))"

section \<open>NAL units of a message\<close>

text \<open>
  A unit is a view: its length and the bytes from its start to the end of the message. A length of four bytes with the top bit set is
  negative, passes the test, and makes a view of almost 2 to the 64 bytes (and the loop go back); it counts as leaving the message.
\<close>
type_synonym view = "nat \<times> bytes"

definition view_bytes :: "view \<Rightarrow> bytes" where "view_bytes v = take (fst v) (snd v)"

definition nalu_len :: "nat \<Rightarrow> bytes \<Rightarrow> int" where
  "nalu_len sz data = (if sz = 1 then int (be_nat (take 1 data)) else if sz = 2 then int (be_nat (take 2 data))
     else if sz = 4 then sint (get_be (take 4 data) :: u32) else 0)"

function get_nalus :: "nat \<Rightarrow> bytes \<Rightarrow> view list result" where
  "get_nalus k data =
     (if data = [] then Inr []
      else if length data < Suc k then Inl (Rc (-1))
      else let n = nalu_len (Suc k) data; rest = drop (Suc k) data in
        if int (length rest) < n then Inl (Rc (-2))
        else if n < 0 then Inl Oob
        else bindR (get_nalus k (drop (nat n) rest)) (\<lambda>vs. Inr ((nat n, rest) # vs)))"
  by pat_completeness auto
termination by (relation "measure (\<lambda>(_, data). length data)") auto

declare get_nalus.simps [simp del]

section \<open>H.264\<close>

abbreviation (input) h264_type :: "byte \<Rightarrow> byte" where "h264_type b \<equiv> b AND 0x1f"

record nal_flags =
  has_aud_nalu :: bool
  has_sps_nalu :: bool
  has_pps_nalu :: bool

definition note_h264 :: "byte \<Rightarrow> bytes \<Rightarrow> nal_flags \<times> H264Codec \<Rightarrow> nal_flags \<times> H264Codec" where
  "note_h264 first nalu s = (case s of (f, c) \<Rightarrow>
     if h264_type first = 9 then (f\<lparr>has_aud_nalu := True\<rparr>, c)
     else if h264_type first = 7 then (f\<lparr>has_sps_nalu := True\<rparr>, H264Codec_set_sps nalu c)
     else if h264_type first = 8 then (f\<lparr>has_pps_nalu := True\<rparr>, H264Codec_set_pps nalu c) else (f, c))"

text \<open>
  The loop over the units. Before the first IDR unit of a message without parameter sets the known ones are inserted; the loop then
  visits the picture parameter set it has just inserted (an empty string has a zero byte at its start) and the IDR unit again. The
  inserted units are views of the strings of the codec: a later unit of the message that changes one of them leaves the view stale,
  which counts as leaving it.
\<close>
fun scan_h264 :: "view list \<Rightarrow> nal_flags \<times> H264Codec \<Rightarrow> (bytes list \<times> nal_flags \<times> H264Codec) result" where
  "scan_h264 [] s = Inr ([], s)"
| "scan_h264 (v # vs) (f, c) = bindR (rd (snd v) 0) (\<lambda>first.
     if h264_type first = 5 \<and> \<not> has_pps_nalu f \<and> \<not> has_sps_nalu f then
       (let sps = vc_sps_nalu c; pps = vc_pps_nalu c;
            s = note_h264 (if pps = [] then 0 else hd pps) pps (f\<lparr>has_sps_nalu := True, has_pps_nalu := True\<rparr>, c)
        in bindR (scan_h264 vs s) (\<lambda>(ns, s').
             if vc_sps_nalu (snd s') = sps \<and> vc_pps_nalu (snd s') = pps then Inr (sps # pps # view_bytes v # ns, s') else Inl Oob))
     else bindR (scan_h264 vs (note_h264 first (view_bytes v) (f, c))) (\<lambda>(ns, s'). Inr (view_bytes v # ns, s')))"

definition h264_config :: "fresh \<Rightarrow> H264Codec \<Rightarrow> bytes \<Rightarrow> RtmpToTs \<Rightarrow> (bool \<times> RtmpToTs) result" where
  "h264_config mem c data st =
     (case avcc_parse (avcc_new (fst mem 0)) data of Inl (Rc _) \<Rightarrow> Inr (False, st) | Inl f \<Rightarrow> Inl f
      | Inr (r, _) \<Rightarrow> bindR (avcc_get_sps r) (\<lambda>sps. bindR (avcc_get_pps r) (\<lambda>pps. bindR (H264Codec_set_sps_pps sps pps c) (\<lambda>(_, c).
          let k = unat (nalu_length_size_minus_one r) in
          Inr (k \<noteq> 2 \<and> k \<le> 3, st\<lparr>b_video_codec := Some (VideoH264 c), nalu_length_size_less_one := k\<rparr>)))))"

definition process_h264_packet :: "junk \<Rightarrow> fresh \<Rightarrow> hls_config \<Rightarrow> RtmpMessage \<Rightarrow> H264Codec \<Rightarrow> RtmpToTs \<Rightarrow> (bool \<times> RtmpToTs) result" where
  "process_h264_packet j mem conf video_pkt c st =
     (case j of (_, ft, et, fc) \<Rightarrow> bindR (get_using_data video_pkt) (\<lambda>payload.
        case VideoTagHeader_decode payload (VideoTagHeader_new ft et fc) of (h, consumed) \<Rightarrow>
        if consumed < 0 then Inr (False, st)
        else let data = drop (nat consumed) payload in
          if VideoTagHeader_is_seq_header h then h264_config mem c data st
          else let is_key = is_key_frame h in
            bindR (open_segment (reap conf is_key set_reaped st)) (\<lambda>(seg, st).
              case get_nalus (nalu_length_size_less_one st) data of Inl (Rc _) \<Rightarrow> Inr (False, st) | Inl f \<Rightarrow> Inl f
              | Inr views \<Rightarrow>
                  bindR (scan_h264 views (\<lparr>has_aud_nalu = False, has_sps_nalu = False, has_pps_nalu = False\<rparr>, c)) (\<lambda>(nus, f, c).
                    let nus = (if has_aud_nalu f then nus else [0x09, 0xf0] # nus) in
                    bindR (send_video_pes (timestamp video_pkt) (composition_time h) is_key nus seg (st\<lparr>b_video_codec := Some (VideoH264 c)\<rparr>))
                      (\<lambda>st. Inr (True, st))))))"

section \<open>HEVC\<close>

text \<open>
  Parameter sets seen, and whether a unit is a key frame. The missing sets are put before the units of a key frame; the view of the video
  parameter set gets the length of the sequence parameter set, and may read the zero byte behind its string but no more.
\<close>
record hevc_flags =
  seen_sps :: bool
  seen_pps :: bool
  seen_vps :: bool
  seen_key :: bool

definition note_hevc :: "byte \<Rightarrow> bytes \<Rightarrow> hevc_flags \<times> HevcCodec \<Rightarrow> hevc_flags \<times> HevcCodec" where
  "note_hevc first nalu s = (case s of (f, c) \<Rightarrow> let t = drop_bit 1 first AND 0x3f in
     if t = 33 then (f\<lparr>seen_sps := True\<rparr>, HevcCodec_set_sps nalu c)
     else if t = 34 then (f\<lparr>seen_pps := True\<rparr>, HevcCodec_set_pps nalu c)
     else if t = 32 then (f\<lparr>seen_vps := True\<rparr>, HevcCodec_set_vps nalu c)
     else if 16 \<le> t \<and> t \<le> 23 then (f\<lparr>seen_key := True\<rparr>, c) else (f, c))"

fun scan_hevc :: "view list \<Rightarrow> hevc_flags \<times> HevcCodec \<Rightarrow> (hevc_flags \<times> HevcCodec) result" where
  "scan_hevc [] s = Inr s"
| "scan_hevc (v # vs) s = bindR (rd (snd v) 0) (\<lambda>first. scan_hevc vs (note_hevc first (view_bytes v) s))"

definition vps_view :: "HevcCodec \<Rightarrow> bytes result" where
  "vps_view c = (let s = vc_vps_nalu c @ [0]; n = length (vc_sps_nalu c) in if length s < n then Inl Oob else Inr (take n s))"

definition add_parameter_sets :: "hevc_flags \<Rightarrow> HevcCodec \<Rightarrow> bytes list \<Rightarrow> bytes list result" where
  "add_parameter_sets f c nus =
     (if \<not> seen_key f then Inr nus
      else let nus = (if seen_pps f then nus else vc_pps_nalu c # nus);
               nus = (if seen_sps f then nus else vc_sps_nalu c # nus)
        in if seen_vps f then Inr nus else bindR (vps_view c) (\<lambda>vps. Inr (vps # nus)))"

definition process_h265_packet :: "junk \<Rightarrow> fresh \<Rightarrow> hls_config \<Rightarrow> RtmpMessage \<Rightarrow> HevcCodec \<Rightarrow> RtmpToTs \<Rightarrow> (bool \<times> RtmpToTs) result" where
  "process_h265_packet j mem conf video_pkt c st =
     (case j of (_, ft, et, fc) \<Rightarrow> bindR (get_using_data video_pkt) (\<lambda>payload.
        case VideoTagHeader_decode payload (VideoTagHeader_new ft et fc) of (h, consumed) \<Rightarrow>
        if consumed < 0 then Inr (False, st)
        else let data = drop (nat consumed) payload in
          if VideoTagHeader_is_seq_header h then
            (case hvcc_decode data (hvcc_new (fst mem)) of (r, n) \<Rightarrow>
               if n = 0 then Inr (False, st)
               else let k = unat (lengthSizeMinusOne r) in
                 Inr (k \<noteq> 2 \<and> k \<le> 3, st\<lparr>b_video_codec := Some (VideoHevc (HevcCodec_set_hevc_configuration r c)), nalu_length_size_less_one := k\<rparr>))
          else let is_key = is_key_frame h in
            if curr_seg st = None \<and> \<not> is_key then Inr (False, st)
            else bindR (open_segment (reap conf is_key set_reaped st)) (\<lambda>(seg, st).
              case get_nalus (nalu_length_size_less_one st) data of Inl (Rc _) \<Rightarrow> Inr (False, st) | Inl f \<Rightarrow> Inl f
              | Inr views \<Rightarrow>
                  bindR (scan_hevc views (\<lparr>seen_sps = False, seen_pps = False, seen_vps = False, seen_key = False\<rparr>, c)) (\<lambda>(f, c).
                  bindR (add_parameter_sets f c (map view_bytes views)) (\<lambda>nus.
                    bindR (send_video_pes (timestamp video_pkt) (composition_time h) is_key nus seg (st\<lparr>b_video_codec := Some (VideoHevc c)\<rparr>))
                      (\<lambda>st. Inr (True, st)))))))"

section \<open>Audio\<close>

text \<open>The profile of the ADTS header; other object types end the handler.\<close>
definition aac_profile :: "u64 \<Rightarrow> byte option" where
  "aac_profile t = (if t = 1 then Some 0 else if t = 2 then Some 1 else if t = 3 then Some 2 else None)"

definition adts_header :: "byte \<Rightarrow> AudioSpecificConfig \<Rightarrow> nat \<Rightarrow> bytes" where
  "adts_header profile cfg frame_length =
     (let n = of_nat frame_length :: u32 in
      [0xff, 0xf9,
       (push_bit 6 profile AND 0xc0) OR (push_bit 2 (frequency_index cfg) AND 0x3c) OR (drop_bit 2 (channel_configuration cfg) AND 0x01),
       (push_bit 6 (channel_configuration cfg) AND 0xc0) OR ucast (drop_bit 11 n AND 0x03),
       ucast (drop_bit 3 n AND 0xff), ucast (push_bit 5 n AND 0xe0) OR 0x1f, 0xfc])"

text \<open>
  A frame with its ADTS header waits until at least 1400 bytes are together. A codec object that metadata has just replaced has no
  configuration, and the header index runs over the 200 reserved places.
\<close>
definition process_aac_packet :: "junk \<Rightarrow> hls_config \<Rightarrow> RtmpMessage \<Rightarrow> AudioSpecificConfig option \<Rightarrow> RtmpToTs \<Rightarrow> (bool \<times> RtmpToTs) result" where
  "process_aac_packet j conf audio_pkt cfg st =
     (case j of (sf, _) \<Rightarrow> bindR (get_using_data audio_pkt) (\<lambda>payload.
        case AudioTagHeader_decode payload (AudioTagHeader_new sf) of (h, consumed) \<Rightarrow>
        if consumed < 0 then Inr (False, st)
        else let data = drop (nat consumed) payload in
          if AudioTagHeader_is_seq_header h then
            (let st = st\<lparr>b_audio_ready := True\<rparr> in
             case asc_parse data of Inl (Rc _) \<Rightarrow> Inr (False, st) | Inl f \<Rightarrow> Inl f
             | Inr (cfg, _) \<Rightarrow> Inr (True, st\<lparr>b_audio_codec := Some (AACCodec (Some cfg))\<rparr>))
          else if \<not> b_audio_ready st then Inr (False, st)
          else let st = reap conf False id st in
            case cfg of None \<Rightarrow> Inl Oob
            | Some cfg \<Rightarrow> (case aac_profile (audio_object_type cfg) of None \<Rightarrow> Inr (False, st)
                | Some profile \<Rightarrow>
                    if 200 \<le> adts_header_index st then Inl Oob
                    else let st = st\<lparr>audio_buf_timestamp := (if audio_pes_len st = 0 then sint (timestamp audio_pkt) else audio_buf_timestamp st),
                             adts_header_index := adts_header_index st + 1,
                             audio_pes_segs := audio_pes_segs st @ [adts_header profile cfg (7 + length data), data],
                             audio_pes_len := audio_pes_len st + (7 + length data)\<rparr>
                      in if audio_pes_len st < 1400 then Inr (True, st)
                      else bindR (open_segment st) (\<lambda>(seg, st).
                        bindR (send_audio_pes (of_int (audio_buf_timestamp st * 90)) (audio_buf_timestamp st) seg st) (\<lambda>st.
                          Inr (True, st\<lparr>adts_header_index := 0\<rparr>))))))"

definition process_mp3_packet :: "junk \<Rightarrow> hls_config \<Rightarrow> RtmpMessage \<Rightarrow> RtmpToTs \<Rightarrow> (bool \<times> RtmpToTs) result" where
  "process_mp3_packet j conf audio_pkt st =
     (case j of (sf, _) \<Rightarrow> bindR (get_using_data audio_pkt) (\<lambda>payload.
        case AudioTagHeader_decode payload (AudioTagHeader_new sf) of (h, consumed) \<Rightarrow>
        if consumed < 0 then Inr (False, st)
        else let data = drop (nat consumed) payload;
                 st = reap conf False id st;
                 st = st\<lparr>audio_pes_segs := audio_pes_segs st @ [data], audio_pes_len := audio_pes_len st + length data\<rparr>
          in bindR (open_segment st) (\<lambda>(seg, st).
               bindR (send_audio_pes (scast (timestamp audio_pkt * 90)) (sint (timestamp audio_pkt)) seg st) (\<lambda>st. Inr (True, st)))))"

section \<open>Messages\<close>

definition use_video :: "byte \<Rightarrow> codec \<Rightarrow> RtmpToTs \<Rightarrow> RtmpToTs" where
  "use_video type c st = st\<lparr>b_video_codec := Some c, st_video_pid := 0x100, st_video_type := type,
     continuity_counter := (continuity_counter st)(0x100 := 0)\<rparr>"

definition use_audio :: "byte \<Rightarrow> codec \<Rightarrow> RtmpToTs \<Rightarrow> RtmpToTs" where
  "use_audio type c st = st\<lparr>b_audio_codec := Some c, st_audio_pid := 0x101, st_audio_type := type,
     continuity_counter := (continuity_counter st)(0x101 := 0)\<rparr>"

text \<open>The codec of a video codec id; the flag is False when there is none.\<close>
definition choose_video :: "fresh \<Rightarrow> u32 \<Rightarrow> RtmpToTs \<Rightarrow> bool \<times> RtmpToTs" where
  "choose_video mem i st = (if i = AVC then (True, use_video 0x1b (new_h264 mem) st)
     else if i = HEVC \<or> i = HEVC_FOURCC then (True, use_video 0x24 (new_hevc mem) st) else (False, st))"

definition choose_audio :: "byte \<Rightarrow> RtmpToTs \<Rightarrow> bool \<times> RtmpToTs" where
  "choose_audio i st = (if i = AAC then (True, use_audio 0x0f (AACCodec None) st) else if i = 2 then (True, use_audio 0x04 MP3Codec st)
     else (False, st))"

definition ts_on_metadata :: "fresh \<Rightarrow> RtmpMessage \<Rightarrow> RtmpToTs \<Rightarrow> (bool \<times> RtmpToTs) result" where
  "ts_on_metadata mem msg st =
     (case RtmpMetaDataMessage_decode msg RtmpMetaDataMessage_new of Inl (Rc _) \<Rightarrow> Inr (False, st) | Inl f \<Rightarrow> Inl f
      | Inr (m, n) \<Rightarrow>
          if n = 0 then Inr (False, st)
          else let st = st\<lparr>st_has_video := md_has_video m, st_has_audio := md_has_audio m\<rparr> in
            bindR (if md_has_video m then (case md_video_codec_id m of None \<Rightarrow> Inl Oob | Some i \<Rightarrow> Inr (choose_video mem i st))
                   else Inr (True, st)) (\<lambda>(go_on, st).
              if \<not> go_on then Inr (False, st)
              else bindR (if md_has_audio m then (case md_audio_codec_id m of None \<Rightarrow> Inl Oob | Some i \<Rightarrow> Inr (choose_audio i st))
                          else Inr (True, st)) (\<lambda>(go_on, st).
                if \<not> go_on then Inr (False, st)
                else Inr (True, st\<lparr>st_PCR_PID := (if st_has_video st then st_video_pid st else if st_has_audio st then st_audio_pid st
                  else st_PCR_PID st)\<rparr>))))"

definition ts_on_video_packet :: "junk \<Rightarrow> fresh \<Rightarrow> hls_config \<Rightarrow> RtmpMessage \<Rightarrow> RtmpToTs \<Rightarrow> (bool \<times> RtmpToTs) result" where
  "ts_on_video_packet j mem conf video_pkt st =
     bindR (case b_video_codec st of Some _ \<Rightarrow> Inr (True, st)
            | None \<Rightarrow> (case j of (_, ft, et, fc) \<Rightarrow> bindR (get_using_data video_pkt) (\<lambda>payload.
                Inr (choose_video mem (codec_id (fst (VideoTagHeader_decode payload (VideoTagHeader_new ft et fc)))) st)))) (\<lambda>(go_on, st).
       if \<not> go_on then Inr (False, st)
       else case b_video_codec st of Some (VideoH264 c) \<Rightarrow> process_h264_packet j mem conf video_pkt c st
         | Some (VideoHevc c) \<Rightarrow> process_h265_packet j mem conf video_pkt c st | _ \<Rightarrow> Inr (False, st))"

definition ts_on_audio_packet :: "junk \<Rightarrow> hls_config \<Rightarrow> RtmpMessage \<Rightarrow> RtmpToTs \<Rightarrow> (bool \<times> RtmpToTs) result" where
  "ts_on_audio_packet j conf audio_pkt st = (case b_audio_codec st of Some (AACCodec cfg) \<Rightarrow> process_aac_packet j conf audio_pkt cfg st
     | Some MP3Codec \<Rightarrow> process_mp3_packet j conf audio_pkt st | _ \<Rightarrow> Inr (False, st))"

definition RTMP_AUDIO :: byte where "RTMP_AUDIO = 8"
definition RTMP_VIDEO :: byte where "RTMP_VIDEO = 9"

definition ts_on_rtmp_message :: "junk \<Rightarrow> fresh \<Rightarrow> hls_config \<Rightarrow> RtmpMessage \<Rightarrow> RtmpToTs \<Rightarrow> (bool \<times> RtmpToTs) result" where
  "ts_on_rtmp_message j mem conf msg st =
     (if message_type_id msg = RTMP_AUDIO then ts_on_audio_packet j conf msg st
      else if message_type_id msg = RTMP_VIDEO then ts_on_video_packet j mem conf msg st else ts_on_metadata mem msg st)"

text \<open>The callback of the sink: the messages up to one that is refused.\<close>
fun ts_on_rtmp_messages :: "junk \<Rightarrow> fresh \<Rightarrow> hls_config \<Rightarrow> RtmpMessage list \<Rightarrow> RtmpToTs \<Rightarrow> (bool \<times> RtmpToTs) result" where
  "ts_on_rtmp_messages j mem conf [] st = Inr (True, st)"
| "ts_on_rtmp_messages j mem conf (msg # msgs) st = bindR (ts_on_rtmp_message j mem conf msg st) (\<lambda>(ok, st).
     if \<not> ok then Inr (False, st) else ts_on_rtmp_messages j mem conf msgs st)"

section \<open>Reading the stream back\<close>

text \<open>A PES packet as ISO/IEC 13818-1, section 2.4.3.6, defines it: stream id, presentation time, decoding time, payload.\<close>

definition read_time :: "bytes \<Rightarrow> nat" where
  "read_time b = (unat (b ! 0) div 2 mod 8) * 2 ^ 30 + be_nat (take 2 (drop 1 b)) div 2 * 2 ^ 15 + be_nat (take 2 (drop 3 b)) div 2"

definition read_pes :: "bytes \<Rightarrow> (byte \<times> nat option \<times> nat option \<times> bytes) option" where
  "read_pes p = (if take 3 p \<noteq> [0, 0, 1] \<or> length p < 9 then None
     else let f = unat (p ! 7) div 64 in
       Some (p ! 3, if 2 \<le> f then Some (read_time (drop 9 p)) else None, if f = 3 then Some (read_time (drop 14 p)) else None,
             drop (9 + unat (p ! 8)) p))"

text \<open>An access unit in the byte stream format, with a four-byte start code first and three-byte ones after.\<close>
definition byte_stream :: "bytes list \<Rightarrow> bytes" where
  "byte_stream nus = (case nus of [] \<Rightarrow> [] | n # ns \<Rightarrow> [0, 0, 0, 1] @ n @ concat (map (\<lambda>n. [0, 0, 1] @ n) ns))"

lemma concat_annexb: "concat (annexb nus) = byte_stream nus"
  by (cases nus) (simp_all add: annexb_def byte_stream_def, induct_tac list, simp_all)

lemma length_pes_time: "length (pes_time p t) = 5"
  by (simp add: pes_time_def)

lemma drop_bit_unat: "unat w div 2 ^ n = unat (drop_bit n w)" for w :: "'a::len word"
  by (subst unat_drop_bit_eq) (simp add: drop_bit_eq_div)

lemma take_bit_unat: "unat (take_bit n w) = unat w mod 2 ^ n" for w :: "'a::len word"
  by (subst unsigned_take_bit_eq) (simp add: take_bit_eq_mod)

lemma bit_doubled: "bit (w * 2) (Suc n) \<longleftrightarrow> Suc n < LENGTH('a) \<and> bit w n" for w :: "'a::len word"
  by (subst mult.commute) (auto simp: bit_double_iff possible_bit_word)

lemma and_low: "w AND 0x7fff = take_bit 15 w" "w AND 7 = take_bit 3 w" for w :: u64
  by (simp_all add: take_bit_eq_mask mask_eq_exp_minus_1)

lemma odd_field: "unat (ucast (push_bit 1 (w AND 0x7fff)) OR 1 :: u16) div 2 = unat w mod 2 ^ 15" for w :: u64
proof -
  let ?v = "ucast (push_bit 1 (w AND 0x7fff)) OR 1 :: u16"
  have "drop_bit 1 ?v = ucast (take_bit 15 w)"
    unfolding and_low by (rule bit_word_eqI) (auto simp: bit_simps bit_doubled)
  then have "unat ?v div 2 ^ 1 = unat (ucast (take_bit 15 w) :: u16)" by (simp only: drop_bit_unat)
  also have "\<dots> = unat w mod 2 ^ 15"
    unfolding unsigned_ucast_eq take_bit_unat by (rule take_bit_nat_eq_self) (rule less_trans [of _ "2 ^ 15"], simp_all)
  finally show ?thesis by simp
qed

lemma odd_top: "unat (push_bit 4 p OR ucast (push_bit 1 (w AND 7)) OR 1 :: byte) div 2 mod 8 = unat w mod 2 ^ 3" for w :: u64
proof -
  let ?v = "push_bit 4 p OR ucast (push_bit 1 (w AND 7)) OR 1 :: byte"
  have "take_bit 3 (drop_bit 1 ?v) = ucast (take_bit 3 w)"
    unfolding and_low by (rule bit_word_eqI) (auto simp: bit_simps bit_doubled)
  then have "unat ?v div 2 ^ 1 mod 2 ^ 3 = unat (ucast (take_bit 3 w) :: byte)"
    by (simp only: drop_bit_unat flip: take_bit_unat)
  also have "\<dots> = unat w mod 2 ^ 3"
    unfolding unsigned_ucast_eq take_bit_unat by (rule take_bit_nat_eq_self) (rule less_trans [of _ "2 ^ 3"], simp_all)
  finally show ?thesis by simp
qed

lemma split_33: "n mod 2 ^ 33 = (n div 2 ^ 30) mod 2 ^ 3 * 2 ^ 30 + (n div 2 ^ 15) mod 2 ^ 15 * 2 ^ 15 + n mod 2 ^ 15" for n :: nat
proof -
  have "n mod (2 ^ 30 * 2 ^ 3) = 2 ^ 30 * (n div 2 ^ 30 mod 2 ^ 3) + n mod 2 ^ 30" by (rule mod_mult2_eq)
  moreover have "n mod (2 ^ 15 * 2 ^ 15) = 2 ^ 15 * (n div 2 ^ 15 mod 2 ^ 15) + n mod 2 ^ 15" by (rule mod_mult2_eq)
  ultimately show ?thesis by simp
qed

lemma read_pes_time: "read_time (pes_time p t @ r) = unat t mod 2 ^ 33"
proof -
  have l: "take 2 (drop 1 (pes_time p t @ r)) = put_be 2 (ucast (push_bit 1 (drop_bit 15 t AND 0x7fff)) OR 1 :: u16)"
      "take 2 (drop 3 (pes_time p t @ r)) = put_be 2 (ucast (push_bit 1 (t AND 0x7fff)) OR 1 :: u16)"
    by (simp_all add: pes_time_def)
  have h: "unat ((pes_time p t @ r) ! 0) div 2 mod 8 = unat t div 2 ^ 30 mod 2 ^ 3"
    using odd_top [of p "drop_bit 30 t"] by (simp only: pes_time_def append_Cons nth_Cons_0 drop_bit_unat)
  show ?thesis
    unfolding read_time_def l h be_nat_u16 odd_field split_33 by (simp only: drop_bit_unat)
qed

lemma pes_header_read:
  assumes "length stamps < 256" and "f = 2 \<or> f = 3"
  shows "take 3 (pes_header i f stamps n @ r) = [0, 0, 1]" "9 \<le> length (pes_header i f stamps n @ r)" "(pes_header i f stamps n @ r) ! 3 = i"
    "unat ((pes_header i f stamps n @ r) ! 7) div 64 = unat f" "drop 9 (pes_header i f stamps n @ r) = stamps @ r"
    "unat ((pes_header i f stamps n @ r) ! 8) = length stamps"
  using assms unat_small [of "length stamps"] by (auto simp: pes_header_def Let_def put_be_u16 nth_Cons')

lemma read_pes_header:
  assumes "length stamps < 256" and "f = 2 \<or> f = 3"
  shows "read_pes (pes_header i f stamps n @ r) =
    Some (i, Some (read_time (stamps @ r)), if f = 3 then Some (read_time (drop 5 (stamps @ r))) else None, r)"
proof -
  note h = pes_header_read [OF assms, of i n r]
  have "drop 14 (pes_header i f stamps n @ r) = drop 5 (stamps @ r)" "drop (9 + length stamps) (pes_header i f stamps n @ r) = r"
    using h(5) by (metis drop_drop numeral_plus_numeral semiring_norm(2-9), metis drop_drop add.commute append_eq_conv_conj)
  then show ?thesis using h assms(2) by (auto simp: read_pes_def Let_def)
qed

lemma read_video_pes:
  "read_pes (concat (video_pes_segs time ct nus)) = Some (0xe0, Some (unat (video_pts time ct) mod 2 ^ 33),
     if ct = 0 then None else Some (unat (video_dts time) mod 2 ^ 33), byte_stream nus)"
  by (simp add: video_pes_segs_def read_pes_header read_pes_time length_pes_time concat_annexb)

section \<open>Segments start with the tables\<close>

definition seg_good :: "TsSegment \<Rightarrow> bool" where
  "seg_good s \<longleftrightarrow> seg_ok s \<and> (\<exists>streams rest. seg_bytes s = create_pat @ create_pmt streams @ rest)"

lemma seg_good_updates [simp]:
  "seg_good (update_video_dts t s) = seg_good s" "seg_good (update_audio_pts t s) = seg_good s" "seg_good (set_reaped s) = seg_good s"
  by (simp_all add: seg_good_def seg_ok_def seg_bytes_def update_video_dts_def update_audio_pts_def set_reaped_def Let_def)

lemma length_tables: "length create_pat = 188" "length (create_pmt st) = 188"
  by (simp_all add: create_pat_def create_pmt_def psi_packet_def Let_def stream_entry_def)

lemma open_segment_good:
  assumes "\<And>s. curr_seg st = Some s \<Longrightarrow> seg_good s"
  shows "\<exists>seg. open_segment st = Inr (seg, st\<lparr>curr_seg := Some seg\<rparr>) \<and> seg_good seg"
proof (cases "curr_seg st")
  case None
  obtain s1 where 1: "alloc_ts_packet create_pat TsSegment_new = Inr s1" "seg_ok s1" "seg_bytes s1 = create_pat"
    using alloc_ok [OF seg_ok_new(1) length_tables(1)] seg_ok_new(2) by auto
  obtain s2 where 2: "alloc_ts_packet (create_pmt (ts_streams.truncate st)) s1 = Inr s2" "seg_ok s2"
      "seg_bytes s2 = create_pat @ create_pmt (ts_streams.truncate st)"
    using alloc_ok [OF 1(2) length_tables(2)] 1(3) by auto
  have "seg_good s2" using 2(2,3) by (auto simp: seg_good_def)
  with None 1(1) 2(1) show ?thesis by (simp add: open_segment_def)
next
  case (Some seg)
  then have "st\<lparr>curr_seg := Some seg\<rparr> = st" by (cases st) simp
  with Some assms show ?thesis by (simp add: open_segment_def)
qed

lemma muxed_good: "seg_good seg \<Longrightarrow> muxed pid pes cc seg (place, cc', seg') ps \<Longrightarrow> seg_good seg'"
  unfolding seg_good_def muxed_def prod.case by (metis append_assoc)

text \<open>What a sent frame is: its PES packet can be read, and its packets are found at its place in the segment and carry it.\<close>
definition frame_in :: "TsSegment \<Rightarrow> u16 \<Rightarrow> PESPacket \<Rightarrow> bool" where
  "frame_in seg pid p \<longleftrightarrow> (\<exists>ps c. get_ts_seg (ts_chunks seg) (ts_index (pes_place p)) (ts_off (pes_place p)) (ts_bytes (pes_place p)) = Inr (concat ps) \<and>
     ts_stream pid True c ps \<and> concat (map ts_payload ps) = pes_data p)"

lemma frame_in_updates [simp]: "frame_in (update_video_dts t s) = frame_in s" "frame_in (update_audio_pts t s) = frame_in s"
  by (auto simp: frame_in_def update_video_dts_def update_audio_pts_def Let_def intro!: ext)

lemma muxed_frame: "muxed pid pes cc seg (place, cc', seg') ps \<Longrightarrow> pes_place p = place \<Longrightarrow> pes_data p = pes \<Longrightarrow> frame_in seg' pid p"
  by (auto simp: frame_in_def muxed_def)

text \<open>The PES packet of a video frame.\<close>
definition video_frame :: "u32 \<Rightarrow> u32 \<Rightarrow> bool \<Rightarrow> bytes list \<Rightarrow> PESPacket \<Rightarrow> bool" where
  "video_frame time ct is_key nus p \<longleftrightarrow> pes_stream_id p = 0xe0 \<and> pes_is_key p = is_key \<and> pes_dts p = video_dts time \<and>
     pes_data p = concat (video_pes_segs time ct nus)"

lemma send_video_pes_ok:
  assumes good: "seg_good seg" and pid: "st_video_pid st AND 0x1fff = st_video_pid st"
    and big: "st_PCR_PID st = st_video_pid st \<and> is_key \<Longrightarrow> 184 \<le> length (concat (video_pes_segs time ct nus))"
  shows "\<exists>cc seg' p. send_video_pes time ct is_key nus seg st =
      Inr (st\<lparr>continuity_counter := cc, curr_seg := Some seg', sent := sent st @ [Pes p]\<rparr>) \<and>
    seg_good seg' \<and> frame_in seg' (st_video_pid st) p \<and> video_frame time ct is_key nus p"
proof -
  obtain place cc seg' ps where m: "create_video_ts (st_PCR_PID st) (st_video_pid st) (video_dts time) is_key
      (length (concat (video_pes_segs time ct nus))) (video_pes_segs time ct nus) (continuity_counter st) seg = Inr (place, cc, seg')"
      "muxed (st_video_pid st) (concat (video_pes_segs time ct nus)) (continuity_counter st) seg (place, cc, seg') ps"
    using video_frame_demuxes [OF pid refl _ big, where seg = seg and dts = "video_dts time" and cc = "continuity_counter st"] good
    unfolding seg_good_def by (metis prod_cases3)
  let ?p = "\<lparr>pes_stream_id = 0xe0, pes_is_key = is_key, pes_pts = video_pts time ct, pes_dts = video_dts time, pes_place = place,
    pes_data = concat (video_pes_segs time ct nus)\<rparr>"
  let ?s = "update_video_dts (uint (time + ct)) seg'"
  have "send_video_pes time ct is_key nus seg st = Inr (st\<lparr>continuity_counter := cc, curr_seg := Some ?s, sent := sent st @ [Pes ?p]\<rparr>)"
    using m(1) by (simp add: send_video_pes_def Let_def)
  moreover have "seg_good ?s" "frame_in ?s (st_video_pid st) ?p" "video_frame time ct is_key nus ?p"
    using muxed_good [OF good m(2)] muxed_frame [OF m(2), of ?p] by (simp_all add: video_frame_def)
  ultimately show ?thesis by blast
qed

section \<open>From a message to the byte stream\<close>

text \<open>Units as a message carries them, with lengths of \<open>k + 1\<close> bytes.\<close>
definition unit_wire :: "nat \<Rightarrow> bytes \<Rightarrow> bytes" where
  "unit_wire k u = put_be (Suc k) (of_nat (length u) :: u32) @ u"

definition unit_ok :: "nat \<Rightarrow> bytes \<Rightarrow> bool" where
  "unit_ok k u \<longleftrightarrow> u \<noteq> [] \<and> (k = 0 \<and> length u < 256 \<or> k = 1 \<and> length u < 65536 \<or> k = 3 \<and> length u < 2 ^ 31)"

lemma nalu_len_wire: "unit_ok k u \<Longrightarrow> nalu_len (Suc k) (unit_wire k u @ r) = int (length u)"
proof -
  assume u: "unit_ok k u"
  have n: "unat (of_nat (length u) :: u32) = length u" using u by (auto simp: unit_ok_def unat_of_nat simp del: unsigned_of_nat)
  have t: "take (Suc k) (unit_wire k u @ r) = put_be (Suc k) (of_nat (length u) :: u32)" by (simp add: unit_wire_def)
  have b: "be_nat (put_be (Suc k) (of_nat (length u) :: u32)) = length u"
  proof -
    have "length u < 256 ^ Suc k" using u by (auto simp: unit_ok_def)
    then show ?thesis by (simp only: put_be_def be_nat_nat_be n mod_less)
  qed
  show ?thesis
  proof (cases "k = 3")
    case True
    have "sint (of_nat (length u) :: u32) = int (length u)"
      using u by (auto simp: unit_ok_def signed_of_nat signed_take_bit_int_eq_self)
    then show ?thesis using True t b by (simp add: nalu_len_def get_be_def)
  next
    case False
    then have "nalu_len (Suc k) d = int (be_nat (take (Suc k) d))" for d using u by (auto simp: nalu_len_def unit_ok_def numeral_2_eq_2)
    from this [of "unit_wire k u @ r"] show ?thesis unfolding t b .
  qed
qed

text \<open>A view that starts inside the message.\<close>
definition view_ok :: "view \<Rightarrow> bool" where
  "view_ok v \<longleftrightarrow> rd (snd v) 0 = Inr (hd (view_bytes v))"

lemma get_nalus_wire:
  "\<forall>u\<in>set us. unit_ok k u \<Longrightarrow> \<exists>vs. get_nalus k (concat (map (unit_wire k) us)) = Inr vs \<and> map view_bytes vs = us \<and> (\<forall>v\<in>set vs. view_ok v)"
proof (induction us)
  case Nil
  then show ?case by (simp add: get_nalus.simps)
next
  case (Cons u us)
  let ?r = "concat (map (unit_wire k) us)"
  from Cons obtain vs where vs: "get_nalus k ?r = Inr vs" "map view_bytes vs = us" "\<forall>v\<in>set vs. view_ok v" by auto
  have u: "unit_ok k u" "u \<noteq> []" using Cons.prems by (auto simp: unit_ok_def)
  have l: "length (unit_wire k u) = Suc k + length u" by (simp add: unit_wire_def)
  then have "unit_wire k u \<noteq> []" by auto
  then have d: "unit_wire k u @ ?r \<noteq> []" "\<not> length (unit_wire k u @ ?r) < Suc k" using l by auto
  have e: "drop (Suc k) (unit_wire k u @ ?r) = u @ ?r" by (simp add: unit_wire_def)
  have "get_nalus k (unit_wire k u @ ?r) = Inr ((length u, u @ ?r) # vs)"
    by (subst get_nalus.simps) (use nalu_len_wire [OF u(1), of ?r] d e vs(1) in simp)
  moreover have "view_ok (length u, u @ ?r)" using u(2) by (simp add: view_ok_def view_bytes_def rd_def hd_conv_nth nth_append)
  moreover have "view_bytes (length u, u @ ?r) = u" by (simp add: view_bytes_def)
  ultimately show ?case using vs(2,3) by simp
qed

text \<open>
  The units of an access unit with the known parameter sets before its first IDR unit, unless a parameter set comes earlier.
\<close>
definition with_sets :: "bytes \<Rightarrow> bytes \<Rightarrow> bytes list \<Rightarrow> bytes list" where
  "with_sets sps pps us =
     (let P = (\<lambda>u. h264_type (hd u) \<notin> {5, 7, 8}); rest = dropWhile P us
      in if rest \<noteq> [] \<and> h264_type (hd (hd rest)) = 5 then takeWhile P us @ [sps, pps] @ rest else us)"

definition with_aud :: "bytes list \<Rightarrow> bytes list \<Rightarrow> bytes list" where
  "with_aud us nus = (if \<exists>u\<in>set us. h264_type (hd u) = 9 then nus else [0x09, 0xf0] # nus)"

text \<open>No parameter set follows an IDR unit that had none before it.\<close>
fun sets_lead :: "bytes list \<Rightarrow> bool" where
  "sets_lead [] = True"
| "sets_lead (u # us) = (if h264_type (hd u) = 5 then \<forall>x\<in>set us. h264_type (hd x) \<notin> {7, 8} else h264_type (hd u) \<in> {7, 8} \<or> sets_lead us)"

lemma scan_h264_seen:
  "\<forall>v\<in>set vs. view_ok v \<Longrightarrow> has_sps_nalu f \<or> has_pps_nalu f \<Longrightarrow>
    \<exists>f' c'. scan_h264 vs (f, c) = Inr (map view_bytes vs, f', c') \<and>
      (has_aud_nalu f' \<longleftrightarrow> has_aud_nalu f \<or> (\<exists>u\<in>set (map view_bytes vs). h264_type (hd u) = 9)) \<and>
      ((\<forall>x\<in>set (map view_bytes vs). h264_type (hd x) \<notin> {7, 8}) \<longrightarrow> c' = c)"
proof (induction vs arbitrary: f c)
  case (Cons v vs)
  obtain f1 c1 where n: "note_h264 (hd (view_bytes v)) (view_bytes v) (f, c) = (f1, c1)" by (cases "note_h264 (hd (view_bytes v)) (view_bytes v) (f, c)")
  then have f1: "has_sps_nalu f1 \<or> has_pps_nalu f1" "has_aud_nalu f1 \<longleftrightarrow> has_aud_nalu f \<or> h264_type (hd (view_bytes v)) = 9"
      "h264_type (hd (view_bytes v)) \<notin> {7, 8} \<Longrightarrow> c1 = c"
    using Cons.prems(2) by (auto simp: note_h264_def split: if_splits)
  then show ?case using Cons.IH [of f1 c1] Cons.prems n by (auto simp: view_ok_def)
qed simp

lemma scan_h264_spec:
  "\<forall>v\<in>set vs. view_ok v \<Longrightarrow> \<not> has_sps_nalu f \<Longrightarrow> \<not> has_pps_nalu f \<Longrightarrow> vc_pps_nalu c = [] \<or> h264_type (hd (vc_pps_nalu c)) = 8 \<Longrightarrow>
    sets_lead (map view_bytes vs) \<Longrightarrow>
    \<exists>f' c'. scan_h264 vs (f, c) = Inr (with_sets (vc_sps_nalu c) (vc_pps_nalu c) (map view_bytes vs), f', c') \<and>
      (has_aud_nalu f' \<longleftrightarrow> has_aud_nalu f \<or> (\<exists>u\<in>set (map view_bytes vs). h264_type (hd u) = 9))"
proof (induction vs arbitrary: f)
  case Nil
  then show ?case by (simp add: with_sets_def)
next
  case (Cons v vs)
  let ?b = "view_bytes v" let ?t = "h264_type (hd ?b)"
  have v: "rd (snd v) 0 = Inr (hd ?b)" using Cons.prems by (simp add: view_ok_def)
  consider (idr) "?t = 5" | (set) "?t = 7 \<or> ?t = 8" | (other) "?t \<notin> {5, 7, 8}" by auto
  then show ?case
  proof cases
    case idr
    let ?f = "f\<lparr>has_sps_nalu := True, has_pps_nalu := True\<rparr>"
    let ?n = "note_h264 (if vc_pps_nalu c = [] then 0 else hd (vc_pps_nalu c)) (vc_pps_nalu c) (?f, c)"
    have n: "has_aud_nalu (fst ?n) = has_aud_nalu f" "has_sps_nalu (fst ?n)" "vc_sps_nalu (snd ?n) = vc_sps_nalu c" "vc_pps_nalu (snd ?n) = vc_pps_nalu c"
      using Cons.prems(4) by (auto simp: note_h264_def H264Codec_set_pps_def Let_def)
    have "\<forall>x\<in>set (map view_bytes vs). h264_type (hd x) \<notin> {7, 8}" using Cons.prems(5) idr by simp
    then obtain f' where "scan_h264 vs ?n = Inr (map view_bytes vs, f', snd ?n)"
        "has_aud_nalu f' \<longleftrightarrow> has_aud_nalu f \<or> (\<exists>u\<in>set (map view_bytes vs). h264_type (hd u) = 9)"
      using scan_h264_seen [of vs "fst ?n" "snd ?n"] n(1,2) Cons.prems(1) by auto
    with idr v n(3,4) Cons.prems(2,3) show ?thesis by (auto simp: with_sets_def Let_def)
  next
    case set
    then obtain f1 c1 where "note_h264 (hd ?b) ?b (f, c) = (f1, c1)" "has_sps_nalu f1 \<or> has_pps_nalu f1" "has_aud_nalu f1 = has_aud_nalu f"
      by (auto simp: note_h264_def)
    moreover obtain f' c' where "scan_h264 vs (f1, c1) = Inr (map view_bytes vs, f', c')"
        "has_aud_nalu f' \<longleftrightarrow> has_aud_nalu f1 \<or> (\<exists>u\<in>set (map view_bytes vs). h264_type (hd u) = 9)"
      using scan_h264_seen [of vs f1 c1] calculation Cons.prems(1) by auto
    ultimately show ?thesis using set v by (auto simp: with_sets_def Let_def)
  next
    case other
    let ?f1 = "if ?t = 9 then f\<lparr>has_aud_nalu := True\<rparr> else f"
    have "note_h264 (hd ?b) ?b (f, c) = (?f1, c)" "\<not> has_sps_nalu ?f1" "\<not> has_pps_nalu ?f1"
        "has_aud_nalu ?f1 \<longleftrightarrow> has_aud_nalu f \<or> ?t = 9"
      using other Cons.prems(2,3) by (simp_all add: note_h264_def)
    with other v Cons.IH [of ?f1] Cons.prems show ?thesis by (auto simp: with_sets_def Let_def)
  qed
qed

lemma reap_fields [simp]: "st_video_pid (reap conf b m st) = st_video_pid st" "st_PCR_PID (reap conf b m st) = st_PCR_PID st"
  "nalu_length_size_less_one (reap conf b m st) = nalu_length_size_less_one st" "b_video_codec (reap conf b m st) = b_video_codec st"
  "b_audio_codec (reap conf b m st) = b_audio_codec st" "st_audio_pid (reap conf b m st) = st_audio_pid st"
  "audio_pes_segs (reap conf b m st) = audio_pes_segs st" "audio_pes_len (reap conf b m st) = audio_pes_len st"
  "adts_header_index (reap conf b m st) = adts_header_index st"
  by (simp_all add: reap_def split: option.split)

lemma reap_seg: "(\<And>s. curr_seg st = Some s \<Longrightarrow> seg_good s) \<Longrightarrow> curr_seg (reap conf b m st) = Some s \<Longrightarrow> seg_good s"
  by (simp add: reap_def split: option.splits if_splits)



section \<open>What every run keeps\<close>

text \<open>Whatever is written, a segment only grows by whole packets.\<close>

definition grows :: "TsSegment \<Rightarrow> TsSegment \<Rightarrow> bool" where
  "grows s s' \<longleftrightarrow> seg_ok s' \<and> (\<exists>bs. seg_bytes s' = seg_bytes s @ bs)"

lemma alloc_grows: "seg_ok s \<Longrightarrow> alloc_ts_packet p s = Inr s' \<Longrightarrow> grows s s'"
proof -
  assume s: "seg_ok s" and a: "alloc_ts_packet p s = Inr s'"
  let ?q = "p @ replicate (188 - length p) 0"
  have p: "length p \<le> 188" using a by (simp add: alloc_ts_packet_def split: if_splits)
  then have "alloc_ts_packet ?q s = alloc_ts_packet p s" by (simp add: alloc_ts_packet_def)
  then show ?thesis using alloc_ok [OF s, of ?q] p a by (auto simp: grows_def)
qed

lemma grows_trans: "grows s s' \<Longrightarrow> grows s' s'' \<Longrightarrow> grows s s''"
  by (auto simp: grows_def)

lemma grows_good: "seg_good s \<Longrightarrow> grows s s' \<Longrightarrow> seg_good s'"
  unfolding seg_good_def grows_def by (metis append_assoc)

lemma ts_loop_grows: "seg_ok s \<Longrightarrow> ts_loop pid pcr n left segs c s = Inr (c', s') \<Longrightarrow> grows s s'"
proof (induction left arbitrary: segs c s rule: less_induct)
  case (less left)
  show ?case
  proof (cases "left = 0")
    case True
    with less.prems show ?thesis by (simp add: ts_loop.simps [of _ _ _ 0] grows_def)
  next
    case False
    let ?total = "if left < 184 then 2 + stuffing 2 left else if left = n \<and> pcr \<noteq> None then 8 + stuffing 8 left else 0"
    have "\<exists>rest p s1. alloc_ts_packet p s = Inr s1 \<and> ts_loop pid pcr n (left - (184 - ?total)) rest (c + 1) s1 = Inr (c', s')"
      using less.prems(2) [unfolded ts_loop.simps [of pid pcr n left segs c s]] False
      unfolding Let_def by (simp only: if_False bindR_eq_Inr_iff split_paired_Ex prod.case) blast
    then obtain rest p s1 where l: "alloc_ts_packet p s = Inr s1" "ts_loop pid pcr n (left - (184 - ?total)) rest (c + 1) s1 = Inr (c', s')"
      by blast
    have t: "left - (184 - ?total) < left" using False by (auto simp: stuffing_def)
    have "grows s s1" using alloc_grows [OF less.prems(1) l(1)] .
    moreover have "grows s1 s'" using less.IH [OF t _ l(2)] calculation by (simp add: grows_def)
    ultimately show ?thesis by (rule grows_trans)
  qed
qed

lemma create_ts_good:
  assumes "seg_good s" and "create_ts pid pcr n segs cc s = Inr (place, cc', s')"
  shows "seg_good s'"
proof -
  have "grows s s'" using assms by (auto simp: create_ts_def bindR_eq_Inr_iff seg_good_def dest: ts_loop_grows)
  then show ?thesis by (rule grows_good [OF assms(1)])
qed

text \<open>
  The invariant of the bridge: segments start with their tables, the pids are set with the codecs, the waiting audio is counted right,
  and there are at most as many ADTS headers as it has room for.
\<close>
definition bridge_ok :: "RtmpToTs \<Rightarrow> bool" where
  "bridge_ok st \<longleftrightarrow> (\<forall>s. curr_seg st = Some s \<longrightarrow> seg_good s) \<and> (\<forall>s. Segment s \<in> set (sent st) \<longrightarrow> seg_good s) \<and>
     length (concat (audio_pes_segs st)) = audio_pes_len st \<and> 7 * adts_header_index st \<le> audio_pes_len st \<and> audio_pes_len st < 1400"

lemma bridge_ok_new: "bridge_ok (RtmpToTs_new vt at)"
  by (simp add: bridge_ok_def RtmpToTs_new_def)

lemma bridge_ok_reap: "bridge_ok st \<Longrightarrow> m = set_reaped \<or> m = id \<Longrightarrow> bridge_ok (reap conf b m st)"
  by (auto simp: bridge_ok_def reap_def split: option.splits)

lemma bridge_ok_codec: "bridge_ok (st\<lparr>b_video_codec := x\<rparr>) = bridge_ok st" "bridge_ok (st\<lparr>b_audio_codec := y\<rparr>) = bridge_ok st"
  "bridge_ok (st\<lparr>nalu_length_size_less_one := k\<rparr>) = bridge_ok st" "bridge_ok (st\<lparr>b_audio_ready := r\<rparr>) = bridge_ok st"
  by (simp_all add: bridge_ok_def)

lemma bridge_ok_open: "bridge_ok st \<Longrightarrow> open_segment st = Inr (seg, st') \<Longrightarrow> bridge_ok st' \<and> seg_good seg"
  using open_segment_good [of st] by (auto simp: bridge_ok_def)

lemma bridge_ok_video:
  assumes "bridge_ok st" and "seg_good seg" and "send_video_pes time ct is_key nus seg st = Inr st'"
  shows "bridge_ok st'"
proof -
  obtain place cc seg' e where s: "create_video_ts (st_PCR_PID st) (st_video_pid st) (video_dts time) is_key
      (length (concat (video_pes_segs time ct nus))) (video_pes_segs time ct nus) (continuity_counter st) seg = Inr (place, cc, seg')"
      "st' = st\<lparr>continuity_counter := cc, curr_seg := Some (update_video_dts (uint (time + ct)) seg'), sent := sent st @ [Pes e]\<rparr>"
    using assms(3) by (auto simp: send_video_pes_def Let_def bindR_eq_Inr_iff)
  have "seg_good seg'" using assms(2) s(1) unfolding create_video_ts_def by (rule create_ts_good)
  then show ?thesis using assms(1) by (auto simp: s(2) bridge_ok_def)
qed

lemma bridge_ok_audio:
  assumes "seg_good seg" and "send_audio_pes dts time seg st = Inr st'" and "\<And>s. Segment s \<in> set (sent st) \<Longrightarrow> seg_good s"
  shows "bridge_ok (st'\<lparr>adts_header_index := 0\<rparr>)"
proof -
  obtain place cc seg' e where s: "create_audio_ts (st_audio_pid st) (audio_pes_len st + 14)
      (pes_header 0xc0 2 (pes_time 3 dts) (audio_pes_len st) # audio_pes_segs st) (continuity_counter st) seg = Inr (place, cc, seg')"
      "st' = st\<lparr>continuity_counter := cc, curr_seg := Some (update_audio_pts time seg'), sent := sent st @ [Pes e],
        audio_pes_segs := [], audio_pes_len := 0, audio_buf_timestamp := 0\<rparr>"
    using assms(2) by (auto simp: send_audio_pes_def Let_def bindR_eq_Inr_iff)
  have "seg_good seg'" using assms(1) s(1) unfolding create_audio_ts_def by (rule create_ts_good)
  then show ?thesis using assms(3) by (auto simp: s(2) bridge_ok_def)
qed

lemma h264_config_ok: "bridge_ok st \<Longrightarrow> h264_config mem c data st = Inr (ok, st') \<Longrightarrow> bridge_ok st'"
  by (auto simp: h264_config_def bindR_eq_Inr_iff bridge_ok_codec Let_def split: sum.splits fault.splits)

lemma process_h264_ok:
  assumes ok: "bridge_ok st" and p: "process_h264_packet j mem conf pkt c st = Inr (r, st')"
  shows "bridge_ok st'"
proof -
  obtain sf ft et fc where j: "j = (sf, ft, et, fc)" by (cases j)
  obtain payload where g: "get_using_data pkt = Inr payload" using p by (auto simp: process_h264_packet_def j bindR_eq_Inr_iff)
  obtain h n where d: "VideoTagHeader_decode payload (VideoTagHeader_new ft et fc) = (h, n)" by fastforce
  note p1 = p [unfolded process_h264_packet_def j g Let_def bindR.simps d prod.case]
  show ?thesis
  proof (cases "n < 0 \<or> VideoTagHeader_is_seq_header h")
    case True
    then show ?thesis using p1 ok h264_config_ok [OF ok] by (auto split: if_splits)
  next
    case False
    obtain seg st1 where o: "open_segment (reap conf (is_key_frame h) set_reaped st) = Inr (seg, st1)"
      using p1 False by (auto simp: bindR_eq_Inr_iff)
    have o1: "bridge_ok st1" "seg_good seg" using bridge_ok_open [OF _ o] bridge_ok_reap [OF ok] by auto
    show ?thesis using p1 False o o1
      by (auto simp: bindR_eq_Inr_iff bridge_ok_codec split: sum.splits fault.splits dest!: bridge_ok_video [rotated 2])
  qed
qed

lemma process_h265_ok:
  assumes ok: "bridge_ok st" and p: "process_h265_packet j mem conf pkt c st = Inr (r, st')"
  shows "bridge_ok st'"
proof -
  obtain sf ft et fc where j: "j = (sf, ft, et, fc)" by (cases j)
  obtain payload where g: "get_using_data pkt = Inr payload" using p by (auto simp: process_h265_packet_def j bindR_eq_Inr_iff)
  obtain h n where d: "VideoTagHeader_decode payload (VideoTagHeader_new ft et fc) = (h, n)" by fastforce
  note p1 = p [unfolded process_h265_packet_def j g Let_def bindR.simps d prod.case]
  show ?thesis
  proof (cases "n < 0 \<or> VideoTagHeader_is_seq_header h \<or> curr_seg st = None \<and> \<not> is_key_frame h")
    case True
    then show ?thesis using p1 ok by (auto simp: bridge_ok_codec split: if_splits prod.splits)
  next
    case False
    obtain seg st1 where o: "open_segment (reap conf (is_key_frame h) set_reaped st) = Inr (seg, st1)"
      using p1 False by (auto simp: bindR_eq_Inr_iff split: if_splits)
    have o1: "bridge_ok st1" "seg_good seg" using bridge_ok_open [OF _ o] bridge_ok_reap [OF ok] by auto
    show ?thesis using p1 False o o1
      by (auto simp: bindR_eq_Inr_iff bridge_ok_codec split: sum.splits fault.splits if_splits dest!: bridge_ok_video [rotated 2])
  qed
qed

text \<open>The end of an audio handler, from a state in which the waiting audio may be too long.\<close>
lemma flush_audio_ok:
  assumes ok: "\<And>s. curr_seg st = Some s \<Longrightarrow> seg_good s" "\<And>s. Segment s \<in> set (sent st) \<Longrightarrow> seg_good s"
    and o: "open_segment st = Inr (seg, st1)" and s: "send_audio_pes dts time seg st1 = Inr st2"
  shows "bridge_ok (st2\<lparr>adts_header_index := 0\<rparr>)"
proof -
  have "st1 = st\<lparr>curr_seg := Some seg\<rparr>" "seg_good seg" using open_segment_good [of st] ok(1) o by auto
  then show ?thesis using ok(2) s by (intro bridge_ok_audio) auto
qed

lemma process_aac_ok:
  assumes ok: "bridge_ok st" and p: "process_aac_packet j conf pkt cfg st = Inr (r, st')"
  shows "bridge_ok st'"
proof -
  obtain sf x where j: "j = (sf, x)" by (cases j)
  obtain payload where g: "get_using_data pkt = Inr payload" using p by (auto simp: process_aac_packet_def j bindR_eq_Inr_iff)
  obtain h n where d: "AudioTagHeader_decode payload (AudioTagHeader_new sf) = (h, n)" by fastforce
  note p1 = p [unfolded process_aac_packet_def j g Let_def bindR.simps d prod.case]
  have r: "bridge_ok (reap conf False id st)" using bridge_ok_reap [OF ok] by simp
  show ?thesis
  proof (cases "n < 0 \<or> AudioTagHeader_is_seq_header h \<or> \<not> b_audio_ready st")
    case True
    then show ?thesis using p1 ok by (auto simp: bridge_ok_codec split: if_splits sum.splits fault.splits prod.splits)
  next
    case False
    let ?data = "drop (nat n) payload" let ?st = "reap conf False id st"
    have r': "\<And>s. curr_seg ?st = Some s \<Longrightarrow> seg_good s" "\<And>s. Segment s \<in> set (sent ?st) \<Longrightarrow> seg_good s"
        "length (concat (audio_pes_segs st)) = audio_pes_len st" "7 * adts_header_index st \<le> audio_pes_len st"
      using r by (auto simp: bridge_ok_def)
    obtain cf where cf: "cfg = Some cf" using p1 False by (auto split: option.splits)
    show ?thesis
    proof (cases "aac_profile (audio_object_type cf)")
      case None
      then show ?thesis using p1 False cf r by auto
    next
      case (Some profile)
      let ?st1 = "?st\<lparr>audio_buf_timestamp := (if audio_pes_len st = 0 then sint (timestamp pkt) else audio_buf_timestamp ?st),
         adts_header_index := adts_header_index st + 1, audio_pes_segs := audio_pes_segs st @ [adts_header profile cf (7 + length ?data), ?data],
         audio_pes_len := audio_pes_len st + (7 + length ?data)\<rparr>"
      have l: "length (adts_header profile cf k) = 7" for k by (simp add: adts_header_def Let_def)
      show ?thesis
      proof (cases "audio_pes_len st + (7 + length ?data) < 1400")
        case True
        then have "st' = ?st1" using p1 False cf Some by (auto split: if_splits)
        then show ?thesis using True r' l by (auto simp: bridge_ok_def)
      next
        case big: False
        obtain seg st2 st3 where f: "open_segment ?st1 = Inr (seg, st2)" "send_audio_pes (of_int (audio_buf_timestamp st2 * 90)) (audio_buf_timestamp st2) seg st2 = Inr st3"
            "st' = st3\<lparr>adts_header_index := 0\<rparr>"
          using p1 False cf Some big by (auto simp: bindR_eq_Inr_iff split: if_splits)
        show ?thesis unfolding f(3) by (rule flush_audio_ok [OF _ _ f(1,2)]) (use r'(1,2) in auto)
      qed
    qed
  qed
qed

lemma choose_ok: "bridge_ok (snd (choose_video mem i st)) = bridge_ok st" "bridge_ok (snd (choose_audio k st)) = bridge_ok st"
  by (simp_all add: choose_video_def choose_audio_def use_video_def use_audio_def bridge_ok_def)

lemma bindR_keeps:
  assumes "bindR r f = Inr (b, st')" and "\<And>x y. r = Inr (x, y) \<Longrightarrow> P y" and "\<And>x y. P y \<Longrightarrow> f (x, y) = Inr (b, st') \<Longrightarrow> P st'"
  shows "P st'"
  using assms by (cases r) auto

lemma choose_keeps:
  "choose_video mem i st = (x, y) \<Longrightarrow> bridge_ok st \<Longrightarrow> bridge_ok y" "choose_audio k st = (x, y) \<Longrightarrow> bridge_ok st \<Longrightarrow> bridge_ok y"
  using choose_ok(1) [of mem i st] choose_ok(2) [of k st] by auto

lemma ts_metadata_ok:
  assumes ok: "bridge_ok st" and p: "ts_on_metadata mem msg st = Inr (r, st')"
  shows "bridge_ok st'"
proof (cases "RtmpMetaDataMessage_decode msg RtmpMetaDataMessage_new")
  case (Inl f)
  then show ?thesis using ok p by (auto simp: ts_on_metadata_def split: fault.splits)
next
  case (Inr mn)
  obtain m n where mn: "mn = (m, n)" by (cases mn)
  note p1 = p [unfolded ts_on_metadata_def Inr mn sum.case prod.case Let_def]
  let ?st = "st\<lparr>st_has_video := md_has_video m, st_has_audio := md_has_audio m\<rparr>"
  have s: "bridge_ok ?st" "bridge_ok (y\<lparr>st_PCR_PID := q\<rparr>) = bridge_ok y" for y q using ok by (simp_all add: bridge_ok_def)
  show ?thesis
  proof (cases "n = 0")
    case True
    then show ?thesis using p1 ok by simp
  next
    case False
    show ?thesis
      by (rule bindR_keeps [OF p1 [unfolded if_not_P [OF False]]], use s in \<open>auto split: if_splits option.splits intro: choose_keeps\<close>)
        (auto split: if_splits prod.splits dest: choose_keeps(2))
  qed
qed

lemma ts_video_ok:
  assumes ok: "bridge_ok st" and p: "ts_on_video_packet j mem conf msg st = Inr (r, st')"
  shows "bridge_ok st'"
  using p unfolding ts_on_video_packet_def
proof (rule bindR_keeps)
  show "bridge_ok y" if "(case b_video_codec st of None \<Rightarrow> (case j of (_, ft, et, fc) \<Rightarrow> bindR (get_using_data msg) (\<lambda>payload.
      Inr (choose_video mem (codec_id (fst (VideoTagHeader_decode payload (VideoTagHeader_new ft et fc)))) st))) | Some _ \<Rightarrow> Inr (True, st)) = Inr (x, y)" for x y
    using that ok by (auto simp: bindR_eq_Inr_iff split: option.splits prod.splits intro: choose_keeps)
qed (auto split: if_splits option.splits codec.splits intro: process_h264_ok process_h265_ok)

text \<open>The states of a bridge whose publisher does not announce MP3.\<close>
inductive ts_reaches :: "hls_config \<Rightarrow> RtmpToTs \<Rightarrow> bool" for conf where
  start: "ts_reaches conf (RtmpToTs_new vt at)"
| step: "ts_reaches conf st \<Longrightarrow> ts_on_rtmp_message j mem conf msg st = Inr (r, st') \<Longrightarrow> b_audio_codec st' \<noteq> Some MP3Codec \<Longrightarrow> ts_reaches conf st'"

lemma ts_reaches_ok: "ts_reaches conf st \<Longrightarrow> bridge_ok st \<and> b_audio_codec st \<noteq> Some MP3Codec"
proof (induction rule: ts_reaches.induct)
  case (start vt at)
  show ?case using bridge_ok_new [of vt at] by (simp add: RtmpToTs_new_def)
next
  case (step st j mem msg r st')
  have "bridge_ok st'" using step.IH step.hyps(2) unfolding ts_on_rtmp_message_def ts_on_audio_packet_def
    by (auto split: if_splits option.splits codec.splits intro: ts_video_ok ts_metadata_ok process_aac_ok)
  then show ?case using step.hyps(3) by simp
qed

text \<open>
  C13. In every state that a publisher without MP3 audio can bring the bridge into, the current segment and every segment handed over are
  whole packets that start with the two program tables, fewer than 1400 bytes of audio wait, counted exactly, and the index of the next
  ADTS header is inside the 200 reserved places: the unchecked index never leaves them.
\<close>
theorem ts_bridge_invariant:
  assumes "ts_reaches conf st"
  shows "(\<forall>s. curr_seg st = Some s \<or> Segment s \<in> set (sent st) \<longrightarrow> seg_good s) \<and>
    length (concat (audio_pes_segs st)) = audio_pes_len st \<and> audio_pes_len st < 1400 \<and> adts_header_index st < 200"
  using ts_reaches_ok [OF assms] by (auto simp: bridge_ok_def)


theorem ts_bridge_invariant_witness:
  "\<exists>st. ts_reaches \<lparr>ts_min_seg_dur = 1000, ts_max_seg_dur = 9000, ts_max_size = 100000\<rparr> st \<and> b_video_codec st \<noteq> None \<and>
    length (concat (audio_pes_segs st)) = audio_pes_len st \<and> audio_pes_len st < 1400 \<and> adts_header_index st < 200"
proof -
  let ?conf = "\<lparr>ts_min_seg_dur = 1000, ts_max_seg_dur = 9000, ts_max_size = 100000\<rparr>"
  let ?m = "(media_msg [0x17, 0, 0, 0, 0] 0)\<lparr>message_type_id := 9\<rparr>"
  have h: "VideoTagHeader_decode [0x17, 0, 0, 0, 0] (VideoTagHeader_new 0 0 0) = (\<lparr>frame_type = 1, codec_id = AVC, avc_packet_type = 0,
      composition_time = 0, is_extheader = False, ext_packet_type = 0, fourcc = 0, vh_size = 5\<rparr>, 5)"
    by (simp add: VideoTagHeader_decode_def VideoTagHeader_new_def get_be_def be_nat_def Let_def)
  have d: "get_using_data ?m = Inr [0x17, 0, 0, 0, 0]" using media_msg_data [of "[0x17, 0, 0, 0, 0]" 0] by (auto simp: get_using_data_def split: if_splits)
  obtain st where st: "ts_on_rtmp_message (0, 0, 0, 0) no_mem ?conf ?m (RtmpToTs_new 0 0) = Inr (False, st)" "b_video_codec st \<noteq> None"
      "b_audio_codec st = None"
    by (simp add: ts_on_rtmp_message_def ts_on_video_packet_def d h RTMP_VIDEO_def RTMP_AUDIO_def RtmpToTs_new_def choose_video_def use_video_def
        process_h264_packet_def h264_config_def VideoTagHeader_is_seq_header_def avcc_parse_def)
  then have r: "ts_reaches ?conf st" by (intro ts_reaches.step [OF ts_reaches.start st(1)]) simp
  with ts_bridge_invariant [OF r] st(2) show ?thesis by blast
qed

section \<open>The video parameter set\<close>

lemma scan_hevc_slices:
  assumes "\<forall>v\<in>set vs. view_ok v" and "\<forall>v\<in>set vs. drop_bit 1 (hd (view_bytes v)) AND 0x3f \<notin> {32, 33, 34}"
  shows "scan_hevc vs (f, c) =
    Inr (f\<lparr>seen_key := seen_key f \<or> (\<exists>v\<in>set vs. 16 \<le> drop_bit 1 (hd (view_bytes v)) AND 0x3f \<and> drop_bit 1 (hd (view_bytes v)) AND 0x3f \<le> 23)\<rparr>, c)"
  using assms
proof (induction vs arbitrary: f)
  case (Cons v vs)
  then show ?case by (auto simp: note_hevc_def Let_def view_ok_def)
qed simp


text \<open>
  C36. A key frame of HEVC video that does not carry its parameter sets makes the bridge read behind the stored video parameter set
  whenever that is two or more bytes shorter than the sequence parameter set: the inserted unit is a view of the first with the
  length of the second.
\<close>
theorem hevc_vps_overread:
  assumes msg: "get_using_data video_pkt = Inr payload" "VideoTagHeader_decode payload (VideoTagHeader_new ft et fc) = (h, consumed)"
      "0 \<le> consumed" "\<not> VideoTagHeader_is_seq_header h" "is_key_frame h"
    and units: "drop (nat consumed) payload = concat (map (unit_wire (nalu_length_size_less_one st)) us)"
      "\<And>u. u \<in> set us \<Longrightarrow> unit_ok (nalu_length_size_less_one st) u"
    and no_sets: "\<And>u. u \<in> set us \<Longrightarrow> drop_bit 1 (hd u) AND 0x3f \<notin> {32, 33, 34}"
    and key: "u \<in> set us" "16 \<le> drop_bit 1 (hd u) AND 0x3f" "drop_bit 1 (hd u) AND 0x3f \<le> 23"
    and seg: "\<And>s. curr_seg st = Some s \<Longrightarrow> seg_good s"
    and short: "length (vc_vps_nalu c) + 1 < length (vc_sps_nalu c)"
  shows "process_h265_packet (sf, ft, et, fc) mem conf video_pkt c st = Inl Oob"
proof -
  let ?k = "nalu_length_size_less_one st" and ?st = "reap conf True set_reaped st"
  let ?f = "\<lparr>seen_sps = False, seen_pps = False, seen_vps = False, seen_key = False\<rparr>"
  obtain vs where vs: "get_nalus ?k (drop (nat consumed) payload) = Inr vs" "map view_bytes vs = us" "\<forall>v\<in>set vs. view_ok v"
    using get_nalus_wire [of us ?k] units by auto
  have "\<forall>v\<in>set vs. drop_bit 1 (hd (view_bytes v)) AND 0x3f \<notin> {32, 33, 34}" using no_sets vs(2) by auto
  moreover have "\<exists>v\<in>set vs. 16 \<le> drop_bit 1 (hd (view_bytes v)) AND 0x3f \<and> drop_bit 1 (hd (view_bytes v)) AND 0x3f \<le> 23"
    using key vs(2) by auto
  ultimately have sc: "scan_hevc vs (?f, c) = Inr (?f\<lparr>seen_key := True\<rparr>, c)" by (simp add: scan_hevc_slices [OF vs(3)])
  obtain s where o: "open_segment ?st = Inr (s, ?st\<lparr>curr_seg := Some s\<rparr>)" using open_segment_good [of ?st] reap_seg [of st] seg by blast
  have "add_parameter_sets (?f\<lparr>seen_key := True\<rparr>) c us = Inl Oob" using short by (simp add: add_parameter_sets_def vps_view_def Let_def)
  then show ?thesis using msg vs(1,2) sc o by (simp add: process_h265_packet_def Let_def)
qed

theorem hevc_vps_overread_witness:
  "process_h265_packet (0, 0, 0, 0) no_mem \<lparr>ts_min_seg_dur = 1000, ts_max_seg_dur = 9000, ts_max_size = 100000\<rparr>
     (media_msg ([0x1c, 1, 0, 0, 0] @ unit_wire 3 [0x26, 1, 2]) 40)
     ((HevcCodec_new (fst no_mem) (snd no_mem))\<lparr>vc_vps_nalu := [0x40, 1], vc_sps_nalu := [0x42, 1, 2, 3]\<rparr>)
     (use_video 0x24 (new_hevc no_mem) (RtmpToTs_new 0 0)) = Inl Oob"
proof -
  let ?h = "\<lparr>frame_type = 1, codec_id = HEVC, avc_packet_type = 1, composition_time = 0, is_extheader = False, ext_packet_type = 0, fourcc = 0, vh_size = 5\<rparr>"
  have h: "VideoTagHeader_decode ([0x1c, 1, 0, 0, 0] @ unit_wire 3 [0x26, 1, 2]) (VideoTagHeader_new 0 0 0) = (?h, 5)"
    by (simp add: VideoTagHeader_decode_def VideoTagHeader_new_def get_be_def be_nat_def Let_def)
  show ?thesis
    by (rule hevc_vps_overread [OF media_msg_data(1) h, where us = "[[0x26, 1, 2]]" and u = "[0x26, 1, 2]"])
      (auto simp: VideoTagHeader_is_seq_header_def use_video_def RtmpToTs_new_def unit_ok_def HevcCodec_new_def is_key_frame_def)
qed

end
