(* ===== verification/Rtp.thy ===== *)
theory Rtp
  imports FlvTag "HOL-Library.Multiset"
begin

text \<open>
  RTP packets, \<^verbatim>\<open>libs/protocol/rtp\<close>: the header and its extension (\<^verbatim>\<open>rtp_header.h\<close>, \<^verbatim>\<open>rtp_header.cpp\<close>), packets
  (\<^verbatim>\<open>rtp_packet.cpp\<close>), the packers that cut NAL units into packets (\<^verbatim>\<open>rtp_packer.cpp\<close>), the description of a packet's payload
  (\<^verbatim>\<open>h264_rtp_pkt_info.cpp\<close>, \<^verbatim>\<open>h265_rtp_pkt_info.cpp\<close>) and the depacketizers, which collect the packets of one time stamp until
  the one with the marker arrives.
\<close>

section \<open>Headers\<close>

record RtpHeaderExtention =
  ext_profile :: u16
  ext_length :: u16
  header_extension :: bytes

text \<open>The content is copied but the bytes reported as used are only the four before it.\<close>
definition RtpHeaderExtention_decode :: "bytes \<Rightarrow> (RtpHeaderExtention \<times> nat) result" where
  "RtpHeaderExtention_decode data =
     (if length data < 2 then Inl (Rc (-1))
      else if length data - 2 < 2 then Inl (Rc (-2))
      else let n = get_be (take 2 (drop 2 data)) :: u16 in
        if length data - 4 < unat n * 4 then Inl (Rc (-3))
        else Inr (\<lparr>ext_profile = get_be (take 2 data), ext_length = n, header_extension = take (unat n * 4) (drop 4 data)\<rparr>, 4))"

record RtpHeader =
  csrc :: byte
  extension :: byte
  padding :: byte
  version :: byte
  pt :: byte
  marker :: byte
  seqnum :: u16
  rtp_timestamp :: u32
  ssrc :: u32
  csrcs :: "u32 list"
  rtp_header_extention :: "RtpHeaderExtention option"

fun read_csrcs :: "nat \<Rightarrow> bytes \<Rightarrow> (u32 list \<times> nat) result" where
  "read_csrcs 0 data = Inr ([], 0)"
| "read_csrcs (Suc n) data = (if length data < 4 then Inl (Rc (-5))
     else bindR (read_csrcs n (drop 4 data)) (\<lambda>(cs, c). Inr (get_be (take 4 data) # cs, 4 + c)))"

text \<open>Decoding into a new header.\<close>
definition RtpHeader_decode :: "bytes \<Rightarrow> (RtpHeader \<times> nat) result" where
  "RtpHeader_decode data =
     (if length data < 1 then Inl (Rc (-1))
      else if length data < 2 then Inl (Rc (-2))
      else if length data < 4 then Inl (Rc (-3))
      else if length data < 12 then Inl (Rc (-4))
      else let tmpv1 = data ! 0; tmpv2 = data ! 1; n = tmpv1 AND 0x0f; x = drop_bit 4 tmpv1 AND 1;
               h = \<lparr>csrc = n, extension = x, padding = drop_bit 5 tmpv1 AND 1, version = drop_bit 6 tmpv1 AND 3,
                 pt = tmpv2 AND 0x7f, marker = drop_bit 7 tmpv2 AND 1, seqnum = get_be (take 2 (drop 2 data)),
                 rtp_timestamp = get_be (take 4 (drop 4 data)), ssrc = get_be (take 4 (drop 8 data)), csrcs = [], rtp_header_extention = None\<rparr>
        in bindR (read_csrcs (unat n) (drop 12 data)) (\<lambda>(cs, c).
             let h = h\<lparr>csrcs := cs\<rparr> in
             if x = 0 then Inr (h, 12 + c)
             else bindR (orfail (-5) (RtpHeaderExtention_decode (drop (12 + c) data))) (\<lambda>(e, used).
               Inr (h\<lparr>rtp_header_extention := Some e\<rparr>, 12 + c + used))))"

text \<open>
  Each field is written before the room for the next one is tested. The extension is not written, and the list of sources is indexed
  without a test.
\<close>
fun put_csrcs :: "nat \<Rightarrow> u32 list \<Rightarrow> enc" where
  "put_csrcs 0 cs buf = Inr (0, buf)"
| "put_csrcs (Suc n) cs buf = (if length buf < 4 then Inl (Rc (-5))
     else bindR (rd cs 0) (\<lambda>c. bindR (put_csrcs n (tl cs) (drop 4 buf)) (\<lambda>(k, rest). Inr (4 + k, put_be 4 c @ rest))))"

definition RtpHeader_encode :: "RtpHeader \<Rightarrow> enc" where
  "RtpHeader_encode h buf =
     (if length buf < 1 then Inl (Rc (-1))
      else if length buf < 2 then Inl (Rc (-2))
      else if length buf < 4 then Inl (Rc (-3))
      else if length buf < 12 then Inl (Rc (-4))
      else bindR (put_csrcs (unat (csrc h)) (csrcs h) (drop 12 buf)) (\<lambda>(k, rest).
        Inr (12 + k, [push_bit 6 (version h) OR push_bit 5 (padding h) OR push_bit 4 (extension h) OR csrc h, push_bit 7 (marker h) OR pt h] @
          put_be 2 (seqnum h) @ put_be 4 (rtp_timestamp h) @ put_be 4 (ssrc h) @ rest)))"

text \<open>The tests by which a datagram is recognised; the second byte is read before the length is known to suffice.\<close>
definition is_rtcp_packet :: "bytes \<Rightarrow> bool" where
  "is_rtcp_packet data = (if length data < 2 then False
     else (12 \<le> length data \<and> data ! 0 AND 0xc0 = 0x80) \<and> (192 \<le> data ! 1 \<and> data ! 1 \<le> 223))"

definition is_rtp :: "bytes \<Rightarrow> bool result" where
  "is_rtp data = bindR (rd data 1) (\<lambda>b. Inr ((12 \<le> length data \<and> data ! 0 AND 0xc0 = 0x80) \<and> \<not> (192 \<le> b \<and> b \<le> 223)))"

definition parse_pt :: "bytes \<Rightarrow> byte result" where
  "parse_pt data = bindR (rd data 1) (\<lambda>b. Inr (b AND 0x7f))"

definition parse_ssrc :: "bytes \<Rightarrow> u32 result" where
  "parse_ssrc data = (if length data < 12 then Inl Oob else Inr (get_be (take 4 (drop 8 data))))"

section \<open>Packets\<close>

record RtpPacket =
  rtp_header :: RtpHeader
  rtp_payload :: bytes

definition RtpPacket_decode :: "bytes \<Rightarrow> (RtpPacket \<times> nat) result" where
  "RtpPacket_decode data = bindR (orfail (-1) (RtpHeader_decode data)) (\<lambda>(h, c).
     Inr (\<lparr>rtp_header = h, rtp_payload = drop c data\<rparr>, length data))"

definition RtpPacket_encode :: "RtpPacket \<Rightarrow> enc" where
  "RtpPacket_encode p buf = bindR (orfail (-1) (RtpHeader_encode (rtp_header p) buf)) (\<lambda>(c, buf).
     if length buf - c < length (rtp_payload p) then Inl (Rc (-2))
     else Inr (c + length (rtp_payload p), take c buf @ rtp_payload p @ drop (c + length (rtp_payload p)) buf))"

section \<open>Packing\<close>

text \<open>Sequence numbers run from 0 to 65534.\<close>
definition get_sequence_num :: "u16 \<Rightarrow> u16" where
  "get_sequence_num s = (let s = s + 1 in if 65535 \<le> s then 0 else s)"

text \<open>The header of a packet that is sent: payload type, time and source are the arguments of the packer.\<close>
record rtp_stream =
  s_pt :: byte
  s_pts :: u32
  s_ssrc :: u32

definition new_pkt :: "rtp_stream \<Rightarrow> byte \<Rightarrow> u16 \<Rightarrow> bytes \<Rightarrow> RtpPacket" where
  "new_pkt st m s data = \<lparr>rtp_header = \<lparr>csrc = 0, extension = 0, padding = 0, version = 2, pt = s_pt st, marker = m, seqnum = s,
     rtp_timestamp = s_pts st, ssrc = s_ssrc st, csrcs = [], rtp_header_extention = None\<rparr>, rtp_payload = data\<rparr>"

lemma new_pkt_simps [simp]: "rtp_payload (new_pkt st m s d) = d" "marker (rtp_header (new_pkt st m s d)) = m"
  "seqnum (rtp_header (new_pkt st m s d)) = s" "rtp_timestamp (rtp_header (new_pkt st m s d)) = s_pts st"
  by (simp_all add: new_pkt_def)

text \<open>Raw data in pieces of 1400 bytes: data of a multiple of that length gets no marker.\<close>
function pack_raw :: "rtp_stream \<Rightarrow> u16 \<Rightarrow> bytes \<Rightarrow> RtpPacket list \<times> u16" where
  "pack_raw st s data =
     (if data = [] then ([], s)
      else let s = get_sequence_num s in
        if length data < 1400 then ([new_pkt st 1 s data], s)
        else let (ps, s') = pack_raw st s (drop 1400 data) in (new_pkt st 0 s (take 1400 data) # ps, s'))"
  by pat_completeness auto
termination by (relation "measure (\<lambda>(_, _, data). length data)") auto

text \<open>
  The loop that fragments a unit. \<open>hdr\<close> gives the payload header of a fragment with the given start and end bits; the first fragment
  never gets the end bit.
\<close>
function pack_fu :: "(byte \<Rightarrow> bytes) \<Rightarrow> rtp_stream \<Rightarrow> bool \<Rightarrow> bool \<Rightarrow> u16 \<Rightarrow> bytes \<Rightarrow> RtpPacket list \<times> u16" where
  "pack_fu hdr st lst start s data =
     (if data = [] then ([], s)
      else let s = get_sequence_num s; final = (length data \<le> 1400);
               p = new_pkt st (if final \<and> lst then 1 else 0) s
                 (hdr (if start then 0x80 else if final then 0x40 else 0) @ take 1400 data);
               (ps, s') = pack_fu hdr st lst False s (drop 1400 data)
        in (p # ps, s'))"
  by pat_completeness auto
termination by (relation "measure (\<lambda>(_, _, _, _, _, data). length data)") auto

declare pack_raw.simps [simp del] pack_fu.simps [simp del]

lemma pack_fu_step:
  assumes "pack_fu hdr st lst start n data = (ps, n')" and "data \<noteq> []"
  obtains qs where "ps = new_pkt st (if length data \<le> 1400 \<and> lst then 1 else 0) (get_sequence_num n)
      (hdr (if start then 0x80 else if length data \<le> 1400 then 0x40 else 0) @ take 1400 data) # qs"
    "pack_fu hdr st lst False (get_sequence_num n) (drop 1400 data) = (qs, n')"
  using assms unfolding pack_fu.simps [of hdr st lst start n data] by (auto simp: Let_def split: prod.splits)

lemma pack_fu_Nil [simp]: "pack_fu hdr st lst start n [] = ([], n)"
  by (simp add: pack_fu.simps)

text \<open>The loop over the units; \<open>skip\<close> bytes of a fragmented unit's own header are replaced by the fragment header.\<close>
fun pack_units :: "(bytes \<Rightarrow> byte \<Rightarrow> bytes) \<Rightarrow> nat \<Rightarrow> rtp_stream \<Rightarrow> u16 \<Rightarrow> bytes list \<Rightarrow> RtpPacket list \<times> u16" where
  "pack_units hdr skip st s [] = ([], s)"
| "pack_units hdr skip st s (nalu # nalus) =
     (let lst = (nalus = []);
          (ps, s) = (if 1400 - 3 < length nalu then pack_fu (hdr nalu) st lst True s (drop skip nalu)
            else let s = get_sequence_num s in ([new_pkt st (if lst then 1 else 0) s nalu], s));
          (qs, s) = pack_units hdr skip st s nalus
      in (ps @ qs, s))"

definition h264_fu_header :: "bytes \<Rightarrow> byte \<Rightarrow> bytes" where
  "h264_fu_header nalu bits = [(hd nalu AND NOT 0x1f) OR 28, (hd nalu AND 0x1f) OR bits]"

definition RtpPacker_pack :: "rtp_stream \<Rightarrow> u16 \<Rightarrow> bytes list \<Rightarrow> RtpPacket list \<times> u16" where
  "RtpPacker_pack = pack_units h264_fu_header 1"

text \<open>Layer and temporal identifier of the unit are not kept.\<close>
definition h265_fu_header :: "bytes \<Rightarrow> byte \<Rightarrow> bytes" where
  "h265_fu_header nalu bits = [push_bit 1 49, 1, (drop_bit 1 (hd nalu) AND 0x3f) OR bits]"

definition H265RtpPacker_pack :: "rtp_stream \<Rightarrow> u16 \<Rightarrow> bytes list \<Rightarrow> RtpPacket list \<times> u16" where
  "H265RtpPacker_pack = pack_units h265_fu_header 2"

section \<open>Payload descriptions\<close>

record RtpPktInfo =
  info_nalu_type :: byte
  info_type :: byte
  start_bit :: byte
  end_bit :: byte

text \<open>A new description has no type; it is kept when the payload is too short.\<close>
definition RtpPktInfo_new :: "byte \<times> byte \<Rightarrow> RtpPktInfo" where
  "RtpPktInfo_new j = \<lparr>info_nalu_type = fst j, info_type = snd j, start_bit = 0, end_bit = 0\<rparr>"

definition H264RtpPktInfo_parse :: "bytes \<Rightarrow> RtpPktInfo \<Rightarrow> RtpPktInfo \<times> int" where
  "H264RtpPktInfo_parse data i =
     (if length data < 2 then (i, -1)
      else let i = i\<lparr>info_type := data ! 0 AND 0x1f\<rparr> in
        if info_type i = 28 then (i\<lparr>start_bit := drop_bit 7 (data ! 1) AND 1, end_bit := drop_bit 6 (data ! 1) AND 1,
          info_nalu_type := data ! 1 AND 0x1f\<rparr>, 2)
        else if info_type i = 24 then (i, 1)
        else if 1 \<le> info_type i \<and> info_type i \<le> 23 then (i\<lparr>info_nalu_type := info_type i\<rparr>, 1) else (i, 1))"

definition H265RtpPktInfo_parse :: "bytes \<Rightarrow> RtpPktInfo \<Rightarrow> RtpPktInfo \<times> int" where
  "H265RtpPktInfo_parse data i =
     (if length data < 3 then (i, -1)
      else let i = i\<lparr>info_type := drop_bit 1 (data ! 0) AND 0x3f\<rparr> in
        if info_type i = 49 then (i\<lparr>start_bit := drop_bit 7 (data ! 2) AND 1, end_bit := drop_bit 6 (data ! 2) AND 1,
          info_nalu_type := data ! 2 AND 0x3f\<rparr>, 3)
        else if info_type i = 50 then (i, -1)
        else if info_type i = 48 then (i, 2)
        else if info_type i \<le> 40 then (i\<lparr>info_nalu_type := info_type i\<rparr>, 2) else (i, 2))"

section \<open>Depacketizers\<close>

text \<open>A \<^verbatim>\<open>std::map\<close> from sequence numbers to packets: a list in the order of the numbers; insertion keeps what is there.\<close>
type_synonym rtp_pkts = "(u16 \<times> RtpPacket) list"

fun map_insert :: "u16 \<Rightarrow> RtpPacket \<Rightarrow> rtp_pkts \<Rightarrow> rtp_pkts" where
  "map_insert k p [] = [(k, p)]"
| "map_insert k p ((k', p') # m) = (if k < k' then (k, p) # (k', p') # m else if k = k' then (k', p') # m else (k', p') # map_insert k p m)"

text \<open>The packets that wait, by time stamp; a time stamp without packets has an empty map.\<close>
type_synonym depacketizer = "u32 \<Rightarrow> rtp_pkts"

definition on_packet :: "RtpPacket \<Rightarrow> depacketizer \<Rightarrow> rtp_pkts option \<times> depacketizer" where
  "on_packet p d = (let t = rtp_timestamp (rtp_header p); m = map_insert (seqnum (rtp_header p)) p (d t) in
     if marker (rtp_header p) = 1 then (Some m, d(t := [])) else (None, d(t := m)))"

text \<open>The one for HEVC ignores packets that it does not understand.\<close>
definition h265_on_packet :: "byte \<times> byte \<Rightarrow> RtpPacket \<Rightarrow> depacketizer \<Rightarrow> rtp_pkts option \<times> depacketizer" where
  "h265_on_packet j p d = (if snd (H265RtpPktInfo_parse (rtp_payload p) (RtpPktInfo_new j)) < 0 then (None, d) else on_packet p d)"

section \<open>A packet survives the wire\<close>

lemma byte_eqI: "(\<And>n. n \<in> {0, 1, 2, 3, 4, 5, 6, 7} \<Longrightarrow> bit a n \<longleftrightarrow> bit b n) \<Longrightarrow> a = (b :: byte)"
  by (rule bit_word_eqI) (auto simp: less_Suc_eq numeral_eq_Suc)

text \<open>Headers with fields in range.\<close>
definition fields_ok :: "RtpHeader \<Rightarrow> bool" where
  "fields_ok h \<longleftrightarrow> unat (csrc h) = length (csrcs h) \<and> unat (csrc h) < 2 ^ 4 \<and> unat (extension h) < 2 ^ 1 \<and> unat (padding h) < 2 ^ 1 \<and>
     unat (version h) < 2 ^ 2 \<and> unat (pt h) < 2 ^ 7 \<and> unat (marker h) < 2 ^ 1"

definition header_wire :: "RtpHeader \<Rightarrow> bytes" where
  "header_wire h = [push_bit 6 (version h) OR push_bit 5 (padding h) OR push_bit 4 (extension h) OR csrc h, push_bit 7 (marker h) OR pt h] @
     put_be 2 (seqnum h) @ put_be 4 (rtp_timestamp h) @ put_be 4 (ssrc h) @ concat (map (put_be 4) (csrcs h))"

lemma length_csrcs: "length (concat (map (put_be 4) cs)) = 4 * length cs" for cs :: "u32 list"
  by (induction cs) simp_all

lemma length_header_wire: "length (header_wire h) = 12 + 4 * length (csrcs h)"
  using length_csrcs [of "csrcs h"] by (simp add: header_wire_def del: length_concat)

lemma put_csrcs_writes: "4 * length cs \<le> length buf \<Longrightarrow>
  put_csrcs (length cs) cs buf = Inr (4 * length cs, concat (map (put_be 4) cs) @ drop (4 * length cs) buf)"
proof (induction cs arbitrary: buf)
  case (Cons c cs)
  then show ?case using Cons.IH [of "drop 4 buf"] by (simp add: rd_def add.commute)
qed simp

lemma read_csrcs_wire: "read_csrcs (length cs) (concat (map (put_be 4) cs) @ rest) = Inr (cs, 4 * length cs)"
  by (induction cs) simp_all

lemma header_encode_writes:
  assumes "unat (csrc h) = length (csrcs h)"
  shows "writes (RtpHeader_encode h) (header_wire h)"
proof (rule writesI)
  fix buf :: bytes
  assume l: "length (header_wire h) \<le> length buf"
  then have "put_csrcs (unat (csrc h)) (csrcs h) (drop 12 buf) =
      Inr (4 * length (csrcs h), concat (map (put_be 4) (csrcs h)) @ drop (4 * length (csrcs h)) (drop 12 buf))"
    unfolding assms by (intro put_csrcs_writes) (simp add: length_header_wire)
  then show "RtpHeader_encode h buf = Inr (length (header_wire h), header_wire h @ drop (length (header_wire h)) buf)"
    using l unfolding length_header_wire by (auto simp: RtpHeader_encode_def header_wire_def add.commute)
qed

lemma rtp_byte0:
  assumes "unat v < 2 ^ 2" "unat p < 2 ^ 1" "unat x < 2 ^ 1" "unat c < 2 ^ 4"
    and d: "d = push_bit 6 v OR push_bit 5 p OR push_bit 4 x OR (c :: byte)"
  shows "d AND 0xf = c" "drop_bit 4 d AND 1 = x" "drop_bit 5 d AND 1 = p" "drop_bit 6 d AND 3 = v"
  unfolding byte_masks d
  by (rule bit_word_eqI; auto simp: bit_simps bit_single simp del: push_bit_Suc dest: bit_below [OF assms(1)] bit_below [OF assms(2)] bit_below [OF assms(3)] bit_below [OF assms(4)])+

lemma rtp_byte1:
  assumes "unat m < 2 ^ 1" "unat p < 2 ^ 7" and d: "d = push_bit 7 m OR (p :: byte)"
  shows "d AND 0x7f = p" "drop_bit 7 d AND 1 = m"
proof -
  have m: "(0x7f :: byte) = mask 7" by (simp add: mask_eq_exp_minus_1)
  show "d AND 0x7f = p" "drop_bit 7 d AND 1 = m"
    unfolding m byte_masks d
    by (rule bit_word_eqI; auto simp: bit_simps simp del: push_bit_Suc dest: bit_below [OF assms(1)] bit_below [OF assms(2)])+
qed

text \<open>What the decoder makes of an encoded header; an extension is read from what follows.\<close>
lemma header_decode:
  assumes "fields_ok h"
  shows "RtpHeader_decode (header_wire h @ rest) =
    (if extension h = 0 then Inr (h\<lparr>rtp_header_extention := None\<rparr>, length (header_wire h))
     else bindR (orfail (-5) (RtpHeaderExtention_decode rest)) (\<lambda>(e, used).
       Inr (h\<lparr>rtp_header_extention := Some e\<rparr>, length (header_wire h) + used)))"
proof -
  define d0 where "d0 = push_bit 6 (version h) OR push_bit 5 (padding h) OR push_bit 4 (extension h) OR csrc h"
  define d1 where "d1 = push_bit 7 (marker h) OR pt h"
  let ?cs = "concat (map (put_be 4) (csrcs h))"
  have ok: "unat (csrc h) = length (csrcs h)" "unat (version h) < 2 ^ 2" "unat (padding h) < 2 ^ 1" "unat (extension h) < 2 ^ 1"
      "unat (csrc h) < 2 ^ 4" "unat (marker h) < 2 ^ 1" "unat (pt h) < 2 ^ 7"
    using assms unfolding fields_ok_def by blast+
  note b = rtp_byte0 [OF ok(2,3,4,5) d0_def] rtp_byte1 [OF ok(6,7) d1_def]
  have w: "header_wire h @ rest = d0 # d1 # put_be 2 (seqnum h) @ put_be 4 (rtp_timestamp h) @ put_be 4 (ssrc h) @ ?cs @ rest"
    by (simp add: header_wire_def d0_def d1_def)
  have d: "drop 12 (header_wire h @ rest) = ?cs @ rest" "drop (12 + 4 * length (csrcs h)) (header_wire h @ rest) = rest"
    using length_csrcs [of "csrcs h"] length_header_wire [of h] by (simp add: w del: length_concat, simp)
  have f: "(header_wire h @ rest) ! 0 = d0" "(header_wire h @ rest) ! 1 = d1" "take 2 (drop 2 (header_wire h @ rest)) = put_be 2 (seqnum h)"
      "take 4 (drop 4 (header_wire h @ rest)) = put_be 4 (rtp_timestamp h)" "take 4 (drop 8 (header_wire h @ rest)) = put_be 4 (ssrc h)"
    by (simp_all add: w)
  have l: "\<not> length (header_wire h @ rest) < 12" by (simp add: length_header_wire)
  show ?thesis
    unfolding RtpHeader_decode_def Let_def d(1) f b ok(1) read_csrcs_wire using l d(2)
    by (cases h) (simp add: length_header_wire)
qed


text \<open>
  A packet whose header fields are in range and that has no header extension survives the wire: it is encoded in 12 bytes, four per
  contributing source and its payload, and decoding these bytes gives it back.
\<close>
theorem rtp_packet_roundtrip:
  assumes "fields_ok (rtp_header p)" and "extension (rtp_header p) = 0" and "rtp_header_extention (rtp_header p) = None"
    and n: "n = 12 + 4 * length (csrcs (rtp_header p)) + length (rtp_payload p)" and "n \<le> length buf"
  shows "\<exists>out. RtpPacket_encode p buf = Inr (n, out) \<and> RtpPacket_decode (take n out) = Inr (p, n)"
proof -
  let ?h = "rtp_header p" let ?w = "header_wire ?h" let ?d = "rtp_payload p"
  have c: "unat (csrc ?h) = length (csrcs ?h)" using assms(1) by (simp add: fields_ok_def)
  have l: "length ?w + length ?d = n" "length ?w \<le> length buf" using assms(5) by (simp_all add: n length_header_wire)
  have "RtpHeader_encode ?h buf = Inr (length ?w, ?w @ drop (length ?w) buf)" by (rule writesD [OF header_encode_writes [OF c] l(2)])
  then have "RtpPacket_encode p buf = Inr (n, ?w @ ?d @ drop n buf)" using l assms(5) by (simp add: RtpPacket_encode_def)
  moreover have "RtpHeader_decode (?w @ ?d) = Inr (?h, length ?w)"
    using header_decode [OF assms(1), of ?d] assms(2,3) by (cases ?h) simp
  then have "RtpPacket_decode (take n (?w @ ?d @ drop n buf)) = Inr (p, n)" using l by (cases p) (simp add: RtpPacket_decode_def)
  ultimately show ?thesis by blast
qed

theorem rtp_packet_roundtrip_witness:
  "\<exists>out. RtpPacket_encode (new_pkt \<lparr>s_pt = 96, s_pts = 90000, s_ssrc = 7\<rparr> 1 5 [0x65, 1, 2]) (replicate 20 0) = Inr (15, out) \<and>
     RtpPacket_decode (take 15 out) = Inr (new_pkt \<lparr>s_pt = 96, s_pts = 90000, s_ssrc = 7\<rparr> 1 5 [0x65, 1, 2], 15)"
  by (rule rtp_packet_roundtrip) (simp_all add: new_pkt_def fields_ok_def)

text \<open>
  C37. The content of a header extension is not skipped: the decoder counts four bytes for the extension, so the payload of the decoded
  packet is the content of the extension followed by the payload that was sent.
\<close>
theorem rtp_extension_left_in_payload:
  assumes "fields_ok h" and "extension h = 1" and "length content = 4 * unat words"
  shows "\<exists>p. RtpPacket_decode (header_wire h @ put_be 2 profile @ put_be 2 (words :: u16) @ content @ payload) =
      Inr (p, 16 + 4 * length (csrcs h) + length content + length payload) \<and> rtp_payload p = content @ payload"
proof -
  let ?r = "put_be 2 profile @ put_be 2 words @ content @ payload"
  have "RtpHeaderExtention_decode ?r = Inr (\<lparr>ext_profile = get_be (put_be 2 profile), ext_length = words, header_extension = content\<rparr>, 4)"
    using assms(3) by (simp add: RtpHeaderExtention_decode_def Let_def)
  then have "RtpHeader_decode (header_wire h @ ?r) = Inr (h\<lparr>rtp_header_extention :=
      Some \<lparr>ext_profile = get_be (put_be 2 profile), ext_length = words, header_extension = content\<rparr>\<rparr>, length (header_wire h) + 4)"
    using header_decode [OF assms(1), of ?r] assms(2) by simp
  then show ?thesis by (simp add: RtpPacket_decode_def length_header_wire)
qed

theorem rtp_extension_left_in_payload_witness:
  "\<exists>p. RtpPacket_decode (header_wire ((rtp_header (new_pkt \<lparr>s_pt = 96, s_pts = 0, s_ssrc = 7\<rparr> 1 5 []))\<lparr>extension := 1\<rparr>) @
      put_be 2 (0xbede :: u16) @ put_be 2 (1 :: u16) @ [0x10, 0xff, 0, 0] @ [0x65, 1, 2]) = Inr (p, 23) \<and> rtp_payload p = [0x10, 0xff, 0, 0, 0x65, 1, 2]"
  using rtp_extension_left_in_payload [of "(rtp_header (new_pkt \<lparr>s_pt = 96, s_pts = 0, s_ssrc = 7\<rparr> 1 5 []))\<lparr>extension := 1\<rparr>"
    "[0x10, 0xff, 0, 0]" 1 "0xbede :: u16" "[0x65, 1, 2]"] by (simp add: fields_ok_def new_pkt_def)

section \<open>Collecting the packets of a time stamp\<close>

text \<open>The order of arrival does not matter: the map lists the packets by sequence number.\<close>

abbreviation keyed :: "RtpPacket list \<Rightarrow> rtp_pkts" where "keyed \<equiv> map (\<lambda>p. (seqnum (rtp_header p), p))"

lemma map_insert_set: "k \<notin> fst ` set m \<Longrightarrow> set (map_insert k p m) = insert (k, p) (set m)"
  by (induction m) (auto split: if_splits)

lemma map_insert_sorted: "sorted_wrt (<) (map fst m) \<Longrightarrow> k \<notin> fst ` set m \<Longrightarrow> sorted_wrt (<) (map fst (map_insert k p m))"
proof (induction m)
  case (Cons x m)
  then show ?case by (cases x, cases "k < fst x") (auto simp: map_insert_set intro: less_trans)
qed simp

definition collected :: "RtpPacket list \<Rightarrow> rtp_pkts" where
  "collected ps = fold (\<lambda>p. map_insert (seqnum (rtp_header p)) p) ps []"

lemma fold_map_insert:
  assumes "sorted_wrt (<) (map fst m)" and "distinct (map fst m @ map fst (keyed ps))"
  shows "sorted_wrt (<) (map fst (fold (\<lambda>p. map_insert (seqnum (rtp_header p)) p) ps m)) \<and>
    set (fold (\<lambda>p. map_insert (seqnum (rtp_header p)) p) ps m) = set m \<union> set (keyed ps)"
  using assms
proof (induction ps arbitrary: m)
  case (Cons p ps)
  let ?m = "map_insert (seqnum (rtp_header p)) p m"
  have n: "seqnum (rtp_header p) \<notin> fst ` set m" using Cons.prems(2) by auto
  have s: "set ?m = insert (seqnum (rtp_header p), p) (set m)" "sorted_wrt (<) (map fst ?m)"
    using map_insert_set [OF n] map_insert_sorted [OF Cons.prems(1) n] by simp_all
  have "distinct (map fst ?m @ map fst (keyed ps))"
    using Cons.prems(2) s s(2) [unfolded strict_sorted_iff] by (auto simp: image_iff)
  then show ?case using Cons.IH [OF s(2)] s(1) by auto
qed simp

lemma collected_sorted:
  assumes "sorted_wrt (<) (map (\<lambda>p. seqnum (rtp_header p)) ps)" and "mset qs = mset ps"
  shows "collected qs = keyed ps"
proof -
  have d: "distinct (map fst (keyed ps))" using assms(1) [unfolded strict_sorted_iff] by (simp add: comp_def)
  have "mset (map fst (keyed qs)) = mset (map fst (keyed ps))" by (simp only: mset_map assms(2))
  then have "distinct (map fst (keyed qs))" using d by (rule iffD2 [OF mset_eq_imp_distinct_iff])
  then have c: "sorted_wrt (<) (map fst (collected qs))" "set (collected qs) = set (keyed ps)"
    using fold_map_insert [of "[]" qs] mset_eq_setD [OF assms(2)] by (simp_all add: collected_def)
  have "map fst (collected qs) = map fst (keyed ps)"
  proof (rule sorted_distinct_set_unique)
    show "sorted (map fst (collected qs))" "distinct (map fst (collected qs))"
      using c(1) by (simp_all add: strict_sorted_iff)
    show "sorted (map fst (keyed ps))" "distinct (map fst (keyed ps))"
      using assms(1) d by (simp_all add: strict_sorted_iff comp_def)
    show "set (map fst (collected qs)) = set (map fst (keyed ps))" using c(2) by (simp add: image_image)
  qed
  then show ?thesis by (rule map_inj_on) (use c(2) d in \<open>simp add: distinct_map inj_on_def\<close>)
qed

end
