(* ===== verification/RtspBridge.thy ===== *)
theory RtspBridge
  imports Rtp MediaSources
begin

text \<open>
  The bridge from RTP packets to RTMP messages, \<^verbatim>\<open>live-server/bridge/rtsp/rtsp_to_rtmp.cpp\<close>: the packets of a time stamp, collected by a
  depacketizer, are joined to one frame in a cache of 1 MiB, and the frame goes to the RTMP source as a video message.
\<close>

section \<open>The frame cache\<close>

text \<open>The cache keeps what earlier frames left in it; \<open>fc_pos\<close> is the write pointer, which is moved without a test.\<close>
record frame_cache =
  fc_buf :: bytes
  fc_pos :: nat
  fc_key :: bool

definition cache_put :: "bytes \<Rightarrow> frame_cache \<Rightarrow> frame_cache result" where
  "cache_put bs f = (if fc_pos f + length bs \<le> length (fc_buf f)
     then Inr (f\<lparr>fc_buf := take (fc_pos f) (fc_buf f) @ bs @ drop (fc_pos f + length bs) (fc_buf f), fc_pos := fc_pos f + length bs\<rparr>)
     else Inl Oob)"

definition cache_skip :: "frame_cache \<Rightarrow> frame_cache" where
  "cache_skip f = f\<lparr>fc_pos := fc_pos f + 4\<rparr>"

definition cache_patch :: "nat \<Rightarrow> nat \<Rightarrow> frame_cache \<Rightarrow> frame_cache result" where
  "cache_patch at n f = (if at + 4 \<le> length (fc_buf f)
     then Inr (f\<lparr>fc_buf := take at (fc_buf f) @ put_be 4 (of_nat n :: u32) @ drop (at + 4) (fc_buf f)\<rparr>) else Inl Oob)"

definition note_key :: "bool \<Rightarrow> frame_cache \<Rightarrow> frame_cache" where
  "note_key k f = (if k then f\<lparr>fc_key := True\<rparr> else f)"

section \<open>Joining the packets of a frame\<close>

text \<open>
  The two routines for H.264 and HEVC differ in the description of a payload, its types, the length of the fragment header, how the
  unit header is made from it, and the types of a key frame.
\<close>
record unit_format =
  f_parse :: "bytes \<Rightarrow> RtpPktInfo \<Rightarrow> RtpPktInfo \<times> int"
  f_aggregate :: "byte \<Rightarrow> bool"
  f_single :: "byte \<Rightarrow> bool"
  f_fragment :: byte
  f_header :: nat
  f_unit_header :: "bytes \<Rightarrow> bytes"
  f_key :: "byte \<Rightarrow> bool"

definition h264_format :: unit_format where
  "h264_format = \<lparr>f_parse = H264RtpPktInfo_parse, f_aggregate = (\<lambda>t. t = 24), f_single = (\<lambda>t. 1 \<le> t \<and> t \<le> 23), f_fragment = 28, f_header = 2,
     f_unit_header = (\<lambda>p. [(p ! 0 AND 0xe0) OR (p ! 1 AND 0x1f)]), f_key = (\<lambda>t. t = 5)\<rparr>"

definition h265_format :: unit_format where
  "h265_format = \<lparr>f_parse = H265RtpPktInfo_parse, f_aggregate = (\<lambda>_. False), f_single = (\<lambda>t. t \<le> 40), f_fragment = 49, f_header = 3,
     f_unit_header = (\<lambda>p. [(p ! 0 AND 0x81) OR push_bit 1 (p ! 2 AND 0x3f), p ! 1]), f_key = (\<lambda>t. 16 \<le> t \<and> t \<le> 23)\<rparr>"

text \<open>The units of an aggregation packet. Neither their lengths nor the bytes for a length are tested.\<close>
function stap_units :: "bytes \<Rightarrow> frame_cache \<Rightarrow> frame_cache result" where
  "stap_units data f =
     (if data = [] then Inr f
      else if length data < 3 then Inl Oob
      else let n = be_nat (take 2 data) in
        if length data < 2 + n then Inl Oob
        else bindR (cache_put (put_be 4 (of_nat n :: u32) @ take n (drop 2 data)) (note_key (data ! 2 AND 0x1f = 5) f)) (stap_units (drop (2 + n) data)))"
  by pat_completeness auto
termination by (relation "measure (\<lambda>(data, _). length data)") auto

declare stap_units.simps [simp del]

text \<open>One fragment: the first one brings the header of the unit. The length of a payload that is too short wraps around.\<close>
definition fu_piece :: "unit_format \<Rightarrow> RtpPktInfo \<Rightarrow> bytes \<Rightarrow> frame_cache \<Rightarrow> (frame_cache \<times> nat) result" where
  "fu_piece F i p f =
     (if length p < f_header F then Inl Oob
      else let bs = (if start_bit i \<noteq> 0 then f_unit_header F p else []) @ drop (f_header F) p in
        bindR (cache_put bs (note_key (start_bit i \<noteq> 0 \<and> f_key F (info_nalu_type i)) f)) (\<lambda>f. Inr (f, length bs)))"

text \<open>
  The loop over fragments from a packet with a start bit on. It gives the packet it stands at and the packets after it, None when it has
  passed the last one. The length of the unit is filled in only at an end bit.
\<close>
fun fu_loop :: "unit_format \<Rightarrow> nat \<Rightarrow> nat \<Rightarrow> RtpPktInfo \<Rightarrow> RtpPacket \<Rightarrow> RtpPacket list \<Rightarrow> frame_cache \<Rightarrow>
    (RtpPacket \<times> RtpPacket list option \<times> frame_cache) result" where
  "fu_loop F at n i p rest f = bindR (fu_piece F i (rtp_payload p) f) (\<lambda>(f, k).
     if end_bit i \<noteq> 0 then bindR (cache_patch at (n + k) f) (\<lambda>f. Inr (p, Some rest, f))
     else case rest of [] \<Rightarrow> Inr (p, None, f)
       | q # rest \<Rightarrow> let i = fst (f_parse F (rtp_payload q) i) in
           if info_type i = f_fragment F then fu_loop F at (n + k) i q rest f else Inr (q, Some rest, f))"

declare fu_loop.simps [simp del]

lemma fu_loop_rest: "fu_loop F at n i p rest f = Inr (q, Some rest', f') \<Longrightarrow> length rest' \<le> length rest"
proof (induction rest arbitrary: n i p f)
  case Nil
  then show ?case by (subst (asm) fu_loop.simps) (auto simp: bindR_eq_Inr_iff split: if_splits)
next
  case (Cons r rest)
  from Cons.prems show ?case
    by (subst (asm) fu_loop.simps) (auto simp: bindR_eq_Inr_iff Let_def split: if_splits dest!: Cons.IH)
qed

text \<open>
  The loop over the packets of a frame, in the order of their numbers; True when one with the marker has been reached. A packet that
  ends the loop over fragments is neither used nor looked at again, and the iterator is moved past the end when there is none.
\<close>
function join_packets :: "unit_format \<Rightarrow> byte \<times> byte \<Rightarrow> RtpPacket list \<Rightarrow> frame_cache \<Rightarrow> (bool \<times> frame_cache) result" where
  "join_packets F j [] f = Inr (False, f)"
| "join_packets F j (p # ps) f =
     (let i = fst (f_parse F (rtp_payload p) (RtpPktInfo_new j)); data = rtp_payload p; go_on = (\<lambda>q rest f.
        if marker (rtp_header q) = 1 then Inr (True, f) else rest f) in
      if f_aggregate F (info_type i) then bindR (stap_units (drop 1 data) f) (go_on p (join_packets F j ps))
      else if f_single F (info_type i) then
        bindR (cache_put (put_be 4 (of_nat (length data) :: u32) @ data) (note_key (f_key F (info_nalu_type i)) f)) (go_on p (join_packets F j ps))
      else if info_type i = f_fragment F then
        bindR (if start_bit i \<noteq> 0 then fu_loop F (fc_pos f) 0 i p ps (cache_skip f) else Inr (p, Some ps, cache_skip f)) (\<lambda>(q, rest, f).
          go_on q (\<lambda>f. case rest of None \<Rightarrow> Inl Oob | Some rest \<Rightarrow> join_packets F j rest f) f)
      else join_packets F j ps f)"
  by pat_completeness auto
termination
  by (relation "measure (\<lambda>(_, _, ps, _). length ps)") (auto split: if_splits dest!: fu_loop_rest)


declare join_packets.simps [simp del]

section \<open>Messages\<close>

abbreviation (input) RTMP_VIDEO_TAG :: byte where "RTMP_VIDEO_TAG \<equiv> 9"

text \<open>The state of the bridge; the frame rate is kept as a fraction.\<close>
record RtspToRtmp =
  r_video_codec :: "codec option"
  rtp_h264_depacketizer :: depacketizer
  rtp_h265_depacketizer :: depacketizer
  video_frame_cache :: bytes
  first_rtp_video_ts :: u32
  video_fps :: "nat \<times> nat"
  video_dts_ms :: u32
  rtmp_media_source :: "RtmpMessage MediaSource"

text \<open>
  A key frame sets the decoding time, another frame adds the frame duration to it. The sum is a floating point number that is cut to an
  integer; it is computed exactly here. A frame rate of zero gives an infinite sum, whose conversion is undefined.
\<close>
definition frame_times :: "u32 \<Rightarrow> bool \<Rightarrow> RtspToRtmp \<Rightarrow> (u32 \<times> u32) result" where
  "frame_times t is_key st =
     (if is_key then Inr (t, 0)
      else case video_fps st of (n, d) \<Rightarrow> if n = 0 then Inl Oob
        else let dts = of_nat ((unat (video_dts_ms st) * n + 1000 * d) div n) in Inr (dts, t - dts))"

definition h264_header :: "junk \<Rightarrow> bool \<Rightarrow> u32 \<Rightarrow> VideoTagHeader" where
  "h264_header j is_key ct = (case j of (_, ft, et, fc) \<Rightarrow>
     (VideoTagHeader_new ft et fc)\<lparr>frame_type := (if is_key then 1 else 2), codec_id := AVC, avc_packet_type := 1, composition_time := ct\<rparr>)"

definition h265_header :: "junk \<Rightarrow> bool \<Rightarrow> u32 \<Rightarrow> VideoTagHeader" where
  "h265_header j is_key ct = (case j of (_, ft, et, fc) \<Rightarrow>
     (VideoTagHeader_new ft et fc)\<lparr>frame_type := (if is_key then 1 else 2), codec_id := HEVC, avc_packet_type := 1, is_extheader := True,
       ext_packet_type := PacketTypeCodedFrames, fourcc := HEVC_FOURCC, composition_time := ct\<rparr>)"

definition video_message :: "(nat \<Rightarrow> byte) \<Rightarrow> u32 \<Rightarrow> nat \<Rightarrow> RtmpMessage" where
  "video_message mem t n = (RtmpMessage_new mem n)\<lparr>message_stream_id := 0, chunk_stream_id := 8, message_type_id := RTMP_VIDEO_TAG, timestamp := t\<rparr>"

text \<open>The frame is copied behind the room of the header, then the header is written in front of it.\<close>
definition h264_message :: "junk \<Rightarrow> (nat \<Rightarrow> byte) \<Rightarrow> u32 \<Rightarrow> bool \<Rightarrow> u32 \<Rightarrow> bytes \<Rightarrow> RtmpMessage result" where
  "h264_message j mem t is_key ct frame =
     (let m = video_message mem t (length frame + 5) in
      bindR (TAGDATA_encode (VIDEODATA (h264_header j is_key ct) frame None None) (take 5 (data_buf m) @ frame)) (\<lambda>(_, buf).
        Inr (inc_used_bytes (length frame + 5) (m\<lparr>data_buf := buf\<rparr>))))"

definition h265_message :: "junk \<Rightarrow> (nat \<Rightarrow> byte) \<Rightarrow> u32 \<Rightarrow> bool \<Rightarrow> u32 \<Rightarrow> bytes \<Rightarrow> RtmpMessage result" where
  "h265_message j mem t is_key ct frame =
     (let m = video_message mem t (8 + length frame) in
      bindR (VideoTagHeader_encode (h265_header j is_key ct) (data_buf m)) (\<lambda>(k, buf).
        Inr (inc_used_bytes (k + length frame) (m\<lparr>data_buf := take k buf @ frame @ drop (k + length frame) buf\<rparr>))))"

definition generate_message :: "unit_format \<Rightarrow> (bool \<Rightarrow> u32 \<Rightarrow> bytes \<Rightarrow> RtmpMessage result) \<Rightarrow> byte \<times> byte \<Rightarrow> u32 \<Rightarrow> rtp_pkts \<Rightarrow> RtspToRtmp \<Rightarrow>
    (RtmpMessage option \<times> RtspToRtmp) result" where
  "generate_message F msg j t m st =
     bindR (join_packets F j (map snd m) \<lparr>fc_buf = video_frame_cache st, fc_pos = 0, fc_key = False\<rparr>) (\<lambda>(marked, f).
       let st = st\<lparr>video_frame_cache := fc_buf f\<rparr> in
       if \<not> marked then Inr (None, st)
       else bindR (frame_times t (fc_key f) st) (\<lambda>(dts, ct).
         if length (fc_buf f) < fc_pos f then Inl Oob
         else bindR (msg (fc_key f) ct (take (fc_pos f) (fc_buf f))) (\<lambda>video_msg. Inr (Some video_msg, st\<lparr>video_dts_ms := dts\<rparr>))))"

definition generate_h264_rtmp_message :: "junk \<Rightarrow> (nat \<Rightarrow> byte) \<Rightarrow> byte \<times> byte \<Rightarrow> u32 \<Rightarrow> rtp_pkts \<Rightarrow> RtspToRtmp \<Rightarrow> (RtmpMessage option \<times> RtspToRtmp) result" where
  "generate_h264_rtmp_message j mem i t = generate_message h264_format (h264_message j mem t) i t"

definition generate_h265_rtmp_message :: "junk \<Rightarrow> (nat \<Rightarrow> byte) \<Rightarrow> byte \<times> byte \<Rightarrow> u32 \<Rightarrow> rtp_pkts \<Rightarrow> RtspToRtmp \<Rightarrow> (RtmpMessage option \<times> RtspToRtmp) result" where
  "generate_h265_rtmp_message j mem i t = generate_message h265_format (h265_message j mem t) i t"

section \<open>Packets\<close>

text \<open>A frame that is complete becomes a message, and the message goes to the source, whose answer is ignored.\<close>
definition rtp_deliver :: "(u32 \<Rightarrow> rtp_pkts \<Rightarrow> RtspToRtmp \<Rightarrow> (RtmpMessage option \<times> RtspToRtmp) result) \<Rightarrow> junk \<Rightarrow> fresh \<Rightarrow>
    rtp_pkts option \<Rightarrow> RtspToRtmp \<Rightarrow> RtspToRtmp result" where
  "rtp_deliver gen j mem nalu st = (case nalu of None \<Rightarrow> Inr st
     | Some m \<Rightarrow> let t = (case m of [] \<Rightarrow> 0 | (_, p) # _ \<Rightarrow> rtp_timestamp (rtp_header p)) in
         bindR (gen ((t - first_rtp_video_ts st) div 90) m st) (\<lambda>(msg, st). case msg of None \<Rightarrow> Inr st
           | Some video_msg \<Rightarrow> bindR (rtmp_on_video_packet j mem video_msg (rtmp_media_source st)) (\<lambda>(_, s). Inr (st\<lparr>rtmp_media_source := s\<rparr>))))"

definition rtsp_h264_packet :: "junk \<Rightarrow> fresh \<Rightarrow> byte \<times> byte \<Rightarrow> RtpPacket \<Rightarrow> RtspToRtmp \<Rightarrow> RtspToRtmp result" where
  "rtsp_h264_packet j mem i p st = (case on_packet p (rtp_h264_depacketizer st) of (nalu, d) \<Rightarrow>
     rtp_deliver (generate_h264_rtmp_message j (fst mem) i) j mem nalu (st\<lparr>rtp_h264_depacketizer := d\<rparr>))"

definition rtsp_h265_packet :: "junk \<Rightarrow> fresh \<Rightarrow> byte \<times> byte \<Rightarrow> RtpPacket \<Rightarrow> RtspToRtmp \<Rightarrow> RtspToRtmp result" where
  "rtsp_h265_packet j mem i p st = (case h265_on_packet i p (rtp_h265_depacketizer st) of (nalu, d) \<Rightarrow>
     rtp_deliver (generate_h265_rtmp_message j (fst mem) i) j mem nalu (st\<lparr>rtp_h265_depacketizer := d\<rparr>))"

definition process_video_packet :: "junk \<Rightarrow> fresh \<Rightarrow> byte \<times> byte \<Rightarrow> RtpPacket \<Rightarrow> RtspToRtmp \<Rightarrow> RtspToRtmp result" where
  "process_video_packet j mem i p st = (case r_video_codec st of Some (VideoH264 _) \<Rightarrow> rtsp_h264_packet j mem i p st
     | Some (VideoHevc _) \<Rightarrow> rtsp_h265_packet j mem i p st | _ \<Rightarrow> Inr st)"

fun process_video_packets :: "junk \<Rightarrow> fresh \<Rightarrow> byte \<times> byte \<Rightarrow> RtpPacket list \<Rightarrow> RtspToRtmp \<Rightarrow> RtspToRtmp result" where
  "process_video_packets j mem i [] st = Inr st"
| "process_video_packets j mem i (p # ps) st = bindR (process_video_packet j mem i p st) (process_video_packets j mem i ps)"

text \<open>The callback of the sink: the first time stamp that is not zero becomes the origin.\<close>
definition on_video_pkts :: "junk \<Rightarrow> fresh \<Rightarrow> byte \<times> byte \<Rightarrow> RtpPacket list \<Rightarrow> RtspToRtmp \<Rightarrow> RtspToRtmp result" where
  "on_video_pkts j mem i ps st = process_video_packets j mem i ps
     (if first_rtp_video_ts st = 0 \<and> ps \<noteq> [] then st\<lparr>first_rtp_video_ts := rtp_timestamp (rtp_header (hd ps))\<rparr> else st)"


section \<open>What the cache holds\<close>

definition holds :: "frame_cache \<Rightarrow> bytes \<Rightarrow> bool" where
  "holds f w \<longleftrightarrow> fc_pos f = length w \<and> (\<exists>r. fc_buf f = w @ r)"

lemma holds_note [simp]: "holds (note_key k f) w = holds f w" "fc_key (note_key k f) \<longleftrightarrow> fc_key f \<or> k" "fc_buf (note_key k f) = fc_buf f"
  by (simp_all add: holds_def note_key_def)

lemma holds_take: "holds f w \<Longrightarrow> take (fc_pos f) (fc_buf f) = w \<and> \<not> length (fc_buf f) < fc_pos f"
  by (auto simp: holds_def)

lemma holds_put:
  assumes "holds f w" and "length w + length bs \<le> length (fc_buf f)"
  obtains f' where "cache_put bs f = Inr f'" "holds f' (w @ bs)" "length (fc_buf f') = length (fc_buf f)" "fc_key f' = fc_key f"
  using assms by (auto simp: holds_def cache_put_def)

lemma holds_skip:
  assumes "holds f w" and "length w + 4 \<le> length (fc_buf f)"
  obtains x where "length x = 4" "holds (cache_skip f) (w @ x)" "length (fc_buf (cache_skip f)) = length (fc_buf f)" "fc_key (cache_skip f) = fc_key f"
proof -
  obtain r where r: "fc_buf f = w @ r" "fc_pos f = length w" "4 \<le> length r" using assms by (auto simp: holds_def)
  then have "fc_buf f = (w @ take 4 r) @ drop 4 r" by simp
  then have "holds (cache_skip f) (w @ take 4 r)" using r by (auto simp: holds_def cache_skip_def simp del: append_take_drop_id append_assoc)
  then show ?thesis using r that [of "take 4 r"] by (simp add: cache_skip_def)
qed

lemma holds_patch:
  assumes "holds f (w @ x @ d)" and "length x = 4"
  obtains f' where "cache_patch (length w) n f = Inr f'" "holds f' (w @ put_be 4 (of_nat n :: u32) @ d)" "length (fc_buf f') = length (fc_buf f)"
    "fc_key f' = fc_key f"
  using assms by (auto simp: holds_def cache_patch_def)

section \<open>Units packed and joined\<close>

text \<open>The units of a frame as an RTMP message carries them.\<close>
definition length_prefixed :: "bytes list \<Rightarrow> bytes" where
  "length_prefixed us = concat (map (\<lambda>u. put_be 4 (of_nat (length u) :: u32) @ u) us)"

text \<open>The sizes that survive: one packet, or at least two fragments.\<close>
definition packable :: "nat \<Rightarrow> bytes \<Rightarrow> bool" where
  "packable skip u \<longleftrightarrow> length u \<le> 1397 \<or> 1400 + skip < length u"

text \<open>
  What the packer and the routine that joins packets have to agree on: how a unit that fits is described, how a fragment is, and how the
  header of the unit is made again.
\<close>
locale fragment_format =
  fixes F :: unit_format and hdr :: "bytes \<Rightarrow> byte \<Rightarrow> bytes" and skip :: nat and ok :: "bytes \<Rightarrow> bool" and utype :: "bytes \<Rightarrow> byte"
  assumes single: "ok u \<Longrightarrow> length u \<le> 1397 \<Longrightarrow> i = fst (f_parse F u (RtpPktInfo_new j)) \<Longrightarrow>
      \<not> f_aggregate F (info_type i) \<and> f_single F (info_type i) \<and> info_nalu_type i = utype u"
    and fragment: "ok u \<Longrightarrow> 1397 < length u \<Longrightarrow> bits \<in> {0x80, 0x40, 0} \<Longrightarrow> i = fst (f_parse F (hdr u bits @ d) i0) \<Longrightarrow>
      info_type i = f_fragment F \<and> (start_bit i \<noteq> 0 \<longleftrightarrow> bits = 0x80) \<and> (end_bit i \<noteq> 0 \<longleftrightarrow> bits = 0x40) \<and> info_nalu_type i = utype u"
    and kinds: "\<not> f_aggregate F (f_fragment F)" "\<not> f_single F (f_fragment F)"
    and header: "length (hdr u bits) = f_header F"
    and unit_header: "ok u \<Longrightarrow> 1397 < length u \<Longrightarrow> f_unit_header F (hdr u 0x80 @ d) = take skip u"
begin

lemma piece:
  assumes "ok u" "1397 < length u" "bits \<in> {0x80, 0x40, 0}" and bs: "bs = (if bits = 0x80 then take skip u else []) @ d"
  shows "fu_piece F (fst (f_parse F (hdr u bits @ d) i)) (hdr u bits @ d) f =
    bindR (cache_put bs (note_key (bits = 0x80 \<and> f_key F (utype u)) f)) (\<lambda>f. Inr (f, length bs))"
proof -
  let ?i = "fst (f_parse F (hdr u bits @ d) i)"
  note i = fragment [OF assms(1-3) refl, of d i]
  have b: "(if start_bit ?i \<noteq> 0 then f_unit_header F (hdr u bits @ d) else []) @ drop (f_header F) (hdr u bits @ d) = bs"
    using i unit_header [OF assms(1,2)] header [of u bits] by (auto simp: bs)
  show ?thesis unfolding fu_piece_def Let_def b using i header [of u bits] by auto
qed

lemma tail_fragments:
  assumes "ok u" "1397 < length u" "data \<noteq> []" "pack_fu (hdr u) s lst False n data = (ps, n')" "holds f (w @ x @ d0)" "length x = 4"
    "length w + 4 + length d0 + length data \<le> length (fc_buf f)"
  shows "\<exists>p qs q f'. ps = p # qs \<and> (\<forall>i. info_type (fst (f_parse F (rtp_payload p) i)) = f_fragment F \<and>
      fu_loop F (length w) (length d0) (fst (f_parse F (rtp_payload p) i)) p (qs @ rest) f = Inr (q, Some rest, f')) \<and>
    (marker (rtp_header q) = 1 \<longleftrightarrow> lst) \<and> holds f' (w @ put_be 4 (of_nat (length d0 + length data) :: u32) @ d0 @ data) \<and>
    length (fc_buf f') = length (fc_buf f) \<and> fc_key f' = fc_key f"
  using assms(3-7)
proof (induction data arbitrary: n ps f d0 rule: length_induct)
  case (1 data)
  let ?s = "get_sequence_num n" and ?final = "length data \<le> 1400"
  let ?bits = "if ?final then 0x40 else 0 :: byte" let ?d = "take 1400 data"
  let ?p = "new_pkt s (if ?final \<and> lst then 1 else 0) ?s (hdr u ?bits @ ?d)"
  obtain qs where qs: "pack_fu (hdr u) s lst False ?s (drop 1400 data) = (qs, n')" "ps = ?p # qs"
    by (rule pack_fu_step [OF "1.prems"(2,1)]) simp
  have bits: "?bits \<in> {0x80, 0x40, 0}" "?bits \<noteq> 0x80" by auto
  note pc = piece [OF assms(1,2) bits(1) refl, of ?d, unfolded if_not_P [OF bits(2)] append_Nil]
  note fr = fragment [OF assms(1,2) bits(1) refl, of ?d]
  obtain f1 where f1: "cache_put ?d (note_key (?bits = 0x80 \<and> f_key F (utype u)) f) = Inr f1" "holds f1 (w @ x @ d0 @ ?d)"
      "length (fc_buf f1) = length (fc_buf f)" "fc_key f1 = fc_key f"
    by (rule holds_put [of "note_key (?bits = 0x80 \<and> f_key F (utype u)) f" "w @ x @ d0" ?d]) (use "1.prems"(3-5) bits(2) in auto)
  have pl: "rtp_payload ?p = hdr u ?bits @ ?d" by (simp add: new_pkt_def)
  show ?case
  proof (cases ?final)
    case True
    then have q: "qs = []" "?d = data" using qs(1) by simp_all
    obtain f2 where f2: "cache_patch (length w) (length d0 + length data) f1 = Inr f2"
        "holds f2 (w @ put_be 4 (of_nat (length d0 + length data) :: u32) @ d0 @ data)" "length (fc_buf f2) = length (fc_buf f1)" "fc_key f2 = fc_key f1"
      using holds_patch [of f1 w x "d0 @ data" "length d0 + length data"] f1(2) q(2) "1.prems"(4) by auto
    have "fu_loop F (length w) (length d0) (fst (f_parse F (rtp_payload ?p) i)) ?p (qs @ rest) f = Inr (?p, Some rest, f2)" for i
      using pc [of i f] fr [of i] f1(1) f2(1) q True unfolding pl by (subst fu_loop.simps) (simp add: new_pkt_def)
    then show ?thesis using qs(2) fr f2 f1(3,4) True unfolding pl by (intro exI [of _ ?p] exI [of _ qs] exI [of _ f2]) (auto simp: new_pkt_def)
  next
    case False
    have r: "drop 1400 data \<noteq> []" "length (drop 1400 data) < length data" using False by auto
    have l: "length ?d + length (drop 1400 data) = length data" "?d @ drop 1400 data = data" "length ?d = 1400" using False by auto
    obtain p2 qs2 q f2 where ih: "qs = p2 # qs2" "\<And>i. info_type (fst (f_parse F (rtp_payload p2) i)) = f_fragment F \<and>
        fu_loop F (length w) (length (d0 @ ?d)) (fst (f_parse F (rtp_payload p2) i)) p2 (qs2 @ rest) f1 = Inr (q, Some rest, f2)"
        "marker (rtp_header q) = 1 \<longleftrightarrow> lst" "holds f2 (w @ put_be 4 (of_nat (length (d0 @ ?d) + length (drop 1400 data)) :: u32) @ (d0 @ ?d) @ drop 1400 data)"
        "length (fc_buf f2) = length (fc_buf f1)" "fc_key f2 = fc_key f1"
      using "1.IH" [rule_format, OF r(2) r(1) qs(1), of f1 "d0 @ ?d"] f1(2,3) "1.prems"(4,5) l(1) by auto
    have "fu_loop F (length w) (length d0) (fst (f_parse F (rtp_payload ?p) i)) ?p (qs @ rest) f = Inr (q, Some rest, f2)" for i
      using pc [of i f] fr [of i] f1(1) ih(1) ih(2) [of "fst (f_parse F (hdr u ?bits @ ?d) i)"] False unfolding pl
      by (subst fu_loop.simps) (simp add: Let_def)
    then show ?thesis using qs(2) fr ih(3-6) f1(3,4) l False unfolding pl
      by (intro exI [of _ ?p] exI [of _ qs] exI [of _ q] exI [of _ f2]) (simp add: pl)
  qed
qed

lemma unit_joined:
  assumes "ok u" "packable skip u" "skip \<le> 3" "holds f w" "length w + 4 + length u \<le> length (fc_buf f)"
    and ps: "(if 1397 < length u then pack_fu (hdr u) s lst True n (drop skip u)
        else ([new_pkt s (if lst then 1 else 0) (get_sequence_num n) u], get_sequence_num n)) = (ps, n')"
  obtains f' where "join_packets F j (ps @ rest) f = (if lst then Inr (True, f') else join_packets F j rest f')"
    "holds f' (w @ put_be 4 (of_nat (length u) :: u32) @ u)" "length (fc_buf f') = length (fc_buf f)" "fc_key f' \<longleftrightarrow> fc_key f \<or> f_key F (utype u)"
proof (cases "1397 < length u")
  case False
  let ?i = "fst (f_parse F u (RtpPktInfo_new j))"
  note i = single [OF assms(1), of ?i j, OF _ refl]
  let ?f = "note_key (f_key F (info_nalu_type ?i)) f"
  obtain f' where "cache_put (put_be 4 (of_nat (length u) :: u32) @ u) ?f = Inr f'" "holds f' (w @ put_be 4 (of_nat (length u) :: u32) @ u)"
      "length (fc_buf f') = length (fc_buf f)" "fc_key f' = fc_key ?f"
    by (rule holds_put [of ?f w "put_be 4 (of_nat (length u) :: u32) @ u"]) (use assms(4,5) in auto)
  moreover have "ps = [new_pkt s (if lst then 1 else 0) (get_sequence_num n) u]" using ps False by auto
  ultimately show ?thesis using that [of f'] i False by (simp add: join_packets.simps Let_def)
next
  case True
  let ?d = "drop skip u" let ?b = "take 1400 ?d" let ?s = "get_sequence_num n" let ?p = "new_pkt s 0 ?s (hdr u 0x80 @ ?b)"
  have l: "1400 < length ?d" using assms(2,3) True by (auto simp: packable_def)
  obtain qs where qs: "pack_fu (hdr u) s lst False ?s (drop 1400 ?d) = (qs, n')" "ps = ?p # qs"
    by (rule pack_fu_step [of "hdr u" s lst True n ?d ps n']) (use ps True l in auto)
  obtain x where x: "length x = 4" "holds (cache_skip f) (w @ x)" "length (fc_buf (cache_skip f)) = length (fc_buf f)" "fc_key (cache_skip f) = fc_key f"
    by (rule holds_skip [OF assms(4)]) (use assms(5) in auto)
  let ?f = "note_key (f_key F (utype u)) (cache_skip f)" let ?h = "take skip u @ ?b" let ?r = "drop 1400 ?d"
  have hr: "?h @ ?r = u" "?r \<noteq> []" using l by (simp only: append_assoc append_take_drop_id, auto)
  note hr = hr arg_cong [OF hr(1), of length, unfolded length_append [of ?h]]
  obtain f1 where f1: "cache_put ?h ?f = Inr f1" "holds f1 (w @ x @ ?h)" "length (fc_buf f1) = length (fc_buf f)" "fc_key f1 \<longleftrightarrow> fc_key f \<or> f_key F (utype u)"
    by (rule holds_put [of ?f "w @ x" ?h]) (use x assms(5) hr(3) in auto)
  let ?i = "fst (f_parse F (hdr u 0x80 @ ?b) (RtpPktInfo_new j))"
  have i: "info_type ?i = f_fragment F" "start_bit ?i \<noteq> 0" "end_bit ?i = 0"
    using fragment [OF assms(1) True, of "0x80" ?i ?b "RtpPktInfo_new j", OF _ refl] by auto
  obtain p qs2 q f2 where t: "qs = p # qs2" "\<And>i. info_type (fst (f_parse F (rtp_payload p) i)) = f_fragment F \<and>
      fu_loop F (length w) (length ?h) (fst (f_parse F (rtp_payload p) i)) p (qs2 @ rest) f1 = Inr (q, Some rest, f2)"
      "marker (rtp_header q) = 1 \<longleftrightarrow> lst" "holds f2 (w @ put_be 4 (of_nat (length ?h + length ?r) :: u32) @ ?h @ ?r)"
      "length (fc_buf f2) = length (fc_buf f1)" "fc_key f2 = fc_key f1"
    using tail_fragments [OF assms(1) True hr(2) qs(1) f1(2) x(1), of rest] f1(3) assms(5) hr(3) by auto
  have "fu_piece F ?i (hdr u 0x80 @ ?b) (cache_skip f) = Inr (f1, length ?h)"
    using piece [OF assms(1) True, of "0x80" ?h ?b "RtpPktInfo_new j" "cache_skip f"] f1(1) by simp
  then have "fu_loop F (length w) 0 ?i ?p (qs @ rest) (cache_skip f) = Inr (q, Some rest, f2)"
    using i t(1) t(2) [of ?i] by (subst fu_loop.simps) (simp add: Let_def)
  moreover have "fc_pos f = length w" using assms(4) by (simp add: holds_def)
  ultimately have "join_packets F j (ps @ rest) f = (if lst then Inr (True, f2) else join_packets F j rest f2)"
    using i kinds t(3) qs(2) by (simp add: join_packets.simps Let_def)
  moreover have "holds f2 (w @ put_be 4 (of_nat (length u) :: u32) @ u)" using t(4) unfolding hr(1,3) .
  ultimately show ?thesis using that [of f2] t(5,6) f1(3,4) by simp
qed

lemma units_joined:
  assumes "us \<noteq> []" "\<forall>u\<in>set us. ok u \<and> packable skip u" "skip \<le> 3" "holds f w" "length w + length (length_prefixed us) \<le> length (fc_buf f)"
    "pack_units hdr skip s n us = (ps, n')"
  shows "\<exists>f'. join_packets F j ps f = Inr (True, f') \<and> holds f' (w @ length_prefixed us) \<and> length (fc_buf f') = length (fc_buf f) \<and>
    (fc_key f' \<longleftrightarrow> fc_key f \<or> (\<exists>u\<in>set us. f_key F (utype u)))"
  using assms
proof (induction us arbitrary: f w n ps n')
  case (Cons u us)
  obtain ps1 n1 where p1: "(if 1397 < length u then pack_fu (hdr u) s (us = []) True n (drop skip u)
      else ([new_pkt s (if us = [] then 1 else 0) (get_sequence_num n) u], get_sequence_num n)) = (ps1, n1)" by (metis surj_pair)
  obtain qs n2 where q: "pack_units hdr skip s n1 us = (qs, n2)" by (metis surj_pair)
  have ps: "ps = ps1 @ qs" using Cons.prems(6) p1 q by (auto simp: Let_def split: if_splits)
  have ok: "ok u" "packable skip u" "length w + 4 + length u \<le> length (fc_buf f)" using Cons.prems(2,5) by (auto simp: length_prefixed_def)
  obtain f1 where f1: "join_packets F j (ps1 @ qs) f = (if us = [] then Inr (True, f1) else join_packets F j qs f1)"
      "holds f1 (w @ put_be 4 (of_nat (length u) :: u32) @ u)" "length (fc_buf f1) = length (fc_buf f)" "fc_key f1 \<longleftrightarrow> fc_key f \<or> f_key F (utype u)"
    by (rule unit_joined [OF ok(1,2) Cons.prems(3,4) ok(3) p1])
  show ?case
  proof (cases "us = []")
    case True
    then show ?thesis using f1 ps by (auto simp: length_prefixed_def)
  next
    case False
    then obtain f2 where "join_packets F j qs f1 = Inr (True, f2)" "holds f2 ((w @ put_be 4 (of_nat (length u) :: u32) @ u) @ length_prefixed us)"
        "length (fc_buf f2) = length (fc_buf f1)" "fc_key f2 \<longleftrightarrow> fc_key f1 \<or> (\<exists>u\<in>set us. f_key F (utype u))"
      using Cons.IH [OF False _ Cons.prems(3) f1(2) _ q] Cons.prems(2,5) f1(3) by (auto simp: length_prefixed_def)
    then show ?thesis using f1 ps False by (auto simp: length_prefixed_def)
  qed
qed simp

end


text \<open>A unit of H.264: two bytes at least, of a type that a packet can carry alone.\<close>
definition h264_unit :: "bytes \<Rightarrow> bool" where
  "h264_unit u \<longleftrightarrow> 2 \<le> length u \<and> 1 \<le> hd u AND 0x1f \<and> hd u AND 0x1f \<le> 23"

lemma h264_indicator:
  "((b AND - 32) OR 28) AND 0x1f = (28 :: byte)" "(((b AND - 32) OR 28) AND 0xe0) OR (((b AND 0x1f) OR 0x80) AND 0x1f) = (b :: byte)"
  "drop_bit 7 ((b AND 0x1f) OR 0x80) AND 1 = (1 :: byte)" "drop_bit 7 ((b AND 0x1f) OR 0x40) AND 1 = (0 :: byte)" "drop_bit 7 (b AND 0x1f) AND 1 = (0 :: byte)"
  "drop_bit 6 ((b AND 0x1f) OR 0x80) AND 1 = (0 :: byte)" "drop_bit 6 ((b AND 0x1f) OR 0x40) AND 1 = (1 :: byte)" "drop_bit 6 (b AND 0x1f) AND 1 = (0 :: byte)"
  "((b AND 0x1f) OR 0x80) AND 0x1f = b AND (0x1f :: byte)" "((b AND 0x1f) OR 0x40) AND 0x1f = b AND (0x1f :: byte)" "(b AND 0x1f) AND 0x1f = b AND (0x1f :: byte)"
  by (rule byte_eqI; auto simp: bit_simps)+

interpretation h264: fragment_format h264_format h264_fu_header 1 h264_unit "\<lambda>u. hd u AND 0x1f"
proof unfold_locales
  fix u :: bytes and i :: RtpPktInfo and j
  assume "h264_unit u" "i = fst (f_parse h264_format u (RtpPktInfo_new j))"
  moreover from this have "u ! 0 = hd u" by (cases u) (auto simp: h264_unit_def)
  ultimately show "\<not> f_aggregate h264_format (info_type i) \<and> f_single h264_format (info_type i) \<and> info_nalu_type i = hd u AND 0x1f"
    by (auto simp: h264_format_def H264RtpPktInfo_parse_def h264_unit_def Let_def not_less)
next
  fix u :: bytes and bits :: byte and i i0 :: RtpPktInfo and d
  assume "bits \<in> {0x80, 0x40, 0}" "i = fst (f_parse h264_format (h264_fu_header u bits @ d) i0)"
  then show "info_type i = f_fragment h264_format \<and> (start_bit i \<noteq> 0 \<longleftrightarrow> bits = 0x80) \<and> (end_bit i \<noteq> 0 \<longleftrightarrow> bits = 0x40) \<and> info_nalu_type i = hd u AND 0x1f"
    by (auto simp: h264_format_def H264RtpPktInfo_parse_def h264_fu_header_def h264_indicator Let_def)
next
  fix u :: bytes and d
  assume "1397 < length u"
  then have "take 1 u = [hd u]" by (cases u) auto
  then show "f_unit_header h264_format (h264_fu_header u 0x80 @ d) = take 1 u"
    by (simp add: h264_format_def h264_fu_header_def h264_indicator(2))
qed (simp_all add: h264_format_def h264_fu_header_def)


section \<open>The packets of a frame\<close>

lemma next_number: "unat n + 1 < 65535 \<Longrightarrow> unat (get_sequence_num n) = unat n + 1 \<and> n < get_sequence_num n"
proof -
  assume n: "unat n + 1 < 65535"
  then have u: "unat (n + 1) = unat n + 1" using unat_add_lem [of n 1] by simp
  then show ?thesis using n by (simp add: get_sequence_num_def word_le_nat_alt word_less_nat_alt)
qed


text \<open>Packets numbered in order, behind \<open>n\<close> and up to \<open>n'\<close>, with one time stamp.\<close>
definition numbered :: "rtp_stream \<Rightarrow> u16 \<Rightarrow> RtpPacket list \<Rightarrow> u16 \<Rightarrow> bool" where
  "numbered s n ps n' \<longleftrightarrow> unat n' = unat n + length ps \<and> sorted_wrt (<) (map (\<lambda>p. seqnum (rtp_header p)) ps) \<and>
     (\<forall>p\<in>set ps. n < seqnum (rtp_header p) \<and> seqnum (rtp_header p) \<le> n' \<and> rtp_timestamp (rtp_header p) = s_pts s)"

lemma numbered_Nil: "numbered s n [] n' \<longleftrightarrow> n' = n"
  by (auto simp: numbered_def word_unat_eq_iff)

lemma numbered_one: "unat n + 1 < 65535 \<Longrightarrow> numbered s n [new_pkt s m (get_sequence_num n) d] (get_sequence_num n)"
  using next_number [of n] by (simp add: numbered_def)

lemma numbered_append: "numbered s n ps n1 \<Longrightarrow> numbered s n1 qs n2 \<Longrightarrow> numbered s n (ps @ qs) n2"
proof -
  assume a: "numbered s n ps n1" "numbered s n1 qs n2"
  then have "n \<le> n1" "n1 \<le> n2" by (auto simp: numbered_def word_le_nat_alt)
  then show ?thesis using a by (auto simp: numbered_def sorted_wrt_append intro: le_less_trans less_le_trans order_trans)
qed

abbreviation marked :: "RtpPacket \<Rightarrow> bool" where "marked p \<equiv> marker (rtp_header p) = 1"

lemma pack_fu_numbered:
  assumes "pack_fu h s lst start n data = (ps, n')" and "unat n + length ps < 65535"
  shows "numbered s n ps n' \<and> length (filter marked ps) = (if lst \<and> data \<noteq> [] then 1 else 0)"
  using assms
proof (induction data arbitrary: n ps start rule: length_induct)
  case (1 data)
  show ?case
  proof (cases "data = []")
    case True
    then show ?thesis using "1.prems"(1) by (simp add: numbered_Nil)
  next
    case False
    let ?p = "new_pkt s (if length data \<le> 1400 \<and> lst then 1 else 0) (get_sequence_num n)
      (h (if start then 0x80 else if length data \<le> 1400 then 0x40 else 0) @ take 1400 data)"
    obtain qs where q: "ps = ?p # qs" "pack_fu h s lst False (get_sequence_num n) (drop 1400 data) = (qs, n')"
      by (rule pack_fu_step [OF "1.prems"(1) False])
    have n: "unat n + 1 < 65535" "unat (get_sequence_num n) + length qs < 65535" using "1.prems"(2) q(1) next_number [of n] by auto
    have "length (drop 1400 data) < length data" using False by simp
    then have "numbered s (get_sequence_num n) qs n' \<and> length (filter marked qs) = (if lst \<and> drop 1400 data \<noteq> [] then 1 else 0)"
      using "1.IH" q(2) n(2) by blast
    then show ?thesis using numbered_append [OF numbered_one [OF n(1)], where qs = qs and ?n2.0 = n'] q(1) False by auto
  qed
qed

lemma pack_units_numbered:
  assumes "pack_units h skip s n us = (ps, n')" and "unat n + length ps < 65535" and "skip \<le> 3"
  shows "numbered s n ps n' \<and> length (filter marked ps) = (if us \<noteq> [] then 1 else 0)"
  using assms(1,2)
proof (induction us arbitrary: n ps)
  case Nil
  then show ?case by (simp add: numbered_Nil)
next
  case (Cons u us)
  obtain ps1 n1 where p1: "(if 1397 < length u then pack_fu (h u) s (us = []) True n (drop skip u)
      else ([new_pkt s (if us = [] then 1 else 0) (get_sequence_num n) u], get_sequence_num n)) = (ps1, n1)" by (metis surj_pair)
  obtain qs n2 where q: "pack_units h skip s n1 us = (qs, n2)" by (metis surj_pair)
  have ps: "ps = ps1 @ qs" "n2 = n'" using Cons.prems(1) p1 q by (auto simp: Let_def split: if_splits)
  have l: "unat n + length ps1 < 65535" using Cons.prems(2) ps by simp
  have 1: "numbered s n ps1 n1 \<and> length (filter marked ps1) = (if us = [] then 1 else 0)"
  proof (cases "1397 < length u")
    case True
    then show ?thesis using p1 pack_fu_numbered [of "h u" s "us = []" True n "drop skip u" ps1 n1] l assms(3) by auto
  next
    case False
    then show ?thesis using p1 numbered_one [of n s] l by auto
  qed
  then have "unat n1 + length qs < 65535" using Cons.prems(2) ps by (simp add: numbered_def)
  then show ?case using Cons.IH [of n1 qs] q 1 ps numbered_append by auto
qed


section \<open>Frames reach the source\<close>

abbreviation insert_all :: "RtpPacket list \<Rightarrow> rtp_pkts \<Rightarrow> rtp_pkts" where
  "insert_all ps m \<equiv> fold (\<lambda>p. map_insert (seqnum (rtp_header p)) p) ps m"

lemma process_no_packets: "process_video_packets j mem i [] = Inr"
  by (rule ext) simp

lemma packets_wait:
  assumes "r_video_codec st = Some (VideoH264 c)" and "\<forall>p\<in>set ps. \<not> marked p \<and> rtp_timestamp (rtp_header p) = t"
  shows "process_video_packets j mem i (ps @ qs) st = process_video_packets j mem i qs
    (st\<lparr>rtp_h264_depacketizer := (rtp_h264_depacketizer st)(t := insert_all ps (rtp_h264_depacketizer st t))\<rparr>)"
  using assms
proof (induction ps arbitrary: st)
  case Nil
  then show ?case by simp
next
  case (Cons p ps)
  let ?d = "rtp_h264_depacketizer st"
  let ?st = "st\<lparr>rtp_h264_depacketizer := ?d(t := map_insert (seqnum (rtp_header p)) p (?d t))\<rparr>"
  have "process_video_packet j mem i p st = Inr ?st"
    using Cons.prems by (simp add: process_video_packet_def rtsp_h264_packet_def on_packet_def rtp_deliver_def)
  then show ?case using Cons.IH [of ?st] Cons.prems by (simp del: fun_upd_apply add: fun_upd_same)
qed

lemma h264_message_bytes:
  "\<exists>m. h264_message j mem t k ct frame = Inr m \<and> timestamp m = t \<and>
    get_using_data m = Inr ([if k then 0x17 else 0x27, 1] @ put_be 3 ct @ frame)"
  by (cases j) (simp add: h264_message_def h264_header_def video_message_def with_payload_def VideoTagHeader_encode_def VideoTagHeader_new_def Let_def
      inc_used_bytes_def get_using_data_def RtmpMessage_new_def)

lemma frame_times_ok: "0 < fst (video_fps st) \<Longrightarrow> \<exists>dts ct. frame_times t k st = Inr (dts, ct)"
  by (cases "video_fps st") (simp add: frame_times_def Let_def)

text \<open>The marked packet is the last one to arrive: the others wait, and it completes the map.\<close>
lemma marked_completes:
  assumes num: "numbered s n ps n'" "length (filter marked ps) = 1" and order: "mset qs = mset ps" "marked (last qs)"
  obtains rs p where "qs = rs @ [p]" "marked p" "\<forall>r\<in>set rs. \<not> marked r" "\<forall>x\<in>set qs. rtp_timestamp (rtp_header x) = s_pts s"
    "map_insert (seqnum (rtp_header p)) p (insert_all rs []) = keyed ps"
proof -
  have "mset (filter marked qs) = mset (filter marked ps)" using order(1) by simp
  then have one: "length (filter marked qs) = 1" using num(2) by (metis size_mset)
  then have "qs \<noteq> []" by auto
  then obtain rs p where qs: "qs = rs @ [p]" by (metis rev_exhaust)
  moreover have "marked p" "\<forall>r\<in>set rs. \<not> marked r" using one order(2) by (auto simp: filter_empty_conv qs)
  moreover have "\<forall>x\<in>set qs. rtp_timestamp (rtp_header x) = s_pts s"
    using num(1) mset_eq_setD [OF order(1)] by (auto simp: numbered_def)
  moreover have "map_insert (seqnum (rtp_header p)) p (insert_all rs []) = keyed ps"
    using collected_sorted [of ps qs] num(1) order(1) by (simp add: numbered_def collected_def qs)
  ultimately show ?thesis by (rule that)
qed

text \<open>The message made of a frame that has been joined.\<close>
lemma h264_generate:
  assumes "join_packets h264_format i ps \<lparr>fc_buf = video_frame_cache st, fc_pos = 0, fc_key = False\<rparr> = Inr (True, f)" "holds f w"
    "0 < fst (video_fps st)"
  shows "\<exists>msg ct dts. generate_h264_rtmp_message j mem i t (keyed ps) st = Inr (Some msg, st\<lparr>video_frame_cache := fc_buf f, video_dts_ms := dts\<rparr>) \<and>
    timestamp msg = t \<and> get_using_data msg = Inr ([if fc_key f then 0x17 else 0x27, 1] @ put_be 3 (ct :: u32) @ w)"
proof -
  obtain dts ct where times: "frame_times t (fc_key f) (st\<lparr>video_frame_cache := fc_buf f\<rparr>) = Inr (dts, ct)"
    using frame_times_ok [of "st\<lparr>video_frame_cache := fc_buf f\<rparr>" t "fc_key f"] assms(3) by auto
  obtain msg where msg: "h264_message j mem t (fc_key f) ct w = Inr msg" "timestamp msg = t"
      "get_using_data msg = Inr ([if fc_key f then 0x17 else 0x27, 1] @ put_be 3 ct @ w)" using h264_message_bytes by blast
  have "generate_h264_rtmp_message j mem i t (keyed ps) st = Inr (Some msg, st\<lparr>video_frame_cache := fc_buf f, video_dts_ms := dts\<rparr>)"
    using assms(1) holds_take [OF assms(2)] times msg(1) by (simp add: generate_h264_rtmp_message_def generate_message_def Let_def comp_def)
  then show ?thesis using msg(2,3) by - (intro exI conjI)
qed

lemma h264_frame_joined:
  assumes "us \<noteq> []" "\<And>u. u \<in> set us \<Longrightarrow> h264_unit u \<and> packable 1 u" "length (length_prefixed us) \<le> length cache" "RtpPacker_pack s n us = (ps, n')"
  shows "\<exists>f. join_packets h264_format i ps \<lparr>fc_buf = cache, fc_pos = 0, fc_key = False\<rparr> = Inr (True, f) \<and> holds f (length_prefixed us) \<and>
    (fc_key f \<longleftrightarrow> (\<exists>u\<in>set us. hd u AND 0x1f = 5))"
  using h264.units_joined [of us "\<lparr>fc_buf = cache, fc_pos = 0, fc_key = False\<rparr>" "[]" s n ps n' i] assms
  by (auto simp: holds_def RtpPacker_pack_def h264_format_def)

text \<open>
  A frame of H.264 units that is packed into RTP packets comes out of the bridge as one RTMP message, whatever the order in which the
  packets arrive as long as the marked one is last: the units with their lengths, in the order they were packed, behind a video header
  that tells a key frame by its IDR unit. The units are of at most 1397 or at least 1402 bytes, and the numbers do not wrap.
\<close>
theorem rtp_h264_frame_rebuilt:
  assumes codec: "r_video_codec st = Some (VideoH264 c)" and units: "us \<noteq> []" "\<And>u. u \<in> set us \<Longrightarrow> h264_unit u \<and> packable 1 u"
    and room: "length (length_prefixed us) \<le> length (video_frame_cache st)"
    and pack: "RtpPacker_pack s n us = (ps, n')" "unat n + length ps < 65535"
    and order: "mset qs = mset ps" "marked (last qs)"
    and idle: "rtp_h264_depacketizer st (s_pts s) = []" "0 < fst (video_fps st)"
  shows "\<exists>msg ct dts cache. process_video_packets j mem i qs st =
      bindR (rtmp_on_video_packet j mem msg (rtmp_media_source st)) (\<lambda>(_, src).
        Inr (st\<lparr>video_frame_cache := cache, video_dts_ms := dts, rtmp_media_source := src\<rparr>)) \<and>
    timestamp msg = (s_pts s - first_rtp_video_ts st) div 90 \<and>
    get_using_data msg = Inr ([if \<exists>u\<in>set us. hd u AND 0x1f = 5 then 0x17 else 0x27, 1] @ put_be 3 (ct :: u32) @ length_prefixed us)"
proof -
  let ?t = "(s_pts s - first_rtp_video_ts st) div 90"
  have num: "numbered s n ps n'" "length (filter marked ps) = 1"
    using pack_units_numbered [of h264_fu_header 1 s n us ps n'] pack units(1) by (simp_all add: RtpPacker_pack_def)
  obtain rs p where qs: "qs = rs @ [p]" "marked p" "\<forall>r\<in>set rs. \<not> marked r" "\<forall>x\<in>set qs. rtp_timestamp (rtp_header x) = s_pts s"
      "map_insert (seqnum (rtp_header p)) p (insert_all rs []) = keyed ps"
    by (rule marked_completes [OF num order])
  obtain f where f: "join_packets h264_format i ps \<lparr>fc_buf = video_frame_cache st, fc_pos = 0, fc_key = False\<rparr> = Inr (True, f)"
      "holds f (length_prefixed us)" "fc_key f \<longleftrightarrow> (\<exists>u\<in>set us. hd u AND 0x1f = 5)"
    using h264_frame_joined [OF units room pack(1)] by blast
  obtain msg ct dts where g: "generate_h264_rtmp_message j (fst mem) i ?t (keyed ps) st =
        Inr (Some msg, st\<lparr>video_frame_cache := fc_buf f, video_dts_ms := dts\<rparr>)" "timestamp msg = ?t"
      "get_using_data msg = Inr ([if \<exists>u\<in>set us. hd u AND 0x1f = 5 then 0x17 else 0x27, 1] @ put_be 3 (ct :: u32) @ length_prefixed us)"
    using h264_generate [OF f(1,2) idle(2)] unfolding f(3) by blast
  obtain q ps' where psne: "ps = q # ps'" using num(2) by (cases ps) auto
  then have tq: "rtp_timestamp (rtp_header q) = s_pts s" using qs(4) mset_eq_setD [OF order(1)] by simp
  let ?d = "(rtp_h264_depacketizer st)(s_pts s := insert_all rs [])"
  have "(rtp_h264_depacketizer st)(s_pts s := []) = rtp_h264_depacketizer st" using idle(1) by auto
  then have o: "on_packet p ?d = (Some (keyed ps), rtp_h264_depacketizer st)" using qs by (simp add: on_packet_def Let_def)
  have "process_video_packets j mem i qs st = process_video_packets j mem i [p] (st\<lparr>rtp_h264_depacketizer := ?d\<rparr>)"
    using packets_wait [OF codec, of rs "s_pts s" j mem i "[p]"] qs(1,3,4) idle(1) by simp
  also have "\<dots> = rtp_deliver (generate_h264_rtmp_message j (fst mem) i) j mem (Some (keyed ps)) st"
    using codec o by (simp add: process_video_packet_def rtsp_h264_packet_def process_no_packets)
  also have "\<dots> = bindR (rtmp_on_video_packet j mem msg (rtmp_media_source st)) (\<lambda>(_, src).
      Inr (st\<lparr>video_frame_cache := fc_buf f, video_dts_ms := dts, rtmp_media_source := src\<rparr>))"
    using g(1) tq by (simp add: rtp_deliver_def psne)
  finally show ?thesis using g(2,3) by - (intro exI conjI)
qed


definition sample_bridge :: RtspToRtmp where
  "sample_bridge = \<lparr>r_video_codec = Some (new_h264 no_mem), rtp_h264_depacketizer = (\<lambda>_. []), rtp_h265_depacketizer = (\<lambda>_. []),
     video_frame_cache = replicate 64 0, first_rtp_video_ts = 9000, video_fps = (25, 1), video_dts_ms = 0, rtmp_media_source = MediaSource_new 16\<rparr>"

theorem rtp_h264_frame_rebuilt_witness:
  "\<exists>ps n' msg ct dts cache. RtpPacker_pack \<lparr>s_pt = 96, s_pts = 18000, s_ssrc = 1\<rparr> 7 [[0x67, 1, 2], [0x68, 3], [0x65, 4, 5, 6]] = (ps, n') \<and>
    process_video_packets (0, 0, 0, 0) no_mem (0, 0) [ps ! 1, ps ! 0, ps ! 2] sample_bridge =
      bindR (rtmp_on_video_packet (0, 0, 0, 0) no_mem msg (MediaSource_new 16)) (\<lambda>(_, src).
        Inr (sample_bridge\<lparr>video_frame_cache := cache, video_dts_ms := dts, rtmp_media_source := src\<rparr>)) \<and>
    timestamp msg = 100 \<and> get_using_data msg = Inr ([0x17, 1] @ put_be 3 (ct :: u32) @ [0, 0, 0, 3, 0x67, 1, 2, 0, 0, 0, 2, 0x68, 3, 0, 0, 0, 4, 0x65, 4, 5, 6])"
proof -
  let ?s = "\<lparr>s_pt = 96, s_pts = 18000, s_ssrc = 1\<rparr>" let ?us = "[[0x67, 1, 2], [0x68, 3], [0x65, 4, 5, 6]] :: bytes list"
  let ?ps = "[new_pkt ?s 0 8 [0x67, 1, 2], new_pkt ?s 0 9 [0x68, 3], new_pkt ?s 1 10 [0x65, 4, 5, 6]]"
  have p: "RtpPacker_pack ?s 7 ?us = (?ps, 10)" by (simp add: RtpPacker_pack_def get_sequence_num_def)
  have w: "length_prefixed ?us = [0, 0, 0, 3, 0x67, 1, 2, 0, 0, 0, 2, 0x68, 3, 0, 0, 0, 4, 0x65, 4, 5, 6]"
    by (simp add: length_prefixed_def put_be_def nat_be_numeral)
  have u: "h264_unit u \<and> packable 1 u" if "u \<in> set ?us" for u using that by (auto simp: h264_unit_def packable_def)
  obtain msg ct dts cache where "process_video_packets (0, 0, 0, 0) no_mem (0, 0) [?ps ! 1, ?ps ! 0, ?ps ! 2] sample_bridge =
      bindR (rtmp_on_video_packet (0, 0, 0, 0) no_mem msg (rtmp_media_source sample_bridge)) (\<lambda>(_, src).
        Inr (sample_bridge\<lparr>video_frame_cache := cache, video_dts_ms := dts, rtmp_media_source := src\<rparr>))"
      "timestamp msg = (s_pts ?s - first_rtp_video_ts sample_bridge) div 90"
      "get_using_data msg = Inr ([if \<exists>u\<in>set ?us. hd u AND 0x1f = 5 then 0x17 else 0x27, 1] @ put_be 3 (ct :: u32) @ length_prefixed ?us)"
    using rtp_h264_frame_rebuilt [of sample_bridge "H264Codec_new (fst no_mem) (snd no_mem)" ?us ?s 7 ?ps 10 "[?ps ! 1, ?ps ! 0, ?ps ! 2]"
        "(0, 0, 0, 0)" no_mem "(0, 0)", OF _ _ u _ p] w
    by (auto simp: sample_bridge_def simp del: process_video_packets.simps)
  then show ?thesis unfolding p w by (intro exI conjI) (auto simp: sample_bridge_def)
qed


section \<open>Units of 1398 to 1401 bytes\<close>

text \<open>
  C38. A unit of 1398 to 1401 bytes, too long for one packet and too short for two fragments, is sent as one fragment without an end bit, and
  the length in front of it is never written: the message holds the four bytes that an earlier frame left in the cache instead.
\<close>
theorem rtp_single_fragment_keeps_stale_length:
  assumes "h264_unit u" and "1397 < length u" and "length u \<le> 1401" and "length u + 4 \<le> length (video_frame_cache st)"
    and "RtpPacker_pack s n [u] = (ps, n')" and "0 < fst (video_fps st)"
  shows "\<exists>msg ct st'. generate_h264_rtmp_message ja mem i t (keyed ps) st = Inr (Some msg, st') \<and>
    get_using_data msg = Inr ([if hd u AND 0x1f = 5 then 0x17 else 0x27, 1] @ put_be 3 (ct :: u32) @ take 4 (video_frame_cache st) @ u)"
proof -
  let ?p = "new_pkt s 1 (get_sequence_num n) (h264_fu_header u 0x80 @ drop 1 u)"
  let ?f = "\<lparr>fc_buf = video_frame_cache st, fc_pos = 0, fc_key = False\<rparr>"
  let ?i = "fst (f_parse h264_format (h264_fu_header u 0x80 @ drop 1 u) (RtpPktInfo_new i))"
  let ?k = "note_key (f_key h264_format (hd u AND 0x1f)) (cache_skip ?f)"
  have ps: "ps = [?p]" using assms(2,3,5) by (auto simp: RtpPacker_pack_def Let_def pack_fu.simps [of _ _ _ True] split: prod.splits)
  have "u \<noteq> []" using assms(2) by auto
  then have u: "take 1 u @ drop 1 u = u" by simp
  have k: "holds (cache_skip ?f) (take 4 (video_frame_cache st))" using assms(4) by (auto simp: holds_def cache_skip_def intro: exI [of _ "drop 4 (video_frame_cache st)"])
  obtain f where f: "cache_put u ?k = Inr f" "holds f (take 4 (video_frame_cache st) @ u)" "fc_key f = fc_key ?k"
    by (rule holds_put [of ?k "take 4 (video_frame_cache st)" u]) (use k assms(4) in \<open>auto simp: cache_skip_def\<close>)
  have i: "info_type ?i = f_fragment h264_format" "start_bit ?i \<noteq> 0" "end_bit ?i = 0"
    using h264.fragment [OF assms(1,2), of "0x80" ?i "drop 1 u" "RtpPktInfo_new i"] by auto
  have "fu_piece h264_format ?i (h264_fu_header u 0x80 @ drop 1 u) (cache_skip ?f) = Inr (f, length u)"
    using h264.piece [OF assms(1,2), of "0x80" u "drop 1 u" "RtpPktInfo_new i" "cache_skip ?f"] u f(1) by simp
  then have "fu_loop h264_format 0 0 ?i ?p [] (cache_skip ?f) = Inr (?p, None, f)" using i(3) by (subst fu_loop.simps) simp
  then have j: "join_packets h264_format i ps ?f = Inr (True, f)"
    using i(1,2) h264.kinds unfolding ps by (simp add: join_packets.simps Let_def)
  have key: "fc_key f \<longleftrightarrow> hd u AND 0x1f = 5" using f(3) by (simp add: cache_skip_def h264_format_def)
  show ?thesis using h264_generate [OF j f(2) assms(6), of ja mem t] unfolding key by blast
qed

theorem rtp_single_fragment_keeps_stale_length_witness:
  "\<exists>ps n' msg ct st'. RtpPacker_pack \<lparr>s_pt = 96, s_pts = 18000, s_ssrc = 1\<rparr> 7 [0x65 # replicate 1399 0] = (ps, n') \<and>
    generate_h264_rtmp_message (0, 0, 0, 0) (\<lambda>_. 0) (0, 0) 100 (keyed ps) (sample_bridge\<lparr>video_frame_cache := [9, 9, 9, 9] @ replicate 2000 0\<rparr>) =
      Inr (Some msg, st') \<and>
    get_using_data msg = Inr ([0x17, 1] @ put_be 3 (ct :: u32) @ [9, 9, 9, 9] @ 0x65 # replicate 1399 0)"
proof -
  let ?u = "0x65 # replicate 1399 0 :: bytes" let ?s = "\<lparr>s_pt = 96, s_pts = 18000, s_ssrc = 1\<rparr>"
  let ?st = "sample_bridge\<lparr>video_frame_cache := [9, 9, 9, 9] @ replicate 2000 0\<rparr>"
  obtain ps n' where p: "RtpPacker_pack ?s 7 [?u] = (ps, n')" by (metis surj_pair)
  have "h264_unit ?u" "0 < fst (video_fps ?st)" by (simp_all add: h264_unit_def sample_bridge_def)
  from rtp_single_fragment_keeps_stale_length [OF this(1) _ _ _ p this(2), of "(0, 0, 0, 0)" "\<lambda>_. 0" "(0, 0)" 100] p show ?thesis
    by (simp add: sample_bridge_def)
qed

section \<open>HEVC\<close>

text \<open>
  A unit of HEVC: three bytes at least and, when it is fragmented, the header of the base layer with temporal identifier one, which is
  what the packer writes into every fragment.
\<close>
definition h265_unit :: "bytes \<Rightarrow> bool" where
  "h265_unit u \<longleftrightarrow> 3 \<le> length u \<and> drop_bit 1 (hd u) AND 0x3f \<le> 40 \<and> (1397 < length u \<longrightarrow> hd u AND 0x81 = 0 \<and> u ! 1 = 1)"

lemma h265_indicator:
  "drop_bit 7 ((b AND 0x3f) OR 0x80) AND 1 = (1 :: byte)" "drop_bit 7 ((b AND 0x3f) OR 0x40) AND 1 = (0 :: byte)" "drop_bit 7 (b AND 0x3f) AND 1 = (0 :: byte)"
  "drop_bit 6 ((b AND 0x3f) OR 0x80) AND 1 = (0 :: byte)" "drop_bit 6 ((b AND 0x3f) OR 0x40) AND 1 = (1 :: byte)" "drop_bit 6 (b AND 0x3f) AND 1 = (0 :: byte)"
  "((b AND 0x3f) OR 0x80) AND 0x3f = b AND (0x3f :: byte)" "((b AND 0x3f) OR 0x40) AND 0x3f = b AND (0x3f :: byte)" "(b AND 0x3f) AND 0x3f = b AND (0x3f :: byte)"
  by (rule byte_eqI; auto simp: bit_simps)+

lemma h265_header_back: "b AND 0x81 = 0 \<Longrightarrow> push_bit 1 (drop_bit 1 b AND 0x3f) = (b :: byte)"
proof (rule byte_eqI)
  fix n assume b: "b AND 0x81 = 0" and n: "n \<in> {0, 1, 2, 3, 4, 5, 6, 7 :: nat}"
  have "\<not> bit (b AND 0x81) 0" "\<not> bit (b AND 0x81) 7" using b by simp_all
  then have "\<not> bit b 0" "\<not> bit b 7" by (simp_all add: bit_and_iff)
  moreover have "bit (push_bit 1 (drop_bit 1 b AND 0x3f)) n \<longleftrightarrow> 1 \<le> n \<and> bit b n \<and> bit (0x3f :: byte) (n - 1)"
  proof (cases n)
    case (Suc m)
    moreover have "n < 8" using n by auto
    ultimately show ?thesis unfolding bit_push_bit_iff bit_and_iff bit_drop_bit_eq by simp
  qed (simp only: bit_push_bit_iff, simp)
  ultimately show "bit (push_bit 1 (drop_bit 1 b AND 0x3f)) n = bit b n" using n by auto
qed

interpretation h265: fragment_format h265_format h265_fu_header 2 h265_unit "\<lambda>u. drop_bit 1 (hd u) AND 0x3f"
proof unfold_locales
  fix u :: bytes and i :: RtpPktInfo and j
  assume "h265_unit u" "i = fst (f_parse h265_format u (RtpPktInfo_new j))"
  moreover from this have "u ! 0 = hd u" by (cases u) (auto simp: h265_unit_def)
  ultimately show "\<not> f_aggregate h265_format (info_type i) \<and> f_single h265_format (info_type i) \<and> info_nalu_type i = drop_bit 1 (hd u) AND 0x3f"
    by (auto simp: h265_format_def H265RtpPktInfo_parse_def h265_unit_def Let_def not_less)
next
  fix u :: bytes and bits :: byte and i i0 :: RtpPktInfo and d
  assume "bits \<in> {0x80, 0x40, 0}" "i = fst (f_parse h265_format (h265_fu_header u bits @ d) i0)"
  then show "info_type i = f_fragment h265_format \<and> (start_bit i \<noteq> 0 \<longleftrightarrow> bits = 0x80) \<and> (end_bit i \<noteq> 0 \<longleftrightarrow> bits = 0x40) \<and>
      info_nalu_type i = drop_bit 1 (hd u) AND 0x3f"
    by (auto simp: h265_format_def H265RtpPktInfo_parse_def h265_fu_header_def h265_indicator Let_def)
next
  fix u :: bytes and d
  assume u: "h265_unit u" "1397 < length u"
  then obtain a b u' where "u = a # b # u'" by (cases u; cases "tl u") auto
  moreover from this have "push_bit 1 (drop_bit 1 a AND 0x3f) = a" "b = 1" using u h265_header_back [of a] by (auto simp: h265_unit_def)
  ultimately show "f_unit_header h265_format (h265_fu_header u 0x80 @ d) = take 2 u"
    by (simp add: h265_format_def h265_fu_header_def h265_indicator(7) del: push_bit_Suc push_bit_and)
qed (simp_all add: h265_format_def h265_fu_header_def)

lemma h265_message_bytes:
  "\<exists>m. h265_message j mem t k ct frame = Inr m \<and> timestamp m = t \<and>
    get_using_data m = Inr ((if k then 0x91 else 0xa1) # put_be 4 HEVC_FOURCC @ put_be 3 ct @ frame)"
  by (cases j) (simp add: h265_message_def h265_header_def video_message_def VideoTagHeader_encode_def VideoTagHeader_new_def Let_def
      inc_used_bytes_def get_using_data_def RtmpMessage_new_def)

text \<open>The same for a frame of HEVC units, from the packets of the depacketizer on.\<close>
lemma rtp_h265_frame_rebuilt:
  assumes "us \<noteq> []" "\<And>u. u \<in> set us \<Longrightarrow> h265_unit u \<and> packable 2 u" "length (length_prefixed us) \<le> length (video_frame_cache st)"
    and "H265RtpPacker_pack s n us = (ps, n')" "0 < fst (video_fps st)"
  shows "\<exists>msg ct st'. generate_h265_rtmp_message j mem i t (keyed ps) st = Inr (Some msg, st') \<and> timestamp msg = t \<and>
    get_using_data msg = Inr ((if \<exists>u\<in>set us. 16 \<le> drop_bit 1 (hd u) AND 0x3f \<and> drop_bit 1 (hd u) AND 0x3f \<le> 23 then 0x91 else 0xa1) #
      put_be 4 HEVC_FOURCC @ put_be 3 (ct :: u32) @ length_prefixed us)"
proof -
  let ?f = "\<lparr>fc_buf = video_frame_cache st, fc_pos = 0, fc_key = False\<rparr>"
  obtain f where f: "join_packets h265_format i ps ?f = Inr (True, f)" "holds f (length_prefixed us)"
      "fc_key f \<longleftrightarrow> (\<exists>u\<in>set us. 16 \<le> drop_bit 1 (hd u) AND 0x3f \<and> drop_bit 1 (hd u) AND 0x3f \<le> 23)"
    using h265.units_joined [of us ?f "[]" s n ps n' i] assms(1-4) by (auto simp: holds_def H265RtpPacker_pack_def h265_format_def)
  obtain dts ct where times: "frame_times t (fc_key f) (st\<lparr>video_frame_cache := fc_buf f\<rparr>) = Inr (dts, ct)"
    using frame_times_ok [of "st\<lparr>video_frame_cache := fc_buf f\<rparr>" t "fc_key f"] assms(5) by auto
  obtain msg where msg: "h265_message j mem t (fc_key f) ct (length_prefixed us) = Inr msg" "timestamp msg = t"
      "get_using_data msg = Inr ((if fc_key f then 0x91 else 0xa1) # put_be 4 HEVC_FOURCC @ put_be 3 ct @ length_prefixed us)"
    using h265_message_bytes by blast
  have "generate_h265_rtmp_message j mem i t (keyed ps) st = Inr (Some msg, st\<lparr>video_frame_cache := fc_buf f, video_dts_ms := dts\<rparr>)"
    using f(1) holds_take [OF f(2)] times msg(1) by (simp add: generate_h265_rtmp_message_def generate_message_def Let_def comp_def)
  then show ?thesis using msg(2,3) unfolding f(3) by - (intro exI conjI)
qed

end
