(* ===== verification/RtspAudio.thy ===== *)
theory RtspAudio
  imports RtspBridge
begin

text \<open>
  The audio path of \<^verbatim>\<open>live-server/bridge/rtsp/rtsp_to_rtmp.cpp\<close>: AAC access units in RTP packets (RFC 3640) become RTMP audio messages.
\<close>

section \<open>State\<close>

text \<open>The members of \<^verbatim>\<open>AUConfig\<close> that are used, and those of the bridge that the audio path uses.\<close>
record AUConfig =
  size_length :: u16
  index_length :: u16

record RtspAudio =
  r_audio_config :: "AudioSpecificConfig option"
  r_au_config :: "AUConfig option"
  r_is_aac :: bool
  rtp_aac_depacketizer :: depacketizer
  audio_frame_cache :: bytes
  first_rtp_audio_ts :: u32
  audio_source :: "RtmpMessage MediaSource"

section \<open>Access units\<close>

text \<open>
  The loop over the headers of a packet: sizes from the bit stream \<open>hs\<close>, data from \<open>sect\<close>. A unit is cut to \<open>left\<close> bytes, which are
  those of the whole section and are not counted down; a negative number makes the copy unbounded. None: an empty unit ends the
  routine.
\<close>
fun au_loop :: "nat \<Rightarrow> AUConfig \<Rightarrow> bytes \<Rightarrow> nat \<Rightarrow> int \<Rightarrow> bytes \<Rightarrow> frame_cache \<Rightarrow> frame_cache option result" where
  "au_loop 0 c hs pos left sect f = Inr (Some f)"
| "au_loop (Suc k) c hs pos left sect f =
     bindR (read_u (unat (size_length c)) hs pos (0 :: u16)) (\<lambda>(au_size, pos).
       if au_size = 0 then Inr None
       else bindR (read_u (unat (index_length c)) hs pos (0 :: u16)) (\<lambda>(_, pos).
         let n = (if left \<le> uint au_size then left else uint au_size) in
         if n < 0 \<or> int (length sect) < n then Inl Oob
         else bindR (cache_put (take (nat n) sect) f) (au_loop k c hs pos left (drop (nat n) sect))))"

text \<open>
  One packet. The length of the header section is a multiple of the length of one header, but the payload is not tested for it: a
  section behind the end of the payload makes \<open>left\<close> negative.
\<close>
definition au_per_header_bytes :: "AUConfig \<Rightarrow> nat" where
  "au_per_header_bytes c = (unat (size_length c) + unat (index_length c) + 7) div 8"

definition aac_packet :: "AUConfig \<Rightarrow> bytes \<Rightarrow> frame_cache \<Rightarrow> frame_cache option result" where
  "aac_packet c payload f =
     (if length payload < 2 then Inl Oob
      else let bits = be_nat (take 2 payload) in
        if bits mod 8 \<noteq> 0 then Inr None
        else let total = bits div 8; per = au_per_header_bytes c; k = total div per in
          if k * per \<noteq> total then Inr None
          else au_loop k c (take total (drop 2 payload)) 0 (int (length payload) - int (2 + total)) (drop (2 + total) payload) f)"

text \<open>The packets of a frame up to the one with the marker; without a size length in the configuration nothing is
  read. What a refused frame leaves in the cache is overwritten before it is read.\<close>
fun join_aac :: "AUConfig \<Rightarrow> RtpPacket list \<Rightarrow> frame_cache \<Rightarrow> (bool \<times> frame_cache) result" where
  "join_aac c [] f = Inr (False, f)"
| "join_aac c (p # ps) f = (if size_length c = 0 then join_aac c ps f
     else bindR (aac_packet c (rtp_payload p) f) (\<lambda>r. case r of None \<Rightarrow> Inr (False, f)
       | Some f \<Rightarrow> if marker (rtp_header p) = 1 then Inr (True, f) else join_aac c ps f))"

definition rtp_aac_header :: "junk \<Rightarrow> AudioSpecificConfig \<Rightarrow> AudioTagHeader" where
  "rtp_aac_header j a = (case j of (sf, _) \<Rightarrow> (AudioTagHeader_new sf)\<lparr>sound_rate := (if sampling_frequency a = 44100 then 3
     else if sampling_frequency a = 11025 then 1 else if sampling_frequency a = 22050 then 2 else 3), sound_format := AAC, sound_size := 1, aac_packet_type := 1\<rparr>)"

definition aac_message :: "junk \<Rightarrow> (nat \<Rightarrow> byte) \<Rightarrow> u32 \<Rightarrow> AudioSpecificConfig \<Rightarrow> bytes \<Rightarrow> RtmpMessage result" where
  "aac_message j mem t a frame =
     (let msg = (RtmpMessage_new mem (length frame + 2))\<lparr>message_stream_id := 0, chunk_stream_id := 9, message_type_id := 8, timestamp := t\<rparr>
      in bindR (TAGDATA_encode (AUDIODATA (rtp_aac_header j a) frame) (take 2 (data_buf msg) @ frame)) (\<lambda>(_, buf).
        Inr (inc_used_bytes (2 + length frame) (msg\<lparr>data_buf := buf\<rparr>))))"

definition generate_aac_rtmp_message :: "junk \<Rightarrow> (nat \<Rightarrow> byte) \<Rightarrow> u32 \<Rightarrow> rtp_pkts \<Rightarrow> RtspAudio \<Rightarrow> (RtmpMessage option \<times> RtspAudio) result" where
  "generate_aac_rtmp_message j mem t m st =
     (case r_au_config st of None \<Rightarrow> Inr (None, st)
      | Some c \<Rightarrow> bindR (join_aac c (map snd m) \<lparr>fc_buf = audio_frame_cache st, fc_pos = 0, fc_key = False\<rparr>) (\<lambda>(done, f).
          let st = st\<lparr>audio_frame_cache := fc_buf f\<rparr> in
          if \<not> done then Inr (None, st)
          else case r_audio_config st of None \<Rightarrow> Inr (None, st)
            | Some a \<Rightarrow> bindR (aac_message j mem t a (take (fc_pos f) (fc_buf f))) (\<lambda>audio_msg. Inr (Some audio_msg, st))))"

text \<open>The time in milliseconds is computed in 32 bits, product first.\<close>
definition audio_time :: "u32 \<Rightarrow> u32 \<Rightarrow> u32 \<Rightarrow> u32" where
  "audio_time first freq t = (t - first) * 1000 div freq"

definition rtsp_aac_packet :: "junk \<Rightarrow> (nat \<Rightarrow> byte) \<Rightarrow> RtpPacket \<Rightarrow> RtspAudio \<Rightarrow> RtspAudio result" where
  "rtsp_aac_packet j mem p st = (case on_packet p (rtp_aac_depacketizer st) of (nalu, d) \<Rightarrow>
     let st = st\<lparr>rtp_aac_depacketizer := d\<rparr> in
     case nalu of None \<Rightarrow> Inr st
     | Some m \<Rightarrow> (case r_audio_config st of None \<Rightarrow> Inr st
         | Some a \<Rightarrow> if sampling_frequency a = 0 then Inr st
             else let t = (case m of [] \<Rightarrow> 0 | (_, q) # _ \<Rightarrow> rtp_timestamp (rtp_header q)) in
               bindR (generate_aac_rtmp_message j mem (audio_time (first_rtp_audio_ts st) (sampling_frequency a) t) m st) (\<lambda>(msg, st).
                 case msg of None \<Rightarrow> Inr st
                 | Some audio_msg \<Rightarrow> bindR (rtmp_on_audio_packet j audio_msg (audio_source st)) (\<lambda>(_, s). Inr (st\<lparr>audio_source := s\<rparr>)))))"

definition process_audio_packet :: "junk \<Rightarrow> (nat \<Rightarrow> byte) \<Rightarrow> RtpPacket \<Rightarrow> RtspAudio \<Rightarrow> RtspAudio result" where
  "process_audio_packet j mem p st = (if r_is_aac st then rtsp_aac_packet j mem p st else Inr st)"

fun process_audio_packets :: "junk \<Rightarrow> (nat \<Rightarrow> byte) \<Rightarrow> RtpPacket list \<Rightarrow> RtspAudio \<Rightarrow> RtspAudio result" where
  "process_audio_packets j mem [] st = Inr st"
| "process_audio_packets j mem (p # ps) st = bindR (process_audio_packet j mem p st) (process_audio_packets j mem ps)"

definition on_audio_pkts :: "junk \<Rightarrow> (nat \<Rightarrow> byte) \<Rightarrow> RtpPacket list \<Rightarrow> RtspAudio \<Rightarrow> RtspAudio result" where
  "on_audio_pkts j mem ps st = process_audio_packets j mem ps
     (if first_rtp_audio_ts st = 0 \<and> ps \<noteq> [] then st\<lparr>first_rtp_audio_ts := rtp_timestamp (rtp_header (hd ps))\<rparr> else st)"


section \<open>Access units arrive\<close>

text \<open>The headers of units \<open>(unit, index bits)\<close>, as RFC 3640 defines them.\<close>
definition header_bits :: "AUConfig \<Rightarrow> (bytes \<times> bool list) list \<Rightarrow> bool list" where
  "header_bits c xs = concat (map (\<lambda>(au, ix). u_bits (unat (size_length c)) (of_nat (length au) :: u16) @ ix) xs)"

definition units_ok :: "AUConfig \<Rightarrow> (bytes \<times> bool list) list \<Rightarrow> bool" where
  "units_ok c xs \<longleftrightarrow> unat (size_length c) \<le> 16 \<and>
     (\<forall>(au, ix)\<in>set xs. au \<noteq> [] \<and> length au < 2 ^ unat (size_length c) \<and> length ix = unat (index_length c))"

abbreviation units :: "(bytes \<times> bool list) list \<Rightarrow> bytes" where "units xs \<equiv> concat (map fst xs)"

lemma au_loop_units:
  assumes "units_ok c xs" "spells hs pos (header_bits c xs)" "int (length (units xs)) \<le> left" "holds f w" "length w + length (units xs) \<le> length (fc_buf f)"
  shows "\<exists>f'. au_loop (length xs) c hs pos left (units xs @ r) f = Inr (Some f') \<and> holds f' (w @ units xs) \<and> length (fc_buf f') = length (fc_buf f)"
  using assms
proof (induction xs arbitrary: pos f w)
  case (Cons x xs)
  obtain au ix where x: "x = (au, ix)" by (cases x)
  let ?n = "unat (size_length c)"
  have ok: "?n \<le> 16" "au \<noteq> []" "length au < 2 ^ ?n" "length ix = unat (index_length c)" "units_ok c xs"
    using Cons.prems(1) x by (auto simp: units_ok_def)
  have "length au < 2 ^ 16" using ok(1,3) by (meson less_le_trans one_le_numeral power_increasing)
  then have l: "unat (of_nat (length au) :: u16) = length au" by (simp add: unat_of_nat del: unsigned_of_nat)
  then have z: "(of_nat (length au) :: u16) \<noteq> 0" "uint (of_nat (length au) :: u16) = int (length au)"
    using ok(2) by (metis length_greater_0_conv unat_0 less_irrefl, metis uint_nat)
  have s: "spells hs pos (u_bits ?n (of_nat (length au) :: u16))" "spells hs (pos + ?n) ix" "spells hs (pos + ?n + length ix) (header_bits c xs)"
    using Cons.prems(2) by (simp_all add: header_bits_def x spells_append)
  have r: "read_u ?n hs pos 0 = Inr (of_nat (length au) :: u16, pos + ?n)" using read_u_code [OF s(1)] ok(1,3) l by simp
  obtain v where v: "read_u (unat (index_length c)) hs (pos + ?n) (0 :: u16) = Inr (v, pos + ?n + length ix)"
    using read_u_spelt [OF s(2), of "unat (index_length c)" "0 :: u16"] ok(4) by auto
  obtain f1 where f1: "cache_put au f = Inr f1" "holds f1 (w @ au)" "length (fc_buf f1) = length (fc_buf f)"
    by (rule holds_put [OF Cons.prems(4), of au]) (use Cons.prems(5) x in auto)
  have n: "left \<le> int (length au) \<Longrightarrow> left = int (length au)" using Cons.prems(3) x by auto
  obtain f2 where "au_loop (length xs) c hs (pos + ?n + length ix) left (units xs @ r) f1 = Inr (Some f2)" "holds f2 ((w @ au) @ units xs)"
      "length (fc_buf f2) = length (fc_buf f1)"
    using Cons.IH [OF ok(5) s(3) _ f1(2)] Cons.prems(3,5) f1(3) x by auto
  then show ?case using r v z f1 x by (cases "left \<le> int (length au)") (simp_all add: Let_def n)
qed (simp add: header_bits_def)


lemma aac_packet_units:
  assumes "units_ok c xs" "spells hs 0 (header_bits c xs)" "length hs = length xs * au_per_header_bytes c" "size_length c \<noteq> 0" "8 * length hs < 65536"
    and "holds f w" "length w + length (units xs) \<le> length (fc_buf f)"
  shows "\<exists>f'. aac_packet c (put_be 2 (of_nat (8 * length hs) :: u16) @ hs @ units xs) f = Inr (Some f') \<and> holds f' (w @ units xs) \<and>
    length (fc_buf f') = length (fc_buf f)"
proof -
  let ?p = "put_be 2 (of_nat (8 * length hs) :: u16) @ hs @ units xs"
  have "0 < unat (size_length c)" using assms(4) by (simp add: unat_gt_0)
  then have per: "0 < au_per_header_bytes c" by (simp add: au_per_header_bytes_def)
  have "unat (of_nat (8 * length hs) :: u16) = 8 * length hs" using assms(5) by (simp add: unat_of_nat del: unsigned_of_nat of_nat_mult)
  then have b: "be_nat (take 2 ?p) = 8 * length hs" using assms(5) by (simp add: put_be_def be_nat_nat_be del: of_nat_mult)
  have k: "length hs div au_per_header_bytes c = length xs" using assms(3) per by simp
  have d: "take (length hs) (drop 2 ?p) = hs" "drop (2 + length hs) ?p = units xs" by simp_all
  have l: "\<not> length ?p < 2" "int (length ?p) - int (2 + length hs) = int (length (units xs))" by (simp_all del: length_concat)
  obtain f' where "au_loop (length xs) c hs 0 (int (length (units xs))) (units xs) f = Inr (Some f')" "holds f' (w @ units xs)"
      "length (fc_buf f') = length (fc_buf f)"
    using au_loop_units [OF assms(1,2) _ assms(6,7), of "int (length (units xs))" "[]"] by auto
  moreover have "aac_packet c ?p f = au_loop (length xs) c hs 0 (int (length (units xs))) (units xs) f"
    unfolding aac_packet_def Let_def b using l d k assms(3) by simp
  ultimately show ?thesis by auto
qed

lemma aac_message_bytes:
  "\<exists>m. aac_message j mem t a frame = Inr m \<and> timestamp m = t \<and>
    get_using_data m = Inr ([if sampling_frequency a = 11025 then 0xa7 else if sampling_frequency a = 22050 then 0xab else 0xaf, 1] @ frame)"
  by (cases j) (simp add: aac_message_def rtp_aac_header_def with_payload_def AudioTagHeader_encode_def AudioTagHeader_new_def Let_def
      inc_used_bytes_def get_using_data_def RtmpMessage_new_def)

text \<open>
  The access units of a packet with the marker become one RTMP audio message: behind the two bytes of the AAC header come the units in
  their order. The headers may have any field widths up to 16 bits for the size.
\<close>
theorem rtsp_aac_frame_rebuilt:
  assumes "r_au_config st = Some c" "r_audio_config st = Some a"
    and "units_ok c xs" "spells hs 0 (header_bits c xs)" "length hs = length xs * au_per_header_bytes c" "size_length c \<noteq> 0" "8 * length hs < 65536"
    and "length (units xs) \<le> length (audio_frame_cache st)"
    and "p = new_pkt s 1 n (put_be 2 (of_nat (8 * length hs) :: u16) @ hs @ units xs)"
  shows "\<exists>msg st'. generate_aac_rtmp_message j mem t (keyed [p]) st = Inr (Some msg, st') \<and> timestamp msg = t \<and>
    get_using_data msg = Inr ([if sampling_frequency a = 11025 then 0xa7 else if sampling_frequency a = 22050 then 0xab else 0xaf, 1] @ units xs)"
proof -
  let ?f = "\<lparr>fc_buf = audio_frame_cache st, fc_pos = 0, fc_key = False\<rparr>"
  obtain f where f: "aac_packet c (rtp_payload p) ?f = Inr (Some f)" "holds f (units xs)"
    using aac_packet_units [OF assms(3-7), of ?f "[]"] assms(8,9) by (auto simp: holds_def)
  then have "join_aac c [p] ?f = Inr (True, f)" using assms(6,9) by simp
  then show ?thesis using assms(1,2) holds_take [OF f(2)] aac_message_bytes [of j mem t a "units xs"]
    by (auto simp: generate_aac_rtmp_message_def Let_def simp del: join_aac.simps)
qed

text \<open>
  The time of an audio message is computed in 32 bits with the product first: it never exceeds the quotient of 2 to the 32 and the
  sampling frequency. At 44.1 kHz the time starts again at zero every 97 seconds.
\<close>
theorem rtsp_audio_time_bounded:
  assumes "freq \<noteq> 0"
  shows "unat (audio_time first freq t) = (unat (t - first) * 1000 mod 2 ^ 32) div unat freq \<and>
    unat (audio_time first freq t) \<le> (2 ^ 32 - 1) div unat freq"
proof -
  let ?n = "unat (t - first) * 1000 mod 2 ^ 32"
  have "unat ((t - first) * 1000) = ?n" by (subst unat_word_ariths(2)) simp
  then have "unat (audio_time first freq t) = ?n div unat freq" by (simp only: audio_time_def unat_div)
  moreover have "?n div unat freq \<le> (2 ^ 32 - 1) div unat freq" by (rule div_le_mono) simp
  ultimately show ?thesis by simp
qed

theorem rtsp_audio_time_bounded_witness:
  "unat (audio_time 0 44100 (44100 * 98)) = 608 \<and> unat (audio_time 0 44100 (44100 * 98)) \<le> 97391"
  using rtsp_audio_time_bounded [of 44100 0 "44100 * 98"] by simp


theorem rtsp_aac_frame_rebuilt_witness:
  "\<exists>msg st'. generate_aac_rtmp_message (0, 0, 0, 0) (\<lambda>_. 0) 20
      (keyed [new_pkt \<lparr>s_pt = 97, s_pts = 900, s_ssrc = 1\<rparr> 1 7 [0, 32, 0, 24, 0, 16, 0x21, 0x22, 0x23, 0x31, 0x32]])
      \<lparr>r_audio_config = Some \<lparr>audio_object_type = 2, frequency_index = 4, sampling_frequency = 44100, channel_configuration = 2\<rparr>,
        r_au_config = Some \<lparr>size_length = 13, index_length = 3\<rparr>, r_is_aac = True, rtp_aac_depacketizer = (\<lambda>_. []), audio_frame_cache = replicate 64 0,
        first_rtp_audio_ts = 0, audio_source = MediaSource_new 16\<rparr> = Inr (Some msg, st') \<and> timestamp msg = 20 \<and>
    get_using_data msg = Inr [0xaf, 1, 0x21, 0x22, 0x23, 0x31, 0x32]"
proof -
  let ?c = "\<lparr>size_length = 13, index_length = 3\<rparr>" let ?ix = "[False, False, False]"
  let ?xs = "[([0x21, 0x22, 0x23], ?ix), ([0x31, 0x32], ?ix)] :: (bytes \<times> bool list) list" let ?hs = "[0, 24, 0, 16] :: bytes"
  let ?a = "\<lparr>audio_object_type = 2, frequency_index = 4, sampling_frequency = 44100, channel_configuration = 2\<rparr>"
  let ?s = "\<lparr>s_pt = 97, s_pts = 900, s_ssrc = 1\<rparr>"
  let ?st = "\<lparr>r_audio_config = Some ?a, r_au_config = Some ?c, r_is_aac = True, rtp_aac_depacketizer = (\<lambda>_. []), audio_frame_cache = replicate 64 0,
        first_rtp_audio_ts = 0, audio_source = MediaSource_new 16\<rparr>"
  have "spells ?hs 0 (header_bits ?c ?xs)"
    by (simp add: header_bits_def spells_def stream_bits_def byte_bits_def u_bits_def upt_rec)
  moreover have "units_ok ?c ?xs" by (simp add: units_ok_def)
  ultimately show ?thesis
    using rtsp_aac_frame_rebuilt [of ?st ?c ?a ?xs ?hs "new_pkt ?s 1 7 [0, 32, 0, 24, 0, 16, 0x21, 0x22, 0x23, 0x31, 0x32]" ?s 7 "(0, 0, 0, 0)" "\<lambda>_. 0" 20]
    by (simp add: au_per_header_bytes_def put_be_def nat_be_numeral)
qed

end
