(* ===== verification/RtspPush.thy ===== *)
theory RtspPush
  imports TsBridge RtspAudio
begin

text \<open>
  The bridge from RTMP messages to RTP packets, \<^verbatim>\<open>live-server/bridge/rtmp/rtmp_to_rtsp.cpp\<close>, and its composition with the bridge back.
  The session description is represented by the parameters it announces, not by its text.
\<close>

section \<open>State\<close>

text \<open>Payload type and parameters of a medium: sampling frequency, channels and configuration, or the parameter sets.\<close>
datatype sdp_media = SdpAac byte u32 byte bytes | SdpH264 byte bytes bytes | SdpH265 byte bytes bytes bytes

text \<open>What the bridge hands to its RTSP source, which passes it on to every sink and always answers true.\<close>
datatype rtsp_event = VideoPkts "RtpPacket list" | AudioPkts "RtpPacket list"

record RtmpToRtsp =
  p_has_video :: bool
  p_has_audio :: bool
  p_video_codec :: "codec option"
  p_audio_codec :: "codec option"
  p_audio_ready :: bool
  p_length_size_less_one :: nat
  p_sdp :: "sdp_media list option"
  announce_sdp :: "sdp_media list option"
  first_video_pts :: int
  first_audio_pts :: int
  got_video_key_frame :: bool
  video_seqnum :: u16
  audio_seqnum :: u16
  pushed :: "rtsp_event list"

abbreviation audio_pt :: byte where "audio_pt \<equiv> 97"
abbreviation video_pt :: byte where "video_pt \<equiv> 96"

definition RtmpToRtsp_new :: RtmpToRtsp where
  "RtmpToRtsp_new = \<lparr>p_has_video = False, p_has_audio = False, p_video_codec = None, p_audio_codec = None, p_audio_ready = False,
     p_length_size_less_one = 3, p_sdp = None, announce_sdp = None, first_video_pts = 0, first_audio_pts = 0, got_video_key_frame = False,
     video_seqnum = 0, audio_seqnum = 0, pushed = []\<rparr>"

section \<open>The session description\<close>

definition codec_ready :: "codec \<Rightarrow> bool" where
  "codec_ready c = (case c of VideoH264 c \<Rightarrow> ready c | VideoHevc c \<Rightarrow> HevcCodec_is_ready c | AACCodec a \<Rightarrow> a \<noteq> None | MP3Codec \<Rightarrow> True | _ \<Rightarrow> False)"

text \<open>
  A description that cannot be completed stays in the member: the handlers then never try again, and the source gets none. The encoder
  of the configuration has exactly the room it needs.
\<close>
definition audio_sdp :: "RtmpToRtsp \<Rightarrow> sdp_media list option result" where
  "audio_sdp st = (if \<not> p_has_audio st then Inr (Some [])
     else case p_audio_codec st of Some (AACCodec (Some a)) \<Rightarrow> bindR (asc_encode a (replicate (asc_size a) 0)) (\<lambda>(config, _).
         Inr (Some [SdpAac audio_pt (sampling_frequency a) (channel_configuration a) config]))
       | None \<Rightarrow> Inr (Some []) | _ \<Rightarrow> Inr None)"

definition video_sdp :: "RtmpToRtsp \<Rightarrow> sdp_media list option" where
  "video_sdp st = (if \<not> p_has_video st then Some []
     else case p_video_codec st of None \<Rightarrow> Some []
       | Some (VideoH264 c) \<Rightarrow> Some [SdpH264 video_pt (vc_sps_nalu c) (vc_pps_nalu c)]
       | Some (VideoHevc c) \<Rightarrow> Some [SdpH265 video_pt (vc_vps_nalu c) (vc_sps_nalu c) (vc_pps_nalu c)] | _ \<Rightarrow> None)"

definition generate_sdp :: "RtmpToRtsp \<Rightarrow> (bool \<times> RtmpToRtsp) result" where
  "generate_sdp st =
     (if p_has_audio st \<and> (case p_audio_codec st of None \<Rightarrow> True | Some c \<Rightarrow> \<not> codec_ready c) then Inr (False, st)
      else if p_has_video st \<and> (case p_video_codec st of None \<Rightarrow> False | Some c \<Rightarrow> \<not> codec_ready c) then Inr (False, st)
      else bindR (audio_sdp st) (\<lambda>a. case a of None \<Rightarrow> Inr (False, st\<lparr>p_sdp := Some []\<rparr>)
        | Some as \<Rightarrow> (case video_sdp st of None \<Rightarrow> Inr (False, st\<lparr>p_sdp := Some as\<rparr>)
          | Some vs \<Rightarrow> Inr (True, st\<lparr>p_sdp := Some (as @ vs), announce_sdp := Some (as @ vs)\<rparr>))))"

definition try_sdp :: "RtmpToRtsp \<Rightarrow> RtmpToRtsp result" where
  "try_sdp st = (if p_sdp st = None then bindR (generate_sdp st) (\<lambda>(_, st). Inr st) else Inr st)"

section \<open>Video\<close>

definition push_h264_config :: "fresh \<Rightarrow> H264Codec \<Rightarrow> bytes \<Rightarrow> RtmpToRtsp \<Rightarrow> (bool \<times> RtmpToRtsp) result" where
  "push_h264_config mem c data st =
     (case avcc_parse (avcc_new (fst mem 0)) data of Inl (Rc _) \<Rightarrow> Inr (False, st) | Inl f \<Rightarrow> Inl f
      | Inr (r, _) \<Rightarrow> bindR (avcc_get_sps r) (\<lambda>sps. bindR (avcc_get_pps r) (\<lambda>pps. bindR (H264Codec_set_sps_pps sps pps c) (\<lambda>(_, c).
          let k = unat (nalu_length_size_minus_one r); st = st\<lparr>p_video_codec := Some (VideoH264 c), p_length_size_less_one := k\<rparr> in
          if k = 2 \<or> 3 < k then Inr (False, st) else bindR (try_sdp st) (\<lambda>st. Inr (True, st))))))"

text \<open>The time of a frame, and the origin: the first time that is not zero.\<close>
definition video_origin :: "int \<Rightarrow> RtmpToRtsp \<Rightarrow> RtmpToRtsp" where
  "video_origin pts st = (if first_video_pts st = 0 then st\<lparr>first_video_pts := pts\<rparr> else st)"

definition video_stream :: "int \<Rightarrow> RtmpToRtsp \<Rightarrow> rtp_stream" where
  "video_stream pts st = \<lparr>s_pt = video_pt, s_pts = of_int ((pts - first_video_pts st) * 90), s_ssrc = 0\<rparr>"

definition push_h264_packet :: "junk \<Rightarrow> fresh \<Rightarrow> RtmpMessage \<Rightarrow> H264Codec \<Rightarrow> RtmpToRtsp \<Rightarrow> (bool \<times> RtmpToRtsp) result" where
  "push_h264_packet j mem video_pkt c st =
     (case j of (_, ft, et, fc) \<Rightarrow> bindR (get_using_data video_pkt) (\<lambda>payload.
        case VideoTagHeader_decode payload (VideoTagHeader_new ft et fc) of (h, consumed) \<Rightarrow>
        if consumed < 0 then Inr (False, st)
        else let data = drop (nat consumed) payload in
          if VideoTagHeader_is_seq_header h then push_h264_config mem c data st
          else case get_nalus (p_length_size_less_one st) data of Inl (Rc _) \<Rightarrow> Inr (False, st) | Inl f \<Rightarrow> Inl f
            | Inr views \<Rightarrow>
                let pts = uint (timestamp video_pkt + composition_time h); st = video_origin pts st in
                bindR (scan_h264 views (\<lparr>has_aud_nalu = False, has_sps_nalu = False, has_pps_nalu = False\<rparr>, c)) (\<lambda>(nus, f, c).
                  let st = st\<lparr>p_video_codec := Some (VideoH264 c), got_video_key_frame := got_video_key_frame st \<or> is_key_frame h\<rparr> in
                  if \<not> got_video_key_frame st then Inr (True, st)
                  else let nus = (if has_aud_nalu f then nus else [0x09, 0xf0] # nus);
                           (ps, n) = RtpPacker_pack (video_stream pts st) (video_seqnum st) nus
                    in Inr (True, st\<lparr>video_seqnum := n, pushed := pushed st @ [VideoPkts ps]\<rparr>))))"

text \<open>
  A configuration that does not decode is not noticed: the decoder gives zero for it and only a negative result is refused. Frames
  before the first key frame are sent.
\<close>
definition push_h265_packet :: "junk \<Rightarrow> fresh \<Rightarrow> RtmpMessage \<Rightarrow> HevcCodec \<Rightarrow> RtmpToRtsp \<Rightarrow> (bool \<times> RtmpToRtsp) result" where
  "push_h265_packet j mem video_pkt c st =
     (case j of (_, ft, et, fc) \<Rightarrow> bindR (get_using_data video_pkt) (\<lambda>payload.
        case VideoTagHeader_decode payload (VideoTagHeader_new ft et fc) of (h, consumed) \<Rightarrow>
        if consumed < 0 then Inr (False, st)
        else let data = drop (nat consumed) payload in
          if VideoTagHeader_is_seq_header h then
            (let r = fst (hvcc_decode data (hvcc_new (fst mem))) in
             bindR (HevcCodec_set_sps_pps_vps (sps_nalu r) (pps_nalu r) (vps_nalu r) c) (\<lambda>(_, c).
               let k = unat (lengthSizeMinusOne r); st = st\<lparr>p_video_codec := Some (VideoHevc c), p_length_size_less_one := k\<rparr> in
               if k = 2 \<or> 3 < k then Inr (False, st) else bindR (try_sdp st) (\<lambda>st. Inr (True, st))))
          else case get_nalus (p_length_size_less_one st) data of Inl (Rc _) \<Rightarrow> Inr (False, st) | Inl f \<Rightarrow> Inl f
            | Inr views \<Rightarrow>
                let pts = uint (timestamp video_pkt + composition_time h); st = video_origin pts st in
                bindR (scan_hevc views (\<lparr>seen_sps = False, seen_pps = False, seen_vps = False, seen_key = False\<rparr>, c)) (\<lambda>(f, c).
                bindR (add_parameter_sets f c (map view_bytes views)) (\<lambda>nus.
                  let st = st\<lparr>p_video_codec := Some (VideoHevc c)\<rparr>; (ps, n) = H265RtpPacker_pack (video_stream pts st) (video_seqnum st) nus
                  in Inr (True, st\<lparr>video_seqnum := n, pushed := pushed st @ [VideoPkts ps]\<rparr>)))))"

section \<open>Audio\<close>

text \<open>A buffer of 8192 bytes that is not tested; the size is cut to 16 bits and its low 13 are written.\<close>
definition au_section :: "bytes \<Rightarrow> bytes result" where
  "au_section data =
     (if 8192 < 4 + length data then Inl Oob
      else bindR (write_bits 13 (scast (of_nat (length data) :: u16)) [0, 0] 0) (\<lambda>(h, pos). bindR (write_bits 3 0 h pos) (\<lambda>(h, _).
        Inr (put_be 2 (16 :: u16) @ h @ data))))"

text \<open>Division in C rounds towards zero.\<close>
definition audio_rtp_time :: "int \<Rightarrow> int \<Rightarrow> u32 \<Rightarrow> u32" where
  "audio_rtp_time pts first freq = (let x = (pts - first) * uint freq in of_int (if x < 0 then - ((- x) div 1000) else x div 1000))"

definition push_aac_packet :: "junk \<Rightarrow> RtmpMessage \<Rightarrow> AudioSpecificConfig option \<Rightarrow> RtmpToRtsp \<Rightarrow> (bool \<times> RtmpToRtsp) result" where
  "push_aac_packet j audio_pkt cfg st =
     (case j of (sf, _) \<Rightarrow> bindR (get_using_data audio_pkt) (\<lambda>payload.
        case AudioTagHeader_decode payload (AudioTagHeader_new sf) of (h, consumed) \<Rightarrow>
        if consumed < 0 then Inr (False, st)
        else let data = drop (nat consumed) payload in
          if AudioTagHeader_is_seq_header h then
            (let st = st\<lparr>p_audio_ready := True\<rparr> in
             case asc_parse data of Inl (Rc _) \<Rightarrow> Inr (False, st) | Inl f \<Rightarrow> Inl f
             | Inr (cfg, _) \<Rightarrow> bindR (try_sdp (st\<lparr>p_audio_codec := Some (AACCodec (Some cfg))\<rparr>)) (\<lambda>st. Inr (True, st)))
          else if \<not> p_audio_ready st then Inr (False, st)
          else let time = sint (timestamp audio_pkt); st = (if first_audio_pts st = 0 then st\<lparr>first_audio_pts := time\<rparr> else st) in
            case cfg of None \<Rightarrow> Inr (False, st)
            | Some cfg \<Rightarrow> bindR (au_section data) (\<lambda>buf.
                let (ps, n) = pack_raw \<lparr>s_pt = audio_pt, s_pts = audio_rtp_time time (first_audio_pts st) (sampling_frequency cfg), s_ssrc = 0\<rparr>
                      (audio_seqnum st) buf
                in Inr (True, st\<lparr>audio_seqnum := n, pushed := pushed st @ [AudioPkts ps]\<rparr>))))"

section \<open>Messages\<close>

text \<open>The codec and the packer are chosen together; a new packer starts counting again.\<close>
definition push_choose_video :: "fresh \<Rightarrow> u32 \<Rightarrow> RtmpToRtsp \<Rightarrow> bool \<times> RtmpToRtsp" where
  "push_choose_video mem i st = (if i = AVC then (True, st\<lparr>p_video_codec := Some (new_h264 mem), video_seqnum := 0\<rparr>)
     else if i = HEVC \<or> i = HEVC_FOURCC then (True, st\<lparr>p_video_codec := Some (new_hevc mem), video_seqnum := 0\<rparr>) else (False, st))"

definition push_choose_audio :: "byte \<Rightarrow> RtmpToRtsp \<Rightarrow> bool \<times> RtmpToRtsp" where
  "push_choose_audio i st = (if i = AAC then (True, st\<lparr>p_audio_codec := Some (AACCodec None)\<rparr>)
     else if i = 2 then (True, st\<lparr>p_audio_codec := Some MP3Codec\<rparr>) else (False, st))"

definition push_on_metadata :: "fresh \<Rightarrow> RtmpMessage \<Rightarrow> RtmpToRtsp \<Rightarrow> (bool \<times> RtmpToRtsp) result" where
  "push_on_metadata mem msg st =
     (case RtmpMetaDataMessage_decode msg RtmpMetaDataMessage_new of Inl (Rc _) \<Rightarrow> Inr (False, st) | Inl f \<Rightarrow> Inl f
      | Inr (m, n) \<Rightarrow>
          if n = 0 then Inr (False, st)
          else let st = st\<lparr>p_has_video := md_has_video m, p_has_audio := md_has_audio m\<rparr> in
            bindR (if md_has_video m then (case md_video_codec_id m of None \<Rightarrow> Inl Oob | Some i \<Rightarrow> Inr (push_choose_video mem i st))
                   else Inr (True, st)) (\<lambda>(go_on, st).
              if \<not> go_on then Inr (False, st)
              else if md_has_audio m then (case md_audio_codec_id m of None \<Rightarrow> Inl Oob | Some i \<Rightarrow> Inr (push_choose_audio i st))
              else Inr (True, st)))"

definition push_on_video_packet :: "junk \<Rightarrow> fresh \<Rightarrow> RtmpMessage \<Rightarrow> RtmpToRtsp \<Rightarrow> (bool \<times> RtmpToRtsp) result" where
  "push_on_video_packet j mem msg st = (case p_video_codec st of None \<Rightarrow> Inr (False, st)
     | Some (VideoH264 c) \<Rightarrow> push_h264_packet j mem msg c st | Some (VideoHevc c) \<Rightarrow> push_h265_packet j mem msg c st | _ \<Rightarrow> Inr (True, st))"

definition push_on_audio_packet :: "junk \<Rightarrow> RtmpMessage \<Rightarrow> RtmpToRtsp \<Rightarrow> (bool \<times> RtmpToRtsp) result" where
  "push_on_audio_packet j msg st = (case p_audio_codec st of None \<Rightarrow> Inr (False, st)
     | Some (AACCodec cfg) \<Rightarrow> push_aac_packet j msg cfg st | _ \<Rightarrow> Inr (True, st))"

fun push_on_rtmp_messages :: "junk \<Rightarrow> fresh \<Rightarrow> RtmpMessage list \<Rightarrow> RtmpToRtsp \<Rightarrow> (bool \<times> RtmpToRtsp) result" where
  "push_on_rtmp_messages j mem [] st = Inr (True, st)"
| "push_on_rtmp_messages j mem (msg # msgs) st =
     bindR (if message_type_id msg = RTMP_AUDIO then push_on_audio_packet j msg st
            else if message_type_id msg = RTMP_VIDEO then push_on_video_packet j mem msg st else push_on_metadata mem msg st) (\<lambda>(ok, st).
       if \<not> ok then Inr (False, st) else push_on_rtmp_messages j mem msgs st)"

section \<open>Writing bits\<close>

lemma write_one_bit_stream:
  assumes "pos < 8 * length s" and "\<not> stream_bits s ! pos"
  obtains s' where "write_one_bit v s pos = Inr (s', Suc pos)" "length s' = length s" "stream_bits s' = (stream_bits s)[pos := v]"
proof -
  let ?p = "pos div 8" let ?k = "7 - pos mod 8"
  let ?b = "if v then s ! ?p OR push_bit ?k 1 else s ! ?p AND NOT (push_bit ?k 0)"
  have p: "?p < length s" using assms(1) by (simp add: less_mult_imp_div_less mult.commute)
  have b: "bit ?b (7 - i mod 8) \<longleftrightarrow> (if i mod 8 = pos mod 8 then v else bit (s ! ?p) (7 - i mod 8))" for i
  proof -
    have "7 - i mod 8 = ?k \<longleftrightarrow> i mod 8 = pos mod 8" using mod_less_divisor [of 8 i] mod_less_divisor [of 8 pos] by linarith
    moreover have "\<not> bit (s ! ?p) ?k" using assms by (simp add: stream_bits_nth)
    ultimately show ?thesis using mod_less_divisor [of 8 pos] by (auto simp: bit_simps)
  qed
  have "stream_bits (s[?p := ?b]) = (stream_bits s)[pos := v]"
  proof (rule nth_equalityI)
    fix i assume "i < length (stream_bits (s[?p := ?b]))"
    then have i: "i < 8 * length s" by simp
    then have "i div 8 < length s" by (simp add: less_mult_imp_div_less mult.commute)
    moreover have "i = pos \<longleftrightarrow> i div 8 = ?p \<and> i mod 8 = pos mod 8" by (metis div_mult_mod_eq)
    ultimately show "stream_bits (s[?p := ?b]) ! i = (stream_bits s)[pos := v] ! i"
      using i b [of i] by (cases "i div 8 = ?p") (auto simp: stream_bits_nth nth_list_update simp del: if_split)
  qed simp
  then show thesis using that p by (simp add: write_one_bit_def rd_def)
qed

text \<open>On a buffer that is zero from the position on, the bits appear and the zeros behind them stay.\<close>
lemma write_bits_stream:
  "stream_bits s = d @ replicate (n + m) False \<Longrightarrow> length d = pos \<Longrightarrow>
    \<exists>s'. write_bits n v s pos = Inr (s', pos + n) \<and> length s' = length s \<and> stream_bits s' = d @ u_bits n v @ replicate m False"
proof (induction n arbitrary: s d pos)
  case (Suc n)
  have "8 * length s = pos + Suc n + m" using Suc.prems length_stream_bits [of s] by simp
  then have p: "pos < 8 * length s" "\<not> stream_bits s ! pos" using Suc.prems by (simp_all add: nth_append)
  obtain s1 where s1: "write_one_bit (bit v n) s pos = Inr (s1, Suc pos)" "length s1 = length s" "stream_bits s1 = (stream_bits s)[pos := bit v n]"
    by (rule write_one_bit_stream [OF p])
  have "stream_bits s1 = (d @ [bit v n]) @ replicate (n + m) False" using s1(3) Suc.prems by (simp add: list_update_append)
  then show ?case using Suc.IH [of s1 "d @ [bit v n]" "Suc pos"] Suc.prems(2) s1 by (simp add: u_bits_def)
qed (simp add: u_bits_def)

lemma stream_bits_zero: "stream_bits (replicate n 0) = replicate (8 * n) False"
  by (rule nth_equalityI) (simp_all add: stream_bits_nth)

lemma spells_stream: "stream_bits s = d @ bs @ r \<Longrightarrow> length d = pos \<Longrightarrow> spells s pos bs"
  using length_stream_bits [of s] by (auto simp: spells_def)

text \<open>The same for a field that may be missing.\<close>
lemma write_field_stream:
  assumes "stream_bits s = d @ replicate (m + n) False" and "n = (if b then k else 0)" and "length d = pos"
  obtains s' where "(if b then write_bits k v s pos else Inr (s, pos)) = Inr (s', pos + n)" "length s' = length s"
    "stream_bits s' = (d @ (if b then u_bits k v else [])) @ replicate m False"
proof (cases b)
  case True
  then show thesis using write_bits_stream [of s d k m pos v] assms that by (auto simp: add.commute)
next
  case False
  then show thesis using assms that by simp
qed

lemma bindR_if: "bindR (if b then x else y) f = (if b then bindR x f else bindR y f)"
  by simp

definition asc_bits :: "AudioSpecificConfig \<Rightarrow> bool list" where
  "asc_bits c = u_bits 5 (audio_object_type c) @ (if audio_object_type c = 31 then u_bits 6 (0 :: u64) else []) @
     u_bits 4 (ucast (frequency_index c) :: u64) @ (if frequency_index c = 0x0f then u_bits 24 (ucast (sampling_frequency c) :: u64) else []) @
     u_bits 4 (ucast (channel_configuration c) :: u64)"

lemma asc_encode_stream: "\<exists>s. asc_encode c (replicate (asc_size c) 0) = Inr (s, asc_size c) \<and> spells s 0 (asc_bits c)"
proof -
  define k2 k4 where k: "k2 = (if audio_object_type c = 31 then 6 else 0 :: nat)" "k4 = (if frequency_index c = 0x0f then 24 else 0 :: nat)"
  define m where "m = 8 * asc_size c - (13 + k2 + k4)"
  have size: "asc_size c = (13 + k2 + k4 + 7) div 8" by (simp add: asc_size_def k)
  then have m: "8 * asc_size c = m + 4 + k4 + 4 + k2 + 5" unfolding m_def by linarith
  have "stream_bits (replicate (asc_size c) 0) = [] @ replicate (5 + (m + 4 + k4 + 4 + k2)) False" unfolding stream_bits_zero m by (simp add: add.commute)
  from write_bits_stream [OF this, of 0 "audio_object_type c"]
  obtain s1 where s1: "write_bits 5 (audio_object_type c) (replicate (asc_size c) 0) 0 = Inr (s1, 5)"
      "stream_bits s1 = u_bits 5 (audio_object_type c) @ replicate (m + 4 + k4 + 4 + k2) False" by auto
  obtain s2 where s2: "(if audio_object_type c = 31 then write_bits 6 0 s1 5 else Inr (s1, 5)) = Inr (s2, 5 + k2)"
      "stream_bits s2 = (u_bits 5 (audio_object_type c) @ (if audio_object_type c = 31 then u_bits 6 (0 :: u64) else [])) @ replicate (m + 4 + k4 + 4) False"
    by (rule write_field_stream [OF s1(2), where v = 0 and k = 6 and b = "audio_object_type c = 31"]) (simp_all add: k)
  let ?d2 = "u_bits 5 (audio_object_type c) @ (if audio_object_type c = 31 then u_bits 6 (0 :: u64) else [])"
  have l2: "length ?d2 = 5 + k2" by (simp add: k)
  obtain s3 where s3: "write_bits 4 (ucast (frequency_index c)) s2 (5 + k2) = Inr (s3, 5 + k2 + 4)"
      "stream_bits s3 = (?d2 @ u_bits 4 (ucast (frequency_index c) :: u64)) @ replicate (m + 4 + k4) False"
    by (rule write_field_stream [OF s2(2) _ l2, where b = True and k = 4 and v = "ucast (frequency_index c)"]) simp_all
  let ?d3 = "?d2 @ u_bits 4 (ucast (frequency_index c) :: u64)"
  have l3: "length ?d3 = 5 + k2 + 4" by (simp add: k)
  obtain s4 where s4: "(if frequency_index c = 0x0f then write_bits 24 (ucast (sampling_frequency c)) s3 (5 + k2 + 4) else Inr (s3, 5 + k2 + 4)) =
        Inr (s4, 5 + k2 + 4 + k4)"
      "stream_bits s4 = (?d3 @ (if frequency_index c = 0x0f then u_bits 24 (ucast (sampling_frequency c) :: u64) else [])) @ replicate (m + 4) False"
    by (rule write_field_stream [OF s3(2) k(2) l3]) 
  let ?d4 = "?d3 @ (if frequency_index c = 0x0f then u_bits 24 (ucast (sampling_frequency c) :: u64) else [])"
  have l4: "length ?d4 = 5 + k2 + 4 + k4" by (simp add: k)
  obtain s5 where s5: "write_bits 4 (ucast (channel_configuration c)) s4 (5 + k2 + 4 + k4) = Inr (s5, 5 + k2 + 4 + k4 + 4)"
      "stream_bits s5 = (?d4 @ u_bits 4 (ucast (channel_configuration c) :: u64)) @ replicate m False"
    by (rule write_field_stream [OF s4(2) _ l4, where b = True and k = 4 and v = "ucast (channel_configuration c)"]) simp_all
  have "asc_encode c (replicate (asc_size c) 0) = Inr (s5, asc_size c)"
    unfolding asc_encode_def s1(1) bindR.simps prod.case s2(1) s3(1) s4(1) s5(1) by (simp add: size)
  moreover have "spells s5 0 (asc_bits c)" by (rule spells_stream [of _ "[]"]) (simp_all add: s5(2) asc_bits_def)
  ultimately show ?thesis by blast
qed

text \<open>
  Configurations whose fields fit: 5 bits of object type, 4 of frequency index and channels, and the frequency of the table, or any
  frequency of 24 bits when the index says that it is explicit.
\<close>
definition asc_ok :: "AudioSpecificConfig \<Rightarrow> bool" where
  "asc_ok c \<longleftrightarrow> unat (audio_object_type c) < 2 ^ 5 \<and> unat (frequency_index c) < 2 ^ 4 \<and> unat (channel_configuration c) < 2 ^ 4 \<and>
     (if frequency_index c = 0x0f then unat (sampling_frequency c) < 2 ^ 24 else sampling_frequency c = mpeg4audio_sample_rates ! unat (frequency_index c))"

lemma word_low_bits: "unat w < 2 ^ k \<Longrightarrow> w AND mask k = w" for w :: "'a::len word"
  by (simp add: word_unat_eq_iff unsigned_take_bit_eq take_bit_nat_eq_self flip: take_bit_eq_mask)

lemma unat_widened: "unat (ucast (b :: byte) :: u64) = unat b" "unat (ucast (f :: u32) :: u64) = unat f"
  by (simp_all add: unsigned_ucast_eq take_bit_nat_eq_self less_trans [OF unsigned_less])

lemma narrowed: "ucast (ucast (b :: byte) :: u64) = b" "ucast (ucast (f :: u32) :: u64) = f"
  by (rule bit_word_eqI; simp add: bit_simps)+

lemma asc_masks: "(0x1f :: u64) = mask 5" "(0xf :: u64) = mask 4" "(0xfff :: u64) = mask 12"
  by (simp_all add: mask_eq_exp_minus_1)

text \<open>The parser keeps the low 12 bits of an explicit frequency.\<close>
definition parsed_frequency :: "AudioSpecificConfig \<Rightarrow> u32" where
  "parsed_frequency c = (if frequency_index c = 0x0f then sampling_frequency c AND 0xfff else sampling_frequency c)"

lemma read_frequency:
  assumes "asc_ok c" and "frequency_index c = 0x0f \<Longrightarrow> spells s pos (u_bits 24 (ucast (sampling_frequency c) :: u64))"
  shows "(if frequency_index c = 0x0f then bindR (read_u 24 s pos (0 :: u64)) (\<lambda>(v, p). Inr (ucast (v AND 0xfff), p))
      else bindR (rd mpeg4audio_sample_rates (unat (frequency_index c))) (\<lambda>r. Inr (r, pos))) =
    Inr (parsed_frequency c, pos + (if frequency_index c = 0x0f then 24 else 0))"
proof (cases "frequency_index c = 0x0f")
  case True
  have "unat (sampling_frequency c) < 2 ^ 24" using assms(1) True by (simp add: asc_ok_def)
  then have "read_u 24 s pos 0 = Inr (ucast (sampling_frequency c) :: u64, pos + 24)"
    using read_u_code [OF assms(2) [OF True]] by (simp add: unat_widened)
  moreover have "ucast ((ucast (sampling_frequency c) :: u64) AND 0xfff) = sampling_frequency c AND 0xfff"
  proof -
    have m: "(0xfff :: u32) = mask 12" by (simp add: mask_eq_exp_minus_1)
    show ?thesis unfolding asc_masks m by (rule bit_word_eqI) (auto simp: bit_simps)
  qed
  ultimately show ?thesis using True by (simp add: parsed_frequency_def)
next
  case False
  then show ?thesis using assms(1) by (simp add: asc_ok_def parsed_frequency_def rd_def mpeg4audio_sample_rates_def)
qed



section \<open>Audio there and back\<close>

lemma au_section_ok:
  assumes "length data \<le> 8188"
  obtains h where "au_section data = Inr (put_be 2 (16 :: u16) @ h @ data)" "length h = 2"
    "spells h 0 (u_bits 13 (of_nat (length data) :: u16) @ [False, False, False])"
proof -
  let ?v = "scast (of_nat (length data) :: u16) :: u64"
  obtain h1 where h1: "write_bits 13 ?v [0, 0] 0 = Inr (h1, 13)" "length h1 = 2" "stream_bits h1 = u_bits 13 ?v @ replicate 3 False"
    using write_bits_stream [of "[0, 0]" "[]" 13 3 0 ?v] stream_bits_zero [of 2] by (auto simp: numeral_2_eq_2)
  obtain h2 where h2: "write_bits 3 0 h1 13 = Inr (h2, 16)" "length h2 = 2" "stream_bits h2 = u_bits 13 ?v @ u_bits 3 (0 :: u64)"
    using write_bits_stream [of h1 "u_bits 13 ?v" 3 0 13 0] h1 by auto
  have v: "u_bits 13 ?v = u_bits 13 (of_nat (length data) :: u16)" by (simp add: u_bits_def bit_simps)
  have "spells h2 0 (u_bits 13 (of_nat (length data) :: u16) @ [False, False, False])"
    using h2(3) by (intro spells_stream [of _ "[]" _ "[]"]) (simp_all add: v, simp add: u_bits_def numeral_3_eq_3)
  then show thesis using that [of h2] assms h1(1) h2(1,2) by (simp add: au_section_def del: write_bits.simps)
qed

lemma pack_raw_small: "data \<noteq> [] \<Longrightarrow> length data < 1400 \<Longrightarrow> pack_raw s n data = ([new_pkt s 1 (get_sequence_num n) data], get_sequence_num n)"
  by (simp add: pack_raw.simps Let_def)

text \<open>What the bridge makes of an audio frame that fits one packet.\<close>
lemma push_aac_frame:
  assumes "get_using_data msg = Inr payload" "AudioTagHeader_decode payload (AudioTagHeader_new sf) = (h, consumed)" "0 \<le> consumed"
      "\<not> AudioTagHeader_is_seq_header h" "p_audio_ready st" "data = drop (nat consumed) payload" "length data < 1396"
  shows "\<exists>st' hs s. push_aac_packet (sf, x) msg (Some cfg) st = Inr (True, st') \<and> length hs = 2 \<and>
    spells hs 0 (u_bits 13 (of_nat (length data) :: u16) @ [False, False, False]) \<and>
    s_pts s = audio_rtp_time (sint (timestamp msg)) (first_audio_pts st') (sampling_frequency cfg) \<and>
    first_audio_pts st' = (if first_audio_pts st = 0 then sint (timestamp msg) else first_audio_pts st) \<and>
    pushed st' = pushed st @ [AudioPkts [new_pkt s 1 (get_sequence_num (audio_seqnum st)) (put_be 2 (16 :: u16) @ hs @ data)]]"
proof -
  obtain hs where hs: "au_section data = Inr (put_be 2 (16 :: u16) @ hs @ data)" "length hs = 2"
      "spells hs 0 (u_bits 13 (of_nat (length data) :: u16) @ [False, False, False])"
    by (rule au_section_ok [of data]) (use assms(7) in auto)
  have "put_be 2 (16 :: u16) @ hs @ data \<noteq> []" "length (put_be 2 (16 :: u16) @ hs @ data) < 1400" using assms(7) hs(2) by auto
  note pack = pack_raw_small [OF this]
  define f where "f = (if first_audio_pts st = 0 then sint (timestamp msg) else first_audio_pts st)"
  define s where "s = \<lparr>s_pt = audio_pt, s_pts = audio_rtp_time (sint (timestamp msg)) f (sampling_frequency cfg), s_ssrc = 0\<rparr>"
  let ?p = "new_pkt s 1 (get_sequence_num (audio_seqnum st)) (put_be 2 (16 :: u16) @ hs @ data)"
  let ?st = "st\<lparr>first_audio_pts := f, audio_seqnum := get_sequence_num (audio_seqnum st), pushed := pushed st @ [AudioPkts [?p]]\<rparr>"
  have "push_aac_packet (sf, x) msg (Some cfg) st = Inr (True, ?st)"
    using assms(1-6) hs(1) pack by (simp add: push_aac_packet_def f_def s_def Let_def)
  moreover have "s_pts s = audio_rtp_time (sint (timestamp msg)) (first_audio_pts ?st) (sampling_frequency cfg)" by (simp add: s_def)
  moreover have "first_audio_pts ?st = (if first_audio_pts st = 0 then sint (timestamp msg) else first_audio_pts st)" by (simp add: f_def)
  moreover have "pushed ?st = pushed st @ [AudioPkts [?p]]" by simp
  ultimately show ?thesis using hs(2,3) by blast
qed

text \<open>
  C16. An AAC frame of 1 to 1395 bytes that is published with RTMP, sent with RTP by this server and received by another one comes out as the
  same frame: the packet carries it with a header of the field widths that the session description announces, and the receiving bridge
  hands one audio message with the frame to its RTMP source.
\<close>
theorem aac_there_and_back:
  assumes msg: "get_using_data msg = Inr payload" "AudioTagHeader_decode payload (AudioTagHeader_new sf) = (h, consumed)" "0 \<le> consumed"
      "\<not> AudioTagHeader_is_seq_header h" "p_audio_ready st"
    and data: "data = drop (nat consumed) payload" "data \<noteq> []" "length data < 1396"
    and receiver: "r_au_config rst = Some \<lparr>size_length = 13, index_length = 3\<rparr>" "r_audio_config rst = Some a" "sampling_frequency a \<noteq> 0"
      "length data \<le> length (audio_frame_cache rst)" "\<And>t. rtp_aac_depacketizer rst t = []"
  shows "\<exists>st' p m rst'. push_aac_packet (sf, x) msg (Some cfg) st = Inr (True, st') \<and> pushed st' = pushed st @ [AudioPkts [p]] \<and>
    rtp_timestamp (rtp_header p) = audio_rtp_time (sint (timestamp msg)) (first_audio_pts st') (sampling_frequency cfg) \<and>
    rtsp_aac_packet j mem p rst = bindR (rtmp_on_audio_packet j m (audio_source rst)) (\<lambda>(_, s). Inr (rst'\<lparr>audio_source := s\<rparr>)) \<and>
    get_using_data m = Inr ([if sampling_frequency a = 11025 then 0xa7 else if sampling_frequency a = 22050 then 0xab else 0xaf, 1] @ data)"
proof -
  let ?c = "\<lparr>size_length = 13, index_length = 3\<rparr>" let ?xs = "[(data, [False, False, False])]"
  obtain st' hs s where p: "push_aac_packet (sf, x) msg (Some cfg) st = Inr (True, st')" "length hs = 2"
      "spells hs 0 (u_bits 13 (of_nat (length data) :: u16) @ [False, False, False])"
      "s_pts s = audio_rtp_time (sint (timestamp msg)) (first_audio_pts st') (sampling_frequency cfg)"
      "pushed st' = pushed st @ [AudioPkts [new_pkt s 1 (get_sequence_num (audio_seqnum st)) (put_be 2 (16 :: u16) @ hs @ data)]]"
    using push_aac_frame [OF msg data(1,3), of x cfg] by blast
  let ?p = "new_pkt s 1 (get_sequence_num (audio_seqnum st)) (put_be 2 (16 :: u16) @ hs @ data)"
  let ?t = "audio_time (first_rtp_audio_ts rst) (sampling_frequency a) (s_pts s)"
  have "units_ok ?c ?xs" "spells hs 0 (header_bits ?c ?xs)" "length hs = length ?xs * au_per_header_bytes ?c"
    using data(2,3) p(2,3) by (auto simp: units_ok_def header_bits_def au_per_header_bytes_def)
  then obtain m rst' where m: "generate_aac_rtmp_message j mem ?t (keyed [?p]) rst = Inr (Some m, rst')"
      "get_using_data m = Inr ([if sampling_frequency a = 11025 then 0xa7 else if sampling_frequency a = 22050 then 0xab else 0xaf, 1] @ data)"
    using rtsp_aac_frame_rebuilt [of rst ?c a ?xs hs ?p s "get_sequence_num (audio_seqnum st)" j mem ?t] receiver(1,2,4) p(2) by auto
  have d: "(rtp_aac_depacketizer rst)(s_pts s := []) = rtp_aac_depacketizer rst" using receiver(5) by auto
  then have "rtsp_aac_packet j mem ?p rst = bindR (generate_aac_rtmp_message j mem ?t (keyed [?p]) rst) (\<lambda>(msg, st). case msg of None \<Rightarrow> Inr st
      | Some audio_msg \<Rightarrow> bindR (rtmp_on_audio_packet j audio_msg (audio_source st)) (\<lambda>(_, s). Inr (st\<lparr>audio_source := s\<rparr>)))"
    using receiver by (simp add: rtsp_aac_packet_def on_packet_def Let_def)
  moreover have "audio_source rst' = audio_source rst"
    using m(1) by (auto simp: generate_aac_rtmp_message_def bindR_eq_Inr_iff Let_def split: option.splits if_splits)
  ultimately have "rtsp_aac_packet j mem ?p rst = bindR (rtmp_on_audio_packet j m (audio_source rst)) (\<lambda>(_, s). Inr (rst'\<lparr>audio_source := s\<rparr>))"
    using m(1) by simp
  then show ?thesis using p(1,4,5) m(2) by (intro exI conjI) (assumption | simp)+
qed

theorem aac_there_and_back_witness:
  "\<exists>st' p m rst'. push_aac_packet (0, 0, 0, 0) (media_msg [0xaf, 1, 0x21, 0x22, 0x23] 1020)
       (Some \<lparr>audio_object_type = 2, frequency_index = 4, sampling_frequency = 44100, channel_configuration = 2\<rparr>)
       (RtmpToRtsp_new\<lparr>p_audio_ready := True, first_audio_pts := 1000\<rparr>) = Inr (True, st') \<and> pushed st' = [AudioPkts [p]] \<and>
     rtp_timestamp (rtp_header p) = 882 \<and>
     rtsp_aac_packet (0, 0, 0, 0) (\<lambda>_. 0) p
       \<lparr>r_audio_config = Some \<lparr>audio_object_type = 2, frequency_index = 4, sampling_frequency = 44100, channel_configuration = 2\<rparr>,
         r_au_config = Some \<lparr>size_length = 13, index_length = 3\<rparr>, r_is_aac = True, rtp_aac_depacketizer = (\<lambda>_. []), audio_frame_cache = replicate 64 0,
         first_rtp_audio_ts = 0, audio_source = MediaSource_new 16\<rparr> =
       bindR (rtmp_on_audio_packet (0, 0, 0, 0) m (MediaSource_new 16)) (\<lambda>(_, s). Inr (rst'\<lparr>audio_source := s\<rparr>)) \<and>
     get_using_data m = Inr [0xaf, 1, 0x21, 0x22, 0x23]"
proof -
  let ?a = "\<lparr>audio_object_type = 2, frequency_index = 4, sampling_frequency = 44100, channel_configuration = 2\<rparr>"
  let ?st = "RtmpToRtsp_new\<lparr>p_audio_ready := True, first_audio_pts := 1000\<rparr>"
  let ?rst = "\<lparr>r_audio_config = Some ?a, r_au_config = Some \<lparr>size_length = 13, index_length = 3\<rparr>, r_is_aac = True, rtp_aac_depacketizer = (\<lambda>_. []),
    audio_frame_cache = replicate 64 0, first_rtp_audio_ts = 0, audio_source = MediaSource_new 16\<rparr>"
  let ?h = "\<lparr>sound_format = AAC, sound_rate = 3, sound_size = 1, sound_type = 1, aac_packet_type = 1\<rparr>"
  have h: "AudioTagHeader_decode [0xaf, 1, 0x21, 0x22, 0x23] (AudioTagHeader_new 0) = (?h, 2)"
    by (simp add: AudioTagHeader_decode_def AudioTagHeader_new_def Let_def)
  have f: "first_audio_pts st' = 1000" if "push_aac_packet (0, 0, 0, 0) (media_msg [0xaf, 1, 0x21, 0x22, 0x23] 1020) (Some ?a) ?st = Inr (True, st')" for st'
    using push_aac_frame [OF media_msg_data(1) [of _ 1020] h, where st = ?st and data = "[0x21, 0x22, 0x23]" and x = "(0, 0, 0)" and cfg = ?a] that by (auto simp: AudioTagHeader_is_seq_header_def)
  obtain st' p m rst' where r: "push_aac_packet (0, 0, 0, 0) (media_msg [0xaf, 1, 0x21, 0x22, 0x23] 1020) (Some ?a) ?st = Inr (True, st')"
      "pushed st' = [AudioPkts [p]]" "rtp_timestamp (rtp_header p) = audio_rtp_time 1020 (first_audio_pts st') 44100"
      "rtsp_aac_packet (0, 0, 0, 0) (\<lambda>_. 0) p ?rst = bindR (rtmp_on_audio_packet (0, 0, 0, 0) m (MediaSource_new 16)) (\<lambda>(_, s). Inr (rst'\<lparr>audio_source := s\<rparr>))"
      "get_using_data m = Inr [0xaf, 1, 0x21, 0x22, 0x23]"
    using aac_there_and_back [OF media_msg_data(1) [of _ 1020] h, where st = ?st and data = "[0x21, 0x22, 0x23]" and rst = ?rst and a = ?a and x = "(0, 0, 0)"
        and cfg = ?a and j = "(0, 0, 0, 0)" and mem = "\<lambda>_. 0"]
    by (auto simp: AudioTagHeader_is_seq_header_def RtmpToRtsp_new_def)
  then have "rtp_timestamp (rtp_header p) = 882" using f by (simp add: audio_rtp_time_def)
  then show ?thesis using r(1,2,4,5) by (intro exI conjI)
qed

section \<open>Video there and back\<close>

text \<open>What the bridge makes of a frame of H.264.\<close>
lemma push_h264_frame:
  assumes msg: "get_using_data video_pkt = Inr payload" "VideoTagHeader_decode payload (VideoTagHeader_new ft et fc) = (h, consumed)"
      "0 \<le> consumed" "\<not> VideoTagHeader_is_seq_header h" "got_video_key_frame st \<or> is_key_frame h"
    and units: "drop (nat consumed) payload = concat (map (unit_wire (p_length_size_less_one st)) us)"
      "\<And>u. u \<in> set us \<Longrightarrow> unit_ok (p_length_size_less_one st) u"
    and pps: "vc_pps_nalu c = [] \<or> h264_type (hd (vc_pps_nalu c)) = 8" and lead: "sets_lead us"
    and pts: "pts = uint (timestamp video_pkt + composition_time h)"
    and pack: "RtpPacker_pack (video_stream pts (video_origin pts st)) (video_seqnum st) (with_aud us (with_sets (vc_sps_nalu c) (vc_pps_nalu c) us)) = (ps, n)"
  shows "\<exists>c'. push_h264_packet (sf, ft, et, fc) mem video_pkt c st =
    Inr (True, (video_origin pts st)\<lparr>p_video_codec := Some (VideoH264 c'), got_video_key_frame := True, video_seqnum := n, pushed := pushed st @ [VideoPkts ps]\<rparr>)"
proof -
  let ?k = "p_length_size_less_one st" and ?f = "\<lparr>has_aud_nalu = False, has_sps_nalu = False, has_pps_nalu = False\<rparr>"
  obtain vs where vs: "get_nalus ?k (drop (nat consumed) payload) = Inr vs" "map view_bytes vs = us" "\<forall>v\<in>set vs. view_ok v"
    using get_nalus_wire [of us ?k] units by auto
  obtain f' c' where sc: "scan_h264 vs (?f, c) = Inr (with_sets (vc_sps_nalu c) (vc_pps_nalu c) us, f', c')"
      "has_aud_nalu f' \<longleftrightarrow> (\<exists>u\<in>set us. h264_type (hd u) = 9)"
    using scan_h264_spec [OF vs(3), of ?f c] pps lead vs(2) by auto
  let ?W = "with_sets (vc_sps_nalu c) (vc_pps_nalu c) us"
  have nus: "has_aud_nalu f' \<Longrightarrow> with_aud us ?W = ?W" "\<not> has_aud_nalu f' \<Longrightarrow> with_aud us ?W = [0x09, 0xf0] # ?W" using sc(2) by (simp_all add: with_aud_def)
  have o: "got_video_key_frame (video_origin pts st) = got_video_key_frame st" "video_seqnum (video_origin pts st) = video_seqnum st"
      "pushed (video_origin pts st) = pushed st" by (simp_all add: video_origin_def)
  have s: "video_stream pts ((video_origin pts st)\<lparr>p_video_codec := x, got_video_key_frame := y\<rparr>) = video_stream pts (video_origin pts st)" for x y
    by (simp add: video_stream_def)
  have "push_h264_packet (sf, ft, et, fc) mem video_pkt c st =
    Inr (True, (video_origin pts st)\<lparr>p_video_codec := Some (VideoH264 c'), got_video_key_frame := True, video_seqnum := n, pushed := pushed st @ [VideoPkts ps]\<rparr>)"
    using msg vs(1) sc(1) nus pack by (auto simp: push_h264_packet_def Let_def s o simp flip: pts)
  then show ?thesis ..
qed

lemma with_aud_sets_nonempty: "with_aud us (with_sets sps pps us) \<noteq> []"
  by (auto simp: with_aud_def with_sets_def Let_def)



section \<open>The time of the second frame\<close>

text \<open>The packets of a frame in some order with the marked one last, and a receiver that waits for a frame.\<close>
definition frame_packets :: "rtp_stream \<Rightarrow> u16 \<Rightarrow> bytes list \<Rightarrow> RtpPacket list \<Rightarrow> bool" where
  "frame_packets s n us qs \<longleftrightarrow> us \<noteq> [] \<and> (\<forall>u\<in>set us. h264_unit u \<and> packable 1 u) \<and>
     (\<exists>ps n'. RtpPacker_pack s n us = (ps, n') \<and> unat n + length ps < 65535 \<and> mset qs = mset ps \<and> marked (last qs))"

definition can_receive :: "RtspToRtmp \<Rightarrow> bytes list \<Rightarrow> bool" where
  "can_receive rst us \<longleftrightarrow> (\<exists>c. r_video_codec rst = Some (VideoH264 c)) \<and> length (length_prefixed us) \<le> length (video_frame_cache rst) \<and>
     (\<forall>t. rtp_h264_depacketizer rst t = []) \<and> 0 < fst (video_fps rst)"

text \<open>A frame that arrives while the origin is zero gets the time zero.\<close>
lemma frame_at_zero:
  assumes "frame_packets s n us qs" "can_receive rst us" "first_rtp_video_ts rst = 0"
  shows "\<exists>m dts cache. on_video_pkts j mem i qs rst = bindR (rtmp_on_video_packet j mem m (rtmp_media_source rst)) (\<lambda>(_, src).
      Inr (rst\<lparr>first_rtp_video_ts := s_pts s, video_frame_cache := cache, video_dts_ms := dts, rtmp_media_source := src\<rparr>)) \<and> timestamp m = 0"
proof -
  obtain ps n' where p: "us \<noteq> []" "\<And>u. u \<in> set us \<Longrightarrow> h264_unit u \<and> packable 1 u" "RtpPacker_pack s n us = (ps, n')" "unat n + length ps < 65535"
      "mset qs = mset ps" "marked (last qs)" using assms(1) by (auto simp: frame_packets_def)
  have num: "numbered s n ps n'" "length (filter marked ps) = 1"
    using pack_units_numbered [of h264_fu_header 1 s n us ps n'] p by (simp_all add: RtpPacker_pack_def)
  obtain rs q where "qs = rs @ [q]" "\<forall>x\<in>set qs. rtp_timestamp (rtp_header x) = s_pts s" by (rule marked_completes [OF num p(5,6)])
  then have qs: "qs \<noteq> []" "rtp_timestamp (rtp_header (hd qs)) = s_pts s" by (simp_all add: hd_append)
  let ?rst = "rst\<lparr>first_rtp_video_ts := s_pts s\<rparr>"
  obtain c where r: "r_video_codec ?rst = Some (VideoH264 c)" "length (length_prefixed us) \<le> length (video_frame_cache ?rst)"
      "rtp_h264_depacketizer ?rst (s_pts s) = []" "0 < fst (video_fps ?rst)" using assms(2) by (auto simp: can_receive_def)
  obtain m ct dts cache where "process_video_packets j mem i qs ?rst = bindR (rtmp_on_video_packet j mem m (rtmp_media_source ?rst)) (\<lambda>(_, src).
        Inr (?rst\<lparr>video_frame_cache := cache, video_dts_ms := dts, rtmp_media_source := src\<rparr>))" "timestamp m = (s_pts s - first_rtp_video_ts ?rst) div 90"
    using rtp_h264_frame_rebuilt [OF r(1) p(1,2) r(2) p(3,4,5,6) r(3,4), of j mem i] by blast
  moreover have "on_video_pkts j mem i qs rst = process_video_packets j mem i qs ?rst" using qs assms(3) by (simp add: on_video_pkts_def)
  ultimately show ?thesis by (intro exI conjI) (simp_all)
qed

text \<open>
  C39. The first two frames of a stream that this server sends with RTP and another one receives both get the time zero, however far they
  are apart: the first packet has the time stamp zero, which the receiver takes for an origin that is not known yet, so that the second
  frame becomes the origin. All later frames are early by the distance of the first two; audio has an origin of its own.
\<close>
theorem second_frame_at_zero:
  assumes push: "first_video_pts st = 0" "st1 = video_origin pts1 st"
    and frames: "frame_packets (video_stream pts1 st1) n1 us1 qs1" "frame_packets (video_stream pts2 st1) n2 us2 qs2"
    and receiver: "can_receive rst us1" "first_rtp_video_ts rst = 0" "can_receive rst' us2" "first_rtp_video_ts rst' = 0"
  shows "(\<exists>m dts cache. on_video_pkts j mem i qs1 rst = bindR (rtmp_on_video_packet j mem m (rtmp_media_source rst)) (\<lambda>(_, src).
        Inr (rst\<lparr>video_frame_cache := cache, video_dts_ms := dts, rtmp_media_source := src\<rparr>)) \<and> timestamp m = 0) \<and>
    (\<exists>m dts cache. on_video_pkts j mem i qs2 rst' = bindR (rtmp_on_video_packet j mem m (rtmp_media_source rst')) (\<lambda>(_, src).
        Inr (rst'\<lparr>first_rtp_video_ts := of_int ((pts2 - pts1) * 90), video_frame_cache := cache, video_dts_ms := dts, rtmp_media_source := src\<rparr>)) \<and>
      timestamp m = 0)"
proof -
  have s: "s_pts (video_stream pts1 st1) = 0" "s_pts (video_stream pts2 st1) = of_int ((pts2 - pts1) * 90)"
    using push by (simp_all add: video_stream_def video_origin_def)
  have "rst\<lparr>first_rtp_video_ts := 0\<rparr> = rst" using receiver(2) by simp
  then show ?thesis using frame_at_zero [OF frames(1) receiver(1,2), of j mem i] frame_at_zero [OF frames(2) receiver(3,4), of j mem i]
    unfolding s by simp
qed

theorem second_frame_at_zero_witness:
  "\<exists>m dts cache.
     on_video_pkts (0, 0, 0, 0) no_mem (0, 0) [new_pkt \<lparr>s_pt = video_pt, s_pts = 3600, s_ssrc = 0\<rparr> 1 3 [0x41, 1, 2]] (sample_bridge\<lparr>first_rtp_video_ts := 0\<rparr>) =
       bindR (rtmp_on_video_packet (0, 0, 0, 0) no_mem m (MediaSource_new 16)) (\<lambda>(_, src).
         Inr (sample_bridge\<lparr>first_rtp_video_ts := 3600, video_frame_cache := cache, video_dts_ms := dts, rtmp_media_source := src\<rparr>)) \<and> timestamp m = 0"
proof -
  let ?st1 = "video_origin 100 RtmpToRtsp_new" let ?rst = "sample_bridge\<lparr>first_rtp_video_ts := 0\<rparr>"
  let ?q1 = "new_pkt (video_stream 100 ?st1) 1 2 [0x65, 4, 5]" let ?q2 = "new_pkt (video_stream 140 ?st1) 1 3 [0x41, 1, 2]"
  have q: "video_stream 140 ?st1 = \<lparr>s_pt = video_pt, s_pts = 3600, s_ssrc = 0\<rparr>"
    by (simp add: video_stream_def video_origin_def RtmpToRtsp_new_def)
  have "RtpPacker_pack (video_stream 100 ?st1) 1 [[0x65, 4, 5]] = ([?q1], 2)" "RtpPacker_pack (video_stream 140 ?st1) 2 [[0x41, 1, 2]] = ([?q2], 3)"
    by (simp_all add: RtpPacker_pack_def get_sequence_num_def)
  then have f: "frame_packets (video_stream 100 ?st1) 1 [[0x65, 4, 5]] [?q1]" "frame_packets (video_stream 140 ?st1) 2 [[0x41, 1, 2]] [?q2]"
    by (simp_all add: frame_packets_def h264_unit_def packable_def)
  have c: "can_receive ?rst [[0x65, 4, 5]]" "can_receive ?rst [[0x41, 1, 2]]" "first_rtp_video_ts ?rst = 0"
    by (simp_all add: can_receive_def sample_bridge_def length_prefixed_def)
  have "first_video_pts RtmpToRtsp_new = 0" by (simp add: RtmpToRtsp_new_def)
  from conjunct2 [OF second_frame_at_zero [OF this refl f c(1,3) c(2,3), of "(0, 0, 0, 0)" no_mem "(0, 0)"]] show ?thesis
    by (simp add: q sample_bridge_def)
qed

section \<open>Audio frames that do not fit\<close>

text \<open>
  A frame of 1396 bytes fills one packet exactly, which then has no marker: the receiver keeps it and never delivers it.
\<close>
theorem aac_exact_packet_lost:
  assumes "length data = 1396"
  shows "\<exists>p n'. (\<exists>buf. au_section data = Inr buf \<and> pack_raw s n buf = ([p], n')) \<and> rtsp_aac_packet j mem p rst =
    Inr (rst\<lparr>rtp_aac_depacketizer := (rtp_aac_depacketizer rst)(s_pts s := map_insert (get_sequence_num n) p (rtp_aac_depacketizer rst (s_pts s)))\<rparr>)"
proof -
  obtain hs where hs: "au_section data = Inr (put_be 2 (16 :: u16) @ hs @ data)" "length hs = 2" by (rule au_section_ok [of data]) (use assms in auto)
  let ?b = "put_be 2 (16 :: u16) @ hs @ data" let ?p = "new_pkt s 0 (get_sequence_num n) ?b"
  have l: "length ?b = 1400" "?b \<noteq> []" using assms hs(2) by auto
  then have "take 1400 ?b = ?b" "drop 1400 ?b = []" by (metis order_refl take_all, metis drop_all order_refl)
  then have "pack_raw s n ?b = ([?p], get_sequence_num n)" using l by (subst pack_raw.simps) (simp add: Let_def pack_raw.simps)
  then show ?thesis using hs(1) by (intro exI conjI) (assumption | simp add: rtsp_aac_packet_def on_packet_def Let_def)+
qed

end
