(* ===== verification/FlvBridge.thy ===== *)
theory FlvBridge
  imports MediaSources
begin

text \<open>
  The bridges between RTMP messages and FLV tags: \<^verbatim>\<open>live-server/bridge/rtmp/rtmp_to_flv.cpp\<close> and
  \<^verbatim>\<open>live-server/bridge/flv/flv_to_rtmp.cpp\<close>. Each makes one packet of the other kind from every packet and hands it to its source.
\<close>

section \<open>From messages to tags\<close>

definition FlvTag_new :: "(nat \<Rightarrow> byte) \<Rightarrow> nat \<Rightarrow> FlvTagHeader \<Rightarrow> TAGDATA \<Rightarrow> FlvTag" where
  "FlvTag_new mem n h d = \<lparr>data_buf = map mem [0..<n], using_bytes = 0, tag_header = h, tag_data = Some d\<rparr>"

text \<open>
  The tag of a message. The result of the encoder is ignored: when it fails the tag has no used bytes, so what it wrote is never read.
\<close>
definition flv_tag_of :: "(nat \<Rightarrow> byte) \<Rightarrow> byte \<Rightarrow> TAGDATA \<Rightarrow> bytes \<Rightarrow> RtmpMessage \<Rightarrow> FlvTag result" where
  "flv_tag_of mem kind d payload msg =
     (let tag = FlvTag_new mem (11 + length payload) \<lparr>th_tag_type = kind, th_data_size = of_nat (length payload), th_timestamp = timestamp msg,
        th_stream_id = message_stream_id msg\<rparr> d
      in case FlvTag_encode tag of Inr (tag', _) \<Rightarrow> Inr tag' | Inl (Rc _) \<Rightarrow> Inr tag | Inl f \<Rightarrow> Inl f)"

definition rtf_metadata_tag :: "(nat \<Rightarrow> byte) \<Rightarrow> RtmpMessage \<Rightarrow> FlvTag result" where
  "rtf_metadata_tag mem msg = bindR (get_using_data msg) (\<lambda>payload. flv_tag_of mem 18 (SCRIPTDATA payload) payload msg)"

text \<open>Data that does not decode keeps the whole message as its payload.\<close>
definition rtf_audio_tag :: "junk \<Rightarrow> (nat \<Rightarrow> byte) \<Rightarrow> RtmpMessage \<Rightarrow> FlvTag result" where
  "rtf_audio_tag j mem msg = bindR (get_using_data msg) (\<lambda>payload. flv_tag_of mem 8
     (case AUDIODATA_decode j payload of (AUDIODATA h p, c) \<Rightarrow> AUDIODATA h (if c < 0 then payload else p) | (d, _) \<Rightarrow> d) payload msg)"

text \<open>None: the video header does not decode and the message is refused.\<close>
definition rtf_video_tag :: "junk \<Rightarrow> (nat \<Rightarrow> byte) \<Rightarrow> RtmpMessage \<Rightarrow> FlvTag option result" where
  "rtf_video_tag j mem msg = (case j of (_, ft, et, fc) \<Rightarrow> bindR (get_using_data msg) (\<lambda>payload.
     if snd (VideoTagHeader_decode payload (VideoTagHeader_new ft et fc)) < 0 then Inr None
     else bindR (flv_tag_of mem 9
       (case VIDEODATA_decode j payload of (VIDEODATA h p pts dts, c) \<Rightarrow> VIDEODATA h (if c \<le> 0 then payload else p) pts dts | (d, _) \<Rightarrow> d) payload msg)
       (\<lambda>tag. Inr (Some tag))))"

definition rtf_on_metadata :: "fresh \<Rightarrow> RtmpMessage \<Rightarrow> FlvTag MediaSource \<Rightarrow> (bool \<times> FlvTag MediaSource) result" where
  "rtf_on_metadata mem msg src = bindR (rtf_metadata_tag (fst mem) msg) (\<lambda>tag. flv_on_metadata mem tag src)"

definition rtf_on_audio_packet :: "junk \<Rightarrow> fresh \<Rightarrow> RtmpMessage \<Rightarrow> FlvTag MediaSource \<Rightarrow> (bool \<times> FlvTag MediaSource) result" where
  "rtf_on_audio_packet j mem msg src = bindR (rtf_audio_tag j (fst mem) msg) (\<lambda>tag. flv_on_audio_packet tag src)"

definition rtf_on_video_packet :: "junk \<Rightarrow> fresh \<Rightarrow> RtmpMessage \<Rightarrow> FlvTag MediaSource \<Rightarrow> (bool \<times> FlvTag MediaSource) result" where
  "rtf_on_video_packet j mem msg src = bindR (rtf_video_tag j (fst mem) msg) (\<lambda>r.
     case r of None \<Rightarrow> Inr (False, src) | Some tag \<Rightarrow> flv_on_video_packet mem tag src)"

fun rtf_on_rtmp_messages :: "junk \<Rightarrow> fresh \<Rightarrow> RtmpMessage list \<Rightarrow> FlvTag MediaSource \<Rightarrow> (bool \<times> FlvTag MediaSource) result" where
  "rtf_on_rtmp_messages j mem [] src = Inr (True, src)"
| "rtf_on_rtmp_messages j mem (msg # msgs) src =
     bindR (if message_type_id msg = 8 then rtf_on_audio_packet j mem msg src
            else if message_type_id msg = 9 then rtf_on_video_packet j mem msg src else rtf_on_metadata mem msg src) (\<lambda>(ok, src).
       if \<not> ok then Inr (False, src) else rtf_on_rtmp_messages j mem msgs src)"

section \<open>From tags to messages\<close>

text \<open>The message of a tag: the bytes after the tag header. A tag of fewer bytes makes the size of the message wrap around.\<close>
definition rtmp_message_of :: "(nat \<Rightarrow> byte) \<Rightarrow> byte \<Rightarrow> FlvTag \<Rightarrow> RtmpMessage result" where
  "rtmp_message_of mem kind tag = bindR (get_using_data tag) (\<lambda>w. if length w < 11 then Inl Oob
     else let m = (RtmpMessage_new mem (length w - 11))\<lparr>chunk_stream_id := 8, message_stream_id := 0, message_type_id := kind,
            timestamp := th_timestamp (tag_header tag)\<rparr>
       in bindR (write_unused (drop 11 w) m) (\<lambda>m. Inr (inc_used_bytes (length w - 11) m)))"

definition ftr_on_metadata :: "fresh \<Rightarrow> FlvTag \<Rightarrow> RtmpMessage MediaSource \<Rightarrow> (bool \<times> RtmpMessage MediaSource) result" where
  "ftr_on_metadata mem tag src = bindR (rtmp_message_of (fst mem) 18 tag) (\<lambda>m. rtmp_on_metadata mem m src)"

definition ftr_on_audio_packet :: "junk \<Rightarrow> fresh \<Rightarrow> FlvTag \<Rightarrow> RtmpMessage MediaSource \<Rightarrow> (bool \<times> RtmpMessage MediaSource) result" where
  "ftr_on_audio_packet j mem tag src = bindR (rtmp_message_of (fst mem) 8 tag) (\<lambda>m. rtmp_on_audio_packet j m src)"

definition ftr_on_video_packet :: "junk \<Rightarrow> fresh \<Rightarrow> FlvTag \<Rightarrow> RtmpMessage MediaSource \<Rightarrow> (bool \<times> RtmpMessage MediaSource) result" where
  "ftr_on_video_packet j mem tag src = bindR (rtmp_message_of (fst mem) 9 tag) (\<lambda>m. rtmp_on_video_packet j mem m src)"

text \<open>Tags of other types are passed over.\<close>
fun ftr_on_flv_tags :: "junk \<Rightarrow> fresh \<Rightarrow> FlvTag list \<Rightarrow> RtmpMessage MediaSource \<Rightarrow> (bool \<times> RtmpMessage MediaSource) result" where
  "ftr_on_flv_tags j mem [] src = Inr (True, src)"
| "ftr_on_flv_tags j mem (tag # tags) src = (let t = th_tag_type (tag_header tag) AND 0x1f in
     bindR (if t = 8 then ftr_on_audio_packet j mem tag src else if t = 9 then ftr_on_video_packet j mem tag src
            else if t = 18 then ftr_on_metadata mem tag src else Inr (True, src)) (\<lambda>(ok, src).
       if \<not> ok then Inr (False, src) else ftr_on_flv_tags j mem tags src))"

section \<open>There and back\<close>

text \<open>The tag a bridge makes of a message.\<close>
definition rtf_tag :: "junk \<Rightarrow> (nat \<Rightarrow> byte) \<Rightarrow> byte \<Rightarrow> RtmpMessage \<Rightarrow> FlvTag option result" where
  "rtf_tag j mem kind msg = (if kind = 9 then rtf_video_tag j mem msg
     else bindR (if kind = 8 then rtf_audio_tag j mem msg else rtf_metadata_tag mem msg) (\<lambda>tag. Inr (Some tag)))"

lemma flv_tag_of_ok:
  assumes "data_ok d" and "length payload = length (data_bytes d)"
  shows "\<exists>tag. flv_tag_of mem kind d payload msg = Inr tag \<and> tag_data tag = Some d \<and> th_timestamp (tag_header tag) = timestamp msg \<and>
    th_tag_type (tag_header tag) = kind \<and> get_using_data tag = Inr (tag_header_bytes (tag_header tag) @ data_bytes d)"
proof -
  let ?tag = "FlvTag_new mem (11 + length payload) \<lparr>th_tag_type = kind, th_data_size = of_nat (length payload), th_timestamp = timestamp msg,
    th_stream_id = message_stream_id msg\<rparr> d"
  let ?b = "data_buf ?tag"
  have l: "length ?b = 11 + length (data_bytes d)" using assms(2) by (simp add: FlvTag_new_def)
  have "FlvTagHeader_encode (tag_header ?tag) ?b = Inr (11, tag_header_bytes (tag_header ?tag) @ drop 11 ?b)"
    using writesD [OF tag_header_writes, of "tag_header ?tag" ?b] l by simp
  moreover have "TAGDATA_encode d (drop 11 ?b) = Inr (length (data_bytes d), data_bytes d)"
    using writesD [OF data_encode_writes [OF assms(1)], of "drop 11 ?b"] l by simp
  ultimately have "FlvTag_encode ?tag = Inr (inc_used_bytes (11 + length (data_bytes d))
      (?tag\<lparr>data_buf := tag_header_bytes (tag_header ?tag) @ data_bytes d\<rparr>), 11 + length (data_bytes d))"
    by (simp add: FlvTag_encode_def) (simp add: FlvTag_new_def)
  then show ?thesis by (simp add: flv_tag_of_def Let_def) (simp add: FlvTag_new_def inc_used_bytes_def get_using_data_def)
qed


lemma rtmp_message_of_tag:
  assumes "get_using_data tag = Inr (tag_header_bytes h @ b)"
  shows "\<exists>m. rtmp_message_of mem kind tag = Inr m \<and> get_using_data m = Inr b \<and> timestamp m = th_timestamp (tag_header tag) \<and> message_type_id m = kind"
  using assms by (simp add: rtmp_message_of_def Let_def write_unused_def inc_used_bytes_def get_using_data_def RtmpMessage_new_def)

text \<open>The tag data the bridge makes of the bytes of tag data: the fields of an enhanced header that is not there are not initialised.\<close>
definition data_made :: "junk \<Rightarrow> TAGDATA \<Rightarrow> TAGDATA" where
  "data_made j d = (case d of VIDEODATA h p pts dts \<Rightarrow> VIDEODATA (case j of (_, ft, et, fc) \<Rightarrow>
     if is_extheader h then h else h\<lparr>ext_packet_type := et, fourcc := fc\<rparr>) p None None | _ \<Rightarrow> d)"

lemma rtf_tag_ok:
  assumes "get_using_data msg = Inr (data_bytes d)" and "data_ok d"
  shows "\<exists>tag h. rtf_tag j mem (data_kind d) msg = Inr (Some tag) \<and> get_using_data tag = Inr (tag_header_bytes h @ data_bytes d) \<and>
    tag_header tag = h \<and> th_timestamp h = timestamp msg \<and> th_tag_type h = data_kind d \<and> tag_data tag = Some (data_made j d)"
proof -
  obtain sf ft et fc where j: "j = (sf, ft, et, fc)" by (cases j)
  show ?thesis
  proof (cases d)
    case (AUDIODATA h p)
    then have "AUDIODATA_decode j (data_bytes d) = (d, int (length (data_bytes d)))"
      using assms(2) by (simp add: AUDIODATA_decode_def j audio_decode)
    then show ?thesis
      using flv_tag_of_ok [OF assms(2) refl, of mem 8 msg] assms(1) AUDIODATA by (auto simp: rtf_tag_def rtf_audio_tag_def data_made_def)
  next
    case (VIDEODATA h p pts dts)
    let ?h = "if is_extheader h then h else h\<lparr>ext_packet_type := et, fourcc := fc\<rparr>" let ?d = "VIDEODATA ?h p None None"
    have v: "VideoTagHeader_decode (data_bytes d) (VideoTagHeader_new ft et fc) = (?h, int (length (video_bytes h)))"
      using assms(2) VIDEODATA by (simp add: video_decode)
    then have "VIDEODATA_decode j (data_bytes d) = (?d, int (length (data_bytes d)))" using VIDEODATA by (simp add: VIDEODATA_decode_def j)
    moreover have "data_ok ?d" "data_bytes ?d = data_bytes d"
      using assms(2) VIDEODATA by (auto simp: video_ok_def video_bytes_def VideoTagHeader_size_def)
    moreover have "\<not> int (length (video_bytes h)) + int (length p) \<le> 0" using video_bytes_pos(1) [of h p] by linarith
    ultimately show ?thesis
      using flv_tag_of_ok [of ?d "data_bytes d" mem 9 msg] assms(1) v VIDEODATA j by (auto simp: rtf_tag_def rtf_video_tag_def data_made_def)
  next
    case (SCRIPTDATA p)
    then show ?thesis using flv_tag_of_ok [OF assms(2) refl, of mem 18 msg] assms(1) SCRIPTDATA by (auto simp: rtf_tag_def rtf_metadata_tag_def data_made_def)
  qed
qed

text \<open>
  C29. A message that goes through the bridge to FLV and the bridge back is the same message: the tag in between is an FLV tag with the
  bytes of the message behind its header, and the message made from it has the bytes, the time and the type of the first one. This holds
  for audio, for AVC and HEVC video with and without the enhanced header, and for metadata.
\<close>
theorem rtmp_flv_rtmp_roundtrip:
  assumes "get_using_data msg = Inr (data_bytes d)" and "data_ok d"
  shows "\<exists>tag m. rtf_tag j mem (data_kind d) msg = Inr (Some tag) \<and>
    get_using_data tag = Inr (tag_header_bytes (tag_header tag) @ data_bytes d) \<and>
    rtmp_message_of mem' (data_kind d) tag = Inr m \<and> get_using_data m = get_using_data msg \<and> timestamp m = timestamp msg \<and>
    message_type_id m = data_kind d"
  using rtf_tag_ok [OF assms, of j mem] rtmp_message_of_tag [of _ _ "data_bytes d" mem' "data_kind d"] assms(1) by metis

theorem rtmp_flv_rtmp_roundtrip_witness:
  "\<exists>tag m. rtf_tag (0, 0, 0, 0) (\<lambda>_. 0) 8 (media_msg [0xaf, 1, 0x21, 0x22] 40) = Inr (Some tag) \<and>
    rtmp_message_of (\<lambda>_. 7) 8 tag = Inr m \<and> get_using_data m = Inr [0xaf, 1, 0x21, 0x22] \<and> timestamp m = 40 \<and> message_type_id m = 8"
proof -
  let ?d = "AUDIODATA \<lparr>sound_format = AAC, sound_rate = 3, sound_size = 1, sound_type = 1, aac_packet_type = 1\<rparr> [0x21, 0x22]"
  have "get_using_data (media_msg [0xaf, 1, 0x21, 0x22] 40) = Inr (data_bytes ?d)" by (simp add: audio_bytes_def)
  from rtmp_flv_rtmp_roundtrip [OF this, of "(0, 0, 0, 0)" "\<lambda>_. 0" "\<lambda>_. 7"] show ?thesis by (auto simp: audio_ok_def audio_bytes_def)
qed

end
