(* ===== verification/FlvTsBridge.thy ===== *)
theory FlvTsBridge
  imports TsBridge FlvBridge
begin

text \<open>
  The bridge from FLV tags to a transport stream, \<^verbatim>\<open>live-server/bridge/flv/flv_to_ts.cpp\<close>. Its members are those of the bridge from
  RTMP, and so are the tables, the loops over the units and the cutting of PES packets (the same text in both files); the handlers differ
  in where they find the payload and the times of a packet.
\<close>

section \<open>PES packets\<close>

text \<open>The time of a tag is unsigned: its product with 90 is cut to 32 bits and not extended with a sign.\<close>
definition flv_dts :: "u32 \<Rightarrow> u64" where "flv_dts time = ucast (time * 90)"

text \<open>
  The composition time is taken from the header decoded here (\<^verbatim>\<open>ct\<close>) at some places and from the tag data (\<^verbatim>\<open>dct\<close>) at others;
  \<^verbatim>\<open>fct\<close> is the one that decides whether the decoding time is written.
\<close>
definition flv_pes_segs :: "u32 \<Rightarrow> u32 \<Rightarrow> u32 \<Rightarrow> bytes list \<Rightarrow> bytes list" where
  "flv_pes_segs time dct fct nus =
     pes_header 0xe0 (if fct = 0 then 2 else 3) (pes_time 2 (video_pts time dct) @ (if fct = 0 then [] else pes_time 3 (flv_dts time)))
       (length nus * 3 + 1 + sum_list (map length nus)) # annexb nus"

definition flv_send_video_pes :: "u32 \<Rightarrow> u32 \<Rightarrow> u32 \<Rightarrow> u32 \<Rightarrow> bool \<Rightarrow> bool \<Rightarrow> bytes list \<Rightarrow> TsSegment \<Rightarrow> RtmpToTs \<Rightarrow> RtmpToTs result" where
  "flv_send_video_pes time ct dct fct is_key mark nus seg st =
     (let segs = flv_pes_segs time dct fct nus
      in bindR (create_video_ts (st_PCR_PID st) (st_video_pid st) (flv_dts time) is_key (length (concat segs)) segs (continuity_counter st) seg)
           (\<lambda>(place, cc, seg). Inr (st\<lparr>continuity_counter := cc, curr_seg := Some (update_video_dts (uint (time + dct)) seg),
              sent := sent st @ [Pes \<lparr>pes_stream_id = 0xe0, pes_is_key = mark, pes_pts = video_pts time ct, pes_dts = flv_dts time,
                pes_place = place, pes_data = concat segs\<rparr>]\<rparr>)))"

text \<open>The payload of a tag, without its header: a shorter tag has none. The tag data is cast to its video class without a check.\<close>
definition tag_payload :: "FlvTag \<Rightarrow> bytes result" where
  "tag_payload tag = bindR (get_using_data tag) (\<lambda>w. if length w < 11 then Inl Oob else Inr (drop 11 w))"

definition data_composition_time :: "FlvTag \<Rightarrow> u32 result" where
  "data_composition_time tag = (case tag_data tag of Some (VIDEODATA h _ _ _) \<Rightarrow> Inr (composition_time h) | _ \<Rightarrow> Inl Oob)"

section \<open>Video\<close>

definition flv_process_h264_packet :: "junk \<Rightarrow> fresh \<Rightarrow> hls_config \<Rightarrow> FlvTag \<Rightarrow> H264Codec \<Rightarrow> RtmpToTs \<Rightarrow> (bool \<times> RtmpToTs) result" where
  "flv_process_h264_packet j mem conf tag c st =
     (case j of (_, ft, et, fc) \<Rightarrow> bindR (tag_payload tag) (\<lambda>payload.
        case VideoTagHeader_decode payload (VideoTagHeader_new ft et fc) of (h, consumed) \<Rightarrow>
        if consumed < 0 then Inr (False, st)
        else let data = drop (nat consumed) payload in
          if VideoTagHeader_is_seq_header h then h264_config mem c data st
          else let is_key = is_key_frame h in
            bindR (open_segment (reap conf is_key set_reaped st)) (\<lambda>(seg, st).
              case get_nalus (nalu_length_size_less_one st) data of Inl (Rc _) \<Rightarrow> Inr (False, st) | Inl f \<Rightarrow> Inl f
              | Inr views \<Rightarrow>
                  bindR (scan_h264 views (\<lparr>has_aud_nalu = False, has_sps_nalu = False, has_pps_nalu = False\<rparr>, c)) (\<lambda>(nus, f, c).
                    let nus = (if has_aud_nalu f then nus else [0x09, 0xf0] # nus) in
                    bindR (data_composition_time tag) (\<lambda>dct.
                    bindR (flv_send_video_pes (th_timestamp (tag_header tag)) (composition_time h) dct (composition_time h) is_key is_key nus seg
                        (st\<lparr>b_video_codec := Some (VideoH264 c)\<rparr>)) (\<lambda>st. Inr (True, st)))))))"

text \<open>The PES packet of an HEVC frame is never marked as a key frame.\<close>
definition flv_process_h265_packet :: "junk \<Rightarrow> fresh \<Rightarrow> hls_config \<Rightarrow> FlvTag \<Rightarrow> HevcCodec \<Rightarrow> RtmpToTs \<Rightarrow> (bool \<times> RtmpToTs) result" where
  "flv_process_h265_packet j mem conf tag c st =
     (case j of (_, ft, et, fc) \<Rightarrow> bindR (tag_payload tag) (\<lambda>payload.
        case VideoTagHeader_decode payload (VideoTagHeader_new ft et fc) of (h, consumed) \<Rightarrow>
        if consumed < 0 then Inr (False, st)
        else let data = drop (nat consumed) payload in
          if VideoTagHeader_is_seq_header h then
            (case hvcc_decode data (hvcc_new (fst mem)) of (r, n) \<Rightarrow>
               if n = 0 then Inr (False, st)
               else let k = unat (lengthSizeMinusOne r) in
                 Inr (k \<noteq> 2 \<and> k \<le> 3, st\<lparr>b_video_codec := Some (VideoHevc (HevcCodec_set_hevc_configuration r c)), nalu_length_size_less_one := k\<rparr>))
          else let is_key = is_key_frame h in
            if curr_seg st = None \<and> \<not> is_key then Inr (False, st)
            else bindR (open_segment (reap conf is_key set_reaped st)) (\<lambda>(seg, st).
              case get_nalus (nalu_length_size_less_one st) data of Inl (Rc _) \<Rightarrow> Inr (False, st) | Inl f \<Rightarrow> Inl f
              | Inr views \<Rightarrow>
                  bindR (scan_hevc views (\<lparr>seen_sps = False, seen_pps = False, seen_vps = False, seen_key = False\<rparr>, c)) (\<lambda>(f, c).
                  bindR (add_parameter_sets f c (map view_bytes views)) (\<lambda>nus.
                  bindR (data_composition_time tag) (\<lambda>dct.
                    bindR (flv_send_video_pes (th_timestamp (tag_header tag)) (composition_time h) dct dct is_key False nus seg
                        (st\<lparr>b_video_codec := Some (VideoHevc c)\<rparr>)) (\<lambda>st. Inr (True, st))))))))"

section \<open>Audio\<close>

definition flv_process_aac_packet :: "junk \<Rightarrow> hls_config \<Rightarrow> FlvTag \<Rightarrow> AudioSpecificConfig option \<Rightarrow> RtmpToTs \<Rightarrow> (bool \<times> RtmpToTs) result" where
  "flv_process_aac_packet j conf tag cfg st =
     (case j of (sf, _) \<Rightarrow> bindR (tag_payload tag) (\<lambda>payload.
        case AudioTagHeader_decode payload (AudioTagHeader_new sf) of (h, consumed) \<Rightarrow>
        if consumed < 0 then Inr (False, st)
        else let data = drop (nat consumed) payload in
          if AudioTagHeader_is_seq_header h then
            (let st = st\<lparr>b_audio_ready := True\<rparr> in
             case asc_parse data of Inl (Rc _) \<Rightarrow> Inr (False, st) | Inl f \<Rightarrow> Inl f
             | Inr (cfg, _) \<Rightarrow> Inr (True, st\<lparr>b_audio_codec := Some (AACCodec (Some cfg))\<rparr>))
          else if \<not> b_audio_ready st then Inr (False, st)
          else let st = reap conf False id st in
            case cfg of None \<Rightarrow> Inl Oob
            | Some cfg \<Rightarrow> (case aac_profile (audio_object_type cfg) of None \<Rightarrow> Inr (False, st)
                | Some profile \<Rightarrow>
                    if 200 \<le> adts_header_index st then Inl Oob
                    else let st = st\<lparr>audio_buf_timestamp := (if audio_pes_len st = 0 then uint (th_timestamp (tag_header tag)) else audio_buf_timestamp st),
                             adts_header_index := adts_header_index st + 1,
                             audio_pes_segs := audio_pes_segs st @ [adts_header profile cfg (7 + length data), data],
                             audio_pes_len := audio_pes_len st + (7 + length data)\<rparr>
                      in if audio_pes_len st < 1400 then Inr (True, st)
                      else bindR (open_segment st) (\<lambda>(seg, st).
                        bindR (send_audio_pes (of_int (audio_buf_timestamp st * 90)) (audio_buf_timestamp st) seg st) (\<lambda>st.
                          Inr (True, st\<lparr>adts_header_index := 0\<rparr>))))))"

definition flv_process_mp3_packet :: "junk \<Rightarrow> hls_config \<Rightarrow> FlvTag \<Rightarrow> RtmpToTs \<Rightarrow> (bool \<times> RtmpToTs) result" where
  "flv_process_mp3_packet j conf tag st =
     (case j of (sf, _) \<Rightarrow> bindR (tag_payload tag) (\<lambda>payload.
        case AudioTagHeader_decode payload (AudioTagHeader_new sf) of (h, consumed) \<Rightarrow>
        if consumed < 0 then Inr (False, st)
        else let data = drop (nat consumed) payload;
                 st = reap conf False id st;
                 st = st\<lparr>audio_pes_segs := audio_pes_segs st @ [data], audio_pes_len := audio_pes_len st + length data\<rparr>
          in bindR (open_segment st) (\<lambda>(seg, st).
               bindR (send_audio_pes (flv_dts (th_timestamp (tag_header tag))) (uint (th_timestamp (tag_header tag))) seg st) (\<lambda>st. Inr (True, st)))))"

section \<open>Tags\<close>

definition flv_ts_on_metadata :: "fresh \<Rightarrow> FlvTag \<Rightarrow> RtmpToTs \<Rightarrow> (bool \<times> RtmpToTs) result" where
  "flv_ts_on_metadata mem tag st =
     (case (case tag_data tag of None \<Rightarrow> Inl Oob | Some (SCRIPTDATA p) \<Rightarrow> Inr p | Some (AUDIODATA _ p) \<Rightarrow> Inr p | Some (VIDEODATA _ p _ _) \<Rightarrow> Inr p) of
        Inl f \<Rightarrow> Inl f
      | Inr payload \<Rightarrow> (case RtmpMetaDataMessage_decode_flv payload RtmpMetaDataMessage_new of
          Inl (Rc _) \<Rightarrow> Inr (False, st)
        | Inl f \<Rightarrow> Inl f
        | Inr (m, n) \<Rightarrow>
          if n = 0 then Inr (False, st)
          else let st = st\<lparr>st_has_video := md_has_video m, st_has_audio := md_has_audio m\<rparr> in
            bindR (if md_has_video m then (case md_video_codec_id m of None \<Rightarrow> Inl Oob | Some i \<Rightarrow> Inr (choose_video mem i st))
                   else Inr (True, st)) (\<lambda>(go_on, st).
              if \<not> go_on then Inr (False, st)
              else bindR (if md_has_audio m then (case md_audio_codec_id m of None \<Rightarrow> Inl Oob | Some i \<Rightarrow> Inr (choose_audio i st))
                          else Inr (True, st)) (\<lambda>(go_on, st).
                if \<not> go_on then Inr (False, st)
                else Inr (True, st\<lparr>st_PCR_PID := (if st_has_video st then st_video_pid st else if st_has_audio st then st_audio_pid st
                  else st_PCR_PID st)\<rparr>)))))"

text \<open>Where the codec is not known the video header is decoded from the first byte of the tag, not from its payload.\<close>
definition flv_ts_on_video_packet :: "junk \<Rightarrow> fresh \<Rightarrow> hls_config \<Rightarrow> FlvTag \<Rightarrow> RtmpToTs \<Rightarrow> (bool \<times> RtmpToTs) result" where
  "flv_ts_on_video_packet j mem conf tag st =
     bindR (case b_video_codec st of Some _ \<Rightarrow> Inr (True, st)
            | None \<Rightarrow> (case j of (_, ft, et, fc) \<Rightarrow> bindR (get_using_data tag) (\<lambda>payload.
                Inr (choose_video mem (codec_id (fst (VideoTagHeader_decode payload (VideoTagHeader_new ft et fc)))) st)))) (\<lambda>(go_on, st).
       if \<not> go_on then Inr (False, st)
       else case b_video_codec st of Some (VideoH264 c) \<Rightarrow> flv_process_h264_packet j mem conf tag c st
         | Some (VideoHevc c) \<Rightarrow> flv_process_h265_packet j mem conf tag c st | _ \<Rightarrow> Inr (False, st))"

definition flv_ts_on_audio_packet :: "junk \<Rightarrow> hls_config \<Rightarrow> FlvTag \<Rightarrow> RtmpToTs \<Rightarrow> (bool \<times> RtmpToTs) result" where
  "flv_ts_on_audio_packet j conf tag st = (case b_audio_codec st of Some (AACCodec cfg) \<Rightarrow> flv_process_aac_packet j conf tag cfg st
     | Some MP3Codec \<Rightarrow> flv_process_mp3_packet j conf tag st | _ \<Rightarrow> Inr (False, st))"

definition flv_ts_on_tag :: "junk \<Rightarrow> fresh \<Rightarrow> hls_config \<Rightarrow> FlvTag \<Rightarrow> RtmpToTs \<Rightarrow> (bool \<times> RtmpToTs) result" where
  "flv_ts_on_tag j mem conf tag st = (let t = th_tag_type (tag_header tag) AND 0x1f in
     if t = 8 then flv_ts_on_audio_packet j conf tag st else if t = 9 then flv_ts_on_video_packet j mem conf tag st
     else if t = 18 then flv_ts_on_metadata mem tag st else Inr (True, st))"

fun flv_ts_on_tags :: "junk \<Rightarrow> fresh \<Rightarrow> hls_config \<Rightarrow> FlvTag list \<Rightarrow> RtmpToTs \<Rightarrow> (bool \<times> RtmpToTs) result" where
  "flv_ts_on_tags j mem conf [] st = Inr (True, st)"
| "flv_ts_on_tags j mem conf (tag # tags) st = bindR (flv_ts_on_tag j mem conf tag st) (\<lambda>(ok, st).
     if \<not> ok then Inr (False, st) else flv_ts_on_tags j mem conf tags st)"

section \<open>The two ways of a message into the stream\<close>

text \<open>What the bridge sees of the tag that the bridge to FLV makes of a message.\<close>
lemma rtf_tag_seen:
  assumes "get_using_data msg = Inr (data_bytes d)" and "data_ok d"
  obtains tag where "rtf_tag j mem (data_kind d) msg = Inr (Some tag)" "tag_payload tag = Inr (data_bytes d)"
    "th_timestamp (tag_header tag) = timestamp msg" "th_tag_type (tag_header tag) = data_kind d" "tag_data tag = Some (data_made j d)"
  using rtf_tag_ok [OF assms, of j mem] by (force simp: tag_payload_def)

lemma small_word:
  fixes w :: u32
  assumes "unat w < 2 ^ 31"
  shows "scast w = (ucast w :: u64)" "sint w = uint w"
proof -
  have "uint w < 2 ^ 31" using assms unfolding unat_eq_nat_uint by (subst (asm) nat_less_iff) auto
  moreover have "- (2 ^ 31) \<le> uint w" by (rule order_trans [OF _ uint_ge_0]) simp
  ultimately show s: "sint w = uint w" unfolding sint_uint by (intro signed_take_bit_int_eq_self) simp_all
  show "scast w = (ucast w :: u64)" by (metis s scast_eq ucast_eq)
qed

lemma flv_times_eq:
  assumes "unat time * 90 < 2 ^ 31"
  shows "video_dts time = flv_dts time" "sint time = uint time"
proof -
  have "unat (time * 90) = unat time * 90" using assms by (simp add: unat_word_ariths)
  then show "video_dts time = flv_dts time" using assms small_word(1) [of "time * 90"] by (simp add: flv_dts_def video_dts_def)
  show "sint time = uint time" using assms by (intro small_word) simp
qed

lemma flv_send_eq:
  assumes "unat time * 90 < 2 ^ 31"
  shows "flv_send_video_pes time ct ct ct is_key is_key nus seg st = send_video_pes time ct is_key nus seg st"
  by (simp add: flv_send_video_pes_def send_video_pes_def flv_pes_segs_def video_pes_segs_def flv_times_eq [OF assms])

lemma flv_h264_eq:
  assumes "tag_payload tag = Inr payload" "get_using_data msg = Inr payload" "th_timestamp (tag_header tag) = timestamp msg"
    and "unat (timestamp msg) * 90 < 2 ^ 31"
    and "\<And>j :: junk. data_composition_time tag = Inr (composition_time (fst (case j of (_, ft, et, fc) \<Rightarrow> VideoTagHeader_decode payload (VideoTagHeader_new ft et fc))))"
  shows "flv_process_h264_packet j mem conf tag c st = process_h264_packet j mem conf msg c st"
proof -
  obtain sf ft et fc where j: "j = (sf, ft, et, fc)" by (cases j)
  obtain h n where d: "VideoTagHeader_decode payload (VideoTagHeader_new ft et fc) = (h, n)" by fastforce
  have "data_composition_time tag = Inr (composition_time h)" using assms(5) [of j] by (simp add: j d)
  then show ?thesis unfolding flv_process_h264_packet_def process_h264_packet_def j assms(1-3) bindR.simps prod.case d
    by (simp only: bindR.simps flv_send_eq [OF assms(4)])
qed

lemma flv_aac_eq:
  assumes "tag_payload tag = Inr payload" "get_using_data msg = Inr payload" "th_timestamp (tag_header tag) = timestamp msg"
    and "unat (timestamp msg) * 90 < 2 ^ 31"
  shows "flv_process_aac_packet j conf tag cfg st = process_aac_packet j conf msg cfg st"
    "flv_process_mp3_packet j conf tag st = process_mp3_packet j conf msg st"
  unfolding flv_process_aac_packet_def process_aac_packet_def flv_process_mp3_packet_def process_mp3_packet_def
    video_dts_def [symmetric] assms(1-3) bindR.simps flv_times_eq [OF assms(4)] by (rule refl)+

section \<open>Scope of the handlers\<close>

lemma keeps_codec:
  "open_segment st = Inr (seg, st') \<Longrightarrow> b_video_codec st' = b_video_codec st"
  "b_video_codec (reap conf k mark st) = b_video_codec st"
  "send_audio_pes dts time seg st = Inr st' \<Longrightarrow> b_video_codec st' = b_video_codec st"
  "send_video_pes t ct k nus seg st = Inr st' \<Longrightarrow> b_video_codec st' = b_video_codec st"
  by (auto simp: open_segment_def reap_def send_audio_pes_def send_video_pes_def bindR_eq_Inr_iff Let_def split: option.splits if_splits)

lemma aac_keeps_codec:
  assumes "process_aac_packet j conf msg cfg st = Inr (r, st')"
  shows "b_video_codec st' = b_video_codec st"
proof -
  obtain sf x where j: "j = (sf, x)" by (cases j)
  obtain payload where g: "get_using_data msg = Inr payload" using assms by (auto simp: process_aac_packet_def j bindR_eq_Inr_iff)
  obtain h n where d: "AudioTagHeader_decode payload (AudioTagHeader_new sf) = (h, n)" by fastforce
  note p = assms [unfolded process_aac_packet_def j g Let_def bindR.simps d prod.case]
  show ?thesis
  proof (cases "n < 0 \<or> AudioTagHeader_is_seq_header h \<or> \<not> b_audio_ready st")
    case True
    then show ?thesis using p by (auto split: if_splits sum.splits fault.splits)
  next
    case False
    then show ?thesis using p
      by (auto simp: bindR_eq_Inr_iff keeps_codec(2) split: option.splits if_splits dest!: keeps_codec(1,3))
  qed
qed

lemma mp3_keeps_codec:
  assumes "process_mp3_packet j conf msg st = Inr (r, st')"
  shows "b_video_codec st' = b_video_codec st"
proof -
  obtain sf x where j: "j = (sf, x)" by (cases j)
  obtain payload where g: "get_using_data msg = Inr payload" using assms by (auto simp: process_mp3_packet_def j bindR_eq_Inr_iff)
  obtain h n where d: "AudioTagHeader_decode payload (AudioTagHeader_new sf) = (h, n)" by fastforce
  show ?thesis using assms [unfolded process_mp3_packet_def j g Let_def bindR.simps d prod.case]
    by (auto simp: bindR_eq_Inr_iff keeps_codec(2) split: if_splits dest!: keeps_codec(1,3))
qed

lemma audio_keeps_codec: "ts_on_audio_packet j conf msg st = Inr (r, st') \<Longrightarrow> b_video_codec st' = b_video_codec st"
  by (auto simp: ts_on_audio_packet_def split: option.splits codec.splits dest: aac_keeps_codec mp3_keeps_codec)

lemma video_keeps_h264:
  assumes "b_video_codec st = Some (VideoH264 c)" and "ts_on_video_packet j mem conf msg st = Inr (r, st')"
  shows "\<exists>c'. b_video_codec st' = Some (VideoH264 c')"
proof -
  obtain sf ft et fc where j: "j = (sf, ft, et, fc)" by (cases j)
  obtain payload where g: "get_using_data msg = Inr payload"
    using assms by (auto simp: ts_on_video_packet_def process_h264_packet_def j bindR_eq_Inr_iff)
  obtain h n where d: "VideoTagHeader_decode payload (VideoTagHeader_new ft et fc) = (h, n)" by fastforce
  have "process_h264_packet j mem conf msg c st = Inr (r, st')" using assms by (simp add: ts_on_video_packet_def)
  note p = this [unfolded process_h264_packet_def j g Let_def bindR.simps d prod.case]
  show ?thesis
  proof (cases "n < 0 \<or> VideoTagHeader_is_seq_header h")
    case True
    then show ?thesis using p assms(1) unfolding h264_config_def Let_def
      by (auto simp: bindR_eq_Inr_iff split: if_splits sum.splits fault.splits)
  next
    case False
    obtain seg st1 where o: "open_segment (reap conf (is_key_frame h) set_reaped st) = Inr (seg, st1)"
      using p False by (auto simp: bindR_eq_Inr_iff)
    have "b_video_codec st1 = Some (VideoH264 c)" using keeps_codec(1) [OF o] assms(1) by (simp add: keeps_codec(2))
    then show ?thesis using p False o by (auto simp: bindR_eq_Inr_iff split: sum.splits fault.splits dest!: keeps_codec(4))
  qed
qed

section \<open>Whole streams\<close>

text \<open>A well-formed audio or video message of the first six and a half hours of a stream.\<close>
definition media_message :: "RtmpMessage \<Rightarrow> bool" where
  "media_message msg \<longleftrightarrow> (\<exists>d. get_using_data msg = Inr (data_bytes d) \<and> data_ok d \<and> message_type_id msg = data_kind d \<and> data_kind d \<in> {8, 9}) \<and>
     unat (timestamp msg) * 90 < 2 ^ 31"

lemma flv_step_eq:
  assumes "media_message msg" and "b_video_codec st = Some (VideoH264 c)"
  obtains tag where "rtf_tag j' m (message_type_id msg) msg = Inr (Some tag)"
    "flv_ts_on_tag j mem conf tag st = ts_on_rtmp_message j mem conf msg st"
proof -
  obtain d where d: "get_using_data msg = Inr (data_bytes d)" "data_ok d" "message_type_id msg = data_kind d" "data_kind d \<in> {8, 9}"
    and time: "unat (timestamp msg) * 90 < 2 ^ 31" using assms(1) by (auto simp: media_message_def)
  obtain tag where tag: "rtf_tag j' m (data_kind d) msg = Inr (Some tag)" "tag_payload tag = Inr (data_bytes d)"
    "th_timestamp (tag_header tag) = timestamp msg" "th_tag_type (tag_header tag) = data_kind d" "tag_data tag = Some (data_made j' d)"
    using rtf_tag_seen [OF d(1,2)] by metis
  have "flv_ts_on_tag j mem conf tag st = ts_on_rtmp_message j mem conf msg st"
  proof (cases d)
    case (AUDIODATA h p)
    then show ?thesis using d tag(4) flv_aac_eq [OF tag(2) d(1) tag(3) time]
      by (simp add: flv_ts_on_tag_def ts_on_rtmp_message_def RTMP_AUDIO_def flv_ts_on_audio_packet_def ts_on_audio_packet_def split: option.split codec.split)
  next
    case (VIDEODATA h p pts dts)
    have "data_composition_time tag = Inr (composition_time (fst (case j of (_, ft, et, fc) \<Rightarrow>
        VideoTagHeader_decode (data_bytes d) (VideoTagHeader_new ft et fc))))" for j :: junk
      using VIDEODATA d(2) tag(5) by (auto simp: data_composition_time_def data_made_def video_decode split: prod.split)
    from flv_h264_eq [OF tag(2) d(1) tag(3) time this] show ?thesis using VIDEODATA d tag(4) assms(2)
      by (simp add: flv_ts_on_tag_def ts_on_rtmp_message_def RTMP_VIDEO_def RTMP_AUDIO_def flv_ts_on_video_packet_def ts_on_video_packet_def)
  next
    case (SCRIPTDATA p)
    then show ?thesis using d(4) by simp
  qed
  then show thesis using that tag(1) d(3) by metis
qed

lemma media_keeps_h264:
  assumes "media_message msg" and "b_video_codec st = Some (VideoH264 c)" and "ts_on_rtmp_message j mem conf msg st = Inr (r, st')"
  shows "\<exists>c'. b_video_codec st' = Some (VideoH264 c')"
  using assms by (auto simp: media_message_def ts_on_rtmp_message_def RTMP_VIDEO_def RTMP_AUDIO_def
      dest: video_keeps_h264 audio_keeps_codec split: if_splits)


lemma no_composition_time: "nat_be 3 0 = [0, 0, 0]"
  by (simp add: numeral_3_eq_3)


text \<open>
  Without metadata the bridge from FLV refuses every video tag and never learns the codec: it looks for the codec id in the type of the tag.
\<close>
theorem flv_video_needs_metadata:
  assumes "b_video_codec st = None" and "get_using_data tag = Inr (tag_header_bytes h @ rest)" and "th_tag_type h = 9"
  shows "flv_ts_on_video_packet j mem conf tag st = Inr (False, st)"
proof -
  obtain sf ft et fc where j: "j = (sf, ft, et, fc)" by (cases j)
  obtain bs where "tag_header_bytes h @ rest = 9 # bs" using assms(3) by (simp add: tag_header_bytes_def)
  then show ?thesis using assms(1,2)
    by (simp add: flv_ts_on_video_packet_def j VideoTagHeader_decode_def VideoTagHeader_new_def choose_video_def Let_def)
qed

theorem flv_video_needs_metadata_witness:
  "\<exists>tag. rtf_tag (0, 0, 0, 0) (\<lambda>_. 0) 9 (media_msg [0x17, 1, 0, 0, 0, 0, 0, 0, 2, 0x65, 1] 40) = Inr (Some tag) \<and>
     flv_ts_on_video_packet (0, 0, 0, 0) no_mem \<lparr>ts_min_seg_dur = 1000, ts_max_seg_dur = 9000, ts_max_size = 100000\<rparr> tag (RtmpToTs_new 0 0) =
       Inr (False, RtmpToTs_new 0 0)"
proof -
  let ?v = "VIDEODATA \<lparr>frame_type = 1, codec_id = AVC, avc_packet_type = 1, composition_time = 0, is_extheader = False, ext_packet_type = 0,
    fourcc = 0, vh_size = 5\<rparr> [0, 0, 0, 2, 0x65, 1] None None"
  have "get_using_data (media_msg [0x17, 1, 0, 0, 0, 0, 0, 0, 2, 0x65, 1] 40) = Inr (data_bytes ?v)" "data_ok ?v"
    by (simp_all add: video_ok_def video_bytes_def put_be_def VideoTagHeader_size_def no_composition_time)
  from rtf_tag_ok [OF this, of "(0, 0, 0, 0)" "\<lambda>_. 0"] show ?thesis
    using flv_video_needs_metadata [of "RtmpToTs_new 0 0"] by (fastforce simp: RtmpToTs_new_def)
qed

end
