(* ===== verification/Spec2Isabelle.thy ===== *)
theory Spec2Isabelle
  imports RtmpTransfer RtmpCommands Mp4Segment RtspPush FlvTsBridge
begin

text \<open>
  The RTMP stack of the live-streaming server \<^verbatim>\<open>mms-server\<close>, verified.

  \<^bold>\<open>Parts and theories.\<close>
  \<^item> \<open>Prelude\<close>: machine types, the result type with return codes and memory faults, big-endian bytes.
  \<^item> \<open>Amf0\<close>: the AMF0 values of \<^verbatim>\<open>libs/protocol/rtmp/amf0\<close>.
  \<^item> \<open>Packet\<close>: packet buffers and RTMP messages (\<^verbatim>\<open>libs/base/packet.cpp\<close>, \<^verbatim>\<open>rtmp_define\<close>).
  \<^item> \<open>RtmpControl\<close>: protocol control messages; \<open>RtmpCommands\<close>: AMF0 commands; \<open>RtmpMetadata\<close>: stream metadata.
  \<^item> \<open>RtmpChunk\<close>: the chunk layer (\<^verbatim>\<open>rtmp_chunk_protocol.cpp\<close>); \<open>RtmpReceive\<close>: what receiving guarantees;
    \<open>RtmpTransfer\<close>: what sending and receiving guarantee together.
\<close>

section \<open>Commands across the chunk layer\<close>

context command_message
begin

lemma over_the_wire:
  assumes v: "wf v" and mtype: "mtype = RTMP_MESSAGE_TYPE_AMF0_COMMAND" and csid: "2 \<le> unat csid" "unat csid < 65536"
    and size: "wire v \<noteq> []" "chunks_of (out_chunk_size s) (length (wire v)) \<le> 200" "length (wire v) < MAX_RTMP_BUF_BYTES"
    and app: "\<And>m \<sigma>. snd (app m \<sigma>)"
    and cs: "0 < out_chunk_size s" "in_chunk_size r = out_chunk_size s"
    and sync: "in_sync (send_chunk_streams s) r" "send_chunk_streams s (unat csid) = None"
      "cache_clean (recv_chunk_cache r)"
  shows "\<exists>msg bs s' r' msg'. encode mem v = Inr msg \<and> send_rtmp_messages [msg] s = Inr (Some bs, s') \<and>
    drain mem' (Some (dispatch_rtmp_message app)) (r\<lparr>recv_buffer := bs\<rparr>) = (r', Inr ()) \<and>
    recv_buffer r' = [] \<and> in_sync (send_chunk_streams s') r' \<and>
    RtmpChunkProtocol.more r' = fst (app msg' (RtmpChunkProtocol.more r)) \<and>
    message_type_id msg' = mtype \<and> decode msg' = Inr (v, length (wire v))"
proof -
  obtain msg where enc: "encode mem v = Inr msg" and d: "get_using_data msg = Inr (wire v)" and ok: "packet_ok msg"
    and h: "chunk_stream_id msg = csid" "message_type_id msg = mtype" "timestamp msg = 0"
    using encode_wire [OF v, of mem] by blast
  have p: "payload msg = wire v" and len: "using_bytes msg = length (wire v)"
    using d ok by (simp_all add: get_using_data_ok payload_def packet_ok_def) (metis length_take min.absorb2)
  let ?m = "received msg (wire v)"
  have "carried app msg"
    using ok h size csid app
    by (simp add: carried_def sendable_def len p accepts_def received_def is_protocol_control_message_def mtype)
  moreover obtain bs s' where send: "send_rtmp_messages [msg] s = Inr (Some bs, s')"
    using send_all_count [OF cs(1), of 0 "[msg]" "send_chunk_streams s" "[]"] ok size(2)
    by (auto simp: send_rtmp_messages_def len)
  moreover have "type3_free (out_chunk_size s) (send_chunk_streams s) [msg]"
    using sync(2) h(1) by (simp add: choose_fmt_def)
  ultimately obtain r' where "drain mem' (Some (dispatch_rtmp_message app)) (r\<lparr>recv_buffer := bs\<rparr>) = (r', Inr ())"
    "recv_buffer r' = []" "in_sync (send_chunk_streams s') r'"
    "RtmpChunkProtocol.more r' = fst (app ?m (RtmpChunkProtocol.more r))"
    using send_drain [OF send, of app "r\<lparr>recv_buffer := bs\<rparr>" mem'] cs sync p by (auto simp: in_sync_def)
  moreover have "decode ?m = Inr (v, length (wire v))"
    by (rule decode_wire [OF v]) (simp add: received_def get_using_data_def)
  ultimately show ?thesis using enc send h
    by (intro exI [of _ msg] exI [of _ bs] exI [of _ s'] exI [of _ r'] exI [of _ ?m]) (simp add: received_def)
qed

end

lemma connect_wire_size:
  "cc_ok v \<Longrightarrow> length (cc_wire v) = RtmpConnectCommandMessage_size v"
  by (cases "cc_optional_user_args v") (simp_all add: cc_ok_def RtmpConnectCommandMessage_size_def size_wire del: keep)

text \<open>
  C4. A client's connect command reaches the server: encoded, cut into chunks by \<^verbatim>\<open>send_rtmp_messages\<close>, the
  bytes taken apart by the receiving loop of a peer in sync, its session is handed exactly one command message, which
  the connect decoder reads as the message that was sent. The command must fit the 200 chunks of one call and its
  chunk stream must not have been used before.
\<close>
theorem connect_reaches_peer:
  assumes v: "v = RtmpConnectCommandMessage_new tid tc_url page_url swf_url app_name"
    and "length tc_url < 65536" and "length page_url < 65536" and "length swf_url < 65536" and "length app_name < 65536"
    and "chunks_of (out_chunk_size s) (RtmpConnectCommandMessage_size v) \<le> 200"
    and "\<And>m \<sigma>. snd (app m \<sigma>)"
    and "0 < out_chunk_size s" and "in_chunk_size r = out_chunk_size s"
    and "in_sync (send_chunk_streams s) r" and "send_chunk_streams s 3 = None" and "cache_clean (recv_chunk_cache r)"
  shows "\<exists>msg bs s' r' msg'. RtmpConnectCommandMessage_encode mem v = Inr msg \<and>
    send_rtmp_messages [msg] s = Inr (Some bs, s') \<and>
    drain mem' (Some (dispatch_rtmp_message app)) (r\<lparr>recv_buffer := bs\<rparr>) = (r', Inr ()) \<and>
    recv_buffer r' = [] \<and> in_sync (send_chunk_streams s') r' \<and>
    RtmpChunkProtocol.more r' = fst (app msg' (RtmpChunkProtocol.more r)) \<and>
    message_type_id msg' = RTMP_MESSAGE_TYPE_AMF0_COMMAND \<and>
    RtmpConnectCommandMessage_decode msg' = Inr (v, RtmpConnectCommandMessage_size v)"
proof -
  have ok: "cc_ok v" unfolding v by (rule connect_new_ok) (fact assms)+
  have "RtmpConnectCommandMessage_size v < MAX_RTMP_BUF_BYTES"
    unfolding v using assms(2-5)
    by (simp add: RtmpConnectCommandMessage_size_def RtmpConnectCommandMessage_new_def set_item_value_def)
  then show ?thesis
    using connect_command.over_the_wire [OF ok refl _ _ _ _ _ assms(7-10) _ assms(12), of mem mem']
      assms(6,11) connect_wire_size [OF ok]
    by simp
qed

theorem connect_reaches_peer_witness:
  "\<exists>msg bs s' r' msg'. RtmpConnectCommandMessage_encode (\<lambda>_. 0) (RtmpConnectCommandMessage_new 1 [] [] [] [0x61]) = Inr msg \<and>
    send_rtmp_messages [msg] RtmpChunkProtocol_new = Inr (Some bs, s') \<and>
    drain (\<lambda>_. 0) (Some (dispatch_rtmp_message logging)) (fresh_receiver\<lparr>recv_buffer := bs\<rparr>) = (r', Inr ()) \<and>
    recv_buffer r' = [] \<and> in_sync (send_chunk_streams s') r' \<and>
    RtmpChunkProtocol.more r' = fst (logging msg' []) \<and>
    message_type_id msg' = RTMP_MESSAGE_TYPE_AMF0_COMMAND \<and>
    RtmpConnectCommandMessage_decode msg' = Inr (RtmpConnectCommandMessage_new 1 [] [] [] [0x61],
      RtmpConnectCommandMessage_size (RtmpConnectCommandMessage_new 1 [] [] [] [0x61]))"
proof -
  let ?v = "RtmpConnectCommandMessage_new 1 [] [] [] [0x61]"
  have "chunks_of (out_chunk_size RtmpChunkProtocol_new) (RtmpConnectCommandMessage_size ?v) \<le> 200"
    by (simp add: RtmpConnectCommandMessage_size_def RtmpConnectCommandMessage_new_def set_item_value_def chunks_of_def
        RtmpChunkProtocol_new_def)
  then show ?thesis
    using connect_reaches_peer [OF refl, of "[]" "[]" "[]" "[0x61]" RtmpChunkProtocol_new 1 logging fresh_receiver
      "\<lambda>_. 0" "\<lambda>_. 0"] fresh_receiver_simps cache_clean_new
    by (simp add: RtmpChunkProtocol_new_def)
qed

end
